(* ===== verification/Go_Prelude.thy ===== *)
theory Go_Prelude
  imports Complex_Main "HOL-Library.Sublist" "HOL-Library.List_Lexorder" "HOL-Library.Char_ord"
begin

text \<open>
  Shared vocabulary of the development: the part of the Go language and of its standard
  library (packages \<open>strings\<close>, \<open>strconv\<close> and the map and slice primitives) that the server
  code uses, the lemmas on it that the components share, and the interface locales that more
  than one component satisfies.

  A Go string is a sequence of bytes; it is modelled by \<^typ>\<open>string\<close>, a list of
  8-bit characters, so \<open>length\<close> is Go's \<open>len\<close>. Case mapping is
  modelled on ASCII letters; bytes above 127 are left alone. \<open>strings.TrimSpace\<close> is modelled on the
  UTF-8 encodings of every code point that \<open>unicode.IsSpace\<close> accepts.
\<close>

named_theorems go_simps "simplification rules for the Go string library"
named_theorems inv_intros "introduction rules for invariants of components"

type_synonym 'a result = "string + 'a"

section \<open>Lists\<close>

text \<open>Index of the first element satisfying a predicate: the shape of every search loop.\<close>

fun find_index :: "('a \<Rightarrow> bool) \<Rightarrow> 'a list \<Rightarrow> nat option" where
  "find_index P [] = None"
| "find_index P (x # xs) = (if P x then Some 0 else map_option Suc (find_index P xs))"

lemma find_index_None: "find_index P xs = None \<longleftrightarrow> (\<forall>x \<in> set xs. \<not> P x)"
  by (induction xs) auto

lemma find_index_Some:
  "find_index P xs = Some i \<Longrightarrow> i < length xs \<and> P (xs ! i) \<and> (\<forall>j < i. \<not> P (xs ! j))"
proof (induction xs arbitrary: i)
  case (Cons x xs)
  then show ?case
    by (auto split: if_splits simp: less_Suc_eq_0_disj)
qed simp

lemma find_index_split:
  "find_index P xs = Some i \<Longrightarrow>
     xs = take i xs @ xs ! i # drop (Suc i) xs \<and> (\<forall>x \<in> set (take i xs). \<not> P x)"
  using find_index_Some [of P xs i] id_take_nth_drop [of i xs]
  by (auto simp: set_conv_nth)

text \<open>Slice surgery: \<open>append(s[:i], s[i+1:]...)\<close> and insertion at an index.\<close>

definition remove_nth :: "nat \<Rightarrow> 'a list \<Rightarrow> 'a list" where
  "remove_nth i xs = take i xs @ drop (Suc i) xs"

definition insert_nth :: "nat \<Rightarrow> 'a \<Rightarrow> 'a list \<Rightarrow> 'a list" where
  "insert_nth i x xs = take i xs @ x # drop i xs"

lemma length_remove_nth [simp]: "i < length xs \<Longrightarrow> length (remove_nth i xs) = length xs - 1"
  by (simp add: remove_nth_def)

lemma length_insert_nth [simp]: "length (insert_nth i x xs) = Suc (length xs)"
  by (simp add: insert_nth_def)

lemma insert_remove_nth: "i < length xs \<Longrightarrow> insert_nth i y (remove_nth i xs) = xs[i := y]"
  by (simp add: insert_nth_def remove_nth_def upd_conv_take_nth_drop)

lemma set_insert_nth [simp]: "set (insert_nth i x xs) = insert x (set xs)"
proof -
  have "set (take i xs) \<union> set (drop i xs) = set xs"
    by (metis append_take_drop_id set_append)
  then show ?thesis by (auto simp: insert_nth_def)
qed

lemma set_remove_nth_subset: "set (remove_nth i xs) \<subseteq> set xs"
  by (auto simp: remove_nth_def dest: in_set_takeD in_set_dropD)

lemma distinct_remove_nth: "distinct xs \<Longrightarrow> distinct (remove_nth i xs)"
  by (auto simp: remove_nth_def set_take_disj_set_drop_if_distinct)

lemma set_remove_nth:
  "distinct xs \<Longrightarrow> i < length xs \<Longrightarrow> set (remove_nth i xs) = set xs - {xs ! i}"
proof -
  assume d: "distinct xs" and i: "i < length xs"
  from i have "xs = take i xs @ xs ! i # drop (Suc i) xs" by (rule id_take_nth_drop)
  with d show ?thesis unfolding remove_nth_def
    by (metis Diff_insert_absorb Un_iff Un_insert_right distinct.simps(2) distinct_append
        list.simps(15) not_distinct_conv_prefix set_append append.assoc disjoint_iff insert_iff)
qed

lemma distinct_insert_nth: "distinct xs \<Longrightarrow> x \<notin> set xs \<Longrightarrow> distinct (insert_nth i x xs)"
  by (auto simp: insert_nth_def set_take_disj_set_drop_if_distinct
      dest: in_set_takeD in_set_dropD)

lemma map_remove_nth: "map f (remove_nth i xs) = remove_nth i (map f xs)"
  by (simp add: remove_nth_def take_map drop_map)

lemma map_insert_nth: "map f (insert_nth i x xs) = insert_nth i (f x) (map f xs)"
  by (simp add: insert_nth_def take_map drop_map)

section \<open>Package strings\<close>

subsection \<open>TrimSpace\<close>

text \<open>The UTF-8 encodings of the code points for which \<open>unicode.IsSpace\<close> is true.\<close>

definition ws_seqs :: "string list" where
  "ws_seqs =
     [[CHR 0x09], [CHR 0x0A], [CHR 0x0B], [CHR 0x0C], [CHR 0x0D], [CHR 0x20],
      [CHR 0xC2, CHR 0x85], [CHR 0xC2, CHR 0xA0], [CHR 0xE1, CHR 0x9A, CHR 0x80],
      [CHR 0xE2, CHR 0x80, CHR 0x80], [CHR 0xE2, CHR 0x80, CHR 0x81],
      [CHR 0xE2, CHR 0x80, CHR 0x82], [CHR 0xE2, CHR 0x80, CHR 0x83],
      [CHR 0xE2, CHR 0x80, CHR 0x84], [CHR 0xE2, CHR 0x80, CHR 0x85],
      [CHR 0xE2, CHR 0x80, CHR 0x86], [CHR 0xE2, CHR 0x80, CHR 0x87],
      [CHR 0xE2, CHR 0x80, CHR 0x88], [CHR 0xE2, CHR 0x80, CHR 0x89],
      [CHR 0xE2, CHR 0x80, CHR 0x8A], [CHR 0xE2, CHR 0x80, CHR 0xA8],
      [CHR 0xE2, CHR 0x80, CHR 0xA9], [CHR 0xE2, CHR 0x80, CHR 0xAF],
      [CHR 0xE2, CHR 0x81, CHR 0x9F], [CHR 0xE3, CHR 0x80, CHR 0x80]]"

text \<open>Repeatedly drop a leading pattern.\<close>

function strip_front :: "'a list list \<Rightarrow> 'a list \<Rightarrow> 'a list" where
  "strip_front ps s =
     (case find (\<lambda>p. p \<noteq> [] \<and> prefix p s) ps of
        None \<Rightarrow> s
      | Some p \<Rightarrow> strip_front ps (drop (length p) s))"
  by pat_completeness auto
termination
proof (relation "measure (\<lambda>(ps, s). length s)", goal_cases)
  case (2 ps s p)
  then have "p \<noteq> [] \<and> prefix p s" by (auto simp: find_Some_iff)
  then show ?case by (auto simp: prefix_def)
qed simp

declare strip_front.simps [simp del]

definition trim_left :: "string \<Rightarrow> string" where
  "trim_left s = strip_front ws_seqs s"

definition trim_right :: "string \<Rightarrow> string" where
  "trim_right s = rev (strip_front (map rev ws_seqs) (rev s))"

definition trim_space :: "string \<Rightarrow> string" where
  "trim_space s = trim_right (trim_left s)"

text \<open>\<open>clean ps s\<close>: no pattern is a prefix, so \<open>strip_front\<close> leaves \<open>s\<close> alone.\<close>

definition clean :: "'a list list \<Rightarrow> 'a list \<Rightarrow> bool" where
  "clean ps s \<longleftrightarrow> (\<forall>p \<in> set ps. p \<noteq> [] \<longrightarrow> \<not> prefix p s)"

lemma strip_front_clean: "clean ps (strip_front ps s)"
proof (induction ps s rule: strip_front.induct)
  case (1 ps s)
  then show ?case
    by (subst strip_front.simps) (auto simp: clean_def find_None_iff split: option.split)
qed

lemma strip_front_id: "clean ps s \<Longrightarrow> strip_front ps s = s"
  by (subst strip_front.simps) (auto simp: clean_def find_Some_iff split: option.split)

lemma strip_front_suffix: "suffix (strip_front ps s) s"
proof (induction ps s rule: strip_front.induct)
  case (1 ps s)
  show ?case
    by (subst strip_front.simps)
      (auto split: option.split dest: 1 intro: suffix_order.trans suffix_drop)
qed

lemma clean_prefix: "clean ps s \<Longrightarrow> prefix t s \<Longrightarrow> clean ps t"
  by (auto simp: clean_def intro: prefix_order.trans)

lemma trim_right_prefix: "prefix (trim_right s) s"
  using strip_front_suffix [of "map rev ws_seqs" "rev s"]
  by (simp add: trim_right_def suffix_to_prefix)

lemma trim_space_clean:
  "clean ws_seqs (trim_space s)" "clean (map rev ws_seqs) (rev (trim_space s))"
  by (auto simp: trim_space_def trim_left_def trim_right_def
      intro: clean_prefix [OF strip_front_clean] trim_right_prefix [unfolded trim_right_def]
      strip_front_clean)

lemma trim_space_id:
  "clean ws_seqs s \<Longrightarrow> clean (map rev ws_seqs) (rev s) \<Longrightarrow> trim_space s = s"
  by (simp add: trim_space_def trim_left_def trim_right_def strip_front_id)

lemma trim_space_idem [simp]: "trim_space (trim_space s) = trim_space s"
  by (intro trim_space_id trim_space_clean)

lemma trim_space_sublist: "sublist (trim_space s) s"
  unfolding trim_space_def trim_left_def
  by (meson trim_right_prefix strip_front_suffix prefix_imp_sublist suffix_imp_sublist
      sublist_order.order_trans)

lemma length_trim_space: "length (trim_space s) \<le> length s"
  by (rule sublist_length_le [OF trim_space_sublist])

lemma trim_space_Nil [simp]: "trim_space [] = []"
  using length_trim_space [of "[]"] by simp

text \<open>
  Bytes that start, or end, no white-space encoding; a string whose two ends are such bytes is
  already trimmed. This evaluates \<open>trim_space\<close> on identifiers and literals.
\<close>

definition plain_head :: "char \<Rightarrow> bool" where
  "plain_head c \<longleftrightarrow> c \<notin> set (map hd ws_seqs)"

definition plain_last :: "char \<Rightarrow> bool" where
  "plain_last c \<longleftrightarrow> c \<notin> set (map last ws_seqs)"

lemma ws_seqs_nonempty: "p \<in> set ws_seqs \<Longrightarrow> p \<noteq> []"
  by (auto simp: ws_seqs_def)

lemma trim_space_plain:
  assumes "s \<noteq> []" "plain_head (hd s)" "plain_last (last s)"
  shows "trim_space s = s"
proof (rule trim_space_id)
  have "hd p = hd s" if "prefix p s" "p \<noteq> []" for p
    using that by (auto simp: prefix_def)
  with assms(2) show "clean ws_seqs s"
    unfolding clean_def plain_head_def by (metis image_eqI list.set_map)
  have "last p = last s" if "prefix (rev p) (rev s)" "p \<noteq> []" for p
    using that by (metis suffix_to_prefix rev_rev_ident suffix_def last_appendR)
  with assms(3) show "clean (map rev ws_seqs) (rev s)"
    unfolding clean_def plain_last_def by (auto simp: image_iff)
qed

lemma trim_space_blank: "trim_space (CHR 0x20 # s) = trim_space s"
proof -
  have "strip_front ws_seqs (CHR 0x20 # s) = strip_front ws_seqs s"
    by (subst strip_front.simps) (simp add: ws_seqs_def)
  then show ?thesis by (simp add: trim_space_def trim_left_def)
qed

text \<open>\<open>strings.Fields\<close>: the maximal runs without white space.\<close>

definition starts_ws :: "string \<Rightarrow> bool" where
  "starts_ws s \<longleftrightarrow> (\<exists>p \<in> set ws_seqs. prefix p s)"

fun first_word :: "string \<Rightarrow> string" where
  "first_word [] = []"
| "first_word (c # s) = (if starts_ws (c # s) then [] else c # first_word s)"

lemma length_trim_left: "length (trim_left s) \<le> length s"
  by (simp add: trim_left_def strip_front_suffix suffix_length_le)

lemma trim_left_no_ws: "\<not> starts_ws (trim_left s)"
  using strip_front_clean [of ws_seqs s] ws_seqs_nonempty
  by (auto simp: starts_ws_def trim_left_def clean_def)

function str_fields :: "string \<Rightarrow> string list" where
  "str_fields s =
     (let t = trim_left s
      in if t = [] then [] else first_word t # str_fields (drop (length (first_word t)) t))"
  by pat_completeness auto
termination
proof (relation "measure length", goal_cases)
  case (2 s t)
  have "first_word u \<noteq> []" if "u \<noteq> []" "\<not> starts_ws u" for u
    using that by (cases u) auto
  with 2 have "first_word t \<noteq> []" using trim_left_no_ws [of s] by blast
  moreover have "length t \<le> length s" using 2 length_trim_left by simp
  moreover have "t \<noteq> []" using 2 by simp
  ultimately show ?case by (simp add: diff_less_mono2 less_le_trans flip: length_greater_0_conv)
qed simp

declare str_fields.simps [simp del]

subsection \<open>Prefixes, suffixes, substrings\<close>

abbreviation has_prefix :: "string \<Rightarrow> string \<Rightarrow> bool" where
  "has_prefix s p \<equiv> prefix p s"

abbreviation has_suffix :: "string \<Rightarrow> string \<Rightarrow> bool" where
  "has_suffix s p \<equiv> suffix p s"

definition trim_prefix :: "string \<Rightarrow> string \<Rightarrow> string" where
  "trim_prefix s p = (if prefix p s then drop (length p) s else s)"

definition trim_suffix :: "string \<Rightarrow> string \<Rightarrow> string" where
  "trim_suffix s p = (if suffix p s then take (length s - length p) s else s)"

text \<open>\<open>strings.Contains\<close> and \<open>strings.Index\<close>.\<close>

fun contains :: "string \<Rightarrow> string \<Rightarrow> bool" where
  "contains [] p = (p = [])"
| "contains (c # s) p = (prefix p (c # s) \<or> contains s p)"

lemma contains_sublist: "contains s p \<longleftrightarrow> sublist p s"
  by (induction s) (auto simp: sublist_Cons_right)

fun index_of :: "string \<Rightarrow> string \<Rightarrow> nat option" where
  "index_of [] p = (if p = [] then Some 0 else None)"
| "index_of (c # s) p = (if prefix p (c # s) then Some 0 else map_option Suc (index_of s p))"

lemma index_of_Some: "index_of s p = Some i \<Longrightarrow> i \<le> length s \<and> prefix p (drop i s)"
  by (induction s arbitrary: i) (auto split: if_splits)

lemma index_of_None: "index_of s p = None \<longleftrightarrow> \<not> contains s p"
  by (induction s) auto

subsection \<open>Split, Join, Trim, ReplaceAll\<close>

text \<open>\<open>strings.Split\<close> and \<open>strings.ReplaceAll\<close> for a one-byte separator.\<close>

fun split_on :: "char \<Rightarrow> string \<Rightarrow> string list" where
  "split_on d [] = [[]]"
| "split_on d (c # s) =
     (if c = d then [] # split_on d s
      else (case split_on d s of [] \<Rightarrow> [[c]] | w # ws \<Rightarrow> (c # w) # ws))"

fun join :: "string \<Rightarrow> string list \<Rightarrow> string" where
  "join sep [] = []"
| "join sep [w] = w"
| "join sep (w # v # ws) = w @ sep @ join sep (v # ws)"

lemma split_on_nonempty [simp]: "split_on d s \<noteq> []"
  by (induction s) (auto split: list.split)

lemma join_split_on: "join [d] (split_on d s) = s"
proof (induction s)
  case (Cons c s)
  obtain w ws where "split_on d s = w # ws" by (metis neq_Nil_conv split_on_nonempty)
  with Cons show ?case by (cases ws) auto
qed simp

lemma split_on_plain: "d \<notin> set s \<Longrightarrow> split_on d s = [s]"
  by (induction s) auto

lemma split_on_append: "d \<notin> set s \<Longrightarrow> split_on d (s @ d # t) = s # split_on d t"
  by (induction s) auto

lemma split_on_join: "\<forall>w \<in> set ws. d \<notin> set w \<Longrightarrow> ws \<noteq> [] \<Longrightarrow> split_on d (join [d] ws) = ws"
  by (induction "[d]" ws rule: join.induct) (simp_all add: split_on_append split_on_plain)

definition replace_byte :: "char \<Rightarrow> char \<Rightarrow> string \<Rightarrow> string" where
  "replace_byte a b s = map (\<lambda>c. if c = a then b else c) s"

definition trim_byte :: "char \<Rightarrow> string \<Rightarrow> string" where
  "trim_byte d s = rev (dropWhile (\<lambda>c. c = d) (rev (dropWhile (\<lambda>c. c = d) s)))"

subsection \<open>Case mapping\<close>

definition lower_char :: "char \<Rightarrow> char" where
  "lower_char c = (if 65 \<le> (of_char c :: nat) \<and> (of_char c :: nat) \<le> 90
                   then char_of ((of_char c :: nat) + 32) else c)"

definition upper_char :: "char \<Rightarrow> char" where
  "upper_char c = (if 97 \<le> (of_char c :: nat) \<and> (of_char c :: nat) \<le> 122
                   then char_of ((of_char c :: nat) - 32) else c)"

definition to_lower :: "string \<Rightarrow> string" where
  "to_lower s = map lower_char s"

definition to_upper :: "string \<Rightarrow> string" where
  "to_upper s = map upper_char s"

definition equal_fold :: "string \<Rightarrow> string \<Rightarrow> bool" where
  "equal_fold s t \<longleftrightarrow> to_lower s = to_lower t"

lemma lower_char_idem [simp]: "lower_char (lower_char c) = lower_char c"
  by (simp add: lower_char_def)

lemma upper_char_idem [simp]: "upper_char (upper_char c) = upper_char c"
  by (auto simp: upper_char_def)

lemma to_lower_idem [simp]: "to_lower (to_lower s) = to_lower s"
  by (simp add: to_lower_def)

lemma to_upper_idem [simp]: "to_upper (to_upper s) = to_upper s"
  by (simp add: to_upper_def)

lemma length_to_lower [simp]: "length (to_lower s) = length s"
  by (simp add: to_lower_def)

lemma length_to_upper [simp]: "length (to_upper s) = length s"
  by (simp add: to_upper_def)

subsection \<open>Decimal printing (\<open>strconv.Itoa\<close>, \<open>%d\<close>)\<close>

definition digit_char :: "nat \<Rightarrow> char" where
  "digit_char d = char_of (48 + d)"

lemma digit_char_eval [simp]:
  "digit_char 0 = CHR ''0''" "digit_char (Suc 0) = CHR ''1''" "digit_char 2 = CHR ''2''"
  "digit_char 3 = CHR ''3''" "digit_char 4 = CHR ''4''" "digit_char 5 = CHR ''5''"
  "digit_char 6 = CHR ''6''" "digit_char 7 = CHR ''7''" "digit_char 8 = CHR ''8''"
  "digit_char 9 = CHR ''9''"
  by (simp_all add: digit_char_def char_of_def bit_simps)

fun itoa_nat :: "nat \<Rightarrow> string" where
  "itoa_nat n = (if n < 10 then [digit_char n] else itoa_nat (n div 10) @ [digit_char (n mod 10)])"

declare itoa_nat.simps [simp del]

definition itoa :: "int \<Rightarrow> string" where
  "itoa i = (if i < 0 then CHR ''-'' # itoa_nat (nat (- i)) else itoa_nat (nat i))"

definition is_digit :: "char \<Rightarrow> bool" where
  "is_digit c \<longleftrightarrow> 48 \<le> (of_char c :: nat) \<and> (of_char c :: nat) \<le> 57"

lemma itoa_nat_digits: "itoa_nat n \<noteq> [] \<and> list_all is_digit (itoa_nat n)"
proof (induction n rule: itoa_nat.induct)
  case (1 n)
  then show ?case
    by (auto simp: itoa_nat.simps [of n] is_digit_def digit_char_def)
qed

text \<open>The value a digit string denotes; printing and reading back is the identity.\<close>

definition digit_val :: "char \<Rightarrow> nat" where
  "digit_val c = of_char c - 48"

definition nat_val :: "string \<Rightarrow> nat" where
  "nat_val s = foldl (\<lambda>a c. 10 * a + digit_val c) 0 s"

lemma nat_val_itoa [simp]: "nat_val (itoa_nat n) = n"
proof (induction n rule: itoa_nat.induct)
  case (1 n)
  then show ?case
    by (subst itoa_nat.simps) (auto simp: nat_val_def digit_val_def digit_char_def)
qed

lemma itoa_nat_inject: "itoa_nat m = itoa_nat n \<longleftrightarrow> m = n"
  by (metis nat_val_itoa)

text \<open>\<open>strconv.ParseInt (s, 10, 64)\<close>; \<open>strconv.Atoi\<close> accepts the same strings.\<close>

definition parse_int64 :: "string \<Rightarrow> int option" where
  "parse_int64 s =
     (let neg = (s \<noteq> [] \<and> hd s = CHR ''-'');
          ds = (if s \<noteq> [] \<and> (hd s = CHR ''-'' \<or> hd s = CHR ''+'') then tl s else s);
          v = (if neg then - int (nat_val ds) else int (nat_val ds))
      in if ds = [] \<or> \<not> list_all is_digit ds then None
         else if - (2 ^ 63) \<le> v \<and> v < 2 ^ 63 then Some v else None)"

section \<open>JSON payloads\<close>

text \<open>
  A tool answer is a Go \<open>map[string]interface{}\<close> that is marshalled as the last step. The
  model keeps the map: its keys and dynamically typed values. Every finite \<open>float64\<close> is a
  rational number.
\<close>

datatype json =
    JNull
  | JBool bool
  | JInt int
  | JNum rat
  | JStr string
  | JArr "json list"
  | JObj "(string \<times> json) list"

type_synonym payload = "string \<rightharpoonup> json"

section \<open>Interfaces\<close>

text \<open>A normaliser of strings, such as \<open>TrimSpace\<close>: normalising twice changes nothing.\<close>

locale normaliser =
  fixes norm :: "'a \<Rightarrow> 'a"
  assumes norm_idem: "norm (norm x) = norm x"
begin

lemma norm_fixpoint: "norm x = y \<Longrightarrow> norm y = y"
  using norm_idem by blast

lemma norm_range: "y \<in> range norm \<longleftrightarrow> norm y = y"
  using norm_idem by (metis rangeE rangeI)

lemma norm_eq_trans: "norm x = norm y \<Longrightarrow> norm (norm x) = norm y"
  by (simp add: norm_idem)

end

interpretation trim_norm: normaliser trim_space
  by unfold_locales simp

interpretation lower_norm: normaliser to_lower
  by unfold_locales simp

interpretation upper_norm: normaliser to_upper
  by unfold_locales simp

text \<open>
  A component driven by a sequence of operations: a step function and an invariant that the
  start satisfies and every operation keeps. The invariant then holds after any sequence.
\<close>

locale machine =
  fixes step :: "'s \<Rightarrow> 'op \<Rightarrow> 's"
    and start :: "'s \<Rightarrow> bool"
    and inv :: "'s \<Rightarrow> bool"
  assumes inv_start: "start s \<Longrightarrow> inv s"
    and inv_step: "inv s \<Longrightarrow> inv (step s x)"
begin

lemma inv_run_from: "inv s \<Longrightarrow> inv (foldl step s xs)"
  by (induction xs arbitrary: s) (auto intro: inv_step)

lemma inv_run: "start s \<Longrightarrow> inv (foldl step s xs)"
  by (intro inv_run_from inv_start)

lemma inv_every_prefix: "start s \<Longrightarrow> inv (foldl step s (take n xs))"
  by (rule inv_run)

end

text \<open>
  The interface \<open>SubgoalChecker\<close> of \<open>server/tools/registry.go\<close>, through which the report tools
  ask the goal tree whether a report may be finalized: a verdict and the list of blockers, and
  the verdict is positive exactly when there is no blocker.
\<close>

locale subgoal_checker =
  fixes can_finalize :: "'g \<Rightarrow> (bool \<times> string list) option"
  assumes verdict: "can_finalize g = Some (ok, blockers) \<Longrightarrow> ok = (blockers = [])"
begin

lemma refused_has_blocker: "can_finalize g = Some (False, blockers) \<Longrightarrow> blockers \<noteq> []"
  using verdict by fastforce

lemma accepted_no_blocker: "can_finalize g = Some (True, blockers) \<Longrightarrow> blockers = []"
  using verdict by fastforce

end

end
