(* ===== verification/Agent_Types.thy ===== *)
theory Agent_Types
  imports Go_Prelude
begin

text \<open>
  The wire vocabulary of \<open>server/agent/types.go\<close>: the WebSocket event envelope, its type
  constants, and the edit context a user message may carry.
\<close>

record ws_event =
  ev_type :: string
  ev_run_id :: string
  ev_data :: json

definition EventSessionReady :: string where "EventSessionReady = ''session_ready''"
definition EventUserMessage :: string where "EventUserMessage = ''user_message''"
definition EventRunStarted :: string where "EventRunStarted = ''run_started''"
definition EventAssistantStatus :: string where "EventAssistantStatus = ''assistant_status''"
definition EventToolCall :: string where "EventToolCall = ''tool_call''"
definition EventToolResult :: string where "EventToolResult = ''tool_result''"
definition EventReportUpdate :: string where "EventReportUpdate = ''report_update''"
definition EventReportFinal :: string where "EventReportFinal = ''report_final''"
definition EventError :: string where "EventError = ''error''"
definition EventRunCompleted :: string where "EventRunCompleted = ''run_completed''"
definition EventRunCancelled :: string where "EventRunCancelled = ''run_cancelled''"
definition EventUserRequestInput :: string where "EventUserRequestInput = ''user_request_input''"
definition EventStateSubgoalsUpdated :: string where
  "EventStateSubgoalsUpdated = ''state_subgoals_updated''"
definition EventStateMemoryUpdated :: string where
  "EventStateMemoryUpdated = ''state_memory_updated''"
definition EventStateReportEditUpdated :: string where
  "EventStateReportEditUpdated = ''state_report_edit_updated''"

lemmas event_types =
  EventSessionReady_def EventUserMessage_def EventRunStarted_def EventAssistantStatus_def
  EventToolCall_def EventToolResult_def EventReportUpdate_def EventReportFinal_def
  EventError_def EventRunCompleted_def EventRunCancelled_def EventUserRequestInput_def
  EventStateSubgoalsUpdated_def EventStateMemoryUpdated_def EventStateReportEditUpdated_def

text \<open>An event as the tools build it: no run id yet.\<close>

definition mk_event :: "string \<Rightarrow> json \<Rightarrow> ws_event" where
  "mk_event t d = \<lparr>ev_type = t, ev_run_id = [], ev_data = d\<rparr>"

record report_edit_context =
  ec_mode :: string
  ec_target_run_id :: string
  ec_block_id :: string
  ec_block_label :: string
  ec_chart_id :: string
  ec_selection_text :: string
  ec_selection_start :: int
  ec_selection_end :: int
  ec_selection_range_set :: bool
  ec_preserve_other_blocks :: bool

record turn_context =
  tc_report_target_run_id :: string
  tc_report_title :: string

record user_message =
  um_content :: string
  um_edit_context :: "report_edit_context option"
  um_turn_context :: "turn_context option"

end
