(* ===== verification/Working_Memory.thy ===== *)
theory Working_Memory
  imports Agent_Types "HOL-Library.AList"
begin

text \<open>
  \<open>server/agent/memory.go\<close>, type \<open>WorkingMemory\<close>, and the two tools over it in
  \<open>server/agent/agentic_tools.go\<close>. The Go map of facts is an association list with one entry
  per key, so that \<open>len\<close> is the length of the list.
\<close>

section \<open>State and operations\<close>

definition maxFacts :: nat where "maxFacts = 50"
definition maxFactLen :: nat where "maxFactLen = 2000"

record working_memory =
  Facts :: "(string \<times> string) list"

definition NewWorkingMemory :: working_memory where
  "NewWorkingMemory = \<lparr>Facts = []\<rparr>"

definition SaveFact :: "working_memory \<Rightarrow> string \<Rightarrow> string \<Rightarrow> working_memory \<times> bool" where
  "SaveFact m key fct =
     (if length (Facts m) \<ge> maxFacts \<and> map_of (Facts m) key = None then (m, False)
      else let fct' = (if length fct > maxFactLen then take maxFactLen fct else fct)
           in (m\<lparr>Facts := AList.update key fct' (Facts m)\<rparr>, True))"

definition RemoveFact :: "working_memory \<Rightarrow> string \<Rightarrow> working_memory" where
  "RemoveFact m key = m\<lparr>Facts := AList.delete key (Facts m)\<rparr>"

definition Memory_Snapshot :: "working_memory \<Rightarrow> (string \<times> string) list" where
  "Memory_Snapshot m = Facts m"

definition Memory_Reset :: "working_memory \<Rightarrow> working_memory" where
  "Memory_Reset m = m\<lparr>Facts := []\<rparr>"

definition ReplaceSnapshot :: "working_memory \<Rightarrow> (string \<times> string) list \<Rightarrow> working_memory" where
  "ReplaceSnapshot m facts = m\<lparr>Facts := fold (\<lambda>(k, v) fs. AList.update k v fs) facts []\<rparr>"

section \<open>The tools memory\_save\_fact and state\_memory\_inspect\<close>

definition facts_json :: "(string \<times> string) list \<Rightarrow> json" where
  "facts_json fs = JObj (map (\<lambda>(k, v). (k, JStr v)) fs)"

text \<open>
  \<open>args\<close> is the outcome of decoding the raw arguments: a decoding error or key and fact.
  The result is the new memory, the emitted events and the tool's return value.
\<close>

definition SaveMemory_Execute ::
  "working_memory option \<Rightarrow> bool \<Rightarrow> (string + string \<times> string) \<Rightarrow>
     working_memory option \<times> ws_event list \<times> payload result" where
  "SaveMemory_Execute mem emit_set args =
     (case mem of
        None \<Rightarrow> (None, [], Inl ''working memory is not initialized'')
      | Some m \<Rightarrow>
          (case args of
             Inl e \<Rightarrow> (mem, [], Inl (''invalid arguments: '' @ e))
           | Inr (key, fct) \<Rightarrow>
               if key = [] \<or> fct = []
               then (mem, [], Inl ''both 'key' and 'fact' are required'')
               else
                 let existed = map_of (Memory_Snapshot m) key \<noteq> None;
                     (m', saved) = SaveFact m key fct
                 in if \<not> saved
                    then (Some m', [], Inr
                      [''ok'' \<mapsto> JBool False, ''tool'' \<mapsto> JStr ''memory_save_fact'',
                       ''memory_key'' \<mapsto> JStr key,
                       ''error'' \<mapsto> JStr (''working memory full ('' @ itoa (int maxFacts) @ '' facts max)''),
                       ''fact_count'' \<mapsto> JInt (int (length (Memory_Snapshot m'))),
                       ''ui_summary'' \<mapsto> JStr (''Working memory full, cannot save ['' @ key @ ''].'')])
                    else
                      let facts = Memory_Snapshot m'
                      in (Some m',
                          (if emit_set
                           then [mk_event EventStateMemoryUpdated
                                   (JObj [(''facts'', facts_json facts)])]
                           else []),
                          Inr
                          [''ok'' \<mapsto> JBool True, ''tool'' \<mapsto> JStr ''memory_save_fact'',
                           ''memory_key'' \<mapsto> JStr key, ''fact'' \<mapsto> JStr fct,
                           ''fact_count'' \<mapsto> JInt (int (length facts)),
                           ''overwrote_existing'' \<mapsto> JBool existed,
                           ''affects_report_delivery'' \<mapsto> JBool False,
                           ''affects_goal_state'' \<mapsto> JBool False,
                           ''ui_summary'' \<mapsto> JStr (''Working memory written ['' @ key @ ''].'')])))"

definition InspectMemory_Execute :: "working_memory option \<Rightarrow> payload result" where
  "InspectMemory_Execute mem =
     (case mem of
        None \<Rightarrow> Inl ''working memory is not initialized''
      | Some m \<Rightarrow>
          let facts = Memory_Snapshot m
          in Inr [''ok'' \<mapsto> JBool True, ''tool'' \<mapsto> JStr ''state_memory_inspect'',
                  ''fact_count'' \<mapsto> JInt (int (length facts)),
                  ''facts'' \<mapsto> facts_json facts,
                  ''ui_summary'' \<mapsto>
                    JStr (''Working memory has '' @ itoa (int (length facts)) @ '' facts.'')])"

section \<open>Invariant\<close>

text \<open>One entry per key, at most \<open>maxFacts\<close> entries, each at most \<open>maxFactLen\<close> bytes.\<close>

definition memory_inv :: "working_memory \<Rightarrow> bool" where
  "memory_inv m \<longleftrightarrow> distinct (map fst (Facts m)) \<and> length (Facts m) \<le> maxFacts
     \<and> (\<forall>(k, v) \<in> set (Facts m). length v \<le> maxFactLen)"

lemma length_update:
  "length (AList.update k v fs) = (if map_of fs k = None then Suc (length fs) else length fs)"
  by (induction fs) auto

lemma set_update_subset: "set (AList.update k v fs) \<subseteq> insert (k, v) (set fs)"
  by (induction fs) auto

lemma set_delete_subset: "set (AList.delete k fs) \<subseteq> set fs"
  by (auto simp: AList.delete_eq)

lemma distinct_fold_update:
  "distinct (map fst acc) \<Longrightarrow>
     distinct (map fst (fold (\<lambda>(k, v) fs. AList.update k v fs) xs acc))"
  by (induction xs arbitrary: acc) (auto simp: distinct_update)

lemma new_memory_inv [inv_intros]: "memory_inv NewWorkingMemory"
  by (simp add: memory_inv_def NewWorkingMemory_def)

lemma save_fact_inv [inv_intros]: "memory_inv m \<Longrightarrow> memory_inv (fst (SaveFact m k f))"
proof -
  assume inv: "memory_inv m"
  then have "\<forall>(k', v) \<in> set (AList.update k (take maxFactLen f) (Facts m)). length v \<le> maxFactLen"
    "\<forall>(k', v) \<in> set (AList.update k f (Facts m)). length v \<le> maxFactLen \<or> length f > maxFactLen"
    using set_update_subset [of k _ "Facts m"] by (fastforce simp: memory_inv_def)+
  with inv show ?thesis
    by (auto simp: memory_inv_def SaveFact_def Let_def distinct_update length_update)
qed

lemma remove_fact_inv [inv_intros]: "memory_inv m \<Longrightarrow> memory_inv (RemoveFact m k)"
  using length_delete_le [of k "Facts m"] set_delete_subset [of k "Facts m"]
  by (auto simp: memory_inv_def RemoveFact_def distinct_delete)

lemma reset_memory_inv [inv_intros]: "memory_inv (Memory_Reset m)"
  by (simp add: memory_inv_def Memory_Reset_def)

datatype memory_op = OpSave string string | OpRemove string | OpReset

fun memory_step :: "working_memory \<Rightarrow> memory_op \<Rightarrow> working_memory" where
  "memory_step m (OpSave k f) = fst (SaveFact m k f)"
| "memory_step m (OpRemove k) = RemoveFact m k"
| "memory_step m OpReset = Memory_Reset m"

interpretation memory_machine: machine memory_step "\<lambda>m. m = NewWorkingMemory" memory_inv
proof unfold_locales
  show "memory_inv m \<Longrightarrow> memory_inv (memory_step m x)" for m x
    by (cases x) (auto intro: inv_intros)
qed (auto intro: inv_intros)

section \<open>Properties\<close>

text \<open>
  Working memory stays within its budget: starting from an empty memory, after any sequence
  of saves, removals and resets there are at most 50 facts, one per key, each at most 2000
  bytes long.
\<close>

theorem working_memory_bounded:
  "let m = foldl memory_step NewWorkingMemory ops
   in length (Facts m) \<le> 50 \<and> distinct (map fst (Facts m)) \<and>
      (\<forall>k v. map_of (Facts m) k = Some v \<longrightarrow> length v \<le> 2000)"
  using memory_machine.inv_run [of NewWorkingMemory ops]
  by (fastforce simp: Let_def memory_inv_def maxFacts_def maxFactLen_def dest: map_of_SomeD)

theorem working_memory_bounded_witness:
  "let m = foldl memory_step NewWorkingMemory [OpSave ''roi'' ''net / spend'', OpRemove ''x'']
   in length (Facts m) \<le> 50 \<and> distinct (map fst (Facts m)) \<and>
      (\<forall>k v. map_of (Facts m) k = Some v \<longrightarrow> length v \<le> 2000)"
  by (rule working_memory_bounded)

text \<open>
  \<open>SaveFact\<close> refuses exactly a new key in a full memory and then changes nothing; otherwise
  the key reads back as the fact cut to 2000 bytes and every other key is untouched.
\<close>

theorem save_fact_spec:
  "(snd (SaveFact m key fct) \<longleftrightarrow> \<not> (length (Facts m) \<ge> 50 \<and> map_of (Facts m) key = None)) \<and>
   (\<not> snd (SaveFact m key fct) \<longrightarrow> fst (SaveFact m key fct) = m) \<and>
   (snd (SaveFact m key fct) \<longrightarrow>
      map_of (Facts (fst (SaveFact m key fct))) = (map_of (Facts m))(key \<mapsto> take 2000 fct))"
  by (auto simp: SaveFact_def Let_def maxFacts_def maxFactLen_def update_conv fun_eq_iff)

theorem save_fact_spec_witness:
  "snd (SaveFact NewWorkingMemory ''k'' ''v'') \<and>
   map_of (Facts (fst (SaveFact NewWorkingMemory ''k'' ''v''))) ''k'' = Some ''v''"
  using save_fact_spec [of NewWorkingMemory "''k''" "''v''"]
  by (simp add: NewWorkingMemory_def)

end
