(* ===== verification/Subgoals.thy ===== *)
theory Subgoals
  imports Agent_Types
begin

text \<open>
  The goal tree: \<open>server/agent/memory.go\<close> (\<open>SubgoalManager\<close>), the fact view of it in
  \<open>server/agent/goal_facts.go\<close>, and the \<open>goal_manage\<close> and \<open>state_goal_inspect\<close> tools
  (\<open>worker.go\<close>, \<open>state_tools.go\<close>). Times are parameters (\<open>now\<close>), and so is the output of the
  UUID generator. The depth-first search of the branches is a recursion over data, bounded
  by fuel; the fuel used suffices for every goal list in which an id has only one parent.
\<close>

section \<open>State and operations\<close>

definition maxGoals :: nat where "maxGoals = 30"
definition maxGoalDescLen :: nat where "maxGoalDescLen = 500"

definition StatusPending :: string where "StatusPending = ''pending''"
definition StatusRunning :: string where "StatusRunning = ''running''"
definition StatusComplete :: string where "StatusComplete = ''complete''"
definition StatusRejected :: string where "StatusRejected = ''rejected''"

lemmas status_defs = StatusPending_def StatusRunning_def StatusComplete_def StatusRejected_def

record goal_rec =
  sg_ID :: string
  ParentGoalID :: string
  Description :: string
  sg_Status :: string
  Blocking :: bool
  Result :: string
  sg_CreatedAt :: int
  sg_UpdatedAt :: int

text \<open>A manager is its slice of goals.\<close>

type_synonym subgoal_manager = "goal_rec list"

definition AddGoalWithBlocking ::
  "int \<Rightarrow> string \<Rightarrow> subgoal_manager \<Rightarrow> string \<Rightarrow> string \<Rightarrow> bool \<Rightarrow>
     subgoal_manager \<times> string result" where
  "AddGoalWithBlocking now uuid goals description parentGoalID blocking =
     (if length goals \<ge> maxGoals
      then (goals, Inl (''subgoal limit ('' @ itoa (int maxGoals) @ '') reached''))
      else
        let description' = (if length description > maxGoalDescLen
                            then take maxGoalDescLen description else description);
            gid = ''goal_'' @ take 8 uuid
        in (goals @ [\<lparr>sg_ID = gid, ParentGoalID = trim_space parentGoalID,
                      Description = description', sg_Status = StatusPending,
                      Blocking = blocking, Result = [], sg_CreatedAt = now, sg_UpdatedAt = now\<rparr>],
            Inr gid))"

definition AddGoal ::
  "int \<Rightarrow> string \<Rightarrow> subgoal_manager \<Rightarrow> string \<Rightarrow> string \<Rightarrow> subgoal_manager \<times> string result" where
  "AddGoal now uuid goals description parentGoalID =
     AddGoalWithBlocking now uuid goals description parentGoalID False"

definition set_status :: "int \<Rightarrow> string \<Rightarrow> string \<Rightarrow> goal_rec \<Rightarrow> goal_rec" where
  "set_status now status res g =
     g\<lparr>sg_Status := status, Result := (if res \<noteq> [] then res else Result g), sg_UpdatedAt := now\<rparr>"

definition UpdateGoalStatus ::
  "int \<Rightarrow> subgoal_manager \<Rightarrow> string \<Rightarrow> string \<Rightarrow> string \<Rightarrow> subgoal_manager \<times> unit result" where
  "UpdateGoalStatus now goals gid status res =
     (case find_index (\<lambda>g. sg_ID g = gid) goals of
        Some i \<Rightarrow> (goals[i := set_status now status res (goals ! i)], Inr ())
      | None \<Rightarrow> (goals, Inl (''subgoal with ID '' @ gid @ '' not found'')))"

definition isTerminalSubgoalStatus :: "string \<Rightarrow> bool" where
  "isTerminalSubgoalStatus status \<longleftrightarrow> status = StatusComplete \<or> status = StatusRejected"

definition Subgoals_ListAll :: "subgoal_manager \<Rightarrow> goal_rec list" where
  "Subgoals_ListAll goals = goals"

definition Subgoals_Reset :: "subgoal_manager \<Rightarrow> subgoal_manager" where
  "Subgoals_Reset goals = []"

definition Subgoals_ReplaceAll :: "subgoal_manager \<Rightarrow> goal_rec list \<Rightarrow> subgoal_manager" where
  "Subgoals_ReplaceAll goals gs = gs"

subsection \<open>Branch search\<close>

text \<open>\<open>snapshotLocked\<close>: the roots and, per id, the children, both in slice order.\<close>

definition has_parent :: "goal_rec list \<Rightarrow> goal_rec \<Rightarrow> bool" where
  "has_parent goals g \<longleftrightarrow>
     trim_space (ParentGoalID g) \<noteq> [] \<and> trim_space (ParentGoalID g) \<in> sg_ID ` set goals"

record finalize_snapshot =
  fs_roots :: "goal_rec list"
  fs_children :: "string \<Rightarrow> goal_rec list"

definition snapshotLocked :: "subgoal_manager \<Rightarrow> finalize_snapshot" where
  "snapshotLocked goals =
     \<lparr>fs_roots = filter (\<lambda>g. \<not> has_parent goals g) goals,
      fs_children = (\<lambda>pid. filter (\<lambda>g. has_parent goals g \<and> trim_space (ParentGoalID g) = pid) goals)\<rparr>"

definition branch_step :: "goal_rec \<Rightarrow> string" where
  "branch_step g = Description g @ ''['' @ sg_Status g @ '']''"

text \<open>
  The closure \<open>dfs\<close>: the branch lines it appends for a goal, or \<open>None\<close> when the fuel is spent
  (in Go the recursion would not return).
\<close>

primrec branch_dfs ::
  "nat \<Rightarrow> (string \<Rightarrow> goal_rec list) \<Rightarrow> goal_rec \<Rightarrow> string list \<Rightarrow> string list option" where
  "branch_dfs 0 ch g path = None"
| "branch_dfs (Suc n) ch g path =
     (if isTerminalSubgoalStatus (sg_Status g) then Some []
      else
        let path' = path @ [branch_step g];
            live = filter (\<lambda>c. \<not> isTerminalSubgoalStatus (sg_Status c)) (ch (sg_ID g))
        in if live = [] then Some [join '' -> '' path']
           else map_option concat (those (map (\<lambda>c. branch_dfs n ch c path') live)))"

declare branch_dfs.simps(2) [simp del]

definition collectActiveBranchLines :: "nat \<Rightarrow> finalize_snapshot \<Rightarrow> string list option" where
  "collectActiveBranchLines n snapshot =
     map_option concat
       (those (map (\<lambda>r. branch_dfs n (fs_children snapshot) r [])
          (filter (\<lambda>r. \<not> (isTerminalSubgoalStatus (sg_Status r) \<or> \<not> Blocking r))
             (fs_roots snapshot))))"

text \<open>Fuel for a goal list: one more than its length.\<close>

definition CanFinalize :: "subgoal_manager \<Rightarrow> (bool \<times> string list) option" where
  "CanFinalize goals =
     (if goals = [] then Some (True, [])
      else map_option (\<lambda>blockers. (blockers = [], blockers))
             (collectActiveBranchLines (Suc (length goals)) (snapshotLocked goals)))"

section \<open>Termination of the branch search\<close>

text \<open>Every id has one parent: duplicates of a goal agree on it.\<close>

definition one_parent :: "goal_rec list \<Rightarrow> bool" where
  "one_parent goals \<longleftrightarrow>
     (\<forall>g \<in> set goals. \<forall>h \<in> set goals. sg_ID g = sg_ID h \<longrightarrow>
        trim_space (ParentGoalID g) = trim_space (ParentGoalID h))"

lemma distinct_ids_one_parent: "distinct (map sg_ID goals) \<Longrightarrow> one_parent goals"
  by (metis one_parent_def distinct_map inj_onD)

text \<open>A chain lists a goal and its ancestors, ending in a root.\<close>

fun chain :: "goal_rec list \<Rightarrow> goal_rec list \<Rightarrow> bool" where
  "chain goals [] = False"
| "chain goals [r] = (r \<in> set goals \<and> \<not> has_parent goals r)"
| "chain goals (c # p # gs) =
     (c \<in> set goals \<and> has_parent goals c \<and> trim_space (ParentGoalID c) = sg_ID p \<and>
      chain goals (p # gs))"

lemma chain_hd: "chain goals (g # gs) \<Longrightarrow> g \<in> set goals"
  by (cases gs) auto

lemma chain_suffix: "chain goals (xs @ g # gs) \<Longrightarrow> chain goals (g # gs)"
proof (induction xs)
  case (Cons x xs)
  then show ?case by (cases xs) auto
qed simp

lemma has_parent_cong:
  "one_parent goals \<Longrightarrow> g \<in> set goals \<Longrightarrow> h \<in> set goals \<Longrightarrow> sg_ID g = sg_ID h \<Longrightarrow>
     has_parent goals g = has_parent goals h
     \<and> trim_space (ParentGoalID g) = trim_space (ParentGoalID h)"
  by (metis one_parent_def has_parent_def)

lemma chain_unique:
  "one_parent goals \<Longrightarrow> chain goals (x # xs) \<Longrightarrow> chain goals (y # ys) \<Longrightarrow> sg_ID x = sg_ID y \<Longrightarrow>
     length xs = length ys"
proof (induction xs arbitrary: x y ys)
  case Nil
  then have "\<not> has_parent goals y"
    using has_parent_cong [of goals x y] chain_hd by fastforce
  with Nil.prems show ?case by (cases ys) auto
next
  case (Cons z xs)
  then have "has_parent goals y" "sg_ID z = trim_space (ParentGoalID y)"
    using has_parent_cong [of goals x y] chain_hd [of goals y ys] by auto
  with Cons.prems obtain w ws where "ys = w # ws" "chain goals (w # ws)" "sg_ID z = sg_ID w"
    by (cases ys) auto
  with Cons show ?case by (metis chain.simps(3) length_Cons)
qed

lemma chain_distinct: "one_parent goals \<Longrightarrow> chain goals xs \<Longrightarrow> distinct (map sg_ID xs)"
proof (induction xs)
  case (Cons x xs)
  show ?case
  proof (cases xs)
    case Nil then show ?thesis by simp
  next
    case (Cons z zs)
    with Cons.prems Cons.IH have "distinct (map sg_ID xs)" by simp
    moreover have "sg_ID x \<notin> set (map sg_ID xs)"
    proof
      assume "sg_ID x \<in> set (map sg_ID xs)"
      then obtain us y vs where xs: "xs = us @ y # vs" and y: "sg_ID x = sg_ID y"
        by (auto simp: in_set_conv_decomp)
      with Cons.prems have "chain goals (y # vs)"
        using chain_suffix [of goals "x # us" y vs] by simp
      then have "length xs = length vs" using Cons.prems y chain_unique by blast
      with xs show False by simp
    qed
    ultimately show ?thesis by simp
  qed
qed simp

lemma chain_length: "one_parent goals \<Longrightarrow> chain goals xs \<Longrightarrow> length xs \<le> length goals"
proof -
  assume op: "one_parent goals" and ch: "chain goals xs"
  have "chain goals ys \<Longrightarrow> set ys \<subseteq> set goals" for ys
    by (induction goals ys rule: chain.induct) auto
  with ch have sub: "set (map sg_ID xs) \<subseteq> set (map sg_ID goals)" by auto
  have "length xs = card (set (map sg_ID xs))"
    using chain_distinct [OF op ch] by (metis distinct_card length_map)
  also have "\<dots> \<le> card (set (map sg_ID goals))" by (rule card_mono [OF _ sub]) simp
  also have "\<dots> \<le> length goals" by (metis card_length length_map)
  finally show ?thesis .
qed

lemma those_Some: "(\<And>x. x \<in> set xs \<Longrightarrow> \<exists>y. f x = Some y) \<Longrightarrow> \<exists>ys. those (map f xs) = Some ys"
proof (induction xs)
  case (Cons x xs)
  from Cons.prems [of x] Cons.IH Cons.prems show ?case by fastforce
qed simp

lemma branch_dfs_terminates:
  assumes "one_parent goals"
  shows "chain goals (g # anc) \<Longrightarrow> n + length anc > length goals \<Longrightarrow>
     \<exists>ls. branch_dfs n (fs_children (snapshotLocked goals)) g path = Some ls"
proof (induction n arbitrary: g anc path)
  case 0
  then show ?case using chain_length [OF assms 0(1)] by simp
next
  case (Suc n)
  let ?ch = "fs_children (snapshotLocked goals)"
  have "\<exists>ls. branch_dfs n ?ch c p = Some ls" if "c \<in> set (?ch (sg_ID g))" for c p
  proof -
    from that Suc.prems(1) have "chain goals (c # g # anc)"
      by (auto simp: snapshotLocked_def)
    with Suc.prems(2) show ?thesis by (intro Suc.IH [of c "g # anc"]) auto
  qed
  then have "\<exists>ys. those (map (\<lambda>c. branch_dfs n ?ch c p)
      (filter (\<lambda>c. \<not> isTerminalSubgoalStatus (sg_Status c)) (?ch (sg_ID g)))) = Some ys" for p
    by (intro those_Some) auto
  then show ?case by (auto simp: branch_dfs.simps(2) Let_def)
qed

lemma can_finalize_terminates: "one_parent goals \<Longrightarrow> \<exists>r. CanFinalize goals = Some r"
proof -
  assume op: "one_parent goals"
  have "\<exists>ls. branch_dfs (Suc (length goals)) (fs_children (snapshotLocked goals)) r [] = Some ls"
    if "r \<in> set (fs_roots (snapshotLocked goals))" for r
    using that by (intro branch_dfs_terminates [OF op, of r "[]"]) (auto simp: snapshotLocked_def)
  then have "\<exists>ys. those (map (\<lambda>r. branch_dfs (Suc (length goals))
      (fs_children (snapshotLocked goals)) r [])
      (filter (\<lambda>r. \<not> (isTerminalSubgoalStatus (sg_Status r) \<or> \<not> Blocking r))
        (fs_roots (snapshotLocked goals)))) = Some ys"
    by (intro those_Some) auto
  then show ?thesis by (auto simp: CanFinalize_def collectActiveBranchLines_def)
qed

section \<open>What CanFinalize decides\<close>

text \<open>Specification: no blocking root goal is open.\<close>

definition open_blocking_root :: "goal_rec list \<Rightarrow> goal_rec \<Rightarrow> bool" where
  "open_blocking_root goals g \<longleftrightarrow>
     g \<in> set goals \<and> \<not> has_parent goals g \<and> Blocking g \<and>
     \<not> isTerminalSubgoalStatus (sg_Status g)"

lemma those_Some_map: "those (map f xs) = Some ys \<Longrightarrow> length ys = length xs \<and> map f xs = map Some ys"
  by (induction xs arbitrary: ys) (auto split: option.splits)

lemma those_concat_nonempty:
  assumes "those (map f xs) = Some ys" "xs \<noteq> []" "\<And>x l. x \<in> set xs \<Longrightarrow> f x = Some l \<Longrightarrow> l \<noteq> []"
  shows "concat ys \<noteq> []"
proof -
  obtain x xs' where xs: "xs = x # xs'" using assms(2) by (cases xs) auto
  with those_Some_map [OF assms(1)] obtain y ys' where "ys = y # ys'" "f x = Some y"
    by (cases ys) auto
  with assms(3) [of x y] xs show ?thesis by auto
qed

lemma branch_dfs_nonempty:
  "branch_dfs n ch g path = Some ls \<Longrightarrow> \<not> isTerminalSubgoalStatus (sg_Status g) \<Longrightarrow> ls \<noteq> []"
proof (induction n arbitrary: g path ls)
  case (Suc n)
  show ?case
  proof (cases "filter (\<lambda>c. \<not> isTerminalSubgoalStatus (sg_Status c)) (ch (sg_ID g)) = []")
    case True
    with Suc.prems show ?thesis by (auto simp: branch_dfs.simps(2) Let_def)
  next
    case False
    with Suc.prems obtain ys where
      "those (map (\<lambda>c. branch_dfs n ch c (path @ [branch_step g]))
         (filter (\<lambda>c. \<not> isTerminalSubgoalStatus (sg_Status c)) (ch (sg_ID g)))) = Some ys"
      and ls: "ls = concat ys"
      by (auto simp: branch_dfs.simps(2) Let_def)
    from those_concat_nonempty [OF this(1) False] show ?thesis
      unfolding ls using Suc.IH by auto
  qed
qed simp

lemma can_finalize_blockers:
  "CanFinalize goals = Some (ok, blockers) \<Longrightarrow> ok = (blockers = [])"
  by (auto simp: CanFinalize_def split: if_splits)

lemma can_finalize_iff:
  assumes "CanFinalize goals = Some (ok, blockers)"
  shows "ok \<longleftrightarrow> \<not> (\<exists>g. open_blocking_root goals g)"
proof (cases "goals = []")
  case True
  with assms show ?thesis by (simp add: CanFinalize_def open_blocking_root_def)
next
  case False
  let ?rs = "filter (\<lambda>r. \<not> (isTerminalSubgoalStatus (sg_Status r) \<or> \<not> Blocking r))
               (fs_roots (snapshotLocked goals))"
  let ?f = "\<lambda>r. branch_dfs (Suc (length goals)) (fs_children (snapshotLocked goals)) r []"
  from False assms obtain ys where ys: "those (map ?f ?rs) = Some ys" and b: "blockers = concat ys"
    and ok: "ok = (blockers = [])"
    by (auto simp: CanFinalize_def collectActiveBranchLines_def)
  have roots: "(\<exists>g. open_blocking_root goals g) \<longleftrightarrow> ?rs \<noteq> []"
    by (auto simp: open_blocking_root_def snapshotLocked_def filter_empty_conv)
  show ?thesis
  proof (cases "?rs = []")
    case True
    with ys have "ys = []" by simp
    with roots True ok b show ?thesis by simp
  next
    case False
    have "concat ys \<noteq> []"
    proof (rule those_concat_nonempty [OF ys False])
      show "x \<in> set ?rs \<Longrightarrow> ?f x = Some l \<Longrightarrow> l \<noteq> []" for x l
        by (auto dest: branch_dfs_nonempty)
    qed
    with roots False ok b show ?thesis by simp
  qed
qed

section \<open>Invariant of the manager\<close>

definition goals_inv :: "goal_rec list \<Rightarrow> bool" where
  "goals_inv goals \<longleftrightarrow> length goals \<le> maxGoals
     \<and> (\<forall>g \<in> set goals. length (Description g) \<le> maxGoalDescLen
          \<and> trim_space (ParentGoalID g) = ParentGoalID g)"

lemma set_status_fields [simp]:
  "sg_ID (set_status now st res g) = sg_ID g" "ParentGoalID (set_status now st res g) = ParentGoalID g"
  "Description (set_status now st res g) = Description g" "sg_Status (set_status now st res g) = st"
  "Blocking (set_status now st res g) = Blocking g"
  by (auto simp: set_status_def)

lemma add_goal_inv [inv_intros]:
  "goals_inv goals \<Longrightarrow> goals_inv (fst (AddGoalWithBlocking now u goals d p b))"
  by (auto simp: goals_inv_def AddGoalWithBlocking_def Let_def)

lemma update_goal_inv [inv_intros]:
  "goals_inv goals \<Longrightarrow> goals_inv (fst (UpdateGoalStatus now goals i st res))"
  by (auto simp: goals_inv_def UpdateGoalStatus_def split: option.splits
      dest!: set_update_subset_insert [THEN subsetD] find_index_Some)

lemma reset_goals_inv [inv_intros]: "goals_inv (Subgoals_Reset goals)"
  by (simp add: goals_inv_def Subgoals_Reset_def)

lemma map_id_update:
  "map sg_ID (fst (UpdateGoalStatus now goals i st res)) = map sg_ID goals"
  by (auto simp: UpdateGoalStatus_def map_update split: option.splits
      dest!: find_index_Some intro: list_update_same_conv [THEN iffD2])

lemma add_goal_distinct:
  "distinct (map sg_ID goals) \<Longrightarrow> ''goal_'' @ take 8 u \<notin> sg_ID ` set goals \<Longrightarrow>
     distinct (map sg_ID (fst (AddGoalWithBlocking now u goals d p b)))"
  by (auto simp: AddGoalWithBlocking_def Let_def)

interpretation goal_tree: subgoal_checker CanFinalize
  by unfold_locales (rule can_finalize_blockers)

datatype goal_op =
    OpAdd int string string string bool
  | OpUpdate int string string string
  | OpResetGoals

fun goal_step :: "goal_rec list \<Rightarrow> goal_op \<Rightarrow> goal_rec list" where
  "goal_step gs (OpAdd now u d p b) = fst (AddGoalWithBlocking now u gs d p b)"
| "goal_step gs (OpUpdate now i st res) = fst (UpdateGoalStatus now gs i st res)"
| "goal_step gs OpResetGoals = Subgoals_Reset gs"

interpretation goal_machine: machine goal_step "\<lambda>gs. gs = []" goals_inv
proof unfold_locales
  show "goals_inv gs \<Longrightarrow> goals_inv (goal_step gs x)" for gs x
    by (cases x) (auto intro: inv_intros)
qed (simp add: goals_inv_def)

section \<open>Fact view of the goal tree\<close>

definition goal_json :: "goal_rec \<Rightarrow> json" where
  "goal_json g =
     JObj ([(''id'', JStr (sg_ID g))]
       @ (if ParentGoalID g = [] then [] else [(''parentGoalId'', JStr (ParentGoalID g))])
       @ [(''description'', JStr (Description g)), (''status'', JStr (sg_Status g))]
       @ (if Blocking g then [(''blocking'', JBool True)] else [])
       @ (if Result g = [] then [] else [(''result'', JStr (Result g))])
       @ [(''created_at'', JInt (sg_CreatedAt g)), (''updated_at'', JInt (sg_UpdatedAt g))])"

definition active_root :: "goal_rec \<Rightarrow> bool" where
  "active_root g \<longleftrightarrow>
     trim_space (ParentGoalID g) = [] \<and> \<not> isTerminalSubgoalStatus (sg_Status g)"

definition count_status :: "string \<Rightarrow> goal_rec list \<Rightarrow> nat" where
  "count_status st goals = length (filter (\<lambda>g. sg_Status g = st) goals)"

text \<open>
  \<open>buildGoalStateFacts\<close>. The manager may be nil. The facts include the blockers of \<open>CanFinalize\<close>,
  so the function returns only if that search does.
\<close>

definition buildGoalStateFacts :: "subgoal_manager option \<Rightarrow> bool \<Rightarrow> payload option" where
  "buildGoalStateFacts subgoals includeGoals =
     (case subgoals of
        None \<Rightarrow> Some (
          [''goal_count'' \<mapsto> JInt 0, ''active_roots'' \<mapsto> JInt 0, ''running_goals'' \<mapsto> JInt 0,
           ''pending_goals'' \<mapsto> JInt 0, ''complete_goals'' \<mapsto> JInt 0, ''rejected_goals'' \<mapsto> JInt 0,
           ''blocking_goals'' \<mapsto> JInt 0, ''active_root_goal_ids'' \<mapsto> JArr [],
           ''active_root_goals'' \<mapsto> JArr []]
          ++ (if includeGoals then [''goals'' \<mapsto> JArr []] else Map.empty)
          ++ [''active_branches'' \<mapsto> JArr [], ''active_branch_count'' \<mapsto> JInt 0])
      | Some goals \<Rightarrow>
          map_option (\<lambda>(_, blockers).
            [''goal_count'' \<mapsto> JInt (int (length goals)),
             ''active_roots'' \<mapsto> JInt (int (length (filter active_root goals))),
             ''running_goals'' \<mapsto> JInt (int (count_status StatusRunning goals)),
             ''pending_goals'' \<mapsto> JInt (int (count_status StatusPending goals)),
             ''complete_goals'' \<mapsto> JInt (int (count_status StatusComplete goals)),
             ''rejected_goals'' \<mapsto> JInt (int (count_status StatusRejected goals)),
             ''blocking_goals'' \<mapsto> JInt (int (length (filter Blocking goals))),
             ''active_root_goal_ids'' \<mapsto> JArr (map (JStr \<circ> sg_ID) (filter active_root goals)),
             ''active_root_goals'' \<mapsto>
               JArr (map (\<lambda>g. JObj [(''id'', JStr (sg_ID g)), (''description'', JStr (Description g)),
                                   (''status'', JStr (sg_Status g)), (''blocking'', JBool (Blocking g))])
                         (filter active_root goals))]
            ++ (if includeGoals then [''goals'' \<mapsto> JArr (map goal_json goals)] else Map.empty)
            ++ [''active_branches'' \<mapsto> JArr (map JStr blockers),
                ''active_branch_count'' \<mapsto> JInt (int (length blockers))])
          (CanFinalize goals))"

section \<open>The tools goal\_manage and state\_goal\_inspect\<close>

record goal_manage_args =
  ga_action :: string
  ga_description :: string
  ga_parent_goal_id :: string
  ga_blocking :: bool
  ga_goal_id :: string
  ga_result :: string

definition emitUpdate :: "bool \<Rightarrow> subgoal_manager \<Rightarrow> ws_event list" where
  "emitUpdate emit_set goals =
     (if emit_set
      then [mk_event EventStateSubgoalsUpdated
              (JObj [(''goals'', JArr (map goal_json (Subgoals_ListAll goals)))])]
      else [])"

text \<open>The two closing actions differ in the status they write and in their wording.\<close>

definition close_goal ::
  "int \<Rightarrow> bool \<Rightarrow> subgoal_manager \<Rightarrow> goal_manage_args \<Rightarrow> string \<Rightarrow> string \<Rightarrow> string \<Rightarrow>
     (subgoal_manager \<times> ws_event list \<times> payload result) option" where
  "close_goal now emit_set goals a action status wording =
     (if ga_goal_id a = []
      then Some (goals, [], Inl (''goal_id is required for '' @ action @ '' action''))
      else
        (case UpdateGoalStatus now goals (ga_goal_id a) status (ga_result a) of
           (_, Inl e) \<Rightarrow> Some (goals, [], Inl e)
         | (goals', Inr _) \<Rightarrow>
             map_option (\<lambda>facts. (goals', emitUpdate emit_set goals', Inr (facts ++
               [''ok'' \<mapsto> JBool True, ''tool'' \<mapsto> JStr ''goal_manage'', ''action'' \<mapsto> JStr action,
                ''goal_id'' \<mapsto> JStr (ga_goal_id a), ''status'' \<mapsto> JStr status,
                ''result'' \<mapsto> JStr (ga_result a),
                ''ui_summary'' \<mapsto> JStr (''Goal '' @ ga_goal_id a @ wording)])))
             (buildGoalStateFacts (Some goals') False)))"

definition ManageSubgoals_Execute ::
  "int \<Rightarrow> string \<Rightarrow> bool \<Rightarrow> subgoal_manager option \<Rightarrow> (string + goal_manage_args) \<Rightarrow>
     (subgoal_manager option \<times> ws_event list \<times> payload result) option" where
  "ManageSubgoals_Execute now uuid emit_set mgr args =
     (case mgr of
        None \<Rightarrow> Some (None, [], Inl ''subgoal manager is not initialized'')
      | Some goals \<Rightarrow>
          (case args of
             Inl e \<Rightarrow> Some (mgr, [], Inl (''invalid arguments: '' @ e))
           | Inr a \<Rightarrow>
               if ga_action a = ''add'' then
                 (if ga_description a = []
                  then Some (mgr, [], Inl ''description is required for add action'')
                  else
                    (case AddGoalWithBlocking now uuid goals (ga_description a)
                            (ga_parent_goal_id a) (ga_blocking a) of
                       (_, Inl e) \<Rightarrow> Some (mgr, [], Inr
                         [''ok'' \<mapsto> JBool False, ''tool'' \<mapsto> JStr ''goal_manage'',
                          ''action'' \<mapsto> JStr ''add'', ''error'' \<mapsto> JStr e,
                          ''ui_summary'' \<mapsto> JStr (''Goal creation failed: '' @ e)])
                     | (goals', Inr gid) \<Rightarrow>
                         map_option (\<lambda>facts. (Some goals', emitUpdate emit_set goals', Inr ((facts ++
                           [''ok'' \<mapsto> JBool True, ''tool'' \<mapsto> JStr ''goal_manage'',
                            ''action'' \<mapsto> JStr ''add'', ''goal_id'' \<mapsto> JStr gid,
                            ''status'' \<mapsto> JStr StatusPending,
                            ''description'' \<mapsto> JStr (ga_description a),
                            ''blocking'' \<mapsto> JBool (ga_blocking a)])
                           ++ (if trim_space (ga_parent_goal_id a) \<noteq> []
                               then [''parent_goal_id'' \<mapsto> JStr (ga_parent_goal_id a)] else Map.empty)
                           ++ [''ui_summary'' \<mapsto> JStr (''Goal '' @ gid @ '' recorded.'')])))
                         (buildGoalStateFacts (Some goals') False)))
               else if ga_action a = ''complete'' then
                 map_option (\<lambda>(gs, evs, r). (Some gs, evs, r))
                   (close_goal now emit_set goals a ''complete'' StatusComplete '' marked as complete.'')
               else if ga_action a = ''reject'' then
                 map_option (\<lambda>(gs, evs, r). (Some gs, evs, r))
                   (close_goal now emit_set goals a ''reject'' StatusRejected '' marked as rejected.'')
               else Some (mgr, [], Inl (''unknown action: '' @ ga_action a))))"

definition json_int :: "json option \<Rightarrow> int" where
  "json_int j = (case j of Some (JInt n) \<Rightarrow> n | _ \<Rightarrow> 0)"

definition InspectGoals_Execute :: "subgoal_manager option \<Rightarrow> payload result option" where
  "InspectGoals_Execute mgr =
     (case mgr of
        None \<Rightarrow> Some (Inl ''subgoals is not initialized'')
      | Some goals \<Rightarrow>
          map_option (\<lambda>facts. Inr (facts ++
            [''ok'' \<mapsto> JBool True, ''tool'' \<mapsto> JStr ''state_goal_inspect'',
             ''ui_summary'' \<mapsto> JStr (''Current goals: '' @ itoa (json_int (facts ''goal_count''))
                @ '', active branches: '' @ itoa (json_int (facts ''active_branch_count'')) @ ''.'')]))
          (buildGoalStateFacts (Some goals) True))"

section \<open>The tool as a whole\<close>

lemma manage_goals_returns:
  assumes "distinct (map sg_ID goals)" "''goal_'' @ take 8 uuid \<notin> sg_ID ` set goals"
  shows "\<exists>goals' evs r. ManageSubgoals_Execute now uuid emit (Some goals) args = Some (Some goals', evs, r)
           \<and> distinct (map sg_ID goals')
           \<and> ((\<exists>e. r = Inl e) \<or> (\<exists>p. r = Inr p \<and> p ''ok'' = Some (JBool False)) \<longrightarrow>
                goals' = goals \<and> evs = [])"
proof -
  have facts: "\<exists>p. buildGoalStateFacts (Some gs) b = Some p" if "distinct (map sg_ID gs)" for gs b
    using can_finalize_terminates [OF distinct_ids_one_parent [OF that]]
    by (auto simp: buildGoalStateFacts_def)
  have upd: "distinct (map sg_ID (fst (UpdateGoalStatus now goals i st res)))" for i st res
    using assms(1) by (simp add: map_id_update)
  have close: "\<exists>goals' evs r. close_goal now emit goals a act st w = Some (goals', evs, r)
      \<and> distinct (map sg_ID goals')
      \<and> ((\<exists>e. r = Inl e) \<or> (\<exists>p. r = Inr p \<and> p ''ok'' = Some (JBool False)) \<longrightarrow>
           goals' = goals \<and> evs = [])" for a act st w
    using upd [of "ga_goal_id a" st "ga_result a"] assms(1)
      facts [OF upd [of "ga_goal_id a" st "ga_result a"], of False]
    by (auto simp: close_goal_def split: prod.splits sum.splits)
  have add: "distinct (map sg_ID (fst (AddGoalWithBlocking now uuid goals d p b)))" for d p b
    using add_goal_distinct [OF assms] .
  show ?thesis
  proof (cases args)
    case (Inl e)
    then show ?thesis using assms by (auto simp: ManageSubgoals_Execute_def)
  next
    case (Inr a)
    show ?thesis
      using Inr close [of a] assms(1)
        add [of "ga_description a" "ga_parent_goal_id a" "ga_blocking a"]
        facts [OF add [of "ga_description a" "ga_parent_goal_id a" "ga_blocking a"], of False]
      by (fastforce simp: ManageSubgoals_Execute_def split: prod.splits sum.splits)
  qed
qed

lemma manage_goals_inv:
  assumes "goals_inv goals"
    and "ManageSubgoals_Execute now uuid em (Some goals) args = Some (mgr', evs, r)"
  shows "\<exists>goals'. mgr' = Some goals' \<and> goals_inv goals'"
proof -
  have add: "goals_inv g'" if "AddGoalWithBlocking now uuid goals d p b = (g', x)" for d p b g' x
    using add_goal_inv [OF assms(1), of now uuid d p b] that by simp
  have upd: "goals_inv g'" if "UpdateGoalStatus now goals i st res = (g', x)" for i st res g' x
    using update_goal_inv [OF assms(1), of now i st res] that by simp
  have close: "goals_inv g'" if "close_goal now em goals a act st w = Some (g', evs', r')" for a act st w g' evs' r'
    using that assms(1) by (auto simp: close_goal_def dest: upd split: if_splits prod.splits sum.splits)
  show ?thesis
    using assms
    by (auto simp: ManageSubgoals_Execute_def dest: add close split: sum.splits if_splits prod.splits)
qed

section \<open>Properties\<close>

text \<open>
  C23. \<open>CanFinalize\<close> returns, and it allows the report to be finalized exactly when no blocking
  root goal is still open; its blocker list is empty exactly then. Goals under a closed or
  non-blocking root never block. (An id must not occur with two different parents.)
\<close>

theorem can_finalize_decides_open_roots:
  assumes "one_parent goals"
  shows "\<exists>ok blockers. CanFinalize goals = Some (ok, blockers) \<and> ok = (blockers = []) \<and>
           (ok \<longleftrightarrow> \<not> (\<exists>g \<in> set goals. \<not> has_parent goals g \<and> Blocking g \<and>
                       \<not> isTerminalSubgoalStatus (sg_Status g)))"
proof -
  obtain ok blockers where r: "CanFinalize goals = Some (ok, blockers)"
    using can_finalize_terminates [OF assms] by fastforce
  then show ?thesis
    using can_finalize_iff [OF r] goal_tree.verdict [OF r] by (auto simp: open_blocking_root_def)
qed

definition example_goals :: "goal_rec list" where
  "example_goals =
     [\<lparr>sg_ID = ''goal_1'', ParentGoalID = [], Description = ''root'', sg_Status = ''pending'',
       Blocking = True, Result = [], sg_CreatedAt = 0, sg_UpdatedAt = 0\<rparr>,
      \<lparr>sg_ID = ''goal_2'', ParentGoalID = ''goal_1'', Description = ''leaf'', sg_Status = ''running'',
       Blocking = False, Result = [], sg_CreatedAt = 0, sg_UpdatedAt = 0\<rparr>]"

lemma example_goals_one_parent: "one_parent example_goals"
  by (rule distinct_ids_one_parent) (simp add: example_goals_def)

theorem can_finalize_decides_open_roots_witness:
  "\<exists>ok blockers. CanFinalize example_goals = Some (ok, blockers) \<and> ok = (blockers = []) \<and>
     (ok \<longleftrightarrow> \<not> (\<exists>g \<in> set example_goals. \<not> has_parent example_goals g \<and> Blocking g \<and>
                 \<not> isTerminalSubgoalStatus (sg_Status g)))"
  by (rule can_finalize_decides_open_roots [OF example_goals_one_parent])

text \<open>
  The search has no cycle check. If two goals share an id and one of them names that id
  as its own parent, the branch search of \<open>CanFinalize\<close> does not return, whatever the fuel:
  a restored goal list (\<open>ReplaceAll\<close>) is not validated.
\<close>

definition looping_goals :: "goal_rec list" where
  "looping_goals =
     [\<lparr>sg_ID = ''a'', ParentGoalID = [], Description = ''x'', sg_Status = ''pending'',
       Blocking = True, Result = [], sg_CreatedAt = 0, sg_UpdatedAt = 0\<rparr>,
      \<lparr>sg_ID = ''a'', ParentGoalID = ''a'', Description = ''y'', sg_Status = ''pending'',
       Blocking = False, Result = [], sg_CreatedAt = 0, sg_UpdatedAt = 0\<rparr>]"

lemma trim_a: "trim_space ''a'' = ''a''"
  by (rule trim_space_plain) (auto simp: plain_head_def plain_last_def ws_seqs_def)

lemma looping_children:
  "fs_children (snapshotLocked looping_goals) ''a'' = [looping_goals ! 1]"
  by (simp add: snapshotLocked_def looping_goals_def has_parent_def trim_a)

lemma looping_dfs: "g \<in> set looping_goals \<Longrightarrow>
    branch_dfs n (fs_children (snapshotLocked looping_goals)) g path = None"
proof (induction n arbitrary: g path)
  case (Suc n)
  then have "sg_ID g = ''a''" "\<not> isTerminalSubgoalStatus (sg_Status g)"
    by (auto simp: looping_goals_def isTerminalSubgoalStatus_def status_defs)
  moreover have "\<not> isTerminalSubgoalStatus (sg_Status (looping_goals ! 1))"
    "looping_goals ! 1 \<in> set looping_goals"
    by (auto simp: looping_goals_def isTerminalSubgoalStatus_def status_defs)
  ultimately show ?case
    using Suc.IH by (simp add: branch_dfs.simps(2) looping_children Let_def)
qed simp

theorem duplicate_goal_id_diverges:
  "collectActiveBranchLines fuel (snapshotLocked (Subgoals_ReplaceAll [] looping_goals)) = None"
proof -
  have "looping_goals ! 0 \<in> set looping_goals" by (simp add: looping_goals_def)
  then have "branch_dfs fuel (fs_children (snapshotLocked looping_goals)) (looping_goals ! 0) [] = None"
    by (rule looping_dfs)
  moreover have "filter (\<lambda>r. \<not> (isTerminalSubgoalStatus (sg_Status r) \<or> \<not> Blocking r))
      (fs_roots (snapshotLocked looping_goals)) = [looping_goals ! 0]"
    by (simp add: snapshotLocked_def looping_goals_def has_parent_def trim_a
        isTerminalSubgoalStatus_def status_defs)
  ultimately show ?thesis
    by (simp add: collectActiveBranchLines_def Subgoals_ReplaceAll_def)
qed

text \<open>
  The goal tree stays within its budget: from an empty manager, after any sequence of
  additions, status updates and resets there are at most 30 goals, every description is at
  most 500 bytes long and every parent reference is stored trimmed.
\<close>

theorem goal_tree_bounded:
  "let gs = foldl goal_step [] ops
   in length gs \<le> 30 \<and>
      list_all (\<lambda>g. length (Description g) \<le> 500 \<and>
                    trim_space (ParentGoalID g) = ParentGoalID g) gs"
  using goal_machine.inv_run [of "[]" ops]
  by (simp add: Let_def goals_inv_def maxGoals_def maxGoalDescLen_def list_all_iff)

definition example_close :: goal_manage_args where
  "example_close = \<lparr>ga_action = ''complete'', ga_description = [], ga_parent_goal_id = [],
     ga_blocking = False, ga_goal_id = ''goal_2'', ga_result = ''done''\<rparr>"

text \<open>
  The \<open>goal_manage\<close> tool always answers on a tree whose ids are distinct (with a fresh UUID
  for an addition), keeps the ids distinct, and leaves the tree unchanged and emits no event
  whenever it reports an error or \<open>ok = false\<close>.
\<close>

theorem goal_manage_total:
  assumes "distinct (map sg_ID goals)" "''goal_'' @ take 8 uuid \<notin> sg_ID ` set goals"
  shows "\<exists>goals' evs r. ManageSubgoals_Execute now uuid emit (Some goals) args = Some (Some goals', evs, r)
           \<and> distinct (map sg_ID goals')
           \<and> ((\<exists>e. r = Inl e) \<or> (\<exists>p. r = Inr p \<and> p ''ok'' = Some (JBool False)) \<longrightarrow>
                goals' = goals \<and> evs = [])"
  using assms by (rule manage_goals_returns)

theorem goal_manage_total_witness:
  "\<exists>goals' evs r. ManageSubgoals_Execute 7 ''cafe0123'' True (Some example_goals) (Inr example_close)
       = Some (Some goals', evs, r)
     \<and> distinct (map sg_ID goals')
     \<and> ((\<exists>e. r = Inl e) \<or> (\<exists>p. r = Inr p \<and> p ''ok'' = Some (JBool False)) \<longrightarrow>
          goals' = example_goals \<and> evs = [])"
  by (rule goal_manage_total) (simp_all add: example_goals_def)

end
