(* ===== verification/Report_State.thy ===== *)
theory Report_State
  imports Agent_Types
begin

text \<open>
  \<open>server/tools/report_state.go\<close>: the report under construction, the edit scope of the current
  turn and the delivery state derived from the report; with the answer builders of
  \<open>report_tool_payloads.go\<close> and \<open>response.go\<close>. A chart option is either raw bytes taken from the
  caller or a JSON object built by the chart DSL.
\<close>

section \<open>Data\<close>

datatype chart_option = RawOption string | BuiltOption json

record chart_data =
  cd_ID :: string
  cd_Option :: chart_option
  cd_Width :: string
  cd_Height :: string

record evidence_ref =
  er_Kind :: string
  er_ToolName :: string
  er_SQL :: string
  er_TableName :: string
  er_ChartID :: string
  er_Summary :: string

record report_block =
  rb_ID :: string
  rb_Kind :: string
  rb_Title :: string
  rb_Content :: string
  rb_ChartID :: string
  rb_Sources :: "evidence_ref list"

record report_layout =
  CustomCSS :: string
  BodyClass :: string

record report_state =
  Blocks :: "report_block list"
  Charts :: "chart_data list"
  FinalTitle :: string
  FinalAuthor :: string
  Layout :: report_layout
  NeedsFinalize :: bool
  FinalizeAttempts :: int
  LastFinalizeIssueSignature :: string

definition empty_layout :: report_layout where
  "empty_layout = \<lparr>CustomCSS = [], BodyClass = []\<rparr>"

text \<open>The zero value \<open>ReportState{}\<close>.\<close>

definition empty_report :: report_state where
  "empty_report = \<lparr>Blocks = [], Charts = [], FinalTitle = [], FinalAuthor = [],
     Layout = empty_layout, NeedsFinalize = False, FinalizeAttempts = 0,
     LastFinalizeIssueSignature = []\<rparr>"

record report_edit_state =
  es_Mode :: string
  es_TargetRunID :: string
  es_TargetBlockID :: string
  es_TargetBlockLabel :: string
  es_TargetChartID :: string
  es_SelectionText :: string
  es_SelectionStart :: int
  es_SelectionEnd :: int
  es_SelectionRangeSet :: bool
  es_PreserveOtherBlocks :: bool
  es_AllowedChartIDs :: "string set"
  es_TargetBlockContent :: string
  es_TargetBlockKind :: string
  es_TargetBlockTitle :: string
  es_TargetBlockChartID :: string
  es_TargetBlockSources :: "evidence_ref list"

record report_delivery_state =
  ds_HasContent :: bool
  ds_IsFinalized :: bool
  ds_NeedsFinalize :: bool
  ds_DeliveryState :: string
  ds_BlockCount :: int
  ds_ChartCount :: int
  ds_FinalTitle :: string
  ds_FinalAuthor :: string

section \<open>Edit state\<close>

definition EditState_Reset :: "report_edit_state \<Rightarrow> report_edit_state" where
  "EditState_Reset s =
     s\<lparr>es_Mode := [], es_TargetRunID := [], es_TargetBlockID := [], es_TargetBlockLabel := [],
       es_TargetChartID := [], es_SelectionText := [], es_SelectionStart := 0,
       es_SelectionEnd := 0, es_SelectionRangeSet := False, es_PreserveOtherBlocks := False,
       es_AllowedChartIDs := {}, es_TargetBlockContent := [], es_TargetBlockKind := [],
       es_TargetBlockTitle := [], es_TargetBlockChartID := [], es_TargetBlockSources := []\<rparr>"

text \<open>The zero value \<open>ReportEditState{}\<close>.\<close>

definition empty_edit :: report_edit_state where
  "empty_edit =
     \<lparr>es_Mode = [], es_TargetRunID = [], es_TargetBlockID = [], es_TargetBlockLabel = [],
      es_TargetChartID = [], es_SelectionText = [], es_SelectionStart = 0, es_SelectionEnd = 0,
      es_SelectionRangeSet = False, es_PreserveOtherBlocks = False, es_AllowedChartIDs = {},
      es_TargetBlockContent = [], es_TargetBlockKind = [], es_TargetBlockTitle = [],
      es_TargetBlockChartID = [], es_TargetBlockSources = []\<rparr>"

lemma edit_reset_empty: "EditState_Reset s = empty_edit"
  by (simp add: EditState_Reset_def empty_edit_def)

definition modeLocked :: "report_edit_state \<Rightarrow> string" where
  "modeLocked s = trim_space (es_Mode s)"

definition EditState_Active :: "report_edit_state option \<Rightarrow> bool" where
  "EditState_Active es = (case es of None \<Rightarrow> False | Some s \<Rightarrow> modeLocked s \<noteq> [])"

definition scopeKindLocked :: "report_edit_state \<Rightarrow> string" where
  "scopeKindLocked s =
     (let mode = to_lower (trim_space (es_Mode s))
      in if mode = ''configure_layout'' \<or> mode = ''revise_layout'' then ''layout''
         else if trim_space (es_TargetChartID s) \<noteq> [] then ''partial_chart''
         else if trim_space (es_SelectionText s) \<noteq> []
                 \<and> (mode = ''regenerate_selection'' \<or> mode = ''revise_selection'')
              then ''partial_selection''
         else if trim_space (es_TargetBlockID s) \<noteq> [] then ''partial_block''
         else if es_PreserveOtherBlocks s then ''partial_block''
         else ''whole_report'')"

definition ScopeKind :: "report_edit_state option \<Rightarrow> string" where
  "ScopeKind es =
     (case es of
        None \<Rightarrow> ''inactive''
      | Some s \<Rightarrow> if modeLocked s = [] then ''inactive'' else scopeKindLocked s)"

definition EditState_Snapshot :: "report_edit_state option \<Rightarrow> payload" where
  "EditState_Snapshot es =
     (case es of
        None \<Rightarrow> Map.empty
      | Some s \<Rightarrow>
          [''mode'' \<mapsto> JStr (es_Mode s),
           ''target_run_id'' \<mapsto> JStr (es_TargetRunID s),
           ''target_block_id'' \<mapsto> JStr (es_TargetBlockID s),
           ''target_block_label'' \<mapsto> JStr (es_TargetBlockLabel s),
           ''target_chart_id'' \<mapsto> JStr (es_TargetChartID s),
           ''selection_text'' \<mapsto> JStr (es_SelectionText s),
           ''selection_start'' \<mapsto> JInt (es_SelectionStart s),
           ''selection_end'' \<mapsto> JInt (es_SelectionEnd s),
           ''selection_range_set'' \<mapsto> JBool (es_SelectionRangeSet s),
           ''preserve_other_blocks'' \<mapsto> JBool (es_PreserveOtherBlocks s),
           ''allowed_chart_ids'' \<mapsto> JArr (map JStr (sorted_list_of_set (es_AllowedChartIDs s))),
           ''scope_kind'' \<mapsto> JStr (ScopeKind es),
           ''active'' \<mapsto> JBool (modeLocked s \<noteq> [])])"

section \<open>Delivery state\<close>

definition describeReportDeliveryStateLocked :: "report_state \<Rightarrow> report_delivery_state" where
  "describeReportDeliveryStateLocked state =
     (let hasContent = (int (length (Blocks state)) > 0 \<or> int (length (Charts state)) > 0);
          title = trim_space (FinalTitle state);
          isFinalized = (hasContent \<and> \<not> NeedsFinalize state \<and> title \<noteq> [])
      in \<lparr>ds_HasContent = hasContent, ds_IsFinalized = isFinalized,
          ds_NeedsFinalize = NeedsFinalize state,
          ds_DeliveryState = (if hasContent then (if isFinalized then ''finalized'' else ''draft'')
                              else ''empty''),
          ds_BlockCount = int (length (Blocks state)), ds_ChartCount = int (length (Charts state)),
          ds_FinalTitle = title, ds_FinalAuthor = trim_space (FinalAuthor state)\<rparr>)"

definition DescribeReportDeliveryState :: "report_state option \<Rightarrow> report_delivery_state" where
  "DescribeReportDeliveryState st =
     (case st of
        None \<Rightarrow> \<lparr>ds_HasContent = False, ds_IsFinalized = False, ds_NeedsFinalize = False,
                ds_DeliveryState = ''empty'', ds_BlockCount = 0, ds_ChartCount = 0,
                ds_FinalTitle = [], ds_FinalAuthor = []\<rparr>
      | Some state \<Rightarrow> describeReportDeliveryStateLocked state)"

lemma delivery_simps:
  "ds_IsFinalized (describeReportDeliveryStateLocked s) \<longleftrightarrow>
     (Blocks s \<noteq> [] \<or> Charts s \<noteq> []) \<and> \<not> NeedsFinalize s \<and> trim_space (FinalTitle s) \<noteq> []"
  "ds_DeliveryState (describeReportDeliveryStateLocked s) =
     (if Blocks s = [] \<and> Charts s = [] then ''empty''
      else if NeedsFinalize s \<or> trim_space (FinalTitle s) = [] then ''draft'' else ''finalized'')"
  "ds_HasContent (describeReportDeliveryStateLocked s) \<longleftrightarrow> Blocks s \<noteq> [] \<or> Charts s \<noteq> []"
  "ds_NeedsFinalize (describeReportDeliveryStateLocked s) = NeedsFinalize s"
  by (auto simp: describeReportDeliveryStateLocked_def Let_def)

section \<open>Tool answers\<close>

definition toolSuccess :: "string \<Rightarrow> payload \<Rightarrow> payload" where
  "toolSuccess toolName p = p(''ok'' \<mapsto> JBool True, ''tool'' \<mapsto> JStr toolName)"

definition toolFailure :: "string \<Rightarrow> string \<Rightarrow> string \<Rightarrow> payload \<Rightarrow> payload" where
  "toolFailure toolName code message p =
     p(''ok'' \<mapsto> JBool False, ''tool'' \<mapsto> JStr toolName, ''error_code'' \<mapsto> JStr code,
       ''message'' \<mapsto> JStr message)"

definition clonePayload :: "payload \<Rightarrow> payload" where
  "clonePayload flds = flds"

definition mergePayloads :: "payload \<Rightarrow> payload \<Rightarrow> payload" where
  "mergePayloads base extra = clonePayload base ++ extra"

definition reportDraftMessage :: string where
  "reportDraftMessage = ''delivery_state=draft; no finalized report file yet.''"

definition reportDraftPayload :: "report_state \<Rightarrow> payload \<Rightarrow> payload" where
  "reportDraftPayload state flds =
     (let delivery = describeReportDeliveryStateLocked state;
          p = (clonePayload flds)
                (''delivery_state'' \<mapsto> JStr (ds_DeliveryState delivery),
                 ''is_finalized'' \<mapsto> JBool (ds_IsFinalized delivery),
                 ''needs_finalize'' \<mapsto> JBool (ds_NeedsFinalize delivery),
                 ''requires_finalize_for_delivery'' \<mapsto> JBool (ds_HasContent delivery))
      in if p ''ui_summary'' = None then p(''ui_summary'' \<mapsto> JStr reportDraftMessage) else p)"

definition reportDraftSuccess :: "string \<Rightarrow> report_state \<Rightarrow> payload \<Rightarrow> payload" where
  "reportDraftSuccess toolName state flds = toolSuccess toolName (reportDraftPayload state flds)"

definition json_str :: "json option \<Rightarrow> string" where
  "json_str j = (case j of Some (JStr s) \<Rightarrow> s | _ \<Rightarrow> [])"

definition addEditScopeFailureFacts :: "payload \<Rightarrow> report_edit_state option \<Rightarrow> payload" where
  "addEditScopeFailureFacts p es =
     (if es = None \<or> \<not> EditState_Active es then p
      else
        let s = the es;
            scope = EditState_Snapshot es;
            scopeKind = ScopeKind es;
            p1 = p(''active_edit_scope'' \<mapsto>
                     JObj (map (\<lambda>k. (k, the (scope k)))
                       (filter (\<lambda>k. scope k \<noteq> None)
                         [''active'', ''allowed_chart_ids'', ''mode'', ''preserve_other_blocks'',
                          ''scope_kind'', ''selection_end'', ''selection_range_set'', ''selection_start'',
                          ''selection_text'', ''target_block_id'', ''target_block_label'',
                          ''target_chart_id'', ''target_run_id''])),
                   ''scope_kind'' \<mapsto> JStr scopeKind,
                   ''preserve_other_blocks'' \<mapsto> JBool (es_PreserveOtherBlocks s));
            p2 = (if trim_space (json_str (scope ''target_block_id'')) \<noteq> []
                  then p1(''target_block_id'' \<mapsto> JStr (es_TargetBlockID s),
                          ''allowed_block_ids'' \<mapsto> JArr [JStr (es_TargetBlockID s)])
                  else p1);
            p3 = (if trim_space (json_str (scope ''target_chart_id'')) \<noteq> []
                  then p2(''target_chart_id'' \<mapsto> JStr (es_TargetChartID s)) else p2);
            p4 = p3(''allowed_chart_ids'' \<mapsto> the (scope ''allowed_chart_ids''))
        in if scopeKind = ''partial_selection''
           then p4(''allowed_block_actions'' \<mapsto> JArr [JStr ''upsert''],
                   ''selection_mutation_contract'' \<mapsto>
                     JStr ''Only the target block content may change; content outside the selected range, block title, block kind, chart_id, and sources remain protected.'')
           else p4)"

definition reportEditScopeFailure ::
  "string \<Rightarrow> string \<Rightarrow> string \<Rightarrow> string \<Rightarrow> string \<Rightarrow> payload \<Rightarrow> report_edit_state option \<Rightarrow> payload" where
  "reportEditScopeFailure toolName targetKey targetID targetLabel uiSummary flds es =
     toolFailure toolName ''edit_scope_violation''
       (''current edit scope does not allow modifying this '' @ targetLabel)
       (addEditScopeFailureFacts
          ((clonePayload flds)(targetKey \<mapsto> JStr targetID, ''ui_summary'' \<mapsto> JStr uiSummary)) es)"

definition reportFinalizeBlockedFailure :: "report_state \<Rightarrow> string list \<Rightarrow> payload" where
  "reportFinalizeBlockedFailure state blockers =
     toolFailure ''report_finalize'' ''active_branches_block_finalize''
       ''detected active goal branches; delivery_state stays draft.''
       (mergePayloads (reportDraftPayload state Map.empty)
          [''blocker_kind'' \<mapsto> JStr ''active_branches'',
           ''active_branch_count'' \<mapsto> JInt (int (length blockers)),
           ''active_branches'' \<mapsto> JArr (map JStr blockers),
           ''ui_summary'' \<mapsto>
             JStr (''finalize blocked: active_branch_count='' @ itoa (int (length blockers)))])"

definition reportFinalizeIssuesFailure :: "report_state \<Rightarrow> string list \<Rightarrow> payload" where
  "reportFinalizeIssuesFailure state issues =
     toolFailure ''report_finalize'' ''report_state_invalid''
       ''report validation failed; delivery_state stays draft.''
       (mergePayloads (reportDraftPayload state Map.empty)
          [''finalize_issue_count'' \<mapsto> JInt (int (length issues)),
           ''finalize_issues'' \<mapsto> JArr (map JStr issues),
           ''ui_summary'' \<mapsto>
             JStr (''finalize blocked: finalize_issue_count='' @ itoa (int (length issues)))])"

definition reportAlreadyFinalizedFailure :: "report_state \<Rightarrow> payload" where
  "reportAlreadyFinalizedFailure state =
     toolFailure ''report_finalize'' ''report_already_finalized''
       ''delivery_state is already finalized; no new draft changes detected.''
       (mergePayloads (reportDraftPayload state Map.empty)
          [''ui_summary'' \<mapsto> JStr ''delivery_state=finalized; no new draft changes detected.''])"

definition reportFinalizeSuccess :: "payload \<Rightarrow> payload" where
  "reportFinalizeSuccess flds =
     toolSuccess ''report_finalize''
       ((clonePayload flds)(''delivery_state'' \<mapsto> JStr ''finalized'',
          ''is_finalized'' \<mapsto> JBool True, ''needs_finalize'' \<mapsto> JBool False))"

lemmas answer_defs =
  toolSuccess_def toolFailure_def clonePayload_def mergePayloads_def reportDraftPayload_def
  reportDraftSuccess_def reportFinalizeBlockedFailure_def reportFinalizeIssuesFailure_def
  reportAlreadyFinalizedFailure_def reportFinalizeSuccess_def

section \<open>Facts about scopes\<close>

lemma scope_kind_inactive: "ScopeKind es = ''inactive'' \<longleftrightarrow> \<not> EditState_Active es"
  by (auto simp: ScopeKind_def EditState_Active_def scopeKindLocked_def Let_def split: option.splits)

lemma inactive_after_reset: "\<not> EditState_Active (Some (EditState_Reset s))"
  by (simp add: EditState_Active_def EditState_Reset_def modeLocked_def)

end
