(* ===== verification/Go_Utf8.thy ===== *)
theory Go_Utf8
  imports Go_Prelude
begin

text \<open>
  Runes: the conversions between a Go string (bytes) and \<open>[]rune\<close> (Unicode code points) that
  the server uses wherever it counts characters. Decoding follows \<open>unicode/utf8\<close>: an invalid
  byte decodes to U+FFFD with width one.
\<close>

type_synonym rune = nat

definition rune_error :: rune where "rune_error = 0xFFFD"

abbreviation byte :: "char \<Rightarrow> nat" where "byte c \<equiv> of_char c"

definition cont :: "char \<Rightarrow> bool" where
  "cont c \<longleftrightarrow> 0x80 \<le> byte c \<and> byte c \<le> 0xBF"

text \<open>\<open>utf8.DecodeRune\<close>: the first code point and the number of bytes it takes.\<close>

fun decode_rune :: "string \<Rightarrow> rune \<times> nat" where
  "decode_rune [] = (rune_error, 0)"
| "decode_rune (a # s) =
     (if byte a < 0x80 then (byte a, 1)
      else if 0xC2 \<le> byte a \<and> byte a \<le> 0xDF then
        (case s of
           b # _ \<Rightarrow> if cont b then ((byte a - 0xC0) * 64 + (byte b - 0x80), 2) else (rune_error, 1)
         | [] \<Rightarrow> (rune_error, 1))
      else if 0xE0 \<le> byte a \<and> byte a \<le> 0xEF then
        (case s of
           b # c # _ \<Rightarrow>
             if cont b \<and> cont c \<and> (byte a = 0xE0 \<longrightarrow> 0xA0 \<le> byte b)
                \<and> (byte a = 0xED \<longrightarrow> byte b \<le> 0x9F)
             then ((byte a - 0xE0) * 4096 + (byte b - 0x80) * 64 + (byte c - 0x80), 3)
             else (rune_error, 1)
         | _ \<Rightarrow> (rune_error, 1))
      else if 0xF0 \<le> byte a \<and> byte a \<le> 0xF4 then
        (case s of
           b # c # d # _ \<Rightarrow>
             if cont b \<and> cont c \<and> cont d \<and> (byte a = 0xF0 \<longrightarrow> 0x90 \<le> byte b)
                \<and> (byte a = 0xF4 \<longrightarrow> byte b \<le> 0x8F)
             then ((byte a - 0xF0) * 262144 + (byte b - 0x80) * 4096 + (byte c - 0x80) * 64
                   + (byte d - 0x80), 4)
             else (rune_error, 1)
         | _ \<Rightarrow> (rune_error, 1))
      else (rune_error, 1))"

declare decode_rune.simps(2) [simp del]

lemma decode_rune_width: "s \<noteq> [] \<Longrightarrow> 1 \<le> snd (decode_rune s)"
  by (cases s) (auto simp: decode_rune.simps(2) split: list.split)

lemma decode_rune_width_le: "snd (decode_rune s) \<le> length s"
  by (cases s) (auto simp: decode_rune.simps(2) split: list.split)

text \<open>The conversion \<open>[]rune(s)\<close>.\<close>

function runes :: "string \<Rightarrow> rune list" where
  "runes [] = []"
| "runes (a # s) =
     fst (decode_rune (a # s)) # runes (drop (snd (decode_rune (a # s))) (a # s))"
  by pat_completeness auto
termination
proof (relation "measure length", goal_cases)
  case (2 a s)
  then show ?case using decode_rune_width [of "a # s"] by (simp add: diff_less)
qed simp

declare runes.simps(2) [simp del]

text \<open>\<open>utf8.AppendRune\<close>; surrogates and values above U+10FFFF are written as U+FFFD.\<close>

definition encode_rune :: "rune \<Rightarrow> string" where
  "encode_rune r =
     (let q = (if r > 0x10FFFF \<or> (0xD800 \<le> r \<and> r \<le> 0xDFFF) then rune_error else r)
      in if q < 0x80 then [char_of q]
         else if q < 0x800 then [char_of (0xC0 + q div 64), char_of (0x80 + q mod 64)]
         else if q < 0x10000 then
           [char_of (0xE0 + q div 4096), char_of (0x80 + q div 64 mod 64),
            char_of (0x80 + q mod 64)]
         else [char_of (0xF0 + q div 262144), char_of (0x80 + q div 4096 mod 64),
               char_of (0x80 + q div 64 mod 64), char_of (0x80 + q mod 64)])"

text \<open>The conversion \<open>string(rs)\<close>.\<close>

definition of_runes :: "rune list \<Rightarrow> string" where
  "of_runes rs = concat (map encode_rune rs)"

lemma of_runes_append [simp]: "of_runes (xs @ ys) = of_runes xs @ of_runes ys"
  by (simp add: of_runes_def)

lemma of_runes_Nil [simp]: "of_runes [] = []"
  by (simp add: of_runes_def)

text \<open>A string is valid UTF-8 when no byte decodes to an error of width one.\<close>

function valid_utf8 :: "string \<Rightarrow> bool" where
  "valid_utf8 [] = True"
| "valid_utf8 (a # s) =
     (decode_rune (a # s) \<noteq> (rune_error, 1) \<and>
      valid_utf8 (drop (snd (decode_rune (a # s))) (a # s)))"
  by pat_completeness auto
termination
proof (relation "measure length", goal_cases)
  case (2 a s)
  then show ?case using decode_rune_width [of "a # s"] by (simp add: diff_less)
qed simp

declare valid_utf8.simps(2) [simp del]

lemma byte_lt: "byte c < 256"
  using of_char_mod_256 [of c, where ?'a = nat] by (metis mod_less_divisor zero_less_numeral)

lemma base64_step: "z < 64 \<Longrightarrow> (p * 64 + z) div 64 = p" "z < 64 \<Longrightarrow> (p * 64 + z) mod 64 = (z::nat)"
  by auto

lemma base64_div: "n div 4096 = n div 64 div (64::nat)" "n div 262144 = n div 64 div 64 div (64::nat)"
  using div_mult2_eq [of n 64 64] div_mult2_eq [of n 4096 64] by simp_all

lemma encode_decode_2:
  assumes "0xC2 \<le> a" "a \<le> 0xDF" "0x80 \<le> b" "b \<le> (0xBF::nat)"
  shows "encode_rune ((a - 0xC0) * 64 + (b - 0x80)) = [char_of a, char_of b]"
proof -
  define x y where "x = a - 0xC0" and "y = b - 0x80"
  have xy: "2 \<le> x" "x \<le> 31" "y \<le> 63" using assms by (auto simp: x_def y_def)
  define q where "q = x * 64 + y"
  have d: "q div 64 = x" "q mod 64 = y" using xy by (auto simp: q_def)
  have "0x80 \<le> q" "q < 0x800" using xy by (auto simp: q_def)
  then have "encode_rune q = [char_of (0xC0 + x), char_of (0x80 + y)]"
    by (simp add: encode_rune_def Let_def d)
  then show ?thesis using assms by (simp add: q_def x_def y_def)
qed

lemma encode_decode_3:
  assumes "0xE0 \<le> a" "a \<le> 0xEF" "0x80 \<le> b" "b \<le> 0xBF" "0x80 \<le> c" "c \<le> (0xBF::nat)"
    "a = 0xE0 \<longrightarrow> 0xA0 \<le> b" "a = 0xED \<longrightarrow> b \<le> 0x9F"
  shows "encode_rune ((a - 0xE0) * 4096 + (b - 0x80) * 64 + (c - 0x80))
           = [char_of a, char_of b, char_of c]"
proof -
  define x y z where "x = a - 0xE0" and "y = b - 0x80" and "z = c - 0x80"
  have xyz: "x \<le> 15" "y \<le> 63" "z \<le> 63" "x = 0 \<longrightarrow> 32 \<le> y" "x = 13 \<longrightarrow> y \<le> 31"
    using assms by (auto simp: x_def y_def z_def)
  define q where "q = (x * 64 + y) * 64 + z"
  have d: "q div 4096 = x" "q div 64 mod 64 = y" "q mod 64 = z"
    using xyz(2,3)
    by (simp_all only: q_def base64_div base64_step le_imp_less_Suc [of y 63, simplified]
        le_imp_less_Suc [of z 63, simplified])
  have "0x800 \<le> q" "q < 0x10000" using xyz by (auto simp: q_def)
  moreover have "\<not> (0xD800 \<le> q \<and> q \<le> 0xDFFF)"
  proof (cases "x \<le> 12 \<or> x \<ge> 14")
    case True with xyz show ?thesis by (auto simp: q_def)
  next
    case False
    then have "x = 13" by simp
    with xyz show ?thesis by (auto simp: q_def)
  qed
  ultimately have "encode_rune q = [char_of (0xE0 + x), char_of (0x80 + y), char_of (0x80 + z)]"
    using xyz by (auto simp: encode_rune_def Let_def d)
  moreover have "(a - 0xE0) * 4096 + (b - 0x80) * 64 + (c - 0x80) = q"
    by (simp add: q_def x_def y_def z_def)
  ultimately show ?thesis using assms by (simp add: x_def y_def z_def)
qed

lemma encode_decode_4:
  assumes "0xF0 \<le> a" "a \<le> 0xF4" "0x80 \<le> b" "b \<le> 0xBF" "0x80 \<le> c" "c \<le> 0xBF"
    "0x80 \<le> d" "d \<le> (0xBF::nat)" "a = 0xF0 \<longrightarrow> 0x90 \<le> b" "a = 0xF4 \<longrightarrow> b \<le> 0x8F"
  shows "encode_rune ((a - 0xF0) * 262144 + (b - 0x80) * 4096 + (c - 0x80) * 64 + (d - 0x80))
           = [char_of a, char_of b, char_of c, char_of d]"
proof -
  define w x y z where "w = a - 0xF0" and "x = b - 0x80" and "y = c - 0x80" and "z = d - 0x80"
  have b: "w \<le> 4" "x \<le> 63" "y \<le> 63" "z \<le> 63" "w = 0 \<longrightarrow> 16 \<le> x" "w = 4 \<longrightarrow> x \<le> 15"
    using assms by (auto simp: w_def x_def y_def z_def)
  define q where "q = ((w * 64 + x) * 64 + y) * 64 + z"
  have d: "q div 262144 = w" "q div 4096 mod 64 = x" "q div 64 mod 64 = y" "q mod 64 = z"
    using b(2,3,4)
    by (simp_all only: q_def base64_div base64_step le_imp_less_Suc [of x 63, simplified]
        le_imp_less_Suc [of y 63, simplified] le_imp_less_Suc [of z 63, simplified])
  have "0x10000 \<le> q" "q \<le> 0x10FFFF" using b by (auto simp: q_def)
  then have "encode_rune q =
      [char_of (0xF0 + w), char_of (0x80 + x), char_of (0x80 + y), char_of (0x80 + z)]"
    by (simp add: encode_rune_def Let_def d)
  moreover have "(a - 0xF0) * 262144 + (b - 0x80) * 4096 + (c - 0x80) * 64 + (d - 0x80) = q"
    by (simp add: q_def w_def x_def y_def z_def)
  ultimately show ?thesis using assms by (simp add: w_def x_def y_def z_def)
qed

text \<open>When decoding succeeds, one of the four shapes of an encoding is at the front.\<close>

lemma decode_cases:
  assumes "s \<noteq> []" "decode_rune s \<noteq> (rune_error, 1)"
  obtains (one) a t where "s = a # t" "byte a < 0x80" "decode_rune s = (byte a, 1)"
  | (two) a b t where "s = a # b # t" "0xC2 \<le> byte a" "byte a \<le> 0xDF" "cont b"
      "decode_rune s = ((byte a - 0xC0) * 64 + (byte b - 0x80), 2)"
  | (three) a b c t where "s = a # b # c # t" "0xE0 \<le> byte a" "byte a \<le> 0xEF" "cont b" "cont c"
      "byte a = 0xE0 \<longrightarrow> 0xA0 \<le> byte b" "byte a = 0xED \<longrightarrow> byte b \<le> 0x9F"
      "decode_rune s = ((byte a - 0xE0) * 4096 + (byte b - 0x80) * 64 + (byte c - 0x80), 3)"
  | (four) a b c d t where "s = a # b # c # d # t" "0xF0 \<le> byte a" "byte a \<le> 0xF4"
      "cont b" "cont c" "cont d" "byte a = 0xF0 \<longrightarrow> 0x90 \<le> byte b" "byte a = 0xF4 \<longrightarrow> byte b \<le> 0x8F"
      "decode_rune s = ((byte a - 0xF0) * 262144 + (byte b - 0x80) * 4096 + (byte c - 0x80) * 64
                          + (byte d - 0x80), 4)"
proof -
  obtain a t where s: "s = a # t" using assms(1) by (cases s) auto
  have d: "decode_rune (a # t) \<noteq> (rune_error, 1)" using assms(2) s by simp
  let ?P1 = "byte a < 0x80" and ?P2 = "0xC2 \<le> byte a \<and> byte a \<le> 0xDF"
    and ?P3 = "0xE0 \<le> byte a \<and> byte a \<le> 0xEF" and ?P4 = "0xF0 \<le> byte a \<and> byte a \<le> 0xF4"
  consider (c1) "?P1" | (c2) "\<not> ?P1" "?P2" | (c3) "\<not> ?P1" "\<not> ?P2" "?P3"
    | (c4) "\<not> ?P1" "\<not> ?P2" "\<not> ?P3" "?P4" | (c5) "\<not> ?P1" "\<not> ?P2" "\<not> ?P3" "\<not> ?P4"
    by blast
  then show ?thesis
  proof cases
    case c1
    then show ?thesis using s by (intro one) (auto simp: decode_rune.simps(2))
  next
    case c2
    then obtain b u where t: "t = b # u" "cont b"
      using d by (auto simp: decode_rune.simps(2) split: list.splits if_splits)
    with c2 s show ?thesis by (intro two [of a b u]) (auto simp: decode_rune.simps(2))
  next
    case c3
    then obtain b c u where t: "t = b # c # u" and g: "cont b" "cont c"
        "byte a = 0xE0 \<longrightarrow> 0xA0 \<le> byte b" "byte a = 0xED \<longrightarrow> byte b \<le> 0x9F"
      using d by (auto simp: decode_rune.simps(2) split: list.splits if_splits)
    have "decode_rune s = ((byte a - 0xE0) * 4096 + (byte b - 0x80) * 64 + (byte c - 0x80), 3)"
      unfolding s t decode_rune.simps(2) using c3 g by simp
    with c3 s t g show ?thesis by (intro three [of a b c u]) auto
  next
    case c4
    then obtain b c e u where t: "t = b # c # e # u" and g: "cont b" "cont c" "cont e"
        "byte a = 0xF0 \<longrightarrow> 0x90 \<le> byte b" "byte a = 0xF4 \<longrightarrow> byte b \<le> 0x8F"
      using d by (auto simp: decode_rune.simps(2) split: list.splits if_splits)
    have "decode_rune s = ((byte a - 0xF0) * 262144 + (byte b - 0x80) * 4096 + (byte c - 0x80) * 64
                          + (byte e - 0x80), 4)"
      unfolding s t decode_rune.simps(2) using c4 g by simp
    with c4 s t g show ?thesis by (intro four [of a b c e u]) auto
  next
    case c5
    with d show ?thesis unfolding decode_rune.simps(2) by simp
  qed
qed

lemma encode_decode:
  assumes "s \<noteq> []" "decode_rune s \<noteq> (rune_error, 1)"
  shows "encode_rune (fst (decode_rune s)) = take (snd (decode_rune s)) s"
  using assms
proof (cases s rule: decode_cases)
  case (one a t)
  then show ?thesis by (simp add: encode_rune_def Let_def)
next
  case (two a b t)
  then show ?thesis using encode_decode_2 [of "byte a" "byte b"] by (simp add: cont_def)
next
  case (three a b c t)
  then show ?thesis using encode_decode_3 [of "byte a" "byte b" "byte c"]
    by (simp add: cont_def)
next
  case (four a b c d t)
  then show ?thesis using encode_decode_4 [of "byte a" "byte b" "byte c" "byte d"]
    by (simp add: cont_def)
qed

lemma of_runes_runes: "valid_utf8 s \<Longrightarrow> of_runes (runes s) = s"
proof (induction s rule: runes.induct)
  case (2 a s)
  let ?d = "decode_rune (a # s)"
  have "?d \<noteq> (rune_error, 1)" using "2.prems" by (simp add: valid_utf8.simps(2))
  then have e: "encode_rune (fst ?d) = take (snd ?d) (a # s)" by (intro encode_decode) auto
  have "of_runes (runes (a # s)) = encode_rune (fst ?d) @ of_runes (runes (drop (snd ?d) (a # s)))"
    by (simp add: runes.simps(2) of_runes_def)
  also have "\<dots> = take (snd ?d) (a # s) @ drop (snd ?d) (a # s)"
    using 2 e by (simp add: valid_utf8.simps(2))
  finally show ?case by simp
qed simp

lemma length_runes_le: "length (runes s) \<le> length s"
proof (induction s rule: runes.induct)
  case (2 a s)
  have "1 \<le> snd (decode_rune (a # s))" by (rule decode_rune_width) simp
  with 2 show ?case by (simp add: runes.simps(2))
qed simp

definition ascii :: "string \<Rightarrow> bool" where
  "ascii s \<longleftrightarrow> list_all (\<lambda>c. byte c < 0x80) s"

lemma ascii_runes: "ascii s \<Longrightarrow> runes s = map of_char s \<and> valid_utf8 s"
  by (induction s)
    (auto simp: ascii_def runes.simps(2) valid_utf8.simps(2) decode_rune.simps(2) rune_error_def)

end
