(* ===== verification/Report_Scope.thy ===== *)
theory Report_Scope
  imports Report_State Go_Utf8
begin

text \<open>
  \<open>server/tools/report_guardrails.go\<close>, the part that decides what a turn may edit: the targets
  grounded from the report, the block, chart and selection guards, and the projection that maps
  a selection in the rendered text back to a range of the stored Markdown or HTML. The HTML
  entity decoder (\<open>html.UnescapeString\<close>, a table of some two thousand names) is the parameter
  \<open>unesc\<close>; nothing is assumed of it.
\<close>

section \<open>References to charts\<close>

definition word_char :: "char \<Rightarrow> bool" where
  "word_char c \<longleftrightarrow> is_digit c \<or> (65 \<le> byte c \<and> byte c \<le> 90) \<or> (97 \<le> byte c \<and> byte c \<le> 122)
                   \<or> c = CHR ''_''"

text \<open>
  The leftmost, non-overlapping matches of \<open>{{chart:(\w+)}}\<close>. A closing brace is no word
  character, so the group is always the longest run of word characters.
\<close>

function chart_refs :: "string \<Rightarrow> string list" where
  "chart_refs [] = []"
| "chart_refs (c # s) =
     (if prefix ''{{chart:'' (c # s)
      then
        let rest = drop 8 (c # s);
            w = takeWhile word_char rest;
            tail = dropWhile word_char rest
        in if w \<noteq> [] \<and> prefix ''}}'' tail then w # chart_refs (drop 2 tail) else chart_refs s
      else chart_refs s)"
  by pat_completeness auto
termination
proof (relation "measure length", goal_cases)
  case (2 c s rest w tail)
  then show ?case using length_dropWhile_le [of word_char "drop 7 s"] by simp
qed auto

declare chart_refs.simps(2) [simp del]

definition chartRefsOutsideChartBlock :: "string \<Rightarrow> string list" where
  "chartRefsOutsideChartBlock content =
     map trim_space (filter (\<lambda>w. trim_space w \<noteq> []) (chart_refs content))"

definition findReportBlockIndex :: "report_block list \<Rightarrow> string \<Rightarrow> nat option" where
  "findReportBlockIndex blocks blockID = find_index (\<lambda>b. rb_ID b = blockID) blocks"

definition collectEditableChartIDs :: "report_state option \<Rightarrow> string \<Rightarrow> string \<Rightarrow> string set" where
  "collectEditableChartIDs st blockID chartID =
     (let refs = (if trim_space chartID \<noteq> [] then {trim_space chartID} else {})
      in case st of
           None \<Rightarrow> refs
         | Some state \<Rightarrow>
             if trim_space blockID = [] then refs
             else
               (case findReportBlockIndex (Blocks state) (trim_space blockID) of
                  None \<Rightarrow> refs
                | Some i \<Rightarrow>
                    let block = Blocks state ! i
                    in refs
                       \<union> (if trim_space (rb_ChartID block) \<noteq> [] then {trim_space (rb_ChartID block)}
                           else {})
                       \<union> set (chartRefsOutsideChartBlock (rb_Content block))))"

section \<open>Grounding the edit state in the report\<close>

definition RefreshFromReportState ::
  "report_edit_state \<Rightarrow> report_state option \<Rightarrow> report_edit_state" where
  "RefreshFromReportState s st =
     (let s1 = s\<lparr>es_AllowedChartIDs :=
                   collectEditableChartIDs st (es_TargetBlockID s) (es_TargetChartID s),
                 es_TargetBlockContent := [], es_TargetBlockKind := [], es_TargetBlockTitle := [],
                 es_TargetBlockChartID := [], es_TargetBlockSources := []\<rparr>
      in case st of
           None \<Rightarrow> s1
         | Some state \<Rightarrow>
             if trim_space (es_TargetBlockID s) = [] then s1
             else
               (case findReportBlockIndex (Blocks state) (trim_space (es_TargetBlockID s)) of
                  None \<Rightarrow> s1
                | Some i \<Rightarrow>
                    let block = Blocks state ! i
                    in s1\<lparr>es_TargetBlockContent := rb_Content block,
                          es_TargetBlockKind := rb_Kind block,
                          es_TargetBlockTitle := rb_Title block,
                          es_TargetBlockChartID := rb_ChartID block,
                          es_TargetBlockSources := rb_Sources block\<rparr>))"

section \<open>Block and chart guards\<close>

definition BlockMutationAllowed :: "report_edit_state option \<Rightarrow> string \<Rightarrow> string \<Rightarrow> bool" where
  "BlockMutationAllowed es action blockID =
     (case es of
        None \<Rightarrow> True
      | Some s \<Rightarrow>
          if modeLocked s = [] \<or> \<not> es_PreserveOtherBlocks s then True
          else if trim_space (es_TargetChartID s) \<noteq> [] \<and> trim_space (es_TargetBlockID s) = []
               then False
          else
            let target = trim_space (es_TargetBlockID s); i = trim_space blockID
            in if to_lower (trim_space action) = ''upsert'' then target \<noteq> [] \<and> i = target
               else False)"

definition ChartMutationAllowed :: "report_edit_state option \<Rightarrow> string \<Rightarrow> bool" where
  "ChartMutationAllowed es chartID =
     (case es of
        None \<Rightarrow> True
      | Some s \<Rightarrow>
          if modeLocked s = [] \<or> \<not> es_PreserveOtherBlocks s then True
          else trim_space chartID \<in> es_AllowedChartIDs s)"

section \<open>From rendered text back to source ranges\<close>

record projected_rune =
  pr_value :: rune
  pr_rawStart :: nat
  pr_rawEnd :: nat

definition findRuneForward :: "rune list \<Rightarrow> nat \<Rightarrow> rune \<Rightarrow> nat option" where
  "findRuneForward rs start target =
     map_option (\<lambda>i. start + i) (find_index (\<lambda>r. r = target) (drop start rs))"

lemma findRuneForward_Some:
  assumes "findRuneForward rs start t = Some e"
  shows "start \<le> e \<and> e < length rs"
proof -
  from assms obtain i where i: "find_index (\<lambda>r. r = t) (drop start rs) = Some i" "e = start + i"
    by (auto simp: findRuneForward_def)
  then show ?thesis using find_index_Some [OF i(1)] by auto
qed

text \<open>\<open>&\<close> is 38, \<open>;\<close> is 59.\<close>

definition decodeHTMLEntityAt ::
  "(string \<Rightarrow> string) \<Rightarrow> rune list \<Rightarrow> nat \<Rightarrow> (rune list \<times> nat) option" where
  "decodeHTMLEntityAt unesc rs start =
     (if start \<ge> length rs \<or> rs ! start \<noteq> 38 then None
      else
        (case findRuneForward rs (start + 1) 59 of
           None \<Rightarrow> None
         | Some e \<Rightarrow>
             if e - start > 32 then None
             else
               let raw = of_runes (take (e + 1 - start) (drop start rs));
                   decoded = unesc raw
               in if decoded = raw then None else Some (runes decoded, e + 1)))"

lemma decodeHTMLEntityAt_Some:
  assumes "decodeHTMLEntityAt unesc rs i = Some (ds, e)"
  shows "i < e \<and> e \<le> length rs"
  using assms findRuneForward_Some [of rs "i + 1" 59]
  by (fastforce simp: decodeHTMLEntityAt_def Let_def split: if_splits option.splits)

definition decoded_entries :: "rune list \<Rightarrow> nat \<Rightarrow> nat \<Rightarrow> projected_rune list" where
  "decoded_entries ds i e = map (\<lambda>d. \<lparr>pr_value = d, pr_rawStart = i, pr_rawEnd = e\<rparr>) ds"

function projected_range ::
  "(string \<Rightarrow> string) \<Rightarrow> rune list \<Rightarrow> nat \<Rightarrow> nat \<Rightarrow> projected_rune list" where
  "projected_range unesc rs i e =
     (if i \<ge> e then []
      else
        (case decodeHTMLEntityAt unesc rs i of
           Some (ds, rawEnd) \<Rightarrow>
             if rawEnd \<le> e
             then decoded_entries ds i rawEnd @ projected_range unesc rs rawEnd e
             else \<lparr>pr_value = rs ! i, pr_rawStart = i, pr_rawEnd = i + 1\<rparr>
                    # projected_range unesc rs (i + 1) e
         | None \<Rightarrow> \<lparr>pr_value = rs ! i, pr_rawStart = i, pr_rawEnd = i + 1\<rparr>
                    # projected_range unesc rs (i + 1) e))"
  by pat_completeness auto
termination
  by (relation "measure (\<lambda>(u, rs, i, e). e - i)") (auto dest: decodeHTMLEntityAt_Some)

declare projected_range.simps [simp del]

definition appendProjectedRuneRange ::
  "(string \<Rightarrow> string) \<Rightarrow> projected_rune list \<Rightarrow> rune list \<Rightarrow> nat \<Rightarrow> nat \<Rightarrow> projected_rune list" where
  "appendProjectedRuneRange unesc projected rs start e = projected @ projected_range unesc rs start e"

definition projected_one :: "(string \<Rightarrow> string) \<Rightarrow> rune list \<Rightarrow> nat \<Rightarrow> projected_rune list" where
  "projected_one unesc rs i =
     (case decodeHTMLEntityAt unesc rs i of
        Some (ds, rawEnd) \<Rightarrow> decoded_entries ds i rawEnd
      | None \<Rightarrow> [\<lparr>pr_value = rs ! i, pr_rawStart = i, pr_rawEnd = i + 1\<rparr>])"

definition appendProjectedRune ::
  "(string \<Rightarrow> string) \<Rightarrow> projected_rune list \<Rightarrow> rune list \<Rightarrow> nat \<Rightarrow> projected_rune list" where
  "appendProjectedRune unesc projected rs i = projected @ projected_one unesc rs i"

text \<open>\<open>*\<close> is 42, the backquote 96, \<open>#\<close> 35, newline 10, space 32.\<close>

definition isMarkdownSyntaxRune :: "rune list \<Rightarrow> nat \<Rightarrow> bool" where
  "isMarkdownSyntaxRune rs i =
     (let ch = rs ! i
      in if ch = 42 \<or> ch = 96 then True
         else if ch = 35 then
           (i = 0 \<or> rs ! (i - 1) = 10) \<and>
           (i + 1 < length rs \<and> (rs ! (i + 1) = 32 \<or> rs ! (i + 1) = 35))
         else False)"

text \<open>
  The text and end of a link \<open>[text](target)\<close> whose text starts at \<open>from\<close>: 93 is a closing bracket,
  40 and 41 are the parentheses.
\<close>

definition link_at :: "rune list \<Rightarrow> nat \<Rightarrow> (nat \<times> nat) option" where
  "link_at rs from =
     (case findRuneForward rs from 93 of
        None \<Rightarrow> None
      | Some textEnd \<Rightarrow>
          if textEnd + 1 < length rs \<and> rs ! (textEnd + 1) = 40
          then map_option (\<lambda>linkEnd. (textEnd, linkEnd)) (findRuneForward rs (textEnd + 2) 41)
          else None)"

lemma link_at_Some:
  "link_at rs from = Some (te, le) \<Longrightarrow> from \<le> te \<and> te < le \<and> le < length rs"
  by (auto simp: link_at_def split: option.splits if_splits dest!: findRuneForward_Some)

text \<open>The main loop from index \<open>i\<close>: 60 and 62 are angle brackets, 33 is \<open>!\<close>, 91 an opening bracket.\<close>

function project_from :: "(string \<Rightarrow> string) \<Rightarrow> rune list \<Rightarrow> nat \<Rightarrow> projected_rune list" where
  "project_from unesc rs i =
     (if i \<ge> length rs then []
      else
        let plain = (if isMarkdownSyntaxRune rs i then project_from unesc rs (i + 1)
                     else projected_one unesc rs i @ project_from unesc rs (i + 1));
            link = (if rs ! i = 91
                    then (case link_at rs (i + 1) of
                            Some (te, le) \<Rightarrow>
                              projected_range unesc rs (i + 1) te @ project_from unesc rs (le + 1)
                          | None \<Rightarrow> plain)
                    else plain);
            image = (if rs ! i = 33 \<and> i + 1 < length rs \<and> rs ! (i + 1) = 91
                     then (case link_at rs (i + 2) of
                             Some (te, le) \<Rightarrow>
                               projected_range unesc rs (i + 2) te @ project_from unesc rs (le + 1)
                           | None \<Rightarrow> link)
                     else link);
            tag = (if rs ! i = 60
                   then (case findRuneForward rs (i + 1) 62 of
                           Some e \<Rightarrow> project_from unesc rs (e + 1)
                         | None \<Rightarrow> image)
                   else image)
        in if rs ! i = 38
           then (case decodeHTMLEntityAt unesc rs i of
                   Some (ds, rawEnd) \<Rightarrow>
                     decoded_entries ds i rawEnd @ project_from unesc rs rawEnd
                 | None \<Rightarrow> tag)
           else tag)"
  by pat_completeness auto
termination
  by (relation "measure (\<lambda>(u, rs, i). length rs - i)")
    (auto dest!: decodeHTMLEntityAt_Some link_at_Some findRuneForward_Some)

declare project_from.simps [simp del]

definition projectReportContentText :: "(string \<Rightarrow> string) \<Rightarrow> string \<Rightarrow> projected_rune list" where
  "projectReportContentText unesc content = project_from unesc (runes content) 0"

definition projectedText :: "projected_rune list \<Rightarrow> string" where
  "projectedText projected = of_runes (map pr_value projected)"

definition projectedRawBounds :: "projected_rune list \<Rightarrow> int \<Rightarrow> int \<Rightarrow> (nat \<times> nat) option" where
  "projectedRawBounds projected start e =
     (if start < 0 \<or> e > int (length projected) \<or> start \<ge> e then None
      else Some (pr_rawStart (projected ! nat start), pr_rawEnd (projected ! (nat e - 1))))"

section \<open>Comparing selections\<close>

definition is_space_rune :: "rune \<Rightarrow> bool" where
  "is_space_rune r \<longleftrightarrow> (9 \<le> r \<and> r \<le> 13) \<or> r = 32 \<or> r = 0x85 \<or> r = 0xA0 \<or> r = 0x1680
     \<or> (0x2000 \<le> r \<and> r \<le> 0x200A) \<or> r = 0x2028 \<or> r = 0x2029 \<or> r = 0x202F \<or> r = 0x205F \<or> r = 0x3000"

fun compare_loop ::
  "nat \<Rightarrow> bool \<Rightarrow> rune list \<Rightarrow> nat list \<Rightarrow> rune list \<Rightarrow> rune list \<times> nat list" where
  "compare_loop i inSpace b indexMap [] = (b, indexMap)"
| "compare_loop i inSpace b indexMap (ch # rs) =
     (if is_space_rune ch then compare_loop (i + 1) True b indexMap rs
      else if inSpace \<and> b \<noteq> []
           then compare_loop (i + 1) False (b @ [32, ch]) (indexMap @ [i, i]) rs
           else compare_loop (i + 1) False (b @ [ch]) (indexMap @ [i]) rs)"

definition normalizeSelectionCompareTextWithMap :: "string \<Rightarrow> string \<times> nat list" where
  "normalizeSelectionCompareTextWithMap value =
     (let (b, indexMap) = compare_loop 0 False [] [] (runes value)
      in (trim_space (of_runes b), indexMap))"

definition normalizeSelectionCompareText :: "string \<Rightarrow> string" where
  "normalizeSelectionCompareText value = fst (normalizeSelectionCompareTextWithMap value)"

section \<open>Selection guard\<close>

definition selectionBoundsFromProjectedText ::
  "(string \<Rightarrow> string) \<Rightarrow> report_edit_state \<Rightarrow> string \<Rightarrow> (nat \<times> nat) option" where
  "selectionBoundsFromProjectedText unesc s original =
     (let projected = projectReportContentText unesc original;
          needle = normalizeSelectionCompareText (es_SelectionText s)
      in if projected = [] then None
         else if needle = [] then None
         else if \<not> es_SelectionRangeSet s \<or> es_SelectionEnd s \<le> es_SelectionStart s
                 \<or> es_SelectionStart s < 0 \<or> es_SelectionEnd s > int (length projected)
         then None
         else if normalizeSelectionCompareText
                   (projectedText (take (nat (es_SelectionEnd s) - nat (es_SelectionStart s))
                                     (drop (nat (es_SelectionStart s)) projected))) \<noteq> needle
         then None
         else projectedRawBounds projected (es_SelectionStart s) (es_SelectionEnd s))"

definition SelectionMutationAllowed ::
  "(string \<Rightarrow> string) \<Rightarrow> report_edit_state option \<Rightarrow> string \<Rightarrow> string \<Rightarrow> bool" where
  "SelectionMutationAllowed unesc es blockID newContent =
     (case es of
        None \<Rightarrow> True
      | Some s \<Rightarrow>
          if modeLocked s = [] \<or> scopeKindLocked s \<noteq> ''partial_selection'' then True
          else if trim_space blockID = [] \<or> trim_space blockID \<noteq> trim_space (es_TargetBlockID s)
          then False
          else
            let original = es_TargetBlockContent s
            in if original = [] then False
               else
                 (case selectionBoundsFromProjectedText unesc s original of
                    None \<Rightarrow> False
                  | Some (start, e) \<Rightarrow>
                      let pre = of_runes (take start (runes original));
                          suf = of_runes (drop e (runes original))
                      in has_prefix newContent pre \<and> has_suffix newContent suf))"

definition evidenceRefsEqual :: "evidence_ref list \<Rightarrow> evidence_ref list \<Rightarrow> bool" where
  "evidenceRefsEqual a b =
     (if length a = 0 \<and> length b = 0 then True
      else if length a \<noteq> length b then False
      else list_all2 (=) a b)"

definition SelectionBlockMutationAllowed ::
  "(string \<Rightarrow> string) \<Rightarrow> report_edit_state option \<Rightarrow> report_block \<Rightarrow> bool" where
  "SelectionBlockMutationAllowed unesc es block =
     (case es of
        None \<Rightarrow> True
      | Some s \<Rightarrow>
          if \<not> SelectionMutationAllowed unesc es (rb_ID block) (rb_Content block) then False
          else if modeLocked s = [] \<or> scopeKindLocked s \<noteq> ''partial_selection'' then True
          else
            (trim_space (es_TargetBlockKind s) = []
               \<or> trim_space (rb_Kind block) = trim_space (es_TargetBlockKind s))
            \<and> rb_Title block = es_TargetBlockTitle s
            \<and> trim_space (rb_ChartID block) = trim_space (es_TargetBlockChartID s)
            \<and> evidenceRefsEqual (rb_Sources block) (es_TargetBlockSources s))"

section \<open>The projection stays inside the source\<close>

text \<open>
  \<open>inside lo hi es\<close>: the entries cover nonempty ranges of the source between \<open>lo\<close> and \<open>hi\<close>, in
  source order.
\<close>

definition inside :: "nat \<Rightarrow> nat \<Rightarrow> projected_rune list \<Rightarrow> bool" where
  "inside lo hi es \<longleftrightarrow>
     (\<forall>p \<in> set es. lo \<le> pr_rawStart p \<and> pr_rawStart p < pr_rawEnd p \<and> pr_rawEnd p \<le> hi)
     \<and> sorted (map pr_rawStart es)"

lemma inside_Nil [simp]: "inside lo hi []"
  by (simp add: inside_def)

lemma inside_append:
  "inside lo m es \<Longrightarrow> inside m' hi fs \<Longrightarrow> m \<le> m' \<Longrightarrow> lo \<le> m' \<Longrightarrow> m \<le> hi \<Longrightarrow> inside lo hi (es @ fs)"
  unfolding inside_def sorted_append map_append by fastforce

lemma inside_mono: "inside m m' es \<Longrightarrow> lo \<le> m \<Longrightarrow> m' \<le> hi \<Longrightarrow> inside lo hi es"
  unfolding inside_def by fastforce

lemma inside_Cons:
  "inside (i + 1) hi fs \<Longrightarrow> i < hi \<Longrightarrow>
     inside i hi (\<lparr>pr_value = v, pr_rawStart = i, pr_rawEnd = i + 1\<rparr> # fs)"
  unfolding inside_def by fastforce

lemma inside_decoded: "i < e \<Longrightarrow> inside i e (decoded_entries ds i e)"
  by (induction ds) (auto simp: decoded_entries_def inside_def)

lemma inside_range:
  "inside i e (projected_range unesc rs i e)"
proof (induction "e - i" arbitrary: i rule: less_induct)
  case less
  have entity: "inside i e (decoded_entries ds i k @ projected_range unesc rs k e)"
    if "decodeHTMLEntityAt unesc rs i = Some (ds, k)" "k \<le> e" "i < e" for ds k
    using less [of k] decodeHTMLEntityAt_Some [OF that(1)] that
    by (intro inside_append [OF inside_decoded, where m' = k]) auto
  have one: "inside i e (\<lparr>pr_value = v, pr_rawStart = i, pr_rawEnd = Suc i\<rparr>
                           # projected_range unesc rs (Suc i) e)" if "i < e" for v
    using less [of "i + 1"] that inside_Cons [of i e] by simp
  show ?case
    by (subst projected_range.simps) (simp add: entity one split: option.split)
qed

lemma inside_one:
  "i < length rs \<Longrightarrow> rs ! i \<noteq> 38 \<or> decodeHTMLEntityAt unesc rs i = None \<Longrightarrow>
     inside i (i + 1) (projected_one unesc rs i)"
  by (auto simp: projected_one_def inside_def decodeHTMLEntityAt_def)

lemma inside_project_from: "inside i (length rs) (project_from unesc rs i)"
proof (induction "length rs - i" arbitrary: i rule: less_induct)
  case less
  let ?n = "length rs"
  have rest: "inside j ?n (project_from unesc rs j)" if "i < j" "i < ?n" for j
    using less [of j] that by auto
  have skip: "inside i ?n (project_from unesc rs j)" if "i < j" "i < ?n" for j
    using inside_mono [OF rest [OF that], of i ?n] that by simp
  have after: "inside i ?n (es @ project_from unesc rs j)"
    if "inside k m es" "i \<le> k" "m \<le> j" "i < j" "m \<le> ?n" "i < ?n" for es j k m
    using inside_append [OF inside_mono [OF that(1), of i m] rest [of j]] that by simp
  have link: "inside i ?n (projected_range unesc rs k te @ project_from unesc rs (Suc le))"
    if "link_at rs k = Some (te, le)" "i < k" "i < ?n" for k te le
    using link_at_Some [OF that(1)] that by (intro after [OF inside_range]) auto
  have entity: "inside i ?n (decoded_entries ds i e @ project_from unesc rs e)"
    if "decodeHTMLEntityAt unesc rs i = Some (ds, e)" "i < ?n" for ds e
    using decodeHTMLEntityAt_Some [OF that(1)] that by (intro after [OF inside_decoded]) auto
  have one: "inside i ?n (projected_one unesc rs i @ project_from unesc rs (Suc i))"
    if "rs ! i \<noteq> 38 \<or> decodeHTMLEntityAt unesc rs i = None" "i < ?n"
    using that by (intro after [OF inside_one]) auto
  have tag: "inside i ?n (project_from unesc rs (Suc e))"
    if "findRuneForward rs (Suc i) 62 = Some e" "i < ?n" for e
    using findRuneForward_Some [OF that(1)] that by (intro skip) auto
  show ?case
    by (subst project_from.simps)
      (simp add: Let_def one skip link entity tag split: option.split)
qed

lemma inside_projection:
  "inside 0 (length (runes content)) (projectReportContentText unesc content)"
  by (simp add: projectReportContentText_def inside_project_from)

lemma selection_bounds:
  assumes "selectionBoundsFromProjectedText unesc s original = Some (start, e)"
  shows "start < e \<and> e \<le> length (runes original)"
proof -
  let ?p = "projectReportContentText unesc original"
  let ?a = "nat (es_SelectionStart s)" and ?b = "nat (es_SelectionEnd s) - 1"
  from assms have b: "?a \<le> ?b" "?b < length ?p" "start = pr_rawStart (?p ! ?a)" "e = pr_rawEnd (?p ! ?b)"
    by (auto simp: selectionBoundsFromProjectedText_def projectedRawBounds_def Let_def
        split: if_splits)
  have ins: "inside 0 (length (runes original)) ?p" by (rule inside_projection)
  then have "pr_rawStart (?p ! ?a) \<le> pr_rawStart (?p ! ?b)"
    using b sorted_nth_mono [of "map pr_rawStart ?p" ?a ?b] by (auto simp: inside_def)
  moreover have "pr_rawStart (?p ! ?b) < pr_rawEnd (?p ! ?b)"
    "pr_rawEnd (?p ! ?b) \<le> length (runes original)"
    using ins b(2) nth_mem by (auto simp: inside_def)
  ultimately show ?thesis using b by simp
qed

lemma prefix_suffix_split:
  assumes "prefix p xs" "suffix q xs" "length p + length q \<le> length xs"
  shows "\<exists>mid. xs = p @ mid @ q"
proof -
  from assms(1) obtain r where r: "xs = p @ r" by (auto simp: prefix_def)
  with assms(2,3) have "suffix q r" by (auto simp: suffix_append)
  with r show ?thesis by (auto simp: suffix_def)
qed

text \<open>What precedes and what follows a range of the target block's original content.\<close>

definition kept_before :: "report_edit_state \<Rightarrow> nat \<Rightarrow> string" where
  "kept_before s start = of_runes (take start (runes (es_TargetBlockContent s)))"

definition kept_after :: "report_edit_state \<Rightarrow> nat \<Rightarrow> string" where
  "kept_after s e = of_runes (drop e (runes (es_TargetBlockContent s)))"

lemma selection_allowed_bounds:
  assumes "modeLocked s \<noteq> []" and "scopeKindLocked s = ''partial_selection''"
    and "SelectionMutationAllowed unesc (Some s) blockID newContent"
  shows "trim_space blockID = trim_space (es_TargetBlockID s) \<and>
    (\<exists>start e. selectionBoundsFromProjectedText unesc s (es_TargetBlockContent s) = Some (start, e)
       \<and> prefix (kept_before s start) newContent \<and> suffix (kept_after s e) newContent)"
  using assms
  by (auto simp: SelectionMutationAllowed_def Let_def kept_before_def kept_after_def
      split: if_splits option.splits)

lemma selection_block_fields:
  assumes "modeLocked s \<noteq> []" and "scopeKindLocked s = ''partial_selection''"
    and "SelectionBlockMutationAllowed unesc (Some s) block"
  shows "SelectionMutationAllowed unesc (Some s) (rb_ID block) (rb_Content block)
    \<and> rb_Title block = es_TargetBlockTitle s
    \<and> trim_space (rb_ChartID block) = trim_space (es_TargetBlockChartID s)
    \<and> rb_Sources block = es_TargetBlockSources s"
  using assms
  by (auto simp: SelectionBlockMutationAllowed_def evidenceRefsEqual_def list.rel_eq split: if_splits)

definition sample_selection :: report_edit_state where
  "sample_selection = empty_edit\<lparr>es_Mode := ''revise_selection'', es_TargetBlockID := ''b'',
     es_SelectionText := ''X'', es_SelectionStart := 1, es_SelectionEnd := 2,
     es_SelectionRangeSet := True, es_TargetBlockContent := ''aXa'', es_PreserveOtherBlocks := True\<rparr>"

definition sample_edit :: "string \<Rightarrow> report_block" where
  "sample_edit c = \<lparr>rb_ID = ''b'', rb_Kind = [], rb_Title = [], rb_Content = c, rb_ChartID = [],
     rb_Sources = []\<rparr>"

lemmas trim_eval = trim_space_plain plain_head_def plain_last_def ws_seqs_def

lemma sample_scope:
  "modeLocked sample_selection \<noteq> []"
  "scopeKindLocked sample_selection = ''partial_selection''"
  by (simp_all add: sample_selection_def empty_edit_def modeLocked_def scopeKindLocked_def trim_eval
      to_lower_def lower_char_def)

lemma sample_runes: "of_runes [88] = ''X''" "of_runes [97] = ''a''" "of_runes [] = []"
  by (simp_all add: of_runes_def encode_rune_def char_of_def bit_simps)

lemma sample_bounds:
  "selectionBoundsFromProjectedText (\<lambda>x. x) sample_selection ''aXa'' = Some (1, 2)"
  by (simp add: selectionBoundsFromProjectedText_def sample_selection_def empty_edit_def
      projectReportContentText_def project_from.simps ascii_runes ascii_def Let_def
      isMarkdownSyntaxRune_def projected_one_def decodeHTMLEntityAt_def projectedText_def
      normalizeSelectionCompareText_def normalizeSelectionCompareTextWithMap_def is_space_rune_def
      projectedRawBounds_def sample_runes trim_eval)

lemma sample_allowed:
  "SelectionBlockMutationAllowed (\<lambda>x. x) (Some sample_selection) (sample_edit ''aYYa'')"
  "SelectionBlockMutationAllowed (\<lambda>x. x) (Some sample_selection) (sample_edit ''a'')"
  using sample_scope sample_bounds
  by (simp_all add: SelectionBlockMutationAllowed_def SelectionMutationAllowed_def Let_def
      sample_edit_def evidenceRefsEqual_def)
    (simp_all add: sample_selection_def empty_edit_def ascii_runes ascii_def sample_runes trim_eval
      suffix_def)

section \<open>Properties\<close>

text \<open>
  An edit that the selection guard lets through under a selection scope: the selection denotes
  a proper range of the block's original content, measured in code points (so neither slice of
  \<open>SelectionMutationAllowed\<close> is out of range); the new content begins with what preceded
  the range and ends with what followed it, and, unless it is shorter than the two together,
  differs from the original only inside the range; title, chart and sources are unchanged.
\<close>

theorem selection_edit_protects_rest:
  assumes "modeLocked s \<noteq> []" and "scopeKindLocked s = ''partial_selection''"
    and "SelectionBlockMutationAllowed unesc (Some s) block"
  shows "\<exists>start e.
    selectionBoundsFromProjectedText unesc s (es_TargetBlockContent s) = Some (start, e)
    \<and> start < e \<and> e \<le> length (runes (es_TargetBlockContent s))
    \<and> prefix (kept_before s start) (rb_Content block)
    \<and> suffix (kept_after s e) (rb_Content block)
    \<and> (length (kept_before s start) + length (kept_after s e) \<le> length (rb_Content block)
        \<longrightarrow> (\<exists>mid. rb_Content block = kept_before s start @ mid @ kept_after s e))
    \<and> trim_space (rb_ID block) = trim_space (es_TargetBlockID s)
    \<and> rb_Title block = es_TargetBlockTitle s
    \<and> trim_space (rb_ChartID block) = trim_space (es_TargetBlockChartID s)
    \<and> rb_Sources block = es_TargetBlockSources s"
proof -
  note flds = selection_block_fields [OF assms]
  then obtain start e where b:
    "selectionBoundsFromProjectedText unesc s (es_TargetBlockContent s) = Some (start, e)"
    "prefix (kept_before s start) (rb_Content block)" "suffix (kept_after s e) (rb_Content block)"
    and i: "trim_space (rb_ID block) = trim_space (es_TargetBlockID s)"
    using selection_allowed_bounds [OF assms(1,2)] by meson
  show ?thesis
    by (intro exI [of _ start] exI [of _ e])
      (simp add: flds i b selection_bounds [OF b(1)] prefix_suffix_split [OF b(2,3)])
qed

theorem selection_edit_protects_rest_witness:
  "\<exists>start e. prefix (kept_before sample_selection start) ''aYYa'' \<and> start < e \<and>
     suffix (kept_after sample_selection e) ''aYYa''"
  using selection_edit_protects_rest [OF sample_scope sample_allowed(1)]
  by (auto simp: sample_edit_def)

text \<open>
  The guard compares the new content with the kept parts by prefix and suffix only, and lets
  the two overlap: with the middle of \<open>aXa\<close> selected, the new content \<open>a\<close> is accepted although
  one of the two protected letters is gone.
\<close>

theorem selection_guard_overlap:
  "\<exists>s block start e. modeLocked s \<noteq> [] \<and> scopeKindLocked s = ''partial_selection''
     \<and> SelectionBlockMutationAllowed (\<lambda>x. x) (Some s) block
     \<and> selectionBoundsFromProjectedText (\<lambda>x. x) s (es_TargetBlockContent s) = Some (start, e)
     \<and> (\<nexists>mid. rb_Content block = kept_before s start @ mid @ kept_after s e)"
proof (intro exI conjI)
  show "selectionBoundsFromProjectedText (\<lambda>x. x) sample_selection
          (es_TargetBlockContent sample_selection) = Some (1, 2)"
    using sample_bounds by (simp add: sample_selection_def)
  show "\<nexists>mid. rb_Content (sample_edit ''a'') = kept_before sample_selection 1 @ mid
                @ kept_after sample_selection 2"
    by (simp add: kept_before_def kept_after_def sample_selection_def sample_edit_def
        ascii_runes ascii_def sample_runes)
qed (rule sample_scope sample_allowed)+

end
