(* ===== verification/Agent_History.thy ===== *)
theory Agent_History
  imports Agent_Types Go_Utf8
begin

text \<open>
  The conversation history of the agent engine (\<open>server/agent/engine.go\<close>, \<open>stringutil.go\<close>,
  \<open>llm_types.go\<close>, \<open>prompt_bundle.go\<close>): how messages are summarised into a digest, where a
  history may be cut, what of a tool call is kept, and how an answer of the user is written
  back. \<open>json.Unmarshal\<close> into a map, into a value and into the two structs used here (title and
  author; an optional \<open>ok\<close>), \<open>json.Marshal\<close> and the verb \<open>%g\<close> are the parameters collected in the
  record \<open>codec\<close>; nothing is assumed of them unless stated.
\<close>

section \<open>Data\<close>

record codec =
  parse_object :: "string \<Rightarrow> (string \<times> json) list option"
  parse_value :: "string \<Rightarrow> json option"
  parse_finalize :: "string \<Rightarrow> (string \<times> string) option"
  parse_ok :: "string \<Rightarrow> bool option option"
  marshal :: "json \<Rightarrow> string"
  print_g :: "rat \<Rightarrow> string"

record llm_tool_call =
  tc_ID :: string
  tc_Type :: string
  tc_Name :: string
  tc_Arguments :: string

record llm_message =
  lm_Role :: string
  lm_Content :: string
  lm_ReasoningContent :: string
  lm_ToolCalls :: "llm_tool_call list"

record llm_choice =
  lc_Message :: llm_message
  lc_FinishReason :: string

record llm_response =
  lr_Choices :: "llm_choice list"
  lr_PromptTokens :: int
  lr_CompletionTokens :: int

record conversation_item =
  ci_Role :: string
  ci_Content :: string
  ci_ReasoningContent :: string
  ci_ToolCalls :: "llm_tool_call list"
  ci_ToolCallID :: string

record runtime_context_block =
  rc_Name :: string
  rc_Role :: string
  rc_Content :: string

record prompt_bundle =
  pb_Policy :: string
  pb_PolicyAppendix :: string
  pb_Task :: string
  pb_RuntimeContext :: "runtime_context_block list"
  pb_History :: "conversation_item list"

record engine =
  en_policy :: string
  en_history :: "conversation_item list"
  en_contextDigest :: string

definition LLMRoleUser :: string where "LLMRoleUser = ''user''"
definition LLMRoleAssistant :: string where "LLMRoleAssistant = ''assistant''"
definition LLMRoleTool :: string where "LLMRoleTool = ''tool''"
definition LLMFinishReasonStop :: string where "LLMFinishReasonStop = ''stop''"

lemmas role_defs = LLMRoleUser_def LLMRoleAssistant_def LLMRoleTool_def LLMFinishReasonStop_def

definition contextCompactTriggerTokens :: int where
  "contextCompactTriggerTokens = 128000 * 9 div 10"

definition recentContextWindow :: nat where
  "recentContextWindow = 12"

definition historyDigestPrefix :: string where
  "historyDigestPrefix = ''=== History Digest ===''"

definition maxDigestBulletCount :: nat where
  "maxDigestBulletCount = 24"

definition user_item :: "string \<Rightarrow> conversation_item" where
  "user_item c = \<lparr>ci_Role = LLMRoleUser, ci_Content = c, ci_ReasoningContent = [],
     ci_ToolCalls = [], ci_ToolCallID = []\<rparr>"

definition assistant_item :: "string \<Rightarrow> string \<Rightarrow> conversation_item" where
  "assistant_item c r = \<lparr>ci_Role = LLMRoleAssistant, ci_Content = c, ci_ReasoningContent = r,
     ci_ToolCalls = [], ci_ToolCallID = []\<rparr>"

definition tool_item :: "string \<Rightarrow> string \<Rightarrow> conversation_item" where
  "tool_item i c = \<lparr>ci_Role = LLMRoleTool, ci_Content = c, ci_ReasoningContent = [],
     ci_ToolCalls = [], ci_ToolCallID = i\<rparr>"

section \<open>Text helpers\<close>

definition truncated_mark :: string where
  "truncated_mark = ''...(truncated)''"

definition clipText :: "string \<Rightarrow> nat \<Rightarrow> string" where
  "clipText input mx =
     (let s = trim_space input; rs = runes s
      in if s = [] \<or> mx = 0 then s
         else if length rs \<le> mx then s else of_runes (take mx rs) @ truncated_mark)"

text \<open>A nonblank string member of a decoded object.\<close>

definition str_member :: "(string \<times> json) list \<Rightarrow> string \<Rightarrow> string option" where
  "str_member payload key =
     (case map_of payload key of
        Some (JStr v) \<Rightarrow> if trim_space v \<noteq> [] then Some v else None
      | _ \<Rightarrow> None)"

fun first_some :: "('a \<Rightarrow> 'b option) \<Rightarrow> 'a list \<Rightarrow> 'b option" where
  "first_some f [] = None"
| "first_some f (x # xs) = (case f x of Some y \<Rightarrow> Some y | None \<Rightarrow> first_some f xs)"

definition last_paragraph :: "string \<Rightarrow> string option" where
  "last_paragraph s = find (\<lambda>p. p \<noteq> []) (rev (map trim_space (split_on (CHR 0x0A) s)))"

definition digestSummary :: "codec \<Rightarrow> string \<Rightarrow> nat \<Rightarrow> string" where
  "digestSummary cd input mx =
     (let trimmed = trim_space input
      in if trimmed = [] then []
         else
           let semantic =
                 (if hd trimmed = CHR ''{''
                  then (case parse_object cd trimmed of
                          None \<Rightarrow> None
                        | Some payload \<Rightarrow>
                            first_some (str_member payload) [''ui_summary'', ''message'', ''result''])
                  else None)
           in case semantic of
                Some v \<Rightarrow> trim_space v
              | None \<Rightarrow>
                  (case last_paragraph trimmed of
                     Some para \<Rightarrow>
                       let rs = runes para
                       in if mx > 0 \<and> length rs > mx then of_runes (take mx rs) @ truncated_mark
                          else para
                   | None \<Rightarrow> clipText trimmed mx))"

section \<open>Digest of a tool result\<close>

definition bool_text :: "bool \<Rightarrow> string" where
  "bool_text b = (if b then ''true'' else ''false'')"

text \<open>
  A number decoded into an interface is a \<open>float64\<close>. The conversion to \<open>int64\<close> and back is the
  identity on integers of that range.
\<close>

definition int64_value :: "rat \<Rightarrow> bool" where
  "int64_value q \<longleftrightarrow> q = of_int \<lfloor>q\<rfloor> \<and> - (2 ^ 63) \<le> \<lfloor>q\<rfloor> \<and> \<lfloor>q\<rfloor> < 2 ^ 63"

definition formatSummaryField :: "codec \<Rightarrow> string \<Rightarrow> json \<Rightarrow> string" where
  "formatSummaryField cd key v =
     (case v of
        JStr s \<Rightarrow> if trim_space s = [] then [] else key @ ''='' @ trim_space s
      | JBool b \<Rightarrow> key @ ''='' @ bool_text b
      | JNum q \<Rightarrow> if int64_value q then key @ ''='' @ itoa \<lfloor>q\<rfloor> else key @ ''='' @ print_g cd q
      | _ \<Rightarrow> [])"

definition summary_keys :: "string list" where
  "summary_keys =
     [''error_code'', ''action'', ''status'', ''memory_key'', ''table_name'', ''row_count'',
      ''table_count'', ''file_count'', ''fact_count'', ''goal_count'', ''goal_id'',
      ''active_branch_count'', ''active_roots'', ''affects_report_delivery'', ''run_status'',
      ''child_run_status'', ''child_result'', ''block_count'', ''chart_count'', ''delivery_state'',
      ''finalize_issue_count'', ''target_block_id'', ''child_run_id'', ''delegate_role'',
      ''report_title'']"

definition buildStructuredToolSummary :: "codec \<Rightarrow> (string \<times> json) list \<Rightarrow> string" where
  "buildStructuredToolSummary cd payload =
     join '', ''
       ((case str_member payload ''tool'' of Some t \<Rightarrow> [''tool='' @ trim_space t] | None \<Rightarrow> [])
        @ (case map_of payload ''ok'' of Some (JBool b) \<Rightarrow> [''ok='' @ bool_text b] | _ \<Rightarrow> [])
        @ filter (\<lambda>p. p \<noteq> [])
            (map (\<lambda>k. case map_of payload k of Some v \<Rightarrow> formatSummaryField cd k v | None \<Rightarrow> [])
              summary_keys))"

definition extractToolSummary :: "codec \<Rightarrow> string \<Rightarrow> string" where
  "extractToolSummary cd content =
     (let trimmed = trim_space content
      in if trimmed = [] then []
         else (case parse_object cd trimmed of
                 None \<Rightarrow> trimmed
               | Some payload \<Rightarrow>
                   if buildStructuredToolSummary cd payload \<noteq> []
                   then buildStructuredToolSummary cd payload
                   else (case first_some (str_member payload) [''result'', ''message'', ''ui_summary''] of
                           Some v \<Rightarrow> v
                         | None \<Rightarrow> (case map_of payload ''tool'' of
                                      Some (JStr t) \<Rightarrow> ''tool='' @ t
                                    | _ \<Rightarrow> trimmed))))"

definition summarizeMessageForDigest :: "codec \<Rightarrow> conversation_item \<Rightarrow> string" where
  "summarizeMessageForDigest cd msg =
     (if ci_Role msg = LLMRoleUser then
        (let text = digestSummary cd (ci_Content msg) 400
         in if text \<noteq> [] then ''user: '' @ text else [])
      else if ci_Role msg = LLMRoleAssistant then
        (let text = digestSummary cd (ci_Content msg) 400
         in join '' | ''
              ((if text \<noteq> [] then [''assistant: '' @ text] else [])
               @ (if ci_ToolCalls msg \<noteq> []
                  then [''tool calls: '' @ join '', '' (map tc_Name (ci_ToolCalls msg))] else [])))
      else if ci_Role msg = LLMRoleTool then
        (let summary = digestSummary cd (extractToolSummary cd (ci_Content msg)) 400
         in if summary \<noteq> [] then ''tool result: '' @ summary else [])
      else [])"

definition digest_bullets :: "codec \<Rightarrow> conversation_item list \<Rightarrow> string list" where
  "digest_bullets cd messages =
     (let bullets = map (\<lambda>t. ''- '' @ t) (filter (\<lambda>t. t \<noteq> []) (map (summarizeMessageForDigest cd) messages))
      in if length bullets > maxDigestBulletCount
         then take (maxDigestBulletCount - 1) bullets
                @ [''- Earlier execution details have been compacted.'']
         else bullets)"

definition digest_body :: "string \<Rightarrow> string" where
  "digest_body existing = trim_space (trim_prefix (trim_space existing) historyDigestPrefix)"

definition buildHistoryDigest :: "codec \<Rightarrow> string \<Rightarrow> conversation_item list \<Rightarrow> string" where
  "buildHistoryDigest cd existing messages =
     (let bullets = digest_bullets cd messages;
          parts = (if trim_space existing \<noteq> [] \<and> digest_body existing \<noteq> [] then [digest_body existing]
                   else [])
                  @ (if bullets \<noteq> [] then [join [CHR 0x0A] bullets] else [])
      in join [CHR 0x0A] parts)"

section \<open>Cutting the history\<close>

definition calls_tools :: "conversation_item \<Rightarrow> bool" where
  "calls_tools m \<longleftrightarrow> ci_Role m = LLMRoleAssistant \<and> ci_ToolCalls m \<noteq> []"

definition is_tool :: "conversation_item \<Rightarrow> bool" where
  "is_tool m \<longleftrightarrow> ci_Role m = LLMRoleTool"

definition plain_turn :: "conversation_item \<Rightarrow> bool" where
  "plain_turn m \<longleftrightarrow> ci_Role m = LLMRoleUser \<or> (ci_Role m = LLMRoleAssistant \<and> ci_ToolCalls m = [])"

text \<open>
  \<open>look_back P history n i\<close>: the backward loops of the code, at most \<open>n\<close> steps from index
  \<open>i - 1\<close> down to 0.
\<close>

fun look_back :: "(conversation_item \<Rightarrow> bool) \<Rightarrow> conversation_item list \<Rightarrow> nat \<Rightarrow> nat \<Rightarrow> nat option" where
  "look_back P history 0 i = None"
| "look_back P history (Suc n) 0 = None"
| "look_back P history (Suc n) (Suc i) =
     (if P (history ! i) then Some i else look_back P history n i)"

definition result_count :: "conversation_item list \<Rightarrow> nat \<Rightarrow> nat" where
  "result_count history i =
     length (takeWhile is_tool (take (length (ci_ToolCalls (history ! i))) (drop (i + 1) history)))"

definition adjustCompactionBoundary :: "conversation_item list \<Rightarrow> nat \<Rightarrow> nat" where
  "adjustCompactionBoundary history boundary =
     (if boundary = 0 \<or> boundary \<ge> length history then boundary
      else if is_tool (history ! boundary)
      then (case look_back calls_tools history 10 boundary of
              None \<Rightarrow> boundary
            | Some i \<Rightarrow>
                if result_count history i < length (ci_ToolCalls (history ! i))
                then (case look_back plain_turn history 5 i of Some k \<Rightarrow> k + 1 | None \<Rightarrow> i)
                else i)
      else boundary)"

definition compact_at :: "conversation_item list \<Rightarrow> int \<Rightarrow> nat option" where
  "compact_at history promptTokens =
     (if length history \<le> 1 \<or> promptTokens \<le> 0 \<or> promptTokens \<le> contextCompactTriggerTokens
         \<or> length history \<le> recentContextWindow
      then None
      else Some (adjustCompactionBoundary history (length history - recentContextWindow)))"

definition compactMessagesLocked :: "codec \<Rightarrow> engine \<Rightarrow> int \<Rightarrow> engine" where
  "compactMessagesLocked cd e promptTokens =
     (case compact_at (en_history e) promptTokens of
        None \<Rightarrow> e
      | Some n \<Rightarrow>
          let digest = buildHistoryDigest cd (en_contextDigest e) (take n (en_history e))
          in if digest = [] then e
             else e\<lparr>en_contextDigest := digest, en_history := drop n (en_history e)\<rparr>)"

definition set_digest :: "string \<Rightarrow> runtime_context_block list \<Rightarrow> runtime_context_block list" where
  "set_digest digest blocks =
     (case find_index (\<lambda>b. rc_Name b = ''digest'') blocks of
        Some i \<Rightarrow>
          let b = blocks ! i
          in blocks[i := b\<lparr>rc_Content := digest,
                           rc_Role := (if trim_space (rc_Role b) = [] then ''user'' else rc_Role b)\<rparr>]
      | None \<Rightarrow> blocks @ [\<lparr>rc_Name = ''digest'', rc_Role = ''user'', rc_Content = digest\<rparr>])"

definition compactWorkerBundle :: "codec \<Rightarrow> prompt_bundle \<Rightarrow> int \<Rightarrow> prompt_bundle" where
  "compactWorkerBundle cd bundle promptTokens =
     (case compact_at (pb_History bundle) promptTokens of
        None \<Rightarrow> bundle
      | Some n \<Rightarrow>
          let existing = (case filter (\<lambda>b. rc_Name b = ''digest'') (pb_RuntimeContext bundle) of
                            [] \<Rightarrow> [] | bs \<Rightarrow> rc_Content (last bs));
              digest = buildHistoryDigest cd existing (take n (pb_History bundle))
          in if digest = [] then bundle
             else bundle\<lparr>pb_RuntimeContext := set_digest digest (pb_RuntimeContext bundle),
                         pb_History := drop n (pb_History bundle)\<rparr>)"

definition ResetMessages :: "engine \<Rightarrow> engine" where
  "ResetMessages e = e\<lparr>en_history := [], en_contextDigest := []\<rparr>"

definition RestoreHistory :: "engine \<Rightarrow> conversation_item list \<Rightarrow> engine" where
  "RestoreHistory e history = (if en_history e = [] then e\<lparr>en_history := history\<rparr> else e)"

section \<open>What of a tool call is kept\<close>

definition compactToolArguments :: "codec \<Rightarrow> string \<Rightarrow> string \<Rightarrow> string" where
  "compactToolArguments cd toolName raw =
     (if trim_space raw = [] then raw
      else if toolName = ''report_finalize''
      then (case parse_finalize cd raw of
              None \<Rightarrow> raw
            | Some (reportTitle, author) \<Rightarrow>
                marshal cd (JObj [(''author'', JStr author), (''report_title'', JStr reportTitle)]))
      else raw)"

definition compactAssistantMessage :: "codec \<Rightarrow> llm_message \<Rightarrow> conversation_item" where
  "compactAssistantMessage cd m =
     \<lparr>ci_Role = lm_Role m, ci_Content = lm_Content m, ci_ReasoningContent = lm_ReasoningContent m,
      ci_ToolCalls = map (\<lambda>c. c\<lparr>tc_Arguments := compactToolArguments cd (tc_Name c) (tc_Arguments c)\<rparr>)
                       (lm_ToolCalls m),
      ci_ToolCallID = []\<rparr>"

definition stripHistorySummaryFields :: "(string \<times> json) list \<Rightarrow> (string \<times> json) list" where
  "stripHistorySummaryFields payload = filter (\<lambda>(k, v). k \<noteq> ''ui_summary'') payload"

text \<open>Assignment to a key of a decoded object.\<close>

definition obj_put :: "string \<Rightarrow> json \<Rightarrow> (string \<times> json) list \<Rightarrow> (string \<times> json) list" where
  "obj_put k v kvs = (k, v) # filter (\<lambda>(k', _). k' \<noteq> k) kvs"

definition queryCompactRowThreshold :: nat where "queryCompactRowThreshold = 20"
definition queryCompactKeepRows :: nat where "queryCompactKeepRows = 10"

definition row_number :: "string \<Rightarrow> json \<Rightarrow> rat list" where
  "row_number col row =
     (case row of
        JObj kvs \<Rightarrow> (case map_of kvs col of Some (JNum q) \<Rightarrow> [q] | _ \<Rightarrow> [])
      | _ \<Rightarrow> [])"

fun min_max :: "rat list \<Rightarrow> (rat \<times> rat) option" where
  "min_max [] = None"
| "min_max (q # qs) = Some (foldl (\<lambda>(mn, mx) n. (if n < mn then n else mn, if n > mx then n else mx)) (q, q) qs)"

definition column_stats :: "json list \<Rightarrow> json \<Rightarrow> (string \<times> json) list" where
  "column_stats rows colRaw =
     (case colRaw of
        JStr col \<Rightarrow>
          (let nums = concat (map (row_number col) rows)
           in case min_max nums of
                None \<Rightarrow> []
              | Some (mn, mx) \<Rightarrow>
                  [(col, JObj [(''count'', JInt (int (length nums))), (''max'', JNum mx), (''min'', JNum mn)])])
      | _ \<Rightarrow> [])"

definition buildColumnStats :: "json list \<Rightarrow> json list \<Rightarrow> (string \<times> json) list" where
  "buildColumnStats columns rows =
     foldl (\<lambda>stats kv. obj_put (fst kv) (snd kv) stats) [] (concat (map (column_stats rows) columns))"

definition compact_query_payload :: "(string \<times> json) list \<Rightarrow> (string \<times> json) list" where
  "compact_query_payload payload =
     (let cloned = stripHistorySummaryFields payload
      in case map_of cloned ''rows'' of
           Some (JArr rows) \<Rightarrow>
             if length rows \<le> queryCompactRowThreshold then cloned
             else
               let c1 = obj_put ''_row_count'' (JInt (int (length rows))) cloned;
                   c2 = obj_put ''_original_row_count''
                          (case map_of c1 ''row_count'' of Some v \<Rightarrow> v | None \<Rightarrow> JNull) c1;
                   c3 = obj_put ''row_count'' (JInt (int queryCompactKeepRows)) c2;
                   c4 = (case map_of c3 ''columns'' of
                           Some (JArr columns) \<Rightarrow>
                             let stats = buildColumnStats columns rows
                             in if stats \<noteq> [] then obj_put ''column_stats'' (JObj stats) c3 else c3
                         | _ \<Rightarrow> c3);
                   c5 = obj_put ''rows'' (JArr (take queryCompactKeepRows rows)) c4;
                   c6 = obj_put ''_truncated'' (JBool True) c5
               in obj_put ''_note''
                    (JStr ''result truncated for history context; full result is saved in traces.'') c6
         | _ \<Rightarrow> cloned)"

definition compactQueryResult :: "codec \<Rightarrow> (string \<times> json) list \<Rightarrow> string" where
  "compactQueryResult cd payload = marshal cd (JObj (compact_query_payload payload))"

definition traceCount :: "json option \<Rightarrow> int" where
  "traceCount v = (case v of Some (JArr items) \<Rightarrow> int (length items) | _ \<Rightarrow> 0)"

text \<open>\<open>int(count)\<close> truncates towards zero.\<close>

definition delegateTraceCount :: "(string \<times> json) list \<Rightarrow> int" where
  "delegateTraceCount payload =
     (case map_of payload ''trace_count'' of
        Some (JNum q) \<Rightarrow> (if q \<ge> 0 then \<lfloor>q\<rfloor> else \<lceil>q\<rceil>)
      | _ \<Rightarrow> traceCount (map_of payload ''trace''))"

definition member_or_null :: "(string \<times> json) list \<Rightarrow> string \<Rightarrow> json" where
  "member_or_null payload k = (case map_of payload k of Some v \<Rightarrow> v | None \<Rightarrow> JNull)"

definition compactToolResult :: "codec \<Rightarrow> string \<Rightarrow> string \<Rightarrow> string" where
  "compactToolResult cd toolName res =
     (let trimmed = trim_space res
      in if trimmed = [] then res
         else
           (case parse_object cd trimmed of
              None \<Rightarrow> if toolName = ''data_list_tables'' then join '' '' (str_fields trimmed) else res
            | Some payload \<Rightarrow>
                if toolName = ''data_query_sql'' then compactQueryResult cd payload
                else if toolName = ''data_describe_table'' \<or> toolName = ''code_run_python''
                        \<or> toolName = ''data_list_tables''
                then marshal cd (JObj (stripHistorySummaryFields payload))
                else if toolName = ''task_delegate''
                then marshal cd (JObj
                  [(''allowed_tools'', member_or_null payload ''allowed_tools''),
                   (''child_result'', member_or_null payload ''child_result''),
                   (''child_run_id'', member_or_null payload ''child_run_id''),
                   (''delegate_role'', member_or_null payload ''delegate_role''),
                   (''goal_id'', member_or_null payload ''goal_id''),
                   (''ok'', member_or_null payload ''ok''),
                   (''tool'', member_or_null payload ''tool''),
                   (''trace_count'', JInt (delegateTraceCount payload))])
                else res))"

definition toolCallSucceeded :: "codec \<Rightarrow> string \<Rightarrow> string option \<Rightarrow> bool" where
  "toolCallSucceeded cd res execErr =
     (if execErr \<noteq> None then False
      else (case parse_ok cd (trim_space res) of Some (Some b) \<Rightarrow> b | _ \<Rightarrow> True))"

definition isSuccessfulFinalizeResult :: "codec \<Rightarrow> string \<Rightarrow> bool" where
  "isSuccessfulFinalizeResult cd res =
     (let trimmed = trim_space res
      in if trimmed = [] then False
         else (case parse_object cd trimmed of
                 None \<Rightarrow> False
               | Some payload \<Rightarrow>
                   map_of payload ''tool'' = Some (JStr ''report_finalize'')
                   \<and> map_of payload ''ok'' = Some (JBool True)
                   \<and> map_of payload ''is_finalized'' = Some (JBool True)
                   \<and> (case map_of payload ''delivery_state'' of
                        Some (JStr d) \<Rightarrow> equal_fold (trim_space d) ''finalized'' | _ \<Rightarrow> False)))"

section \<open>Answers of the user\<close>

definition ask_user_payload :: "codec \<Rightarrow> string \<Rightarrow> json" where
  "ask_user_payload cd userResponse =
     (let trimmed = trim_space userResponse;
          parsed = (if trimmed \<noteq> [] then parse_value cd trimmed else None)
      in JObj [(''ok'', JBool True),
               (''response'', case parsed of Some v \<Rightarrow> v | None \<Rightarrow> JStr trimmed),
               (''response_json'', JBool (parsed \<noteq> None)),
               (''response_text'', JStr trimmed),
               (''tool'', JStr ''user_request_input''),
               (''ui_summary'', JStr ''User input received.'')])"

definition buildAskUserToolResult :: "codec \<Rightarrow> string \<Rightarrow> string" where
  "buildAskUserToolResult cd userResponse = marshal cd (ask_user_payload cd userResponse)"

definition ask_ids :: "conversation_item \<Rightarrow> string list" where
  "ask_ids m = (if calls_tools m
                then map tc_ID (filter (\<lambda>c. tc_Name c = ''user_request_input'') (ci_ToolCalls m)) else [])"

text \<open>The ids asked for by the last message that asks the user anything.\<close>

definition pending_ids :: "conversation_item list \<Rightarrow> string list" where
  "pending_ids history =
     (case find (\<lambda>m. ask_ids m \<noteq> []) (rev history) of Some m \<Rightarrow> ask_ids m | None \<Rightarrow> [])"

definition has_result :: "conversation_item list \<Rightarrow> string \<Rightarrow> bool" where
  "has_result history i \<longleftrightarrow> (\<exists>m \<in> set history. is_tool m \<and> ci_ToolCallID m = i)"

definition answer_step :: "codec \<Rightarrow> string \<Rightarrow> conversation_item list \<Rightarrow> string \<Rightarrow> conversation_item list" where
  "answer_step cd userResponse history i =
     (if has_result history i then history
      else history @ [tool_item i (buildAskUserToolResult cd userResponse)])"

definition ProvideAskUserResult :: "codec \<Rightarrow> engine \<Rightarrow> string \<Rightarrow> string option \<times> engine" where
  "ProvideAskUserResult cd e userResponse =
     (let ids = pending_ids (en_history e)
      in if ids = [] then (Some ''no pending user_request_input tool call found'', e)
         else
           let history = foldl (answer_step cd userResponse) (en_history e) ids
           in if history = en_history e
              then (Some ''all user_request_input calls already have results'', e)
              else (None, e\<lparr>en_history := history\<rparr>))"

section \<open>Lemmas\<close>

text \<open>
  Every tool result belongs to a call: walking back from it over at most \<open>n - 1\<close> other results
  one reaches an assistant message that calls tools. Providers of chat models refuse a history
  in which this does not hold.
\<close>

definition grouped :: "nat \<Rightarrow> conversation_item list \<Rightarrow> bool" where
  "grouped n h \<longleftrightarrow> (\<forall>i < length h. is_tool (h ! i) \<longrightarrow>
     (\<exists>c < i. i - c \<le> n \<and> calls_tools (h ! c) \<and> (\<forall>j. c < j \<and> j \<le> i \<longrightarrow> is_tool (h ! j))))"

lemma calls_not_tool: "calls_tools m \<Longrightarrow> \<not> is_tool m"
  by (simp add: calls_tools_def is_tool_def role_defs)

lemma plain_not: "plain_turn m \<Longrightarrow> \<not> is_tool m \<and> \<not> calls_tools m"
  by (auto simp: plain_turn_def calls_tools_def is_tool_def role_defs)

lemma look_back_Some:
  "look_back P h n i = Some k \<Longrightarrow> k < i \<and> i - k \<le> n \<and> P (h ! k)"
  by (induction P h n i rule: look_back.induct) (auto split: if_splits)

lemma look_back_finds:
  "c < i \<Longrightarrow> i - c \<le> n \<Longrightarrow> P (h ! c) \<Longrightarrow> look_back P h n i \<noteq> None"
proof (induction P h n i rule: look_back.induct)
  case (3 P h n i)
  then show ?case by (cases "c = i") auto
qed auto

lemma grouped_cut:
  assumes "grouped n h" "m < length h \<Longrightarrow> \<not> is_tool (h ! m)"
  shows "grouped n (drop m h)"
  unfolding grouped_def
proof (intro allI impI)
  fix i assume i: "i < length (drop m h)" "is_tool (drop m h ! i)"
  then have t: "m + i < length h" "is_tool (h ! (m + i))" by auto
  then obtain c where c: "c < m + i" "m + i - c \<le> n" "calls_tools (h ! c)"
    "\<forall>j. c < j \<and> j \<le> m + i \<longrightarrow> is_tool (h ! j)"
    using assms(1) unfolding grouped_def by blast
  have "m \<le> c" using c(4) assms(2) t(1) by (metis le_add1 less_le_trans not_le add_lessD1)
  then show "\<exists>c < i. i - c \<le> n \<and> calls_tools (drop m h ! c)
      \<and> (\<forall>j. c < j \<and> j \<le> i \<longrightarrow> is_tool (drop m h ! j))"
    using c t(1) by (intro exI [of _ "c - m"]) auto
qed

lemma adjust_le: "adjustCompactionBoundary h b \<le> b"
  by (auto simp: adjustCompactionBoundary_def dest!: look_back_Some split: option.splits)

lemma adjust_not_tool:
  assumes g: "grouped 10 h" and b: "0 < b" "b < length h"
  shows "\<not> is_tool (h ! adjustCompactionBoundary h b)"
proof (cases "is_tool (h ! b)")
  case True
  with g b obtain c where "c < b" "b - c \<le> 10" "calls_tools (h ! c)" by (auto simp: grouped_def)
  then obtain i where i: "look_back calls_tools h 10 b = Some i"
    using look_back_finds by blast
  note ib = look_back_Some [OF i]
  have plain: "\<not> is_tool (h ! Suc k)" if "look_back plain_turn h 5 i = Some k" for k
  proof
    assume t: "is_tool (h ! Suc k)"
    note kb = look_back_Some [OF that]
    with t g ib b obtain c where c: "c < Suc k" "calls_tools (h ! c)"
      "\<forall>j. c < j \<and> j \<le> Suc k \<longrightarrow> is_tool (h ! j)"
      unfolding grouped_def by (meson Suc_leI le_less_trans less_trans)
    then have "c = k \<or> is_tool (h ! k)" by (metis le_SucI less_Suc_eq order_refl)
    with c kb plain_not [of "h ! k"] show False by auto
  qed
  show ?thesis
    using True i b ib calls_not_tool plain
    by (auto simp: adjustCompactionBoundary_def split: option.split)
qed (use b in \<open>simp add: adjustCompactionBoundary_def\<close>)

lemma compact_at_Some:
  assumes "compact_at h t = Some n"
  shows "recentContextWindow < length h \<and> n \<le> length h - recentContextWindow
    \<and> contextCompactTriggerTokens < t"
  using assms adjust_le [of h "length h - recentContextWindow"]
  by (auto simp: compact_at_def split: if_splits)

lemma compact_at_not_tool:
  assumes "grouped 10 h" "compact_at h t = Some n"
  shows "\<not> is_tool (h ! n)"
proof -
  have "n = adjustCompactionBoundary h (length h - recentContextWindow)"
    "0 < length h - recentContextWindow" "length h - recentContextWindow < length h"
    using assms(2) compact_at_Some [OF assms(2)]
    by (auto simp: compact_at_def recentContextWindow_def split: if_splits)
  then show ?thesis using adjust_not_tool [OF assms(1)] by simp
qed

lemma compact_at_grouped:
  assumes "grouped 10 h" "compact_at h t = Some n"
  shows "grouped 10 (drop n h)"
  by (rule grouped_cut [OF assms(1)]) (rule compact_at_not_tool [OF assms])

lemma digest_bullets_bounded: "length (digest_bullets cd ms) \<le> maxDigestBulletCount"
  by (simp add: digest_bullets_def Let_def maxDigestBulletCount_def)

lemma join_nonempty: "b \<noteq> [] \<Longrightarrow> join sep (b # bs) \<noteq> []"
  by (cases bs) auto

lemma bullet_nonempty: "b \<in> set (digest_bullets cd ms) \<Longrightarrow> b \<noteq> []"
  by (auto simp: digest_bullets_def Let_def split: if_splits dest: in_set_takeD)

lemma digest_nonempty: "digest_bullets cd ms \<noteq> [] \<Longrightarrow> buildHistoryDigest cd existing ms \<noteq> []"
proof -
  assume ne: "digest_bullets cd ms \<noteq> []"
  then obtain b bs where b: "digest_bullets cd ms = b # bs" by (cases "digest_bullets cd ms") auto
  then have "join [CHR 0x0A] (digest_bullets cd ms) \<noteq> []"
    using bullet_nonempty [of b cd ms] join_nonempty by auto
  with ne show ?thesis by (simp add: buildHistoryDigest_def Let_def)
qed

subsection \<open>Answers\<close>

lemma answer_step_result: "has_result (answer_step cd r h i) i"
  by (simp add: answer_step_def has_result_def is_tool_def tool_item_def)

lemma answer_step_mono: "has_result h j \<Longrightarrow> has_result (answer_step cd r h i) j"
  by (auto simp: answer_step_def has_result_def)

lemma answers_mono: "has_result h j \<Longrightarrow> has_result (foldl (answer_step cd r) h ids) j"
  by (induction ids arbitrary: h) (simp_all add: answer_step_mono)

lemma answers_all: "i \<in> set ids \<Longrightarrow> has_result (foldl (answer_step cd r) h ids) i"
proof (induction ids arbitrary: h)
  case (Cons j ids)
  then show ?case by (cases "i = j") (simp_all add: answers_mono answer_step_result)
qed simp

lemma answers_append:
  "\<exists>js. foldl (answer_step cd r) h ids = h @ map (\<lambda>j. tool_item j (buildAskUserToolResult cd r)) js
     \<and> set js \<subseteq> set ids"
proof (induction ids arbitrary: h)
  case (Cons i ids)
  let ?js0 = "if has_result h i then [] else [i]"
  have 0: "answer_step cd r h i = h @ map (\<lambda>j. tool_item j (buildAskUserToolResult cd r)) ?js0"
    by (simp add: answer_step_def)
  obtain js where "foldl (answer_step cd r) (answer_step cd r h i) ids =
      answer_step cd r h i @ map (\<lambda>j. tool_item j (buildAskUserToolResult cd r)) js"
    "set js \<subseteq> set ids"
    using Cons by blast
  then show ?case unfolding foldl.simps 0 by (intro exI [of _ "?js0 @ js"]) auto
qed simp

lemma answers_idem: "\<forall>i \<in> set ids. has_result h i \<Longrightarrow> foldl (answer_step cd r) h ids = h"
  by (induction ids arbitrary: h) (auto simp: answer_step_def)

lemma pending_ids_tools: "(\<And>m. m \<in> set rs \<Longrightarrow> is_tool m) \<Longrightarrow> pending_ids (h @ rs) = pending_ids h"
proof -
  assume "\<And>m. m \<in> set rs \<Longrightarrow> is_tool m"
  then have "find (\<lambda>m. ask_ids m \<noteq> []) (rev rs @ xs) = find (\<lambda>m. ask_ids m \<noteq> []) xs" for xs
    by (induction rs rule: rev_induct) (auto simp: ask_ids_def dest: calls_not_tool)
  then show ?thesis by (simp add: pending_ids_def)
qed

lemma min_max_foldl:
  fixes a b mn mx :: rat
  assumes "foldl (\<lambda>(mn, mx) n. (if n < mn then n else mn, if n > mx then n else mx)) (a, b) qs = (mn, mx)"
    and "a \<le> b"
  shows "mn \<le> a \<and> b \<le> mx \<and> (\<forall>q \<in> set qs. mn \<le> q \<and> q \<le> mx)
    \<and> mn \<in> insert a (set qs) \<and> mx \<in> insert b (set qs)"
  using assms
proof (induction qs arbitrary: a b)
  case (Cons q qs)
  have le: "(if q < a then q else a) \<le> (if b < q then q else b)" using Cons.prems(2) by auto
  from Cons.IH [OF _ le] Cons.prems show ?case by (simp split: if_splits) (auto split: if_splits)
qed simp

lemma min_max_spec:
  "min_max qs = Some (mn, mx) \<Longrightarrow> mn \<in> set qs \<and> mx \<in> set qs \<and> (\<forall>q \<in> set qs. mn \<le> q \<and> q \<le> mx)"
  using min_max_foldl [of "hd qs" "hd qs" "tl qs" mn mx] by (cases qs) auto

lemma map_of_obj_put: "map_of (obj_put k v kvs) k' = (if k' = k then Some v else map_of kvs k')"
proof -
  have "map_of (filter (\<lambda>(a, _). a \<noteq> k) kvs) k' = (if k' = k then None else map_of kvs k')"
    by (induction kvs) auto
  then show ?thesis by (simp add: obj_put_def)
qed

lemma map_of_strip:
  "map_of (stripHistorySummaryFields p) k = (if k = ''ui_summary'' then None else map_of p k)"
  by (induction p) (auto simp: stripHistorySummaryFields_def)

section \<open>Properties\<close>

text \<open>
  Compaction of the main agent's history keeps it well grouped: if no tool result is more
  than ten messages away from the call it answers, then after compaction, whatever the token
  count, every tool result still has its call in the history, and the twelve most recent
  messages are always kept.
\<close>

theorem compaction_keeps_calls_with_results:
  assumes "grouped 10 (en_history e)"
  shows "grouped 10 (en_history (compactMessagesLocked cd e promptTokens))
    \<and> suffix (en_history (compactMessagesLocked cd e promptTokens)) (en_history e)
    \<and> min 12 (length (en_history e)) \<le> length (en_history (compactMessagesLocked cd e promptTokens))
    \<and> (promptTokens \<le> 115200 \<longrightarrow> compactMessagesLocked cd e promptTokens = e)"
proof (cases "compact_at (en_history e) promptTokens")
  case None
  then show ?thesis using assms by (simp add: compactMessagesLocked_def)
next
  case (Some n)
  have "grouped 10 (drop n (en_history e))" by (rule compact_at_grouped [OF assms Some])
  with assms Some compact_at_Some [OF Some] show ?thesis
    by (auto simp: compactMessagesLocked_def Let_def suffix_drop recentContextWindow_def
        contextCompactTriggerTokens_def)
qed

definition sample_codec :: codec where
  "sample_codec = \<lparr>parse_object = \<lambda>_. None, parse_value = \<lambda>_. None, parse_finalize = \<lambda>_. None,
     parse_ok = \<lambda>_. None, marshal = \<lambda>_. ''{}'', print_g = \<lambda>_. []\<rparr>"

definition sample_engine :: engine where
  "sample_engine = \<lparr>en_policy = [], en_history = [user_item ''hi''], en_contextDigest = []\<rparr>"

theorem compaction_keeps_calls_with_results_witness:
  "grouped 10 (en_history (compactMessagesLocked sample_codec sample_engine 200000))"
proof -
  have "grouped 10 (en_history sample_engine)"
    by (simp add: grouped_def sample_engine_def user_item_def is_tool_def role_defs)
  then show ?thesis using compaction_keeps_calls_with_results by blast
qed

text \<open>
  The bound of ten is needed: an assistant message with 22 parallel tool calls and their
  results is cut in the middle, and the history then starts with results whose call is gone.
\<close>

definition wide_history :: "conversation_item list" where
  "wide_history =
     [user_item ''hi'',
      (assistant_item [] [])\<lparr>ci_ToolCalls := replicate 22 \<lparr>tc_ID = ''c'', tc_Type = ''function'',
         tc_Name = ''data_query_sql'', tc_Arguments = ''{}''\<rparr>\<rparr>]
     @ replicate 22 (tool_item ''c'' ''ok'')"

lemma wide_history_tools: "2 \<le> i \<Longrightarrow> i < 24 \<Longrightarrow> is_tool (wide_history ! i)"
  by (simp add: wide_history_def nth_append is_tool_def tool_item_def)

lemma wide_history_length: "length wide_history = 24"
  by (simp add: wide_history_def)

lemma wide_history_cut: "compact_at wide_history 200000 = Some 12"
proof -
  have "look_back calls_tools wide_history 10 12 = None"
    using look_back_Some [of calls_tools wide_history 10 12] wide_history_tools calls_not_tool
    by (cases "look_back calls_tools wide_history 10 12") force+
  then show ?thesis
    by (simp add: compact_at_def wide_history_length contextCompactTriggerTokens_def recentContextWindow_def
        adjustCompactionBoundary_def wide_history_tools)
qed

theorem wide_call_orphans_results:
  "\<exists>e. grouped 22 (en_history e) \<and> is_tool (hd (en_history (compactMessagesLocked cd e 200000)))"
proof -
  let ?e = "\<lparr>en_policy = [], en_history = wide_history, en_contextDigest = []\<rparr>"
  have g: "grouped 22 wide_history"
    unfolding grouped_def
  proof (intro allI impI)
    fix i assume i: "i < length wide_history" "is_tool (wide_history ! i)"
    have "\<not> is_tool (wide_history ! 0)" "calls_tools (wide_history ! 1)"
      by (simp_all add: wide_history_def is_tool_def calls_tools_def user_item_def assistant_item_def role_defs)
    moreover have "i \<noteq> 0" "i \<noteq> 1" using i(2) calculation calls_not_tool by metis+
    ultimately show "\<exists>c < i. i - c \<le> 22 \<and> calls_tools (wide_history ! c)
        \<and> (\<forall>j. c < j \<and> j \<le> i \<longrightarrow> is_tool (wide_history ! j))"
      using i(1) by (intro exI [of _ 1]) (auto simp: wide_history_tools wide_history_length)
  qed
  have sub: "summarizeMessageForDigest cd (user_item ''hi'') = ''user: hi''"
    by (simp add: summarizeMessageForDigest_def user_item_def role_defs digestSummary_def Let_def
        last_paragraph_def trim_space_plain plain_head_def plain_last_def ws_seqs_def
        Go_Utf8.ascii_runes Go_Utf8.ascii_def)
  have "digest_bullets cd (take 12 wide_history) \<noteq> []"
    by (simp add: digest_bullets_def Let_def wide_history_def sub maxDigestBulletCount_def)
  then have "buildHistoryDigest cd [] (take 12 wide_history) \<noteq> []" by (rule digest_nonempty)
  then have "en_history (compactMessagesLocked cd ?e 200000) = drop 12 wide_history"
    by (simp add: compactMessagesLocked_def wide_history_cut Let_def)
  moreover have "hd (drop 12 wide_history) = wide_history ! 12"
    by (simp add: hd_drop_conv_nth wide_history_def)
  ultimately show ?thesis using g wide_history_tools [of 12] by (intro exI [of _ ?e]) simp
qed


definition asking_engine :: engine where
  "asking_engine = sample_engine\<lparr>en_history := [user_item ''hi'',
     (assistant_item [] [])\<lparr>ci_ToolCalls := [\<lparr>tc_ID = ''q'', tc_Type = ''function'',
        tc_Name = ''user_request_input'', tc_Arguments = ''{}''\<rparr>]\<rparr>]\<rparr>"

lemma asking_engine_answered:
  "\<exists>e'. ProvideAskUserResult cd asking_engine ''yes'' = (None, e')"
  by (simp add: ProvideAskUserResult_def asking_engine_def sample_engine_def Let_def pending_ids_def
      ask_ids_def calls_tools_def assistant_item_def user_item_def answer_step_def has_result_def
      is_tool_def role_defs)


text \<open>
  A large query result is shortened faithfully: of more than twenty rows the first ten are
  kept, the original number of rows is recorded, and the minimum and maximum reported for a
  column are values of that column that bound all of its numbers in the full result.
\<close>

theorem query_result_compaction_faithful:
  assumes "map_of payload ''rows'' = Some (JArr rows)" and "20 < length rows"
  shows "map_of (compact_query_payload payload) ''rows'' = Some (JArr (take 10 rows))
    \<and> map_of (compact_query_payload payload) ''_row_count'' = Some (JInt (int (length rows)))
    \<and> (\<forall>col mn mx. min_max (concat (map (row_number col) rows)) = Some (mn, mx) \<longrightarrow>
          column_stats rows (JStr col) =
            [(col, JObj [(''count'', JInt (int (length (concat (map (row_number col) rows))))),
                         (''max'', JNum mx), (''min'', JNum mn)])]
          \<and> (\<forall>q \<in> set (concat (map (row_number col) rows)). mn \<le> q \<and> q \<le> mx)
          \<and> {mn, mx} \<subseteq> set (concat (map (row_number col) rows)))"
proof (intro conjI allI impI)
  show "map_of (compact_query_payload payload) ''rows'' = Some (JArr (take 10 rows))"
    "map_of (compact_query_payload payload) ''_row_count'' = Some (JInt (int (length rows)))"
    using assms
    by (simp_all add: compact_query_payload_def map_of_strip queryCompactRowThreshold_def
        queryCompactKeepRows_def Let_def map_of_obj_put split: option.split json.split)
next
  fix col mn mx assume m: "min_max (concat (map (row_number col) rows)) = Some (mn, mx)"
  then show "column_stats rows (JStr col) =
            [(col, JObj [(''count'', JInt (int (length (concat (map (row_number col) rows))))),
                         (''max'', JNum mx), (''min'', JNum mn)])]"
    by (simp add: column_stats_def Let_def)
  show "\<forall>q \<in> set (concat (map (row_number col) rows)). mn \<le> q \<and> q \<le> mx"
    "{mn, mx} \<subseteq> set (concat (map (row_number col) rows))"
    using min_max_spec [OF m] by auto
qed

theorem query_result_compaction_faithful_witness:
  "map_of (compact_query_payload [(''rows'', JArr (replicate 21 JNull))]) ''rows''
     = Some (JArr (replicate 10 JNull))"
  using query_result_compaction_faithful [of "[(''rows'', JArr (replicate 21 JNull))]" "replicate 21 JNull"]
  by simp

end
