(* ===== verification/Session_Run.thy ===== *)
theory Session_Run
  imports Working_Memory Subgoals Report_Scope Agent_History
begin

text \<open>
  \<open>server/session/types.go\<close>: one analysis session and the life of its runs. Every method holds the
  session's mutex from its first to its last access, so the interleavings of concurrent callers
  are sequences of these operations. A cancel function is named by a number; an operation that
  calls it says so in its result. The clock and the UUID generator are arguments.
\<close>

section \<open>Data\<close>

record active_run =
  ar_RunID :: string
  ar_Status :: string
  ar_Cancel :: "nat option"
  ar_StartedAt :: int

record session =
  se_ID :: string
  se_WorkspaceID :: string
  se_UserID :: string
  se_Engine :: engine
  se_ReportState :: report_state
  se_EditState :: "report_edit_state option"
  se_Memory :: "working_memory option"
  se_Subgoals :: "subgoal_manager option"
  se_ActiveRun :: "active_run option"
  se_CreatedAt :: int
  se_LastSeenAt :: int

definition StatusWaiting :: string where "StatusWaiting = ''waiting_user_input''"
definition StatusCancelling :: string where "StatusCancelling = ''cancelling''"

text \<open>The fields of a new session; opening its database and loading its tools is not modelled.\<close>

definition New_Session :: "string \<Rightarrow> string \<Rightarrow> string \<Rightarrow> string \<Rightarrow> int \<Rightarrow> session" where
  "New_Session sid workspaceID userID policy now =
     \<lparr>se_ID = sid, se_WorkspaceID = workspaceID, se_UserID = userID,
      se_Engine = \<lparr>en_policy = policy, en_history = [], en_contextDigest = []\<rparr>,
      se_ReportState = empty_report, se_EditState = Some empty_edit,
      se_Memory = Some NewWorkingMemory, se_Subgoals = Some [], se_ActiveRun = None,
      se_CreatedAt = now, se_LastSeenAt = now\<rparr>"

definition Touch :: "int \<Rightarrow> session \<Rightarrow> session" where
  "Touch now s = s\<lparr>se_LastSeenAt := now\<rparr>"

section \<open>Runs\<close>

definition StartRun :: "int \<Rightarrow> string \<Rightarrow> nat \<Rightarrow> session \<Rightarrow> string result \<times> session" where
  "StartRun now uuid cancel s =
     (if se_ActiveRun s \<noteq> None
      then (Inl ''a task is still running or not yet cleaned up, please wait and try again after stopping'', s)
      else let runID = ''r_'' @ take 8 uuid
           in (Inr runID,
               s\<lparr>se_ActiveRun := Some \<lparr>ar_RunID = runID, ar_Status = StatusRunning,
                   ar_Cancel = Some cancel, ar_StartedAt = now\<rparr>, se_LastSeenAt := now\<rparr>))"

text \<open>Is \<open>runID\<close> the active run?\<close>

definition is_active :: "session \<Rightarrow> string \<Rightarrow> bool" where
  "is_active s runID = (case se_ActiveRun s of Some r \<Rightarrow> ar_RunID r = runID | None \<Rightarrow> False)"

definition FinishRun :: "int \<Rightarrow> string \<Rightarrow> string \<Rightarrow> session \<Rightarrow> bool \<times> session" where
  "FinishRun now runID status s =
     (if is_active s runID
      then (True, s\<lparr>se_ActiveRun := None, se_EditState := map_option EditState_Reset (se_EditState s),
                    se_LastSeenAt := now\<rparr>)
      else (False, s))"

definition set_run_status :: "string \<Rightarrow> session \<Rightarrow> session" where
  "set_run_status st s = s\<lparr>se_ActiveRun := map_option (\<lambda>r. r\<lparr>ar_Status := st\<rparr>) (se_ActiveRun s)\<rparr>"

definition SuspendRun :: "int \<Rightarrow> string \<Rightarrow> session \<Rightarrow> bool \<times> session" where
  "SuspendRun now runID s =
     (if is_active s runID then (True, (set_run_status StatusWaiting s)\<lparr>se_LastSeenAt := now\<rparr>)
      else (False, s))"

definition ResumeRun :: "int \<Rightarrow> string \<Rightarrow> session \<Rightarrow> session" where
  "ResumeRun now runID s =
     (if is_active s runID then set_run_status StatusRunning s else s)\<lparr>se_LastSeenAt := now\<rparr>"

definition UpdateCancelFunc :: "string \<Rightarrow> nat option \<Rightarrow> session \<Rightarrow> bool \<times> session" where
  "UpdateCancelFunc runID cancel s =
     (if is_active s runID
      then (True, s\<lparr>se_ActiveRun := map_option (\<lambda>r. r\<lparr>ar_Cancel := cancel\<rparr>) (se_ActiveRun s)\<rparr>)
      else (False, s))"

definition waiting :: "session \<Rightarrow> bool" where
  "waiting s = (case se_ActiveRun s of Some r \<Rightarrow> ar_Status r = StatusWaiting | None \<Rightarrow> False)"

definition GetWaitingRunID :: "session \<Rightarrow> string \<times> bool" where
  "GetWaitingRunID s = (if waiting s then (ar_RunID (the (se_ActiveRun s)), True) else ([], False))"

definition ConsumeWaitingRun :: "int \<Rightarrow> session \<Rightarrow> string \<times> session" where
  "ConsumeWaitingRun now s =
     (if \<not> waiting s then ([], s)
      else (ar_RunID (the (se_ActiveRun s)), (set_run_status StatusRunning s)\<lparr>se_LastSeenAt := now\<rparr>))"

text \<open>The answer, the cancel function that was called, if any, and the session.\<close>

definition CancelRun :: "int \<Rightarrow> string \<Rightarrow> session \<Rightarrow> bool \<times> nat option \<times> session" where
  "CancelRun now runID s =
     (case se_ActiveRun s of
        None \<Rightarrow> (False, None, s)
      | Some r \<Rightarrow>
          if runID \<noteq> [] \<and> ar_RunID r \<noteq> runID then (False, None, s)
          else (case ar_Cancel r of
                  Some c \<Rightarrow> (True, Some c, (set_run_status StatusCancelling s)\<lparr>se_LastSeenAt := now\<rparr>)
                | None \<Rightarrow> (True, None, s\<lparr>se_LastSeenAt := now\<rparr>)))"

text \<open>
  \<open>WaitUntilIdle\<close> looks at the session every 25 milliseconds: \<open>idle k\<close> and \<open>clock k\<close> are what its
  \<open>k\<close>-th look sees. The fuel bounds the number of looks.
\<close>

fun wait_until_idle :: "(nat \<Rightarrow> bool) \<Rightarrow> (nat \<Rightarrow> int) \<Rightarrow> int \<Rightarrow> int \<Rightarrow> nat \<Rightarrow> nat \<Rightarrow> bool option" where
  "wait_until_idle idle clock timeout deadline k 0 = None"
| "wait_until_idle idle clock timeout deadline k (Suc fuel) =
     (if idle k then Some True
      else if timeout \<le> 0 \<or> clock k > deadline then Some False
      else wait_until_idle idle clock timeout deadline (Suc k) fuel)"

definition WaitUntilIdle :: "(nat \<Rightarrow> bool) \<Rightarrow> (nat \<Rightarrow> int) \<Rightarrow> int \<Rightarrow> int \<Rightarrow> nat \<Rightarrow> bool option" where
  "WaitUntilIdle idle clock now timeout fuel = wait_until_idle idle clock timeout (now + timeout) 0 fuel"

section \<open>Edit scope\<close>

definition ConfigureEditState :: "report_edit_context option \<Rightarrow> session \<Rightarrow> session" where
  "ConfigureEditState edit s =
     (let es = (case se_EditState s of Some es \<Rightarrow> es | None \<Rightarrow> empty_edit)
      in case edit of
           None \<Rightarrow> s\<lparr>se_EditState := Some (EditState_Reset es)\<rparr>
         | Some ec \<Rightarrow>
             s\<lparr>se_EditState := Some (RefreshFromReportState
                 (es\<lparr>es_Mode := trim_space (ec_mode ec),
                     es_TargetRunID := trim_space (ec_target_run_id ec),
                     es_TargetBlockID := trim_space (ec_block_id ec),
                     es_TargetBlockLabel := trim_space (ec_block_label ec),
                     es_TargetChartID := trim_space (ec_chart_id ec),
                     es_SelectionText := trim_space (ec_selection_text ec),
                     es_SelectionStart := ec_selection_start ec,
                     es_SelectionEnd := ec_selection_end ec,
                     es_SelectionRangeSet := ec_selection_range_set ec,
                     es_PreserveOtherBlocks := ec_preserve_other_blocks ec\<rparr>)
                 (Some (se_ReportState s)))\<rparr>)"

definition ClearEditState :: "session \<Rightarrow> session" where
  "ClearEditState s = ConfigureEditState None s"

definition edit_context_of :: "report_edit_state \<Rightarrow> report_edit_context" where
  "edit_context_of es =
     \<lparr>ec_mode = es_Mode es, ec_target_run_id = es_TargetRunID es, ec_block_id = es_TargetBlockID es,
      ec_block_label = es_TargetBlockLabel es, ec_chart_id = es_TargetChartID es,
      ec_selection_text = es_SelectionText es, ec_selection_start = es_SelectionStart es,
      ec_selection_end = es_SelectionEnd es, ec_selection_range_set = es_SelectionRangeSet es,
      ec_preserve_other_blocks = es_PreserveOtherBlocks es\<rparr>"

definition CurrentEditContext :: "session \<Rightarrow> report_edit_context option" where
  "CurrentEditContext s =
     (if \<not> EditState_Active (se_EditState s) then None
      else Some (edit_context_of (the (se_EditState s))))"

record edit_state_data =
  ed_Active :: bool
  ed_ScopeKind :: string
  ed_EditContext :: "report_edit_context option"

definition CurrentEditStateData :: "session \<Rightarrow> edit_state_data" where
  "CurrentEditStateData s =
     (if \<not> EditState_Active (se_EditState s)
      then \<lparr>ed_Active = False, ed_ScopeKind = [], ed_EditContext = None\<rparr>
      else \<lparr>ed_Active = True, ed_ScopeKind = ScopeKind (se_EditState s),
            ed_EditContext = Some (edit_context_of (the (se_EditState s)))\<rparr>)"

section \<open>Snapshots\<close>

text \<open>The sources of a block are raw JSON; \<open>parse_sources\<close> decodes them.\<close>

record snapshot_block =
  sb_ID :: string
  sb_Kind :: string
  sb_Title :: string
  sb_Content :: string
  sb_ChartID :: string
  sb_Sources :: string

record report_snapshot =
  rn_Title :: string
  rn_Author :: string
  rn_NeedsFinalize :: bool
  rn_Layout :: report_layout
  rn_Blocks :: "snapshot_block list"
  rn_Charts :: "chart_data list"

definition load_block :: "(string \<Rightarrow> evidence_ref list option) \<Rightarrow> snapshot_block \<Rightarrow> report_block" where
  "load_block parse_sources b =
     \<lparr>rb_ID = sb_ID b, rb_Kind = sb_Kind b, rb_Title = sb_Title b, rb_Content = sb_Content b,
      rb_ChartID = sb_ChartID b,
      rb_Sources = (if sb_Sources b \<noteq> []
                    then (case parse_sources (sb_Sources b) of Some es \<Rightarrow> es | None \<Rightarrow> []) else [])\<rparr>"

definition Session_LoadReportSnapshot ::
  "(string \<Rightarrow> evidence_ref list option) \<Rightarrow> report_snapshot option \<Rightarrow> session \<Rightarrow> session" where
  "Session_LoadReportSnapshot parse_sources snap s =
     (case snap of
        None \<Rightarrow> s
      | Some n \<Rightarrow>
          let st = (se_ReportState s)\<lparr>FinalTitle := trim_space (rn_Title n),
                     FinalAuthor := trim_space (rn_Author n), Layout := rn_Layout n,
                     NeedsFinalize := rn_NeedsFinalize n, FinalizeAttempts := 0,
                     LastFinalizeIssueSignature := [],
                     Blocks := map (load_block parse_sources) (rn_Blocks n),
                     Charts := map (\<lambda>c. \<lparr>cd_ID = cd_ID c, cd_Option = cd_Option c,
                                        cd_Width = cd_Width c, cd_Height = cd_Height c\<rparr>) (rn_Charts n)\<rparr>
          in s\<lparr>se_ReportState := st,
               se_EditState := map_option (\<lambda>es. RefreshFromReportState es (Some st)) (se_EditState s)\<rparr>)"

text \<open>
  The loader is an interface implemented elsewhere: \<open>None\<close> when nil, otherwise a function of the
  session's identity and the run.
\<close>

type_synonym snapshot_loader = "string \<Rightarrow> string \<Rightarrow> string \<Rightarrow> string \<Rightarrow> report_snapshot option result"

definition target_run :: "user_message \<Rightarrow> string" where
  "target_run m =
     (let e = (case um_edit_context m of Some ec \<Rightarrow> trim_space (ec_target_run_id ec) | None \<Rightarrow> []);
          t = (case um_turn_context m of Some tc \<Rightarrow> trim_space (tc_report_target_run_id tc) | None \<Rightarrow> [])
      in if e \<noteq> [] then e else t)"

definition PrepareUserRun ::
  "(string \<Rightarrow> evidence_ref list option) \<Rightarrow> snapshot_loader option \<Rightarrow> user_message \<Rightarrow> session \<Rightarrow>
   string option \<times> session" where
  "PrepareUserRun parse_sources loader m s =
     (let proceed = (\<lambda>snap. (None, ConfigureEditState (um_edit_context m)
                                     (Session_LoadReportSnapshot parse_sources snap s)))
      in if target_run m = [] then proceed None
         else (case loader of
                 None \<Rightarrow> (Some ''missing report snapshot loader'', s)
               | Some load \<Rightarrow>
                   (case load (se_ID s) (se_WorkspaceID s) (se_UserID s) (target_run m) of
                      Inl err \<Rightarrow> (Some err, s)
                    | Inr snap \<Rightarrow> proceed snap)))"

section \<open>Reset and runtime state\<close>

text \<open>\<open>reset_db\<close> is the outcome of resetting the session's database and recreating its directory.\<close>

definition Session_Reset :: "int \<Rightarrow> string option \<Rightarrow> session \<Rightarrow> string option \<times> session" where
  "Session_Reset now reset_db s =
     (let (_, _, s1) = CancelRun now [] s;
          s2 = s1\<lparr>se_Engine := ResetMessages (se_Engine s1),
                  se_Memory := map_option Memory_Reset (se_Memory s1),
                  se_Subgoals := map_option Subgoals_Reset (se_Subgoals s1)\<rparr>;
          s3 = s2\<lparr>se_ReportState := (se_ReportState s2)\<lparr>Blocks := [], Charts := [], FinalTitle := [],
                    FinalAuthor := [], Layout := empty_layout, NeedsFinalize := False,
                    FinalizeAttempts := 0, LastFinalizeIssueSignature := []\<rparr>,
                  se_EditState := map_option EditState_Reset (se_EditState s2), se_LastSeenAt := now\<rparr>
      in (reset_db, s3))"

definition Session_Destroy :: "int \<Rightarrow> string option \<Rightarrow> session \<Rightarrow> string option \<times> nat option \<times> session" where
  "Session_Destroy now destroy_db s =
     (let (_, c, s1) = CancelRun now [] s in (destroy_db, c, s1))"

definition RuntimeState :: "session \<Rightarrow> (string \<times> string) list option \<times> goal_rec list option" where
  "RuntimeState s = (map_option Memory_Snapshot (se_Memory s), map_option Subgoals_ListAll (se_Subgoals s))"

definition LoadRuntimeState ::
  "int \<Rightarrow> (string \<times> string) list \<Rightarrow> goal_rec list \<Rightarrow> session \<Rightarrow> session" where
  "LoadRuntimeState now memory subgoals s =
     s\<lparr>se_Memory := map_option (\<lambda>m. ReplaceSnapshot m memory) (se_Memory s),
       se_Subgoals := map_option (\<lambda>g. Subgoals_ReplaceAll g subgoals) (se_Subgoals s),
       se_LastSeenAt := now\<rparr>"

definition line_of :: "string \<Rightarrow> string \<Rightarrow> string" where
  "line_of label v = (if v \<noteq> [] then label @ '': '' @ v @ [CHR 0x0A] else [])"

definition RuntimeVars :: "session \<Rightarrow> runtime_context_block list" where
  "RuntimeVars s =
     (if \<not> EditState_Active (se_EditState s) then []
      else
        let es = the (se_EditState s);
            content =
              ''Mode: '' @ es_Mode es @ [CHR 0x0A] @ ''ScopeKind: '' @ ScopeKind (Some es) @ [CHR 0x0A]
              @ line_of ''TargetBlockID'' (es_TargetBlockID es)
              @ line_of ''TargetBlockLabel'' (es_TargetBlockLabel es)
              @ line_of ''TargetChartID'' (es_TargetChartID es)
              @ (if es_SelectionText es \<noteq> []
                 then line_of ''SelectionText'' (es_SelectionText es)
                      @ (if es_SelectionRangeSet es \<and> es_SelectionEnd es > es_SelectionStart es
                         then ''SelectionRange: '' @ itoa (es_SelectionStart es) @ ''-''
                              @ itoa (es_SelectionEnd es) @ [CHR 0x0A]
                         else [])
                 else [])
              @ (if es_PreserveOtherBlocks es then ''PreserveOtherBlocks: true'' @ [CHR 0x0A] else [])
              @ (if scopeKindLocked es = ''partial_selection''
                 then ''MutationContract: only the target block content may change; content outside the selected range, block title, block kind, chart_id, and sources remain protected.''
                      @ [CHR 0x0A]
                 else [])
        in [\<lparr>rc_Name = ''active_edit_scope'', rc_Role = ''user'', rc_Content = trim_space content\<rparr>])"

section \<open>Interleavings\<close>

text \<open>
  What concurrent callers do to a session, one atomic operation at a time, with the observable
  result of each.
\<close>

datatype session_event =
    Started string
  | StartRefused
  | Finished_Run string
  | Suspended string
  | Resumed string
  | CancelChanged string
  | Consumed string
  | ConsumeRefused
  | CancelCalled "nat option"
  | EditChanged
  | Loaded
  | WasReset
  | NoEffect

inductive session_step :: "session \<Rightarrow> session_event \<Rightarrow> session \<Rightarrow> bool" where
  start: "StartRun now uuid c s = (Inr i, s') \<Longrightarrow> session_step s (Started i) s'"
| start_refused: "StartRun now uuid c s = (Inl e, s') \<Longrightarrow> session_step s StartRefused s'"
| finish: "FinishRun now i st s = (True, s') \<Longrightarrow> session_step s (Finished_Run i) s'"
| suspend: "SuspendRun now i s = (True, s') \<Longrightarrow> session_step s (Suspended i) s'"
| resume: "session_step s (Resumed i) (ResumeRun now i s)"
| update_cancel: "UpdateCancelFunc i c s = (True, s') \<Longrightarrow> session_step s (CancelChanged i) s'"
| consume: "ConsumeWaitingRun now s = (i, s') \<Longrightarrow> i \<noteq> [] \<Longrightarrow> session_step s (Consumed i) s'"
| consume_refused: "ConsumeWaitingRun now s = ([], s') \<Longrightarrow> session_step s ConsumeRefused s'"
| cancel: "CancelRun now i s = (ok, c, s') \<Longrightarrow> session_step s (CancelCalled c) s'"
| edit: "session_step s EditChanged (ConfigureEditState ec s)"
| load: "session_step s Loaded (Session_LoadReportSnapshot ps snap s)"
| reset: "Session_Reset now db s = (e, s') \<Longrightarrow> session_step s WasReset s'"
| miss: "fst (FinishRun now i st s) = False \<or> fst (SuspendRun now i s) = False
           \<or> fst (UpdateCancelFunc i c s) = False \<Longrightarrow> session_step s NoEffect s"

inductive session_trace :: "session \<Rightarrow> session_event list \<Rightarrow> session \<Rightarrow> bool" where
  empty: "session_trace s [] s"
| snoc: "session_trace s es s' \<Longrightarrow> session_step s' e s'' \<Longrightarrow> session_trace s (es @ [e]) s''"

inductive_cases session_step_started: "session_step s (Started i) s'"
inductive_cases session_step_consumed: "session_step s (Consumed i) s'"
inductive_simps session_trace_nil: "session_trace s [] s'"

section \<open>Lemmas\<close>

lemmas run_ops = StartRun_def FinishRun_def SuspendRun_def ResumeRun_def UpdateCancelFunc_def
  ConsumeWaitingRun_def CancelRun_def set_run_status_def is_active_def waiting_def

lemmas status_names = StatusRunning_def StatusWaiting_def StatusCancelling_def

lemma configure_keeps_run [simp]: "se_ActiveRun (ConfigureEditState ec s) = se_ActiveRun s"
  by (simp add: ConfigureEditState_def Let_def split: option.split)

lemma load_keeps_run [simp]: "se_ActiveRun (Session_LoadReportSnapshot ps snap s) = se_ActiveRun s"
  by (simp add: Session_LoadReportSnapshot_def Let_def split: option.split)

lemma reset_run:
  "Session_Reset now db s = (e, s') \<Longrightarrow>
     se_ActiveRun s' = se_ActiveRun (snd (snd (CancelRun now [] s)))"
  by (auto simp: Session_Reset_def Let_def split_beta)

text \<open>How many waiting runs the session could still hand out.\<close>

definition tickets :: "session \<Rightarrow> nat" where
  "tickets s = (if waiting s then 1 else 0)"

definition run_inv :: "session \<Rightarrow> bool" where
  "run_inv s \<longleftrightarrow> (\<forall>r. se_ActiveRun s = Some r \<longrightarrow> ar_RunID r \<noteq> []
     \<and> ar_Status r \<in> {StatusRunning, StatusWaiting, StatusCancelling})"

lemma step_run_inv: "session_step s e s' \<Longrightarrow> run_inv s \<Longrightarrow> run_inv s'"
proof (induction rule: session_step.induct)
  case (reset now db s e s')
  then show ?case
    by (auto simp: run_inv_def dest!: reset_run)
      (auto simp: run_ops split: option.splits if_splits)
qed (auto simp: run_inv_def run_ops Let_def split: if_splits option.splits)

lemma trace_run_inv: "session_trace s es s' \<Longrightarrow> run_inv s \<Longrightarrow> run_inv s'"
  by (induction rule: session_trace.induct) (auto dest: step_run_inv)

definition is_suspend :: "session_event \<Rightarrow> bool" where
  "is_suspend e = (case e of Suspended _ \<Rightarrow> True | _ \<Rightarrow> False)"

definition is_consume :: "session_event \<Rightarrow> bool" where
  "is_consume e = (case e of Consumed _ \<Rightarrow> True | _ \<Rightarrow> False)"

definition is_start :: "session_event \<Rightarrow> bool" where
  "is_start e = (case e of Started _ \<Rightarrow> True | _ \<Rightarrow> False)"

definition is_finish :: "session_event \<Rightarrow> bool" where
  "is_finish e = (case e of Finished_Run _ \<Rightarrow> True | _ \<Rightarrow> False)"

lemmas event_kinds = is_suspend_def is_consume_def is_start_def is_finish_def

abbreviation count :: "(session_event \<Rightarrow> bool) \<Rightarrow> session_event list \<Rightarrow> nat" where
  "count P es \<equiv> length (filter P es)"

lemma step_tickets:
  "session_step s e s' \<Longrightarrow> tickets s' + (if is_consume e then 1 else 0) \<le> tickets s + (if is_suspend e then 1 else 0)"
proof (induction rule: session_step.induct)
  case (reset now db s e s')
  then show ?case
    by (auto simp: tickets_def waiting_def event_kinds dest!: reset_run)
      (auto simp: run_ops status_names split: option.splits if_splits)
qed (auto simp: tickets_def event_kinds run_ops status_names Let_def split: if_splits option.splits)

lemma trace_tickets:
  "session_trace s es s' \<Longrightarrow> tickets s' + count is_consume es \<le> tickets s + count is_suspend es"
proof (induction rule: session_trace.induct)
  case (snoc s es s' e s'')
  with step_tickets [OF snoc(2)] show ?case by (auto split: if_splits)
qed simp

definition busy :: "session \<Rightarrow> nat" where
  "busy s = (if se_ActiveRun s = None then 0 else 1)"

lemma step_busy:
  "session_step s e s' \<Longrightarrow> busy s' + (if is_finish e then 1 else 0) = busy s + (if is_start e then 1 else 0)"
proof (induction rule: session_step.induct)
  case (reset now db s e s')
  then show ?case
    by (auto simp: busy_def event_kinds dest!: reset_run)
      (auto simp: run_ops split: option.splits if_splits)
qed (auto simp: busy_def event_kinds run_ops Let_def split: if_splits option.splits)

lemma trace_busy:
  "session_trace s es s' \<Longrightarrow> busy s' + count is_finish es = busy s + count is_start es"
proof (induction rule: session_trace.induct)
  case (snoc s es s' e s'')
  with step_busy [OF snoc(2)] show ?case by (auto split: if_splits)
qed simp

lemma refresh_keeps_context [simp]:
  "edit_context_of (RefreshFromReportState es st) = edit_context_of es"
  "modeLocked (RefreshFromReportState es st) = modeLocked es"
  by (simp_all add: RefreshFromReportState_def Let_def edit_context_of_def modeLocked_def split: option.split)

definition trimmed_context :: "report_edit_context \<Rightarrow> report_edit_context" where
  "trimmed_context ec =
     ec\<lparr>ec_mode := trim_space (ec_mode ec), ec_target_run_id := trim_space (ec_target_run_id ec),
        ec_block_id := trim_space (ec_block_id ec), ec_block_label := trim_space (ec_block_label ec),
        ec_chart_id := trim_space (ec_chart_id ec), ec_selection_text := trim_space (ec_selection_text ec)\<rparr>"

lemma configured_context:
  "CurrentEditContext (ConfigureEditState edit s) =
     (case edit of
        None \<Rightarrow> None
      | Some ec \<Rightarrow> if trim_space (ec_mode ec) = [] then None else Some (trimmed_context ec))"
proof (cases edit)
  case None
  then show ?thesis
    by (simp add: CurrentEditContext_def ConfigureEditState_def Let_def EditState_Active_def
        EditState_Reset_def modeLocked_def)
next
  case (Some ec)
  then show ?thesis
    by (simp add: CurrentEditContext_def ConfigureEditState_def Let_def EditState_Active_def)
      (simp add: modeLocked_def edit_context_of_def trimmed_context_def)
qed

lemma wait_finds:
  assumes "\<And>j. clock j + 1 \<le> clock (Suc j)" "deadline - clock k + 1 < int fuel" "0 < fuel"
  shows "\<exists>b. wait_until_idle idle clock timeout deadline k fuel = Some b"
  using assms(2,3)
proof (induction fuel arbitrary: k)
  case (Suc fuel)
  then show ?case using assms(1) [of k] Suc.IH [of "Suc k"] by (cases "clock k > deadline") auto
qed simp

section \<open>Properties\<close>

text \<open>
  C24. One run at a time: in every interleaving of the operations of a new session, the number
  of runs started exceeds the number of runs finished by one while a run is active and by
  nothing otherwise, an active run has an id and one of the three live states, and a second
  start is refused.
\<close>

theorem one_run_at_a_time:
  assumes "session_trace (New_Session sid ws us policy t0) es s"
  shows "count is_start es = count is_finish es + (if se_ActiveRun s = None then 0 else 1)
    \<and> (\<forall>r. se_ActiveRun s = Some r \<longrightarrow> ar_RunID r \<noteq> []
          \<and> ar_Status r \<in> {''running'', ''waiting_user_input'', ''cancelling''})
    \<and> (se_ActiveRun s \<noteq> None \<longrightarrow> (\<exists>err. StartRun now uuid c s = (Inl err, s)))"
proof -
  have "busy (New_Session sid ws us policy t0) = 0" "run_inv (New_Session sid ws us policy t0)"
    by (simp_all add: busy_def New_Session_def run_inv_def)
  then have "busy s + count is_finish es = count is_start es" "run_inv s"
    using trace_busy [OF assms] trace_run_inv [OF assms] by simp_all
  moreover have "se_ActiveRun s \<noteq> None \<longrightarrow> (\<exists>err. StartRun now uuid c s = (Inl err, s))"
    by (simp add: StartRun_def)
  ultimately show ?thesis by (simp add: busy_def run_inv_def status_names split: if_splits)
qed

definition sample_session0 :: session where
  "sample_session0 = New_Session ''s'' ''w'' ''u'' [] 0"

lemma sample_started:
  "session_trace sample_session0 [Started ''r_1'']
     (sample_session0\<lparr>se_ActiveRun := Some \<lparr>ar_RunID = ''r_1'', ar_Status = StatusRunning,
        ar_Cancel = Some 0, ar_StartedAt = 5\<rparr>, se_LastSeenAt := 5\<rparr>)"
proof -
  have "StartRun 5 ''1'' 0 sample_session0 = (Inr ''r_1'',
      sample_session0\<lparr>se_ActiveRun := Some \<lparr>ar_RunID = ''r_1'', ar_Status = StatusRunning,
        ar_Cancel = Some 0, ar_StartedAt = 5\<rparr>, se_LastSeenAt := 5\<rparr>)"
    by (simp add: StartRun_def sample_session0_def New_Session_def Let_def)
  from session_trace.snoc [OF session_trace.empty session_step.start [OF this]] show ?thesis by simp
qed

theorem one_run_at_a_time_witness:
  "count is_start [Started ''r_1''] = count is_finish [Started ''r_1''] + 1"
  using one_run_at_a_time [OF sample_started [unfolded sample_session0_def]] by simp

text \<open>
  A user reply resumes a run once: in every interleaving, however many replies race, the
  waiting run is handed out at most as often as a run was suspended.
\<close>

theorem waiting_run_consumed_at_most_once:
  assumes "session_trace (New_Session sid ws us policy t0) es s"
  shows "count is_consume es \<le> count is_suspend es"
proof -
  have "tickets (New_Session sid ws us policy t0) = 0"
    by (simp add: tickets_def waiting_def New_Session_def)
  with trace_tickets [OF assms] show ?thesis by simp
qed

theorem waiting_run_consumed_at_most_once_witness:
  "count is_consume [Started ''r_1''] \<le> count is_suspend [Started ''r_1'']"
  by (rule waiting_run_consumed_at_most_once [OF sample_started [unfolded sample_session0_def]])

text \<open>
  Preparing a user's turn: on an error the session is unchanged; otherwise the edit scope is
  exactly the one of the message, with its names trimmed, or none if the message has no
  scope or a blank mode; the active run is untouched either way.
\<close>

theorem prepare_user_run_spec:
  "case PrepareUserRun ps loader m s of
     (Some err, s') \<Rightarrow> s' = s
   | (None, s') \<Rightarrow> se_ActiveRun s' = se_ActiveRun s
       \<and> CurrentEditContext s' =
           (case um_edit_context m of
              None \<Rightarrow> None
            | Some ec \<Rightarrow> if trim_space (ec_mode ec) = [] then None else Some (trimmed_context ec))"
  by (simp add: PrepareUserRun_def Let_def configured_context split: option.split sum.split)

text \<open>
  Finishing a run: only the active run can be finished; then the session is free for a new
  run and the edit scope of the turn is gone, so no later turn inherits it.
\<close>

theorem finish_run_clears_scope:
  "case FinishRun now runID status s of
     (True, s') \<Rightarrow> is_active s runID \<and> se_ActiveRun s' = None \<and> CurrentEditContext s' = None
       \<and> RuntimeVars s' = [] \<and> (\<exists>i s''. StartRun now uuid c s' = (Inr i, s''))
   | (False, s') \<Rightarrow> \<not> is_active s runID \<and> s' = s"
  by (auto simp: FinishRun_def CurrentEditContext_def RuntimeVars_def StartRun_def
      EditState_Active_def EditState_Reset_def modeLocked_def Let_def split: option.split)

text \<open>
  Resetting a session empties its conversation, facts, goals and report, ends the edit scope
  and calls the cancel function of an active run.
\<close>

theorem reset_clears_session:
  "let s' = snd (Session_Reset now db s)
   in en_history (se_Engine s') = [] \<and> en_contextDigest (se_Engine s') = []
      \<and> (\<forall>m. fst (RuntimeState s') = Some m \<longrightarrow> m = [])
      \<and> (\<forall>g. snd (RuntimeState s') = Some g \<longrightarrow> g = [])
      \<and> se_ReportState s' = empty_report
      \<and> CurrentEditContext s' = None
      \<and> (\<forall>r c. se_ActiveRun s = Some r \<longrightarrow> ar_Cancel r = Some c \<longrightarrow>
            fst (snd (CancelRun now [] s)) = Some c
            \<and> se_ActiveRun s' = Some (r\<lparr>ar_Status := ''cancelling''\<rparr>))"
  by (auto simp: Session_Reset_def Let_def split_beta ResetMessages_def RuntimeState_def
      Memory_Snapshot_def Memory_Reset_def Subgoals_ListAll_def Subgoals_Reset_def
      CurrentEditContext_def EditState_Active_def EditState_Reset_def modeLocked_def empty_report_def
      CancelRun_def set_run_status_def status_names split: option.splits)

definition sample_running :: session where
  "sample_running = sample_session0\<lparr>se_ActiveRun := Some \<lparr>ar_RunID = ''r_1'', ar_Status = ''running'',
     ar_Cancel = Some 0, ar_StartedAt = 5\<rparr>\<rparr>"

theorem reset_clears_session_witness:
  "se_ActiveRun (snd (Session_Reset 9 None sample_running)) = Some \<lparr>ar_RunID = ''r_1'',
     ar_Status = ''cancelling'', ar_Cancel = Some 0, ar_StartedAt = 5\<rparr>"
  using reset_clears_session [of 9 None sample_running] by (simp add: Let_def sample_running_def)



end
