(* ===== verification/Run_Store.thy ===== *)
theory Run_Store
  imports Session_Run
begin

text \<open>
  The stored runs: \<open>RunRepository\<close> of \<open>server/repository/sqlite/store.go\<close> on the table
  \<open>analysis_runs\<close> of \<open>server/metadata/store.go\<close>, its counterpart of
  \<open>server/repository/memory/store.go\<close>, and the recovery of runs left over by a restart
  (\<open>server/handler/session_runtime.go\<close>). A table is the list of its rows in the order of their
  insertion, times are integers, and a statement either fails on a constraint or succeeds; the
  failures of the database itself are not modelled.
\<close>

section \<open>Data\<close>

record analysis_run =
  an_ID :: string
  an_SessionID :: string
  an_WorkspaceID :: string
  an_UserID :: string
  an_ParentRunID :: "string option"
  an_RunKind :: string
  an_DelegateRole :: string
  an_GoalID :: "string option"
  an_Status :: string
  an_InputMessage :: string
  an_Summary :: string
  an_ErrorMessage :: "string option"
  an_ReportFileID :: "string option"
  an_StartedAt :: "int option"
  an_FinishedAt :: "int option"
  an_CreatedAt :: int
  an_UpdatedAt :: int

definition RunStatusRunning :: string where "RunStatusRunning = ''running''"
definition RunStatusWaitingUserInput :: string where "RunStatusWaitingUserInput = ''waiting_user_input''"
definition RunStatusCompleted :: string where "RunStatusCompleted = ''completed''"
definition RunStatusFailed :: string where "RunStatusFailed = ''failed''"
definition RunStatusCancelled :: string where "RunStatusCancelled = ''cancelled''"
definition RunKindRoot :: string where "RunKindRoot = ''root''"
definition RunKindDelegate :: string where "RunKindDelegate = ''delegate''"

lemmas run_statuses =
  RunStatusRunning_def RunStatusWaitingUserInput_def RunStatusCompleted_def RunStatusFailed_def
  RunStatusCancelled_def

definition final_run_status :: "string \<Rightarrow> bool" where
  "final_run_status st \<longleftrightarrow> st = RunStatusCompleted \<or> st = RunStatusCancelled \<or> st = RunStatusFailed"

section \<open>The SQLite repository\<close>

type_synonym run_table = "analysis_run list"

datatype db_error = NoSuchRow | ConstraintFailed

text \<open>
  The rows of the tables \<open>sessions\<close> and \<open>files\<close> the foreign keys refer to are given by
  \<open>session_row\<close> and \<open>file_row\<close>. The primary key and the foreign keys are checked at the end of
  the statement, so that a row may refer to itself.
\<close>

definition fk_ok :: "(string \<Rightarrow> bool) \<Rightarrow> string option \<Rightarrow> bool" where
  "fk_ok rows v = (case v of None \<Rightarrow> True | Some i \<Rightarrow> rows i)"

definition sql_Run_Create ::
  "(string \<Rightarrow> bool) \<Rightarrow> (string \<Rightarrow> bool) \<Rightarrow> analysis_run \<Rightarrow> run_table \<Rightarrow> db_error option \<times> run_table" where
  "sql_Run_Create session_row file_row run t =
     (if an_ID run \<in> an_ID ` set t \<or> \<not> session_row (an_SessionID run) \<or> \<not> fk_ok file_row (an_ReportFileID run)
         \<or> \<not> fk_ok (\<lambda>p. p \<in> an_ID ` set t \<or> p = an_ID run) (an_ParentRunID run)
      then (Some ConstraintFailed, t)
      else (None, t @ [run]))"

definition sql_Run_GetByID :: "run_table \<Rightarrow> string \<Rightarrow> db_error + analysis_run" where
  "sql_Run_GetByID t i = (case find (\<lambda>r. an_ID r = i) t of None \<Rightarrow> Inl NoSuchRow | Some r \<Rightarrow> Inr r)"

definition sql_Run_ListBySession :: "run_table \<Rightarrow> string \<Rightarrow> int \<Rightarrow> analysis_run list" where
  "sql_Run_ListBySession t sid limit =
     (let l = (if limit = 0 then 20 else limit);
          rows = sort_key (\<lambda>r. - an_CreatedAt r)
                   (filter (\<lambda>r. an_SessionID r = sid \<and> (an_ParentRunID r = None \<or> an_ParentRunID r = Some [])) t)
      in if l < 0 then rows else take (nat l) rows)"

definition sql_Run_ListByParent :: "run_table \<Rightarrow> string \<Rightarrow> analysis_run list" where
  "sql_Run_ListByParent t p = take 200 (sort_key an_CreatedAt (filter (\<lambda>r. an_ParentRunID r = Some p) t))"

text \<open>An update of the row with the given id.\<close>

definition update_run :: "string \<Rightarrow> (analysis_run \<Rightarrow> analysis_run) \<Rightarrow> run_table \<Rightarrow> run_table" where
  "update_run i f t = map (\<lambda>r. if an_ID r = i then f r else r) t"

definition sql_Run_UpdateStatus :: "string \<Rightarrow> string \<Rightarrow> string option \<Rightarrow> int \<Rightarrow> run_table \<Rightarrow> run_table" where
  "sql_Run_UpdateStatus i status errMsg now t =
     update_run i (\<lambda>r. r\<lparr>an_Status := status, an_ErrorMessage := errMsg,
                         an_FinishedAt := (if final_run_status status then Some now else an_FinishedAt r),
                         an_UpdatedAt := now\<rparr>) t"

definition sql_Run_UpdateSummary :: "string \<Rightarrow> string \<Rightarrow> int \<Rightarrow> run_table \<Rightarrow> run_table" where
  "sql_Run_UpdateSummary i summary now t = update_run i (\<lambda>r. r\<lparr>an_Summary := summary, an_UpdatedAt := now\<rparr>) t"

definition sql_Run_BindReportFile ::
  "(string \<Rightarrow> bool) \<Rightarrow> string \<Rightarrow> string \<Rightarrow> int \<Rightarrow> run_table \<Rightarrow> db_error option \<times> run_table" where
  "sql_Run_BindReportFile file_row i fileID now t =
     (if i \<in> an_ID ` set t \<and> \<not> file_row fileID then (Some ConstraintFailed, t)
      else (None, update_run i (\<lambda>r. r\<lparr>an_ReportFileID := Some fileID, an_UpdatedAt := now\<rparr>) t))"

section \<open>The in-memory repository\<close>

text \<open>
  A Go map from ids to runs, here in some order; what is listed is sorted by time, runs of the
  same time in the order of the map.
\<close>

type_synonym run_map = "(string \<times> analysis_run) list"

definition mem_missing :: "string \<Rightarrow> string" where
  "mem_missing i = ''task does not exist: '' @ i"

definition mem_Run_Create :: "analysis_run \<Rightarrow> run_map \<Rightarrow> run_map" where
  "mem_Run_Create run m =
     AList.update (an_ID run) (if an_RunKind run = [] then run\<lparr>an_RunKind := RunKindRoot\<rparr> else run) m"

definition mem_Run_GetByID :: "run_map \<Rightarrow> string \<Rightarrow> analysis_run result" where
  "mem_Run_GetByID m i = (case map_of m i of None \<Rightarrow> Inl (mem_missing i) | Some r \<Rightarrow> Inr r)"

definition mem_Run_ListBySession :: "run_map \<Rightarrow> string \<Rightarrow> int \<Rightarrow> analysis_run list" where
  "mem_Run_ListBySession m sid limit =
     (let l = (if limit = 0 then 20 else limit);
          rows = sort_key (\<lambda>r. - an_CreatedAt r)
                   (filter (\<lambda>r. an_SessionID r = sid \<and> (an_ParentRunID r = None \<or> an_ParentRunID r = Some []))
                      (map snd m))
      in if l > 0 \<and> int (length rows) > l then take (nat l) rows else rows)"

definition mem_Run_ListByParent :: "run_map \<Rightarrow> string \<Rightarrow> analysis_run list" where
  "mem_Run_ListByParent m p = sort_key an_CreatedAt (filter (\<lambda>r. an_ParentRunID r = Some p) (map snd m))"

definition mem_update :: "string \<Rightarrow> (analysis_run \<Rightarrow> analysis_run) \<Rightarrow> run_map \<Rightarrow> string option \<times> run_map" where
  "mem_update i f m =
     (case map_of m i of
        None \<Rightarrow> (Some (mem_missing i), m)
      | Some r \<Rightarrow> (None, AList.update i (f r) m))"

definition mem_Run_UpdateStatus ::
  "string \<Rightarrow> string \<Rightarrow> string option \<Rightarrow> int \<Rightarrow> run_map \<Rightarrow> string option \<times> run_map" where
  "mem_Run_UpdateStatus i status errMsg now m =
     mem_update i (\<lambda>r. r\<lparr>an_Status := status, an_ErrorMessage := errMsg,
                         an_FinishedAt := (if final_run_status status then Some now else an_FinishedAt r)\<rparr>) m"

definition mem_Run_UpdateSummary :: "string \<Rightarrow> string \<Rightarrow> run_map \<Rightarrow> string option \<times> run_map" where
  "mem_Run_UpdateSummary i summary m = mem_update i (\<lambda>r. r\<lparr>an_Summary := summary\<rparr>) m"

definition mem_Run_BindReportFile :: "string \<Rightarrow> string \<Rightarrow> run_map \<Rightarrow> string option \<times> run_map" where
  "mem_Run_BindReportFile i fileID m = mem_update i (\<lambda>r. r\<lparr>an_ReportFileID := Some fileID\<rparr>) m"

section \<open>Child runs and recovery\<close>

text \<open>\<open>delegateRunPersistence.StartChildRun\<close>: the row of a child run.\<close>

definition blank_to_none :: "string \<Rightarrow> string option" where
  "blank_to_none s = (if trim_space s \<noteq> [] then Some (trim_space s) else None)"

definition StartChildRun ::
  "(string \<Rightarrow> bool) \<Rightarrow> string \<Rightarrow> string \<Rightarrow> string \<Rightarrow> string \<Rightarrow> int \<Rightarrow> string \<Rightarrow> string \<Rightarrow> string \<Rightarrow> string \<Rightarrow> run_table
     \<Rightarrow> (db_error + string) \<times> run_table" where
  "StartChildRun session_row workspaceID sessionID userID uuid now parentRunID roleName inputMessage goalID t =
     (let run = \<lparr>an_ID = ''d_'' @ take 8 uuid, an_SessionID = sessionID, an_WorkspaceID = workspaceID,
                 an_UserID = userID, an_ParentRunID = blank_to_none parentRunID, an_RunKind = RunKindDelegate,
                 an_DelegateRole = trim_space roleName, an_GoalID = blank_to_none goalID,
                 an_Status = RunStatusRunning, an_InputMessage = trim_space inputMessage, an_Summary = [],
                 an_ErrorMessage = None, an_ReportFileID = None, an_StartedAt = Some now,
                 an_FinishedAt = None, an_CreatedAt = now, an_UpdatedAt = now\<rparr>
      in case sql_Run_Create session_row (\<lambda>_. False) run t of
           (Some err, t') \<Rightarrow> (Inl err, t')
         | (None, t') \<Rightarrow> (Inr (an_ID run), t'))"

definition stale_message :: string where
  "stale_message = ''task cannot be restored after service restart, automatically marked as failed''"

definition stale :: "string \<Rightarrow> bool" where
  "stale st \<longleftrightarrow> st = RunStatusRunning \<or> st = RunStatusWaitingUserInput"

text \<open>
  \<open>recoverStaleRunTree\<close> over any repository, given by its listing of children and its update of
  a status. The code recurses over the children without a bound; the fuel is the depth.
\<close>

primrec recoverStaleRunTree ::
  "nat \<Rightarrow> ('s \<Rightarrow> string \<Rightarrow> analysis_run list) \<Rightarrow> (string \<Rightarrow> string \<Rightarrow> string option \<Rightarrow> 's \<Rightarrow> 's)
     \<Rightarrow> analysis_run \<Rightarrow> 's \<Rightarrow> 's option" where
  "recoverStaleRunTree 0 children upd run s = None"
| "recoverStaleRunTree (Suc n) children upd run s =
     (let s1 = (if stale (an_Status run)
                then if an_ErrorMessage run = None \<or> trim_space (the (an_ErrorMessage run)) \<noteq> stale_message
                        \<or> an_Status run \<noteq> RunStatusFailed
                     then upd (an_ID run) RunStatusFailed (Some stale_message) s
                     else s
                else s)
      in fold (\<lambda>child acc. Option.bind acc (recoverStaleRunTree n children upd child))
           (children s1 (an_ID run)) (Some s1))"

definition recoverStaleSessionRuns ::
  "nat \<Rightarrow> bool \<Rightarrow> string \<Rightarrow> int \<Rightarrow> run_table \<Rightarrow> run_table option" where
  "recoverStaleSessionRuns n live sessionID now t =
     (if trim_space sessionID = [] \<or> live then Some t
      else fold (\<lambda>run acc. Option.bind acc
                   (recoverStaleRunTree n sql_Run_ListByParent
                      (\<lambda>i st err. sql_Run_UpdateStatus i st err now) run))
             (sql_Run_ListBySession t sessionID (- 1)) (Some t))"

section \<open>The invariant of the stored runs\<close>

text \<open>
  The ids are the primary key, and a run comes after its parent: children are only started for
  runs that are there.
\<close>

definition parents_first :: "analysis_run list \<Rightarrow> bool" where
  "parents_first t \<longleftrightarrow>
     (\<forall>i < length t. \<forall>p. an_ParentRunID (t ! i) = Some p \<longrightarrow> p \<in> an_ID ` set t \<longrightarrow> p \<in> an_ID ` set (take i t))"

definition runs_wf :: "analysis_run list \<Rightarrow> bool" where
  "runs_wf t \<longleftrightarrow> distinct (map an_ID t) \<and> parents_first t"

definition run_keys :: "analysis_run list \<Rightarrow> (string \<times> string option \<times> int) list" where
  "run_keys t = map (\<lambda>r. (an_ID r, an_ParentRunID r, an_CreatedAt r)) t"

lemma run_keys_cong:
  assumes "run_keys t' = run_keys t"
  shows "map an_ID t' = map an_ID t" "length t' = length t" "an_ID ` set t' = an_ID ` set t"
    "an_ID ` set (take i t') = an_ID ` set (take i t)"
    "i < length t \<Longrightarrow> an_ParentRunID (t' ! i) = an_ParentRunID (t ! i)"
proof -
  show ids: "map an_ID t' = map an_ID t"
    using arg_cong [OF assms, of "map fst"] by (simp add: run_keys_def comp_def)
  show len: "length t' = length t" using arg_cong [OF ids, of length] by simp
  show "an_ID ` set t' = an_ID ` set t" using arg_cong [OF ids, of set] by simp
  show "an_ID ` set (take i t') = an_ID ` set (take i t)"
    using arg_cong [OF ids, of "\<lambda>l. set (take i l)"] by (simp add: take_map)
  have "map an_ParentRunID t' = map an_ParentRunID t"
    using arg_cong [OF assms, of "map (fst \<circ> snd)"] by (simp add: run_keys_def comp_def)
  then show "an_ParentRunID (t' ! i) = an_ParentRunID (t ! i)" if "i < length t"
    using that len by (metis nth_map)
qed

lemma runs_wf_cong:
  assumes "run_keys t' = run_keys t"
  shows "runs_wf t' = runs_wf t"
proof -
  have "parents_first t' = parents_first t"
    unfolding parents_first_def run_keys_cong(2-4) [OF assms]
    using run_keys_cong(5) [OF assms] by simp
  then show ?thesis by (simp add: runs_wf_def run_keys_cong(1) [OF assms])
qed

lemma runs_wf_Nil [simp]: "runs_wf []"
  by (simp add: runs_wf_def parents_first_def)

lemma runs_wf_append:
  assumes "runs_wf t" "an_ID run \<notin> an_ID ` set t" "an_ParentRunID run \<noteq> Some (an_ID run)"
    "\<forall>r \<in> set t. an_ParentRunID r \<noteq> Some (an_ID run)"
  shows "runs_wf (t @ [run])"
proof -
  have "parents_first (t @ [run])"
    unfolding parents_first_def
  proof (intro allI impI)
    fix i p
    assume i: "i < length (t @ [run])" and p: "an_ParentRunID ((t @ [run]) ! i) = Some p"
      and pin: "p \<in> an_ID ` set (t @ [run])"
    show "p \<in> an_ID ` set (take i (t @ [run]))"
    proof (cases "i < length t")
      case True
      then have "an_ParentRunID (t ! i) = Some p" using p by (simp add: nth_append)
      moreover have "p \<in> an_ID ` set t" using pin assms(4) True calculation by (auto dest: nth_mem)
      ultimately show ?thesis using assms(1) True by (auto simp: runs_wf_def parents_first_def)
    next
      case False
      then show ?thesis using i p pin assms(3) by (auto simp: nth_append)
    qed
  qed
  then show ?thesis using assms(1,2) by (auto simp: runs_wf_def)
qed

lemma run_keys_update_run:
  assumes "\<And>r. an_ID (f r) = an_ID r \<and> an_ParentRunID (f r) = an_ParentRunID r \<and> an_CreatedAt (f r) = an_CreatedAt r"
  shows "run_keys (update_run i f t) = run_keys t"
  using assms by (simp add: run_keys_def update_run_def)

lemmas run_keys_updates [simp] =
  run_keys_update_run [where f = "\<lambda>r. r\<lparr>an_Status := st, an_ErrorMessage := e, an_FinishedAt := fin r, an_UpdatedAt := now\<rparr>" for st e fin now, simplified]
  run_keys_update_run [where f = "\<lambda>r. r\<lparr>an_Summary := sm, an_UpdatedAt := now\<rparr>" for sm now, simplified]
  run_keys_update_run [where f = "\<lambda>r. r\<lparr>an_ReportFileID := fi, an_UpdatedAt := now\<rparr>" for fi now, simplified]

text \<open>Where a run stands counted from the end; children have smaller ranks.\<close>

definition run_rank :: "analysis_run list \<Rightarrow> string \<Rightarrow> nat" where
  "run_rank t i = (case find_index (\<lambda>r. an_ID r = i) t of None \<Rightarrow> 0 | Some k \<Rightarrow> length t - k)"

lemma find_index_map: "find_index P (map f xs) = find_index (\<lambda>x. P (f x)) xs"
  by (induction xs) auto

lemma run_rank_cong: "run_keys t' = run_keys t \<Longrightarrow> run_rank t' = run_rank t"
proof -
  assume a: "run_keys t' = run_keys t"
  have "find_index (\<lambda>r. an_ID r = i) t' = find_index (\<lambda>r. an_ID r = i) t" for i
    using find_index_map [of "\<lambda>x. x = i" an_ID t'] find_index_map [of "\<lambda>x. x = i" an_ID t]
      run_keys_cong(1) [OF a] by simp
  then show ?thesis using run_keys_cong(2) [OF a] by (intro ext) (simp add: run_rank_def split: option.split)
qed

lemma run_rank_le: "run_rank t i \<le> length t"
  by (simp add: run_rank_def split: option.split)

lemma find_index_mem: "find_index P xs = Some k \<Longrightarrow> k < n \<Longrightarrow> \<exists>x \<in> set (take n xs). P x"
  by (metis find_index_Some in_set_conv_nth length_take min_less_iff_conj nth_take)

lemma find_index_first: "x \<in> set (take n xs) \<Longrightarrow> P x \<Longrightarrow> \<exists>k < n. find_index P xs = Some k"
  by (induction xs arbitrary: n) (auto simp: take_Cons split: nat.splits, blast)

lemma run_rank_child:
  assumes "runs_wf t" "c \<in> set t" "an_ParentRunID c = Some p" "p \<in> an_ID ` set t"
  shows "run_rank t (an_ID c) < run_rank t p"
proof -
  obtain k where k: "find_index (\<lambda>r. an_ID r = an_ID c) t = Some k"
    using assms(2) by (cases "find_index (\<lambda>r. an_ID r = an_ID c) t") (auto simp: find_index_None)
  have lt: "k < length t" and eq: "an_ID (t ! k) = an_ID c" using find_index_Some [OF k] by auto
  have "t ! k = c"
    using assms(1,2) lt eq by (metis in_set_conv_nth length_map nth_eq_iff_index_eq nth_map runs_wf_def)
  then have "p \<in> an_ID ` set (take k t)"
    using assms lt by (auto simp: runs_wf_def parents_first_def)
  then obtain j where "j < k" "find_index (\<lambda>r. an_ID r = p) t = Some j"
    using find_index_first [of _ k t "\<lambda>r. an_ID r = p"] by auto
  then show ?thesis using k lt by (simp add: run_rank_def)
qed

section \<open>What the recovery relies on\<close>

text \<open>
  The contract of a repository with respect to the recovery of stale runs: the status a lookup
  gives after an update, the children of a run, and a rank that decreases from a run to its
  children.
\<close>

locale run_store =
  fixes ok :: "'s \<Rightarrow> bool"
    and row :: "'s \<Rightarrow> string \<Rightarrow> analysis_run option"
    and children :: "'s \<Rightarrow> string \<Rightarrow> analysis_run list"
    and upd :: "string \<Rightarrow> string \<Rightarrow> string option \<Rightarrow> 's \<Rightarrow> 's"
    and rank :: "'s \<Rightarrow> string \<Rightarrow> nat"
  assumes upd_ok: "ok s \<Longrightarrow> ok (upd i st e s)"
    and upd_row: "ok s \<Longrightarrow> row (upd i st e s) j \<noteq> None \<longleftrightarrow> row s j \<noteq> None"
    and upd_status: "ok s \<Longrightarrow> row (upd i st e s) j = Some r' \<Longrightarrow>
           if j = i then an_Status r' = st else map_option an_Status (row s j) = Some (an_Status r')"
    and upd_children: "ok s \<Longrightarrow> map an_ID (children (upd i st e s) p) = map an_ID (children s p)"
    and upd_rank: "ok s \<Longrightarrow> rank (upd i st e s) = rank s"
    and child_row: "ok s \<Longrightarrow> c \<in> set (children s p) \<Longrightarrow> row s (an_ID c) = Some c"
    and child_rank: "ok s \<Longrightarrow> row s p \<noteq> None \<Longrightarrow> c \<in> set (children s p) \<Longrightarrow> rank s (an_ID c) < rank s p"
begin

definition edges :: "'s \<Rightarrow> (string \<times> string) set" where
  "edges s = {(p, i). i \<in> set (map an_ID (children s p))}"

definition status :: "'s \<Rightarrow> string \<Rightarrow> string option" where
  "status s i = map_option an_Status (row s i)"

definition settled :: "'s \<Rightarrow> string \<Rightarrow> bool" where
  "settled s i \<longleftrightarrow> (case status s i of None \<Rightarrow> True | Some st \<Rightarrow> \<not> stale st)"

definition recovers :: "string set \<Rightarrow> 's \<Rightarrow> 's \<Rightarrow> bool" where
  "recovers A s s' \<longleftrightarrow> ok s' \<and> (\<forall>p. map an_ID (children s' p) = map an_ID (children s p)) \<and> rank s' = rank s
     \<and> (\<forall>j. status s' j = status s j
           \<or> j \<in> A \<and> (\<exists>st. status s j = Some st \<and> stale st) \<and> status s' j = Some RunStatusFailed)"

lemma recovers_refl: "ok s \<Longrightarrow> recovers A s s"
  by (simp add: recovers_def)

lemma not_stale_failed: "\<not> stale RunStatusFailed"
  by (simp add: stale_def run_statuses)

lemma recovers_trans: "recovers A s s' \<Longrightarrow> recovers B s' s'' \<Longrightarrow> recovers (A \<union> B) s s''"
  unfolding recovers_def by (metis UnCI not_stale_failed option.inject)

lemma recovers_mono: "recovers A s s' \<Longrightarrow> A \<subseteq> B \<Longrightarrow> recovers B s s'"
  unfolding recovers_def by blast

lemma recovers_edges: "recovers A s s' \<Longrightarrow> edges s' = edges s"
  by (simp add: recovers_def edges_def)

lemma recovers_row: "recovers A s s' \<Longrightarrow> row s' j \<noteq> None \<longleftrightarrow> row s j \<noteq> None"
  unfolding recovers_def status_def by (metis map_option_is_None option.distinct(1))

lemma recovers_settled: "recovers A s s' \<Longrightarrow> settled s j \<Longrightarrow> settled s' j"
  unfolding recovers_def settled_def by (metis not_stale_failed option.simps(5))

text \<open>A run value as it was read, perhaps before a failure was recorded.\<close>

definition read_run :: "'s \<Rightarrow> analysis_run \<Rightarrow> bool" where
  "read_run s run \<longleftrightarrow> status s (an_ID run) = Some (an_Status run) \<or> status s (an_ID run) = Some RunStatusFailed"

lemma read_run_recovers: "recovers A s s' \<Longrightarrow> read_run s run \<Longrightarrow> read_run s' run"
  unfolding recovers_def read_run_def by metis

lemma read_run_child: "ok s \<Longrightarrow> c \<in> set (children s p) \<Longrightarrow> read_run s c"
  by (simp add: read_run_def status_def child_row)

text \<open>The update of one run.\<close>

definition recover_one :: "analysis_run \<Rightarrow> 's \<Rightarrow> 's" where
  "recover_one run s =
     (if stale (an_Status run)
      then if an_ErrorMessage run = None \<or> trim_space (the (an_ErrorMessage run)) \<noteq> stale_message
              \<or> an_Status run \<noteq> RunStatusFailed
           then upd (an_ID run) RunStatusFailed (Some stale_message) s
           else s
      else s)"

lemma recover_one_eq:
  "recover_one run s = (if stale (an_Status run) then upd (an_ID run) RunStatusFailed (Some stale_message) s else s)"
  using not_stale_failed by (auto simp: recover_one_def)

lemma upd_status_eq:
  "ok s \<Longrightarrow> status (upd i st e s) j = (if j = i \<and> row s i \<noteq> None then Some st else status s j)"
  using upd_row [of s i st e j] upd_status [of s i st e j]
  by (cases "row (upd i st e s) j") (auto simp: status_def split: if_splits)

lemma recover_one_recovers:
  assumes "ok s" "read_run s run"
  shows "recovers {an_ID run} s (recover_one run s)" "settled (recover_one run s) (an_ID run)"
proof -
  have row: "row s (an_ID run) \<noteq> None" using assms(2) by (auto simp: read_run_def status_def)
  have "\<exists>st. status s (an_ID run) = Some st \<and> (st = RunStatusFailed \<or> st = an_Status run)"
    using assms(2) by (auto simp: read_run_def)
  then show "recovers {an_ID run} s (recover_one run s)"
    using assms(1) row
    by (auto simp: recovers_def recover_one_eq upd_ok upd_children upd_rank upd_status_eq)
  show "settled (recover_one run s) (an_ID run)"
    using assms row not_stale_failed
    by (auto simp: settled_def recover_one_eq upd_status_eq read_run_def)
qed

lemma recoverStaleRunTree_Suc:
  "recoverStaleRunTree (Suc n) children upd run s =
     fold (\<lambda>child acc. Option.bind acc (recoverStaleRunTree n children upd child))
       (children (recover_one run s) (an_ID run)) (Some (recover_one run s))"
  by (simp add: recover_one_def Let_def)

text \<open>What the recovery of a run or of a list of runs establishes.\<close>

definition tree :: "'s \<Rightarrow> string set \<Rightarrow> string set" where
  "tree s A = (edges s)\<^sup>* `` A"

lemma tree_recovers: "recovers B s s' \<Longrightarrow> tree s' A = tree s A"
  by (simp add: tree_def recovers_edges)

definition recovered :: "string set \<Rightarrow> 's \<Rightarrow> 's \<Rightarrow> bool" where
  "recovered A s s' \<longleftrightarrow> recovers (tree s A) s s' \<and> (\<forall>i \<in> tree s A. settled s' i)"

lemma recovered_empty: "ok s \<Longrightarrow> recovered {} s s"
  by (simp add: recovered_def tree_def recovers_refl)

lemma recovered_Un:
  assumes "recovered A s s'" "recovered B s' s''"
  shows "recovered (A \<union> B) s s''"
proof -
  have A: "recovers (tree s A) s s'" and B: "recovers (tree s B) s' s''"
    using assms tree_recovers by (auto simp: recovered_def)
  have un: "tree s (A \<union> B) = tree s A \<union> tree s B" by (simp add: tree_def Image_Un)
  have "settled s'' i" if "i \<in> tree s A" for i
    using assms(1) that recovers_settled [OF B] by (auto simp: recovered_def)
  moreover have "settled s'' i" if "i \<in> tree s B" for i
    using assms(2) that tree_recovers [OF A, of B] by (auto simp: recovered_def)
  ultimately show ?thesis using recovers_trans [OF A B] by (auto simp: recovered_def un)
qed

lemma recover_list:
  assumes "\<And>run s. read_run s run \<Longrightarrow> ok s \<Longrightarrow> rank s (an_ID run) < n \<Longrightarrow>
             \<exists>s'. f run s = Some s' \<and> recovered {an_ID run} s s'"
    and "ok s" "\<forall>run \<in> set runs. read_run s run \<and> rank s (an_ID run) < n"
  shows "\<exists>s'. fold (\<lambda>child acc. Option.bind acc (f child)) runs (Some s) = Some s'
           \<and> recovered (an_ID ` set runs) s s'"
  using assms(2,3)
proof (induction runs arbitrary: s)
  case Nil
  then show ?case by (simp add: recovered_empty)
next
  case (Cons run runs)
  obtain s1 where s1: "f run s = Some s1" "recovered {an_ID run} s s1"
    using assms(1) Cons.prems by fastforce
  then have rec: "recovers (tree s {an_ID run}) s s1" by (simp add: recovered_def)
  then have "ok s1" "rank s1 = rank s" by (auto simp: recovers_def)
  moreover have "\<forall>r \<in> set runs. read_run s1 r" using read_run_recovers [OF rec] Cons.prems by simp
  ultimately obtain s2 where "fold (\<lambda>child acc. Option.bind acc (f child)) runs (Some s1) = Some s2"
    "recovered (an_ID ` set runs) s1 s2"
    using Cons.IH [of s1] Cons.prems by auto
  then show ?case using s1 recovered_Un [OF s1(2)] by auto
qed

text \<open>The recovery returns once the fuel exceeds the rank, and settles the whole tree.\<close>

lemma recover_tree:
  assumes "ok s" "read_run s run" "rank s (an_ID run) < n"
  shows "\<exists>s'. recoverStaleRunTree n children upd run s = Some s' \<and> recovered {an_ID run} s s'"
  using assms
proof (induction n arbitrary: s run)
  case 0
  then show ?case by simp
next
  case (Suc n)
  let ?s = "recover_one run s" and ?i = "an_ID run"
  have one: "recovers {?i} s ?s" "settled ?s ?i" using recover_one_recovers Suc.prems by auto
  have ok: "ok ?s" and rank: "rank ?s = rank s" using one(1) by (auto simp: recovers_def)
  have "row s ?i \<noteq> None" using Suc.prems(2) by (auto simp: read_run_def status_def)
  then have row: "row ?s ?i \<noteq> None" using recovers_row [OF one(1)] by blast
  have kids: "\<forall>c \<in> set (children ?s ?i). read_run ?s c \<and> rank ?s (an_ID c) < n"
    using read_run_child [OF ok] child_rank [OF ok row] Suc.prems(3) rank by fastforce
  obtain s' where s': "fold (\<lambda>child acc. Option.bind acc (recoverStaleRunTree n children upd child))
        (children ?s ?i) (Some ?s) = Some s'"
      "recovered (an_ID ` set (children ?s ?i)) ?s s'"
    using recover_list [of n "recoverStaleRunTree n children upd" ?s "children ?s ?i"] Suc.IH ok kids by blast
  let ?K = "an_ID ` set (children ?s ?i)"
  have split: "tree s {?i} = insert ?i (tree s ?K)"
  proof -
    have "?K = edges ?s `` {?i}" by (auto simp: edges_def)
    then have "?K = edges s `` {?i}" by (simp add: recovers_edges [OF one(1)])
    then show ?thesis unfolding tree_def by (auto elim: converse_rtranclE intro: converse_rtrancl_into_rtrancl)
  qed
  have rec: "recovers (tree s ?K) ?s s'" using s'(2) tree_recovers [OF one(1), of ?K] by (simp add: recovered_def)
  have "recovered {?i} s s'"
    using recovers_trans [OF one(1) rec] recovers_settled [OF rec one(2)] s'(2) tree_recovers [OF one(1), of ?K]
    by (simp add: recovered_def split)
  then show ?case using s'(1) by (simp only: recoverStaleRunTree_Suc) blast
qed

end

section \<open>Both repositories fulfil the contract\<close>

lemma insort_key_map: "insort_key g (f x) (map f xs) = map f (insort_key (\<lambda>y. g (f y)) x xs)"
  by (induction xs) auto

lemma sort_key_map: "sort_key g (map f xs) = map f (sort_key (\<lambda>y. g (f y)) xs)"
  by (induction xs) (auto simp: insort_key_map)

definition keyed_children :: "(string \<times> string option \<times> int) list \<Rightarrow> string \<Rightarrow> string list" where
  "keyed_children ks p = map fst (sort_key (\<lambda>k. snd (snd k)) (filter (\<lambda>k. fst (snd k) = Some p) ks))"

lemma children_by_keys:
  "map an_ID (sort_key an_CreatedAt (filter (\<lambda>r. an_ParentRunID r = Some p) t)) = keyed_children (run_keys t) p"
  by (simp add: keyed_children_def run_keys_def filter_map comp_def sort_key_map)

lemma sql_children_by_keys: "map an_ID (sql_Run_ListByParent t p) = take 200 (keyed_children (run_keys t) p)"
  unfolding sql_Run_ListByParent_def take_map [symmetric] by (simp only: children_by_keys)

lemma mem_children_by_keys: "map an_ID (mem_Run_ListByParent m p) = keyed_children (run_keys (map snd m)) p"
  unfolding mem_Run_ListByParent_def by (rule children_by_keys)

lemma run_keys_status [simp]: "run_keys (sql_Run_UpdateStatus i st e now t) = run_keys t"
  by (simp add: sql_Run_UpdateStatus_def run_keys_update_run)

lemma find_id_Some: "find (\<lambda>r. an_ID r = i) t = Some r \<Longrightarrow> r \<in> set t \<and> an_ID r = i"
  by (auto simp: find_Some_iff)

lemma find_id_None: "find (\<lambda>r. an_ID r = i) t = None \<longleftrightarrow> i \<notin> an_ID ` set t"
  by (auto simp: find_None_iff)

lemma find_id_mem:
  assumes "runs_wf t" "r \<in> set t"
  shows "find (\<lambda>x. an_ID x = an_ID r) t = Some r"
proof -
  obtain x where x: "find (\<lambda>x. an_ID x = an_ID r) t = Some x" using assms(2) find_id_None by fastforce
  then have "x \<in> set t" "an_ID x = an_ID r" using find_id_Some by auto
  then have "x = r" using assms by (auto simp: runs_wf_def distinct_map inj_on_def)
  then show ?thesis using x by simp
qed

lemma find_update_run:
  assumes "\<And>r. an_ID (f r) = an_ID r"
  shows "find (\<lambda>r. an_ID r = j) (update_run i f t) =
           map_option (\<lambda>r. if j = i then f r else r) (find (\<lambda>r. an_ID r = j) t)"
  using assms by (induction t) (auto simp: update_run_def)

lemma find_sql_status:
  "find (\<lambda>r. an_ID r = j) (sql_Run_UpdateStatus i st e now t) =
     map_option (\<lambda>r. if j = i then r\<lparr>an_Status := st, an_ErrorMessage := e,
                         an_FinishedAt := (if final_run_status st then Some now else an_FinishedAt r),
                         an_UpdatedAt := now\<rparr> else r) (find (\<lambda>r. an_ID r = j) t)"
  by (simp add: sql_Run_UpdateStatus_def find_update_run)

lemma child_of_table:
  "c \<in> set (sql_Run_ListByParent t p) \<Longrightarrow> c \<in> set t \<and> an_ParentRunID c = Some p"
  by (auto simp: sql_Run_ListByParent_def dest: in_set_takeD)

interpretation sql_runs: run_store runs_wf "\<lambda>t i. find (\<lambda>r. an_ID r = i) t" sql_Run_ListByParent
  "\<lambda>i st e. sql_Run_UpdateStatus i st e now" run_rank for now
proof
  fix s i st e j p c r'
  show "runs_wf s \<Longrightarrow> runs_wf (sql_Run_UpdateStatus i st e now s)"
    using runs_wf_cong [OF run_keys_status] by blast
  show "(find (\<lambda>r. an_ID r = j) (sql_Run_UpdateStatus i st e now s) \<noteq> None) =
          (find (\<lambda>r. an_ID r = j) s \<noteq> None)"
    by (simp add: find_sql_status)
  show "find (\<lambda>r. an_ID r = j) (sql_Run_UpdateStatus i st e now s) = Some r' \<Longrightarrow>
          if j = i then an_Status r' = st
          else map_option an_Status (find (\<lambda>r. an_ID r = j) s) = Some (an_Status r')"
    by (auto simp: find_sql_status)
  show "map an_ID (sql_Run_ListByParent (sql_Run_UpdateStatus i st e now s) p) = map an_ID (sql_Run_ListByParent s p)"
    by (simp add: sql_children_by_keys)
  show "run_rank (sql_Run_UpdateStatus i st e now s) = run_rank s" by (rule run_rank_cong) simp
  show "runs_wf s \<Longrightarrow> c \<in> set (sql_Run_ListByParent s p) \<Longrightarrow> find (\<lambda>r. an_ID r = an_ID c) s = Some c"
    using child_of_table find_id_mem by blast
  show "runs_wf s \<Longrightarrow> find (\<lambda>r. an_ID r = p) s \<noteq> None \<Longrightarrow> c \<in> set (sql_Run_ListByParent s p) \<Longrightarrow>
          run_rank s (an_ID c) < run_rank s p"
    using child_of_table run_rank_child find_id_None by metis
qed

text \<open>The in-memory repository, as long as its keys are the ids of its runs.\<close>

definition mem_wf :: "run_map \<Rightarrow> bool" where
  "mem_wf m \<longleftrightarrow> map fst m = map an_ID (map snd m) \<and> runs_wf (map snd m)"

lemma alist_update_map:
  "distinct (map fst m) \<Longrightarrow> map_of m i = Some r \<Longrightarrow>
     AList.update i v m = map (\<lambda>(k, x). if k = i then (k, v) else (k, x)) m"
proof (induction m)
  case (Cons kx m)
  have "map (\<lambda>(k, x). if k = i then (k, v) else (k, x)) m = m" if "i \<notin> fst ` set m"
    using that by (intro map_idI) force
  then show ?case using Cons by (cases kx) auto
qed simp

lemma mem_update_table:
  assumes "mem_wf m" "\<And>r. an_ID (f r) = an_ID r"
  shows "map snd (snd (mem_update i f m)) = update_run i f (map snd m)"
    "map fst (snd (mem_update i f m)) = map fst m"
proof -
  have d: "distinct (map fst m)" using assms(1) unfolding mem_wf_def runs_wf_def by metis
  have key: "k = an_ID x" if "(k, x) \<in> set m" for k x
    using assms(1) that by (force simp: mem_wf_def map_eq_conv)
  have same: "x = r" if "map_of m i = Some r" "(i, x) \<in> set m" for r x
    using d that by (metis map_of_is_SomeI option.inject)
  show "map snd (snd (mem_update i f m)) = update_run i f (map snd m)"
  proof (cases "map_of m i")
    case None
    then have "\<forall>x \<in> snd ` set m. an_ID x \<noteq> i" using key by (force simp: map_of_eq_None_iff)
    then show ?thesis using None by (auto simp: mem_update_def update_run_def intro!: map_idI [symmetric])
  next
    case (Some r)
    then show ?thesis
      using key same [OF Some] by (fastforce simp: mem_update_def update_run_def alist_update_map [OF d Some])
  qed
  show "map fst (snd (mem_update i f m)) = map fst m"
    by (cases "map_of m i") (auto simp: mem_update_def alist_update_map [OF d])
qed

lemma find_by_key:
  assumes "mem_wf m"
  shows "map_of m i = find (\<lambda>r. an_ID r = i) (map snd m)"
proof -
  have "map fst m = map an_ID (map snd m)" using assms by (simp add: mem_wf_def)
  then show ?thesis by (induction m) auto
qed

lemma mem_wf_update:
  assumes "mem_wf m" "\<And>r. an_ID (f r) = an_ID r" "run_keys (update_run i f (map snd m)) = run_keys (map snd m)"
  shows "mem_wf (snd (mem_update i f m))"
  using assms mem_update_table [OF assms(1,2)] run_keys_cong(1) [OF assms(3)] runs_wf_cong [OF assms(3)]
  by (simp add: mem_wf_def)

lemma mem_status_table:
  assumes "mem_wf m"
  shows "map snd (snd (mem_Run_UpdateStatus i st e now m)) =
      update_run i (\<lambda>r. r\<lparr>an_Status := st, an_ErrorMessage := e,
                       an_FinishedAt := (if final_run_status st then Some now else an_FinishedAt r)\<rparr>) (map snd m)"
    "run_keys (map snd (snd (mem_Run_UpdateStatus i st e now m))) = run_keys (map snd m)"
    "mem_wf (snd (mem_Run_UpdateStatus i st e now m))"
  unfolding mem_Run_UpdateStatus_def using assms
  by (simp_all add: mem_update_table run_keys_update_run mem_wf_update)

lemma child_of_map:
  "c \<in> set (mem_Run_ListByParent m p) \<Longrightarrow> c \<in> set (map snd m) \<and> an_ParentRunID c = Some p"
  by (auto simp: mem_Run_ListByParent_def)

interpretation mem_runs: run_store mem_wf "\<lambda>m i. find (\<lambda>r. an_ID r = i) (map snd m)" mem_Run_ListByParent
  "\<lambda>i st e m. snd (mem_Run_UpdateStatus i st e now m)" "\<lambda>m. run_rank (map snd m)" for now
proof
  fix s i st e j p c r'
  show "mem_wf s \<Longrightarrow> mem_wf (snd (mem_Run_UpdateStatus i st e now s))" by (rule mem_status_table(3))
  show "mem_wf s \<Longrightarrow> (find (\<lambda>r. an_ID r = j) (map snd (snd (mem_Run_UpdateStatus i st e now s))) \<noteq> None) =
          (find (\<lambda>r. an_ID r = j) (map snd s) \<noteq> None)"
    by (simp add: mem_status_table find_update_run)
  show "mem_wf s \<Longrightarrow> find (\<lambda>r. an_ID r = j) (map snd (snd (mem_Run_UpdateStatus i st e now s))) = Some r' \<Longrightarrow>
          if j = i then an_Status r' = st
          else map_option an_Status (find (\<lambda>r. an_ID r = j) (map snd s)) = Some (an_Status r')"
    by (auto simp: mem_status_table find_update_run)
  show "mem_wf s \<Longrightarrow> map an_ID (mem_Run_ListByParent (snd (mem_Run_UpdateStatus i st e now s)) p)
          = map an_ID (mem_Run_ListByParent s p)"
    by (simp only: mem_children_by_keys mem_status_table(2))
  show "mem_wf s \<Longrightarrow> run_rank (map snd (snd (mem_Run_UpdateStatus i st e now s))) = run_rank (map snd s)"
    by (rule run_rank_cong) (rule mem_status_table)
  show "mem_wf s \<Longrightarrow> c \<in> set (mem_Run_ListByParent s p) \<Longrightarrow> find (\<lambda>r. an_ID r = an_ID c) (map snd s) = Some c"
    using child_of_map find_id_mem unfolding mem_wf_def by blast
  show "mem_wf s \<Longrightarrow> find (\<lambda>r. an_ID r = p) (map snd s) \<noteq> None \<Longrightarrow> c \<in> set (mem_Run_ListByParent s p) \<Longrightarrow>
          run_rank (map snd s) (an_ID c) < run_rank (map snd s) p"
    using child_of_map run_rank_child find_id_None unfolding mem_wf_def by metis
qed

section \<open>Recovery of a session\<close>

text \<open>The runs of a session: its root runs and, through the parents, their children.\<close>

inductive in_session :: "run_table \<Rightarrow> string \<Rightarrow> string \<Rightarrow> bool" for t sid where
  root: "r \<in> set t \<Longrightarrow> an_SessionID r = sid \<Longrightarrow> an_ParentRunID r = None \<or> an_ParentRunID r = Some [] \<Longrightarrow>
    in_session t sid (an_ID r)"
| child: "in_session t sid p \<Longrightarrow> r \<in> set t \<Longrightarrow> an_ParentRunID r = Some p \<Longrightarrow> in_session t sid (an_ID r)"

definition run_status :: "run_table \<Rightarrow> string \<Rightarrow> string option" where
  "run_status t i = map_option an_Status (find (\<lambda>r. an_ID r = i) t)"

definition few_children :: "run_table \<Rightarrow> bool" where
  "few_children t \<longleftrightarrow> (\<forall>r \<in> set t. length (filter (\<lambda>c. an_ParentRunID c = an_ParentRunID r) t) \<le> 200)"

lemma few_children_listed:
  assumes "few_children t" "r \<in> set t" "an_ParentRunID r = Some p"
  shows "r \<in> set (sql_Run_ListByParent t p)"
proof -
  have "length (filter (\<lambda>c. an_ParentRunID c = Some p) t) \<le> 200" using assms by (force simp: few_children_def)
  then show ?thesis using assms(2,3) by (simp add: sql_Run_ListByParent_def)
qed

lemma roots_listed:
  "set (sql_Run_ListBySession t sid (- 1)) =
     {r \<in> set t. an_SessionID r = sid \<and> (an_ParentRunID r = None \<or> an_ParentRunID r = Some [])}"
  by (auto simp: sql_Run_ListBySession_def Let_def)

lemma in_session_tree:
  assumes "few_children t"
  shows "i \<in> sql_runs.tree t (an_ID ` set (sql_Run_ListBySession t sid (- 1))) \<longleftrightarrow> in_session t sid i"
proof
  assume "in_session t sid i"
  then show "i \<in> sql_runs.tree t (an_ID ` set (sql_Run_ListBySession t sid (- 1)))"
  proof induction
    case (root r)
    then show ?case by (auto simp: sql_runs.tree_def roots_listed)
  next
    case (child p r)
    then have "(p, an_ID r) \<in> sql_runs.edges t"
      using few_children_listed [OF assms] by (auto simp: sql_runs.edges_def)
    then show ?case using child.IH by (auto simp: sql_runs.tree_def intro: rtrancl_into_rtrancl)
  qed
next
  assume "i \<in> sql_runs.tree t (an_ID ` set (sql_Run_ListBySession t sid (- 1)))"
  then obtain r where r: "r \<in> set (sql_Run_ListBySession t sid (- 1))" "(an_ID r, i) \<in> (sql_runs.edges t)\<^sup>*"
    by (auto simp: sql_runs.tree_def)
  show "in_session t sid i"
    using r(2)
  proof induction
    case base
    then show ?case using r(1) by (auto simp: roots_listed intro: in_session.root)
  next
    case (step p j)
    then show ?case using child_of_table by (auto simp: sql_runs.edges_def intro: in_session.child)
  qed
qed

lemma recover_session_lemma:
  assumes "runs_wf t" "trim_space sid \<noteq> []" "length t < n"
  shows "\<exists>t'. recoverStaleSessionRuns n False sid now t = Some t'
           \<and> sql_runs.recovered (an_ID ` set (sql_Run_ListBySession t sid (- 1))) t t'"
proof -
  have "\<forall>run \<in> set (sql_Run_ListBySession t sid (- 1)). sql_runs.read_run t run \<and> run_rank t (an_ID run) < n"
    using assms(1,3) run_rank_le [of t] find_id_mem
    by (auto simp: roots_listed sql_runs.read_run_def sql_runs.status_def intro: le_less_trans)
  moreover have "\<exists>s'. recoverStaleRunTree n sql_Run_ListByParent (\<lambda>i st e. sql_Run_UpdateStatus i st e now) run s = Some s'
      \<and> sql_runs.recovered {an_ID run} s s'"
    if "sql_runs.read_run s run" "runs_wf s" "run_rank s (an_ID run) < n" for run s
    using sql_runs.recover_tree [OF that(2,1,3)] by blast
  ultimately show ?thesis
    using assms(1,2) sql_runs.recover_list
            [of n "recoverStaleRunTree n sql_Run_ListByParent (\<lambda>i st e. sql_Run_UpdateStatus i st e now)" t
               "sql_Run_ListBySession t sid (- 1)"]
    by (simp add: recoverStaleSessionRuns_def)
qed


definition sample_run :: analysis_run where
  "sample_run = \<lparr>an_ID = ''r_1'', an_SessionID = ''s_1'', an_WorkspaceID = ''w_1'', an_UserID = ''u_1'',
     an_ParentRunID = None, an_RunKind = RunKindRoot, an_DelegateRole = [], an_GoalID = None,
     an_Status = RunStatusRunning, an_InputMessage = ''analyse'', an_Summary = [], an_ErrorMessage = None,
     an_ReportFileID = None, an_StartedAt = Some 1, an_FinishedAt = None, an_CreatedAt = 1, an_UpdatedAt = 1\<rparr>"

definition sample_runs :: run_table where
  "sample_runs = [sample_run, sample_run\<lparr>an_ID := ''d_1'', an_ParentRunID := Some ''r_1'',
     an_RunKind := RunKindDelegate, an_Status := RunStatusWaitingUserInput, an_CreatedAt := 2\<rparr>]"

lemma runs_wf_sample: "runs_wf sample_runs" "few_children sample_runs"
  by (simp_all add: sample_runs_def sample_run_def runs_wf_def parents_first_def few_children_def less_Suc_eq)


section \<open>The repositories and what they implement\<close>

text \<open>
  The operations that change the stored runs, the map from ids to runs they are meant to keep,
  and the two implementations run on the same sequence of operations.
\<close>

datatype run_op =
    CreateRun analysis_run
  | SetStatus string string "string option" int
  | SetSummary string string int
  | BindReport string string int

definition sql_run_step ::
  "(string \<Rightarrow> bool) \<Rightarrow> (string \<Rightarrow> bool) \<Rightarrow> run_op \<Rightarrow> run_table \<Rightarrow> db_error option \<times> run_table" where
  "sql_run_step session_row file_row op t =
     (case op of
        CreateRun r \<Rightarrow> sql_Run_Create session_row file_row r t
      | SetStatus i st e now \<Rightarrow> (None, sql_Run_UpdateStatus i st e now t)
      | SetSummary i sm now \<Rightarrow> (None, sql_Run_UpdateSummary i sm now t)
      | BindReport i f now \<Rightarrow> sql_Run_BindReportFile file_row i f now t)"

definition spec_run_step ::
  "(string \<Rightarrow> bool) \<Rightarrow> (string \<Rightarrow> bool) \<Rightarrow> run_op \<Rightarrow> (string \<rightharpoonup> analysis_run)
     \<Rightarrow> db_error option \<times> (string \<rightharpoonup> analysis_run)" where
  "spec_run_step session_row file_row op m =
     (case op of
        CreateRun r \<Rightarrow>
          if m (an_ID r) = None \<and> session_row (an_SessionID r) \<and> fk_ok file_row (an_ReportFileID r)
             \<and> fk_ok (\<lambda>p. m p \<noteq> None \<or> p = an_ID r) (an_ParentRunID r)
          then (None, m(an_ID r \<mapsto> r)) else (Some ConstraintFailed, m)
      | SetStatus i st e now \<Rightarrow>
          (None, m(i := map_option (\<lambda>r. r\<lparr>an_Status := st, an_ErrorMessage := e,
             an_FinishedAt := (if final_run_status st then Some now else an_FinishedAt r), an_UpdatedAt := now\<rparr>) (m i)))
      | SetSummary i sm now \<Rightarrow> (None, m(i := map_option (\<lambda>r. r\<lparr>an_Summary := sm, an_UpdatedAt := now\<rparr>) (m i)))
      | BindReport i f now \<Rightarrow>
          if m i \<noteq> None \<and> \<not> file_row f then (Some ConstraintFailed, m)
          else (None, m(i := map_option (\<lambda>r. r\<lparr>an_ReportFileID := Some f, an_UpdatedAt := now\<rparr>) (m i))))"

text \<open>A sequence of operations with the errors they report.\<close>

primrec run_ops :: "('op \<Rightarrow> 's \<Rightarrow> 'e \<times> 's) \<Rightarrow> 'op list \<Rightarrow> 's \<Rightarrow> 'e list \<times> 's" where
  "run_ops step [] s = ([], s)"
| "run_ops step (op # ops) s =
     (let (e, s1) = step op s; (es, s2) = run_ops step ops s1 in (e # es, s2))"

definition run_abs :: "run_table \<Rightarrow> string \<rightharpoonup> analysis_run" where
  "run_abs t i = find (\<lambda>r. an_ID r = i) t"

lemma run_abs_update:
  assumes "\<And>r. an_ID (f r) = an_ID r"
  shows "run_abs (update_run i f t) = (run_abs t)(i := map_option f (run_abs t i))"
  using assms by (intro ext) (auto simp: run_abs_def find_update_run option.map_ident)

lemma find_append: "find P (xs @ ys) = (case find P xs of None \<Rightarrow> find P ys | Some x \<Rightarrow> Some x)"
  by (induction xs) auto

lemma run_abs_append: "an_ID r \<notin> an_ID ` set t \<Longrightarrow> run_abs (t @ [r]) = (run_abs t)(an_ID r \<mapsto> r)"
  using find_id_None [of "an_ID r" t] by (intro ext) (auto simp: run_abs_def find_append split: option.split)

lemma run_abs_None: "run_abs t i = None \<longleftrightarrow> i \<notin> an_ID ` set t"
  by (simp add: run_abs_def find_id_None)

lemma sql_step_refines:
  "fst (sql_run_step session_row file_row op t) = fst (spec_run_step session_row file_row op (run_abs t))"
  "run_abs (snd (sql_run_step session_row file_row op t)) = snd (spec_run_step session_row file_row op (run_abs t))"
  by (cases op; simp add: sql_run_step_def spec_run_step_def sql_Run_Create_def sql_Run_UpdateStatus_def
        sql_Run_UpdateSummary_def sql_Run_BindReportFile_def run_abs_update run_abs_append run_abs_None)+

text \<open>
  C7. The SQLite repository refines a map from ids to runs: for every sequence of operations on an
  empty table the reported errors are those of the map, the table stands for the map, and a lookup
  returns what the map holds.
\<close>

theorem sql_runs_refine_map:
  "fst (run_ops (sql_run_step session_row file_row) ops []) =
     fst (run_ops (spec_run_step session_row file_row) ops (\<lambda>_. None))
   \<and> run_abs (snd (run_ops (sql_run_step session_row file_row) ops [])) =
       snd (run_ops (spec_run_step session_row file_row) ops (\<lambda>_. None))
   \<and> sql_Run_GetByID (snd (run_ops (sql_run_step session_row file_row) ops [])) i =
       (case snd (run_ops (spec_run_step session_row file_row) ops (\<lambda>_. None)) i of
          None \<Rightarrow> Inl NoSuchRow | Some r \<Rightarrow> Inr r)"
proof -
  have "fst (run_ops (sql_run_step session_row file_row) ops t) =
      fst (run_ops (spec_run_step session_row file_row) ops (run_abs t))
    \<and> run_abs (snd (run_ops (sql_run_step session_row file_row) ops t)) =
      snd (run_ops (spec_run_step session_row file_row) ops (run_abs t))" for t
    by (induction ops arbitrary: t) (simp_all add: sql_step_refines split_def Let_def)
  moreover have "run_abs [] = (\<lambda>_. None)" by (intro ext) (simp add: run_abs_def)
  ultimately show ?thesis by (metis run_abs_def sql_Run_GetByID_def)
qed

text \<open>
  The types of the stored runs: declared statuses and kinds, and a time of completion for every
  run that has ended.
\<close>

definition run_typed :: "analysis_run \<Rightarrow> bool" where
  "run_typed r \<longleftrightarrow>
     (final_run_status (an_Status r) \<or> stale (an_Status r)) \<and> (an_RunKind r = RunKindRoot \<or> an_RunKind r = RunKindDelegate)
     \<and> (final_run_status (an_Status r) \<longrightarrow> an_FinishedAt r \<noteq> None)"

fun op_typed :: "run_op \<Rightarrow> bool" where
  "op_typed (CreateRun r) \<longleftrightarrow> run_typed r \<and> an_ParentRunID r \<noteq> Some (an_ID r)"
| "op_typed (SetStatus i st e now) \<longleftrightarrow> final_run_status st \<or> stale st"
| "op_typed _ \<longleftrightarrow> True"

definition table_typed :: "run_table \<Rightarrow> bool" where
  "table_typed t \<longleftrightarrow> runs_wf t \<and> (\<forall>r \<in> set t. run_typed r \<and> fk_ok (\<lambda>p. p \<in> an_ID ` set t) (an_ParentRunID r))"

lemma table_typed_create:
  assumes "table_typed t" "run_typed run" "an_ParentRunID run \<noteq> Some (an_ID run)"
  shows "table_typed (snd (sql_Run_Create session_row file_row run t))"
proof (cases "fst (sql_Run_Create session_row file_row run t)")
  case None
  then have new: "an_ID run \<notin> an_ID ` set t"
      "fk_ok (\<lambda>p. p \<in> an_ID ` set t \<or> p = an_ID run) (an_ParentRunID run)"
      and eq: "snd (sql_Run_Create session_row file_row run t) = t @ [run]"
    by (auto simp: sql_Run_Create_def split: if_splits)
  have "\<forall>r \<in> set t. an_ParentRunID r \<noteq> Some (an_ID run)"
    using assms(1) new(1) by (fastforce simp: table_typed_def fk_ok_def split: option.splits)
  then have "runs_wf (t @ [run])"
    using assms(1,3) new(1) by (intro runs_wf_append) (auto simp: table_typed_def)
  moreover have "\<forall>r \<in> set (t @ [run]). fk_ok (\<lambda>p. p \<in> an_ID ` set (t @ [run])) (an_ParentRunID r)"
    using assms(1) new(2) by (fastforce simp: table_typed_def fk_ok_def split: option.splits)
  ultimately show ?thesis using assms by (auto simp: table_typed_def eq)
next
  case (Some e)
  then show ?thesis using assms(1) by (auto simp: sql_Run_Create_def split: if_splits)
qed

lemma table_typed_update:
  assumes "table_typed t" "\<And>r. run_typed r \<Longrightarrow> run_typed (f r)"
    and same: "\<And>r. an_ID (f r) = an_ID r \<and> an_ParentRunID (f r) = an_ParentRunID r \<and> an_CreatedAt (f r) = an_CreatedAt r"
  shows "table_typed (update_run i f t)"
proof -
  have keys: "run_keys (update_run i f t) = run_keys t" using same by (rule run_keys_update_run)
  have "\<forall>r \<in> set (update_run i f t). run_typed r \<and> fk_ok (\<lambda>p. p \<in> an_ID ` set t) (an_ParentRunID r)"
    using assms by (auto simp: update_run_def table_typed_def)
  then show ?thesis
    using assms(1) runs_wf_cong [OF keys] run_keys_cong(3) [OF keys] by (simp add: table_typed_def)
qed

lemma table_typed_step: "table_typed t \<Longrightarrow> op_typed op \<Longrightarrow> table_typed (snd (sql_run_step session_row file_row op t))"
  by (cases op)
     (auto simp: sql_run_step_def sql_Run_UpdateStatus_def sql_Run_UpdateSummary_def sql_Run_BindReportFile_def
           table_typed_create run_typed_def intro!: table_typed_update)

text \<open>
  C8. Every sequence of well-typed operations leaves a well-typed table: the ids are unique, each
  parent is a stored run that comes before its children, statuses and kinds are declared ones, and
  a run that has ended has a time of completion.
\<close>

theorem run_table_typed:
  assumes "list_all op_typed ops"
  shows "table_typed (snd (run_ops (sql_run_step session_row file_row) ops []))"
proof -
  have "table_typed t \<Longrightarrow> table_typed (snd (run_ops (sql_run_step session_row file_row) ops t))" for t
    using assms by (induction ops arbitrary: t) (simp_all add: table_typed_step split_def Let_def)
  moreover have "table_typed []" by (simp add: table_typed_def)
  ultimately show ?thesis by blast
qed

theorem run_table_typed_witness:
  "table_typed (snd (run_ops (sql_run_step (\<lambda>_. True) (\<lambda>_. False))
     [CreateRun sample_run, SetStatus ''r_1'' RunStatusCompleted None 7] []))"
  by (rule run_table_typed) (simp add: sample_run_def run_typed_def stale_def final_run_status_def run_statuses)

text \<open>
  The in-memory repository keeps the same runs, except that it does not record when a run was
  last updated, and it reports an update of a missing run where the SQL statement changes no row.
\<close>

definition mem_run_step :: "run_op \<Rightarrow> run_map \<Rightarrow> string option \<times> run_map" where
  "mem_run_step op m =
     (case op of
        CreateRun r \<Rightarrow> (None, mem_Run_Create r m)
      | SetStatus i st e now \<Rightarrow> mem_Run_UpdateStatus i st e now m
      | SetSummary i sm now \<Rightarrow> mem_Run_UpdateSummary i sm m
      | BindReport i f now \<Rightarrow> mem_Run_BindReportFile i f m)"

definition no_update_time :: "analysis_run \<Rightarrow> analysis_run" where
  "no_update_time r = r\<lparr>an_UpdatedAt := 0\<rparr>"

definition same_runs :: "run_table \<Rightarrow> run_map \<Rightarrow> bool" where
  "same_runs t m \<longleftrightarrow> mem_wf m \<and> map no_update_time t = map no_update_time (map snd m)"

lemma no_update_time_id [simp]: "an_ID (no_update_time r) = an_ID r"
  by (simp add: no_update_time_def)

lemma same_runs_update:
  assumes "same_runs t m" "\<And>r. an_ID (f r) = an_ID r"
    and g: "\<And>r. an_ID (g r) = an_ID r \<and> an_ParentRunID (g r) = an_ParentRunID r \<and> an_CreatedAt (g r) = an_CreatedAt r"
    and fg: "\<And>r r'. no_update_time r = no_update_time r' \<Longrightarrow> no_update_time (f r) = no_update_time (g r')"
  shows "same_runs (update_run i f t) (snd (mem_update i g m))"
proof -
  have wf: "mem_wf m" and eq: "map no_update_time t = map no_update_time (map snd m)"
    using assms(1) by (auto simp: same_runs_def)
  have "map no_update_time (update_run i f t) = map no_update_time (update_run i g m')"
    if "map no_update_time t = map no_update_time m'" for m'
    using that
  proof (induction t arbitrary: m')
    case (Cons r t)
    then obtain r' u where m': "m' = r' # u" and r: "no_update_time r = no_update_time r'" by (cases m') auto
    have "an_ID r = an_ID r'" using arg_cong [OF r, of an_ID] by simp
    then show ?case using Cons m' fg [OF r] r by (auto simp: update_run_def)
  qed (simp add: update_run_def)
  then show ?thesis
    using mem_wf_update [OF wf, of g i] mem_update_table(1) [OF wf, of g i] g eq
      run_keys_update_run [of g i "map snd m"] by (simp add: same_runs_def)
qed

lemma same_update_fields:
  "no_update_time r = no_update_time r' \<Longrightarrow>
     no_update_time (r\<lparr>an_Status := st, an_ErrorMessage := e, an_FinishedAt := (if b then x else an_FinishedAt r), an_UpdatedAt := now\<rparr>) =
     no_update_time (r'\<lparr>an_Status := st, an_ErrorMessage := e, an_FinishedAt := (if b then x else an_FinishedAt r')\<rparr>)"
  "no_update_time r = no_update_time r' \<Longrightarrow>
     no_update_time (r\<lparr>an_Summary := sm, an_UpdatedAt := now\<rparr>) = no_update_time (r'\<lparr>an_Summary := sm\<rparr>)"
  "no_update_time r = no_update_time r' \<Longrightarrow>
     no_update_time (r\<lparr>an_ReportFileID := fi, an_UpdatedAt := now\<rparr>) = no_update_time (r'\<lparr>an_ReportFileID := fi\<rparr>)"
  by (cases r; cases r'; simp add: no_update_time_def)+

lemma same_runs_create:
  assumes "same_runs t m" "table_typed t" "run_typed r" "an_ParentRunID r \<noteq> Some (an_ID r)"
    "fst (sql_Run_Create session_row file_row r t) = None"
  shows "same_runs (snd (sql_Run_Create session_row file_row r t)) (mem_Run_Create r m)"
proof -
  have new: "an_ID r \<notin> an_ID ` set t" and eq: "snd (sql_Run_Create session_row file_row r t) = t @ [r]"
    using assms(5) by (auto simp: sql_Run_Create_def split: if_splits)
  have wf: "mem_wf m" and rows: "map no_update_time t = map no_update_time (map snd m)"
    using assms(1) by (auto simp: same_runs_def)
  have "map an_ID t = map an_ID (map snd m)" using arg_cong [OF rows, of "map an_ID"] by (simp add: comp_def)
  then have ids: "map fst m = map an_ID t" using wf by (simp only: mem_wf_def)
  then have "an_ID r \<notin> fst ` set m" using new by (metis list.set_map)
  moreover have "an_RunKind r \<noteq> []" using assms(3) by (auto simp: run_typed_def RunKindRoot_def RunKindDelegate_def)
  ultimately have m: "mem_Run_Create r m = m @ [(an_ID r, r)]"
    by (simp add: mem_Run_Create_def update_nonempty AList.update_conv' flip: map_of_eq_None_iff) (induction m; auto)
  have "table_typed (t @ [r])" using table_typed_create [OF assms(2-4), of session_row file_row] eq by simp
  moreover have "run_keys (map snd m @ [r]) = run_keys (t @ [r])"
  proof -
    have "run_keys u = run_keys (map no_update_time u)" for u by (simp add: run_keys_def no_update_time_def)
    then have "run_keys t = run_keys (map snd m)" using rows by metis
    then show ?thesis by (simp add: run_keys_def)
  qed
  ultimately have "runs_wf (map snd m @ [r])" using runs_wf_cong unfolding table_typed_def by metis
  then show ?thesis using wf rows by (simp add: same_runs_def mem_wf_def m eq)
qed

lemma repositories_agree:
  assumes "same_runs t m" "table_typed t" "op_typed op" "fst (sql_run_step session_row file_row op t) = None"
  shows "same_runs (snd (sql_run_step session_row file_row op t)) (snd (mem_run_step op m))"
  using assms
  by (cases op)
     (auto simp: sql_run_step_def mem_run_step_def sql_Run_UpdateStatus_def mem_Run_UpdateStatus_def
        sql_Run_UpdateSummary_def mem_Run_UpdateSummary_def sql_Run_BindReportFile_def mem_Run_BindReportFile_def
        same_runs_create same_update_fields same_update_fields(1) [where b = True, simplified] split: if_splits intro!: same_runs_update)

lemma repositories_differ:
  "snd (sql_run_step session_row file_row (SetSummary ''x'' ''y'' 1) []) = []"
  "fst (sql_run_step session_row file_row (SetSummary ''x'' ''y'' 1) []) = None"
  "fst (mem_run_step (SetSummary ''x'' ''y'' 1) []) \<noteq> None"
  by (simp_all add: sql_run_step_def sql_Run_UpdateSummary_def update_run_def mem_run_step_def
        mem_Run_UpdateSummary_def mem_update_def)

end
