(* ===== verification/Agent_Engine.thy ===== *)
theory Agent_Engine
  imports Agent_History
begin

text \<open>
  The main loop of the agent (\<open>server/agent/engine.go\<close>) with the user-input request of
  \<open>agentic_tools.go\<close> and the output guard of \<open>html_sanitize.go\<close>. What the loop talks to is the
  record \<open>engine_env\<close>: the language model, the registered tools (with the events they emit), the
  cancellable context, the clock and the runtime variables of the session. Each of its fields
  reads and advances a world \<open>'w\<close>, so that two calls with the same arguments may differ.
  Debug tracing has no effect on the loop and is left out.
\<close>

section \<open>Regular expressions used as scanners\<close>

text \<open>
  \<open>ReplaceAllString\<close> for a pattern given as a matcher: what replaces a match that starts here,
  and the rest of the input. A match is never empty.
\<close>

function replace_matches :: "(string \<Rightarrow> (string \<times> string) option) \<Rightarrow> string \<Rightarrow> string" where
  "replace_matches m [] = []"
| "replace_matches m (c # s) =
     (case m (c # s) of
        Some (r, rest) \<Rightarrow> if length rest \<le> length s then r @ replace_matches m rest
                          else c # replace_matches m s
      | None \<Rightarrow> c # replace_matches m s)"
  by pat_completeness auto
termination by (relation "measure (\<lambda>(m, s). length s)") auto

declare replace_matches.simps(2) [simp del]

text \<open>The class \<open>\s\<close>.\<close>

definition re_space :: "char \<Rightarrow> bool" where
  "re_space c \<longleftrightarrow> c \<in> {CHR 0x09, CHR 0x0A, CHR 0x0C, CHR 0x0D, CHR 0x20}"

definition skip_space :: "string \<Rightarrow> string" where
  "skip_space s = dropWhile re_space s"

definition fold_prefix :: "string \<Rightarrow> string \<Rightarrow> bool" where
  "fold_prefix w s \<longleftrightarrow> prefix w (to_lower s)"

text \<open>The first of the given words, in any case, that starts the input: the match and the rest.\<close>

definition match_word :: "string list \<Rightarrow> string \<Rightarrow> (string \<times> string) option" where
  "match_word ws s = map_option (\<lambda>w. (take (length w) s, drop (length w) s)) (find (\<lambda>w. fold_prefix w s) ws)"

subsection \<open>sanitizeToolError\<close>

definition match_secret :: "string \<Rightarrow> (string \<times> string) option" where
  "match_secret s =
     (case match_word [''password'', ''passwd'', ''secret'', ''token'', ''api_key'', ''api-key'', ''apikey''] s of
        None \<Rightarrow> None
      | Some (g, r1) \<Rightarrow>
          (case skip_space r1 of
             [] \<Rightarrow> None
           | c # r2 \<Rightarrow>
               if c = CHR ''='' \<or> c = CHR '':''
               then let r3 = skip_space r2
                    in if r3 = [] then None
                       else Some (g @ ''=***'', dropWhile (\<lambda>c. \<not> re_space c) r3)
               else None))"

text \<open>\<open>postgresql?\<close> makes the last letter optional, not the last two.\<close>

definition match_dsn :: "string \<Rightarrow> (string \<times> string) option" where
  "match_dsn s =
     (case match_word [''postgresql'', ''postgresq'', ''mysql'', ''mongodb''] s of
        None \<Rightarrow> None
      | Some (g, r) \<Rightarrow>
          if prefix ''://'' r \<and> drop 3 r \<noteq> [] \<and> \<not> re_space (hd (drop 3 r))
          then Some (g @ ''://***'', dropWhile (\<lambda>c. \<not> re_space c) (drop 3 r))
          else None)"

definition match_path :: "string \<Rightarrow> string \<Rightarrow> (string \<times> string) option" where
  "match_path p s =
     (let r = drop (length p) s
      in if prefix p s \<and> r \<noteq> [] \<and> \<not> re_space (hd r)
         then Some (p @ ''***'', dropWhile (\<lambda>c. \<not> re_space c) r) else None)"

definition sanitizeToolError :: "string \<Rightarrow> string" where
  "sanitizeToolError msg =
     (let m1 = replace_matches match_secret msg;
          m2 = replace_matches match_dsn m1;
          m3 = replace_matches (match_path ''/home/'') m2;
          m4 = replace_matches (match_path ''/tmp/'') m3;
          m5 = replace_matches (match_path ''/var/'') m4;
          m6 = replace_matches (match_path [CHR ''C'', CHR '':'', CHR 0x5C]) m5
      in if length m6 > 500 then take 500 m6 @ truncated_mark else m6)"

subsection \<open>sanitizeReportHTML\<close>

definition is_letter :: "char \<Rightarrow> bool" where
  "is_letter c \<longleftrightarrow> (97 \<le> byte (lower_char c) \<and> byte (lower_char c) \<le> 122)"

text \<open>A quoted value up to its closing quote, or a bare one up to white space or \<open>>\<close>.\<close>

definition skip_value :: "string \<Rightarrow> string" where
  "skip_value s =
     (let quoted = (\<lambda>q. s \<noteq> [] \<and> hd s = q \<and> q \<in> set (tl s))
      in if quoted (CHR 0x22) then tl (dropWhile (\<lambda>c. c \<noteq> CHR 0x22) (tl s))
         else if quoted (CHR 0x27) then tl (dropWhile (\<lambda>c. c \<noteq> CHR 0x27) (tl s))
         else dropWhile (\<lambda>c. \<not> re_space c \<and> c \<noteq> CHR ''>'') s)"

text \<open>\<open>on[a-z]+\s*=\s*value\<close>, removed.\<close>

definition match_handler :: "string \<Rightarrow> (string \<times> string) option" where
  "match_handler s =
     (if fold_prefix ''on'' s
      then let name = takeWhile is_letter (drop 2 s);
               r = skip_space (dropWhile is_letter (drop 2 s))
           in if name \<noteq> [] \<and> r \<noteq> [] \<and> hd r = CHR ''=''
              then Some ([], skip_value (skip_space (tl r))) else None
      else None)"

definition match_slash_handler :: "string \<Rightarrow> (string \<times> string) option" where
  "match_slash_handler s = (if prefix ''/'' s then match_handler (drop 1 s) else None)"

definition match_space_handler :: "string \<Rightarrow> (string \<times> string) option" where
  "match_space_handler s = (if s \<noteq> [] \<and> re_space (hd s) then match_handler (skip_space s) else None)"

definition match_dangerous_url :: "string \<Rightarrow> (string \<times> string) option" where
  "match_dangerous_url s =
     (case match_word [''href'', ''src''] s of
        None \<Rightarrow> None
      | Some (_, r1) \<Rightarrow>
          let r2 = skip_space r1
          in if r2 \<noteq> [] \<and> hd r2 = CHR ''=''
             then
               let r3 = skip_space (tl r2)
               in if r3 \<noteq> [] \<and> (hd r3 = CHR 0x22 \<or> hd r3 = CHR 0x27)
                  then
                    (case match_word [''javascript'', ''vbscript'', ''data'', ''blob''] (skip_space (tl r3)) of
                       None \<Rightarrow> None
                     | Some (_, r4) \<Rightarrow>
                         if prefix '':'' (skip_space r4)
                         then Some (take (length s - length (tl r3)) s,
                                    dropWhile (\<lambda>c. c \<noteq> CHR 0x22 \<and> c \<noteq> CHR 0x27) (drop 1 (skip_space r4)))
                         else None)
                  else None
             else None)"

definition sanitizeReportHTML :: "string \<Rightarrow> string" where
  "sanitizeReportHTML html =
     replace_matches match_dangerous_url
       (replace_matches match_space_handler (replace_matches match_slash_handler html))"

definition applyReportHTMLGuardrail :: "codec \<Rightarrow> string \<Rightarrow> string" where
  "applyReportHTMLGuardrail cd res =
     (let trimmed = trim_space res
      in if trimmed = [] then res
         else (case parse_object cd trimmed of
                 None \<Rightarrow> res
               | Some payload \<Rightarrow>
                   (case map_of payload ''html'' of
                      Some (JStr html) \<Rightarrow>
                        if trim_space html = [] then res
                        else marshal cd (JObj (obj_put ''html'' (JStr (sanitizeReportHTML html)) payload))
                    | _ \<Rightarrow> res)))"

section \<open>Requests for user input\<close>

record ask_user_option =
  ao_ID :: string
  ao_Label :: string
  ao_Hint :: string

record ask_user_args =
  aa_Question :: string
  aa_Reason :: string
  aa_Scope :: string
  aa_ContextRef :: string
  aa_InputHint :: string
  aa_Required :: bool
  aa_SelectionMode :: string
  aa_AllowCustom :: "bool option"
  aa_Options :: "ask_user_option list"

record ask_user_data =
  ad_Question :: string
  ad_Reason :: string
  ad_Scope :: string
  ad_ContextRef :: string
  ad_InputHint :: string
  ad_Required :: bool
  ad_SelectionMode :: string
  ad_AllowCustom :: bool
  ad_Options :: "ask_user_option list"

fun validate_options ::
  "(string \<Rightarrow> string) \<Rightarrow> nat \<Rightarrow> ask_user_option list \<Rightarrow> ask_user_option list \<Rightarrow> ask_user_option list result" where
  "validate_options quote i out [] = Inr out"
| "validate_options quote i out (opt # opts) =
     (let oid = trim_space (ao_ID opt); label = trim_space (ao_Label opt)
      in if oid = [] \<or> label = []
         then Inl (''user_request_input options['' @ itoa (int i) @ ''] requires non-empty id and label'')
         else if oid \<in> set (map ao_ID out)
         then Inl (''user_request_input option id '' @ quote oid @ '' is duplicated'')
         else validate_options quote (i + 1)
                (out @ [\<lparr>ao_ID = oid, ao_Label = label, ao_Hint = trim_space (ao_Hint opt)\<rparr>]) opts)"

text \<open>\<open>quote\<close> is the verb \<open>%q\<close>, used in an error message only.\<close>

definition validateAskUserOptions ::
  "(string \<Rightarrow> string) \<Rightarrow> ask_user_option list \<Rightarrow> ask_user_option list result" where
  "validateAskUserOptions quote opts = validate_options quote 0 [] opts"

definition normalizeAskUserSelectionMode :: "string \<Rightarrow> string result" where
  "normalizeAskUserSelectionMode selectionMode =
     (let m = to_lower (trim_space selectionMode)
      in if m = [] \<or> m = ''single'' then Inr ''single''
         else if m = ''multiple'' then Inr ''multiple''
         else Inl ''user_request_input selection_mode must be single or multiple'')"

definition parseAskUserToolCallArguments ::
  "(string \<Rightarrow> string) \<Rightarrow> string + ask_user_args \<Rightarrow> ask_user_data result" where
  "parseAskUserToolCallArguments quote decoded =
     (case decoded of
        Inl err \<Rightarrow> Inl (''user_request_input parameter parse failed: '' @ err)
      | Inr args \<Rightarrow>
          let question = trim_space (aa_Question args);
              allowCustom = (case aa_AllowCustom args of Some b \<Rightarrow> b | None \<Rightarrow> True)
          in if question = [] then Inl ''user_request_input question is required''
             else
               (case validateAskUserOptions quote (aa_Options args) of
                  Inl err \<Rightarrow> Inl err
                | Inr opts \<Rightarrow>
                    if opts = [] \<and> \<not> allowCustom
                    then Inl ''user_request_input requires options when allow_custom is false''
                    else
                      (case normalizeAskUserSelectionMode (aa_SelectionMode args) of
                         Inl err \<Rightarrow> Inl err
                       | Inr mode \<Rightarrow>
                           Inr \<lparr>ad_Question = question, ad_Reason = trim_space (aa_Reason args),
                                ad_Scope = trim_space (aa_Scope args),
                                ad_ContextRef = trim_space (aa_ContextRef args),
                                ad_InputHint = trim_space (aa_InputHint args),
                                ad_Required = aa_Required args, ad_SelectionMode = mode,
                                ad_AllowCustom = allowCustom, ad_Options = opts\<rparr>)))"

definition option_json :: "ask_user_option \<Rightarrow> json" where
  "option_json opt =
     JObj ([(''id'', JStr (ao_ID opt)), (''label'', JStr (ao_Label opt))]
           @ (if ao_Hint opt \<noteq> [] then [(''hint'', JStr (ao_Hint opt))] else []))"

definition omit_empty :: "string \<Rightarrow> string \<Rightarrow> (string \<times> json) list" where
  "omit_empty k s = (if s \<noteq> [] then [(k, JStr s)] else [])"

definition ask_user_json :: "ask_user_data \<Rightarrow> json" where
  "ask_user_json d =
     JObj ([(''question'', JStr (ad_Question d))] @ omit_empty ''reason'' (ad_Reason d)
           @ omit_empty ''scope'' (ad_Scope d) @ omit_empty ''context_ref'' (ad_ContextRef d)
           @ omit_empty ''input_hint'' (ad_InputHint d) @ [(''required'', JBool (ad_Required d))]
           @ omit_empty ''selection_mode'' (ad_SelectionMode d)
           @ [(''allow_custom'', JBool (ad_AllowCustom d))]
           @ (if ad_Options d \<noteq> [] then [(''options'', JArr (map option_json (ad_Options d)))] else []))"

definition AskUser_Execute :: "(string \<Rightarrow> string) \<Rightarrow> string + ask_user_args \<Rightarrow> payload result" where
  "AskUser_Execute quote decoded =
     (case parseAskUserToolCallArguments quote decoded of
        Inl err \<Rightarrow> Inl err
      | Inr d \<Rightarrow>
          Inr [''ok'' \<mapsto> JBool True, ''tool'' \<mapsto> JStr ''user_request_input'',
               ''question'' \<mapsto> JStr (ad_Question d), ''reason'' \<mapsto> JStr (ad_Reason d),
               ''scope'' \<mapsto> JStr (ad_Scope d), ''context_ref'' \<mapsto> JStr (ad_ContextRef d),
               ''input_hint'' \<mapsto> JStr (ad_InputHint d), ''required'' \<mapsto> JBool (ad_Required d),
               ''selection_mode'' \<mapsto> JStr (ad_SelectionMode d),
               ''allow_custom'' \<mapsto> JBool (ad_AllowCustom d),
               ''options'' \<mapsto> JArr (map option_json (ad_Options d)),
               ''run_status'' \<mapsto> JStr ''waiting_user_input'',
               ''ui_summary'' \<mapsto> JStr ''User input request sent.''])"

section \<open>The environment of the loop\<close>

record 'w engine_env =
  env_llm :: "'w \<Rightarrow> prompt_bundle \<Rightarrow> bool \<Rightarrow> (string + llm_response) \<times> 'w"
  env_tool :: "'w \<Rightarrow> string \<Rightarrow> string \<Rightarrow> (string \<times> string option \<times> ws_event list) \<times> 'w"
  env_done :: "'w \<Rightarrow> bool \<times> 'w"
  env_sleep :: "'w \<Rightarrow> nat \<Rightarrow> bool \<times> 'w"
  env_ctx_error :: "'w \<Rightarrow> string"
  env_elapsed :: "'w \<Rightarrow> int"
  env_vars :: "('w \<Rightarrow> runtime_context_block list) option"
  env_ask :: "string \<Rightarrow> string + ask_user_args"
  env_quote :: "string \<Rightarrow> string"
  env_codec :: codec

record 'w run_state =
  rs_world :: 'w
  rs_engine :: engine
  rs_events :: "ws_event list"

definition emit :: "'w run_state \<Rightarrow> ws_event \<Rightarrow> 'w run_state" where
  "emit s ev = s\<lparr>rs_events := rs_events s @ [ev]\<rparr>"

definition remember :: "'w run_state \<Rightarrow> conversation_item \<Rightarrow> 'w run_state" where
  "remember s item = s\<lparr>rs_engine := (rs_engine s)\<lparr>en_history := en_history (rs_engine s) @ [item]\<rparr>\<rparr>"

definition poll :: "'w engine_env \<Rightarrow> 'w run_state \<Rightarrow> bool \<times> 'w run_state" where
  "poll env s = (let (d, w) = env_done env (rs_world s) in (d, s\<lparr>rs_world := w\<rparr>))"

definition error_data :: "string \<Rightarrow> json" where
  "error_data m = JObj [(''message'', JStr m)]"

definition error_code_data :: "string \<Rightarrow> string \<Rightarrow> json" where
  "error_code_data m code = JObj [(''message'', JStr m), (''code'', JStr code)]"

definition summary_data :: "string \<Rightarrow> json" where
  "summary_data t = JObj [(''summary'', JStr t)]"

definition maxMainLoopIterations :: nat where
  "maxMainLoopIterations = 50"

text \<open>The two messages for an answer without content or tool calls, as UTF-8 bytes.\<close>

definition empty_output_message :: string where
  "empty_output_message =
     [CHR 0xE6, CHR 0xA8, CHR 0xA1, CHR 0xE5, CHR 0x9E, CHR 0x8B, CHR 0xE6, CHR 0xB2, CHR 0xA1,
      CHR 0xE6, CHR 0x9C, CHR 0x89, CHR 0xE8, CHR 0xBF, CHR 0x94, CHR 0xE5, CHR 0x9B, CHR 0x9E,
      CHR 0xE5, CHR 0x8F, CHR 0xAF, CHR 0xE5, CHR 0xB1, CHR 0x95, CHR 0xE7, CHR 0xA4, CHR 0xBA,
      CHR 0xE7, CHR 0x9A, CHR 0x84, CHR 0xE5, CHR 0x88, CHR 0x86, CHR 0xE6, CHR 0x9E, CHR 0x90,
      CHR 0xE5, CHR 0x86, CHR 0x85, CHR 0xE5, CHR 0xAE, CHR 0xB9, CHR 0xEF, CHR 0xBC, CHR 0x8C,
      CHR 0xE8, CHR 0xAF, CHR 0xB7, CHR 0xE9, CHR 0x87, CHR 0x8D, CHR 0xE8, CHR 0xAF, CHR 0x95,
      CHR 0xE6, CHR 0x88, CHR 0x96, CHR 0xE6, CHR 0xA3, CHR 0x80, CHR 0xE6, CHR 0x9F, CHR 0xA5,
      CHR 0xE5, CHR 0xBD, CHR 0x93, CHR 0xE5, CHR 0x89, CHR 0x8D, CHR 0x20, CHR 0x4C, CHR 0x4C,
      CHR 0x4D, CHR 0x20, CHR 0xE7, CHR 0xBD, CHR 0x91, CHR 0xE5, CHR 0x85, CHR 0xB3, CHR 0xE9,
      CHR 0x85, CHR 0x8D, CHR 0xE7, CHR 0xBD, CHR 0xAE, CHR 0xE3, CHR 0x80, CHR 0x82]"

definition no_output_message :: string where
  "no_output_message =
     [CHR 0xE6, CHR 0xA8, CHR 0xA1, CHR 0xE5, CHR 0x9E, CHR 0x8B, CHR 0xE6, CHR 0xB2, CHR 0xA1,
      CHR 0xE6, CHR 0x9C, CHR 0x89, CHR 0xE8, CHR 0xBF, CHR 0x94, CHR 0xE5, CHR 0x9B, CHR 0x9E,
      CHR 0xE5, CHR 0x8F, CHR 0xAF, CHR 0xE5, CHR 0xB1, CHR 0x95, CHR 0xE7, CHR 0xA4, CHR 0xBA,
      CHR 0xE7, CHR 0x9A, CHR 0x84, CHR 0xE5, CHR 0x88, CHR 0x86, CHR 0xE6, CHR 0x9E, CHR 0x90,
      CHR 0xE5, CHR 0x86, CHR 0x85, CHR 0xE5, CHR 0xAE, CHR 0xB9, CHR 0xEF, CHR 0xBC, CHR 0x8C,
      CHR 0xE4, CHR 0xB9, CHR 0x9F, CHR 0xE6, CHR 0xB2, CHR 0xA1, CHR 0xE6, CHR 0x9C, CHR 0x89,
      CHR 0xE8, CHR 0xAF, CHR 0xB7, CHR 0xE6, CHR 0xB1, CHR 0x82, CHR 0xE5, CHR 0xB7, CHR 0xA5,
      CHR 0xE5, CHR 0x85, CHR 0xB7, CHR 0xE8, CHR 0xB0, CHR 0x83, CHR 0xE7, CHR 0x94, CHR 0xA8,
      CHR 0xE3, CHR 0x80, CHR 0x82]"

section \<open>Tool execution\<close>

definition isRetryableToolError :: "string option \<Rightarrow> bool" where
  "isRetryableToolError err =
     (case err of
        None \<Rightarrow> False
      | Some e \<Rightarrow>
          let msg = to_lower e
          in contains msg ''timeout'' \<or> contains msg ''connection refused''
             \<or> contains msg ''tls handshake'' \<or> contains msg ''i/o timeout'' \<or> contains msg ''eof''
             \<or> contains msg ''connection reset by peer'')"

definition run_tool ::
  "'w engine_env \<Rightarrow> string \<Rightarrow> string \<Rightarrow> 'w run_state \<Rightarrow> (string \<times> string option) \<times> 'w run_state" where
  "run_tool env toolName args s =
     (let ((res, err, evs), w) = env_tool env (rs_world s) toolName args
      in ((res, err), s\<lparr>rs_world := w, rs_events := rs_events s @ evs\<rparr>))"

text \<open>With \<open>n\<close> retries left; the delays are 1, 2 and 4 seconds.\<close>

fun retry_exec ::
  "'w engine_env \<Rightarrow> string \<Rightarrow> string \<Rightarrow> nat \<Rightarrow> 'w run_state \<Rightarrow> (string \<times> string option) \<times> 'w run_state" where
  "retry_exec env toolName args n s =
     (let (d, s1) = poll env s
      in if d then (([], Some (env_ctx_error env (rs_world s1))), s1)
         else
           let ((res, err), s2) = run_tool env toolName args s1
           in if err = None \<or> \<not> isRetryableToolError err then ((res, err), s2)
              else (case n of
                      0 \<Rightarrow> ((res, err), s2)
                    | Suc m \<Rightarrow>
                        let (d2, w) = env_sleep env (rs_world s2) (2 ^ (2 - m));
                            s3 = s2\<lparr>rs_world := w\<rparr>
                        in if d2 then (([], Some (env_ctx_error env w)), s3)
                           else retry_exec env toolName args m s3))"

declare retry_exec.simps [simp del]

definition retryableToolExec ::
  "'w engine_env \<Rightarrow> string \<Rightarrow> string \<Rightarrow> 'w run_state \<Rightarrow> (string \<times> string option) \<times> 'w run_state" where
  "retryableToolExec env toolName args s = retry_exec env toolName args 3 s"

section \<open>The loop\<close>

definition digest_context :: "engine \<Rightarrow> runtime_context_block list" where
  "digest_context e =
     (if en_contextDigest e \<noteq> [] \<and> digest_body (en_contextDigest e) \<noteq> []
      then [\<lparr>rc_Name = ''digest'', rc_Role = ''user'',
             rc_Content = historyDigestPrefix @ [CHR 0x0A] @ digest_body (en_contextDigest e)\<rparr>]
      else [])"

definition mk_bundle :: "'w engine_env \<Rightarrow> 'w run_state \<Rightarrow> string \<Rightarrow> prompt_bundle" where
  "mk_bundle env s task =
     \<lparr>pb_Policy = en_policy (rs_engine s), pb_PolicyAppendix = [], pb_Task = task,
      pb_RuntimeContext = (case env_vars env of Some f \<Rightarrow> f (rs_world s) | None \<Rightarrow> [])
                          @ digest_context (rs_engine s),
      pb_History = en_history (rs_engine s)\<rparr>"

definition ask_llm ::
  "'w engine_env \<Rightarrow> 'w run_state \<Rightarrow> string \<Rightarrow> bool \<Rightarrow> (string + llm_response) \<times> 'w run_state" where
  "ask_llm env s task with_tools =
     (let (r, w) = env_llm env (rs_world s) (mk_bundle env s task) with_tools
      in (r, s\<lparr>rs_world := w\<rparr>))"

definition compact_run :: "'w engine_env \<Rightarrow> 'w run_state \<Rightarrow> int \<Rightarrow> 'w run_state" where
  "compact_run env s tokens =
     s\<lparr>rs_engine := compactMessagesLocked (env_codec env) (rs_engine s) tokens\<rparr>"

definition finalResponseAfterFinalize ::
  "'w engine_env \<Rightarrow> 'w run_state \<Rightarrow> string result \<times> 'w run_state" where
  "finalResponseAfterFinalize env s =
     (case ask_llm env s [] False of
        (Inl err, s1) \<Rightarrow> (Inl err, s1)
      | (Inr resp, s1) \<Rightarrow>
          (case lr_Choices resp of
             [] \<Rightarrow> (Inl ''LLM returned empty response'', s1)
           | choice # _ \<Rightarrow>
               let summary = trim_space (lm_Content (lc_Message choice))
               in if summary = [] then (Inl ''LLM returned empty final response'', s1)
                  else (Inr summary,
                        compact_run env
                          (remember s1 (assistant_item summary (lm_ReasoningContent (lc_Message choice))))
                          (lr_PromptTokens resp))))"

datatype 'w loop_outcome = Finished "'w run_state" | NextTurn "'w run_state"

definition tool_call_event :: "llm_tool_call \<Rightarrow> ws_event" where
  "tool_call_event c =
     mk_event EventToolCall (JObj [(''id'', JStr (tc_ID c)), (''name'', JStr (tc_Name c)),
                                   (''arguments'', JStr (tc_Arguments c))])"

definition tool_result_event :: "llm_tool_call \<Rightarrow> string \<Rightarrow> int \<Rightarrow> bool \<Rightarrow> ws_event" where
  "tool_result_event c res duration success =
     mk_event EventToolResult (JObj [(''id'', JStr (tc_ID c)), (''name'', JStr (tc_Name c)),
       (''result'', JStr res), (''duration'', JInt duration), (''success'', JBool success)])"

text \<open>What follows the execution of one call, up to the next call.\<close>

definition after_tool ::
  "'w engine_env \<Rightarrow> llm_tool_call \<Rightarrow> string \<times> string option \<Rightarrow> 'w run_state \<Rightarrow> 'w loop_outcome" where
  "after_tool env c out s =
     (let (res0, execErr) = out;
          (d, s1) = poll env s
      in if d then Finished s1
         else
           let success = toolCallSucceeded (env_codec env) res0 execErr;
               res = (case execErr of Some e \<Rightarrow> ''tool execution error: '' @ sanitizeToolError e
                      | None \<Rightarrow> res0);
               s2 = emit s1 (tool_result_event c res (env_elapsed env (rs_world s1)) success);
               (d2, s3) = poll env s2
           in if d2 then Finished s3
              else
                let s4 = remember s3 (tool_item (tc_ID c) (compactToolResult (env_codec env) (tc_Name c) res))
                in if tc_Name c = ''report_finalize'' \<and> isSuccessfulFinalizeResult (env_codec env) res
                   then (case finalResponseAfterFinalize env s4 of
                           (Inl err, s5) \<Rightarrow> Finished (emit s5 (mk_event EventError (error_data err)))
                         | (Inr summary, s5) \<Rightarrow>
                             Finished (emit s5 (mk_event EventRunCompleted (summary_data summary))))
                   else NextTurn s4)"

definition exec_tool_call :: "'w engine_env \<Rightarrow> llm_tool_call \<Rightarrow> 'w run_state \<Rightarrow> 'w loop_outcome" where
  "exec_tool_call env c s =
     (let s1 = emit s (tool_call_event c)
      in if tc_Name c = ''user_request_input''
         then (case parseAskUserToolCallArguments (env_quote env) (env_ask env (tc_Arguments c)) of
                 Inl err \<Rightarrow> Finished (emit s1 (mk_event EventError (error_data err)))
               | Inr d \<Rightarrow> Finished (emit s1 (mk_event EventUserRequestInput (ask_user_json d))))
         else if tc_Name c = ''report_finalize''
         then let ((res, err), s2) = run_tool env (tc_Name c) (tc_Arguments c) s1;
                  res' = (if err = None \<and> res \<noteq> [] then applyReportHTMLGuardrail (env_codec env) res
                          else res)
              in after_tool env c (res', err) s2
         else let (out, s2) = retryableToolExec env (tc_Name c) (tc_Arguments c) s1
              in after_tool env c out s2)"

fun tool_calls :: "'w engine_env \<Rightarrow> llm_tool_call list \<Rightarrow> 'w run_state \<Rightarrow> 'w loop_outcome" where
  "tool_calls env [] s = NextTurn s"
| "tool_calls env (c # cs) s =
     (case exec_tool_call env c s of
        Finished s' \<Rightarrow> Finished s'
      | NextTurn s' \<Rightarrow> tool_calls env cs s')"

text \<open>What is done with an answer of the model that has a choice.\<close>

definition handle_choice :: "'w engine_env \<Rightarrow> llm_choice \<Rightarrow> 'w run_state \<Rightarrow> 'w loop_outcome" where
  "handle_choice env choice s =
     (let msg = lc_Message choice;
          final = (\<lambda>s. Finished (emit (remember s (assistant_item (lm_Content msg) (lm_ReasoningContent msg)))
                                   (mk_event EventRunCompleted (summary_data (lm_Content msg)))))
      in if lm_Content msg \<noteq> [] \<and> lm_ToolCalls msg = [] then final s
         else
           let s1 = (if lm_Content msg \<noteq> []
                     then emit s (mk_event EventAssistantStatus (JObj [(''content'', JStr (lm_Content msg))]))
                     else s)
           in if lc_FinishReason choice = LLMFinishReasonStop \<and> lm_ToolCalls msg = []
              then if trim_space (lm_Content msg) = []
                   then Finished (emit s1 (mk_event EventError
                                    (error_code_data empty_output_message ''empty_llm_output'')))
                   else final s1
              else if lm_ToolCalls msg \<noteq> []
              then tool_calls env (lm_ToolCalls msg)
                     (remember s1 (compactAssistantMessage (env_codec env) msg))
              else Finished (emit s1 (mk_event EventError
                               (error_code_data no_output_message ''empty_llm_output''))))"

definition take_task :: "'w run_state \<Rightarrow> string \<Rightarrow> 'w run_state" where
  "take_task s task = (if task \<noteq> [] then remember s (user_item task) else s)"

text \<open>One iteration, after the cancellation and iteration checks.\<close>

definition one_turn :: "'w engine_env \<Rightarrow> string \<Rightarrow> 'w run_state \<Rightarrow> 'w loop_outcome" where
  "one_turn env task s =
     (case ask_llm env s task True of
        (Inl err, s1) \<Rightarrow> Finished (emit s1 (mk_event EventError (error_data err)))
      | (Inr resp, s1) \<Rightarrow>
          let s2 = compact_run env (take_task s1 task) (lr_PromptTokens resp)
          in case lr_Choices resp of
               [] \<Rightarrow> Finished (emit s2 (mk_event EventError (error_data ''LLM returned empty response'')))
             | choice # _ \<Rightarrow> handle_choice env choice s2)"

function run_loop :: "'w engine_env \<Rightarrow> nat \<Rightarrow> string \<Rightarrow> 'w run_state \<Rightarrow> 'w run_state" where
  "run_loop env i task s =
     (let (d, s1) = poll env s
      in if d then emit s1 (mk_event EventRunCancelled (error_data ''task cancelled''))
         else if i > maxMainLoopIterations
         then emit s1 (mk_event EventError (error_data (''main loop exceeded max iterations ''
                        @ itoa (int maxMainLoopIterations))))
         else (case one_turn env task s1 of
                 Finished s2 \<Rightarrow> s2
               | NextTurn s2 \<Rightarrow> run_loop env (i + 1) [] s2))"
  by pat_completeness auto
termination
  by (relation "measure (\<lambda>(env, i, task, s). Suc maxMainLoopIterations - i)") auto

declare run_loop.simps [simp del]

definition Run :: "'w engine_env \<Rightarrow> string \<Rightarrow> 'w \<Rightarrow> engine \<Rightarrow> 'w run_state" where
  "Run env userInput w e = run_loop env 1 userInput \<lparr>rs_world = w, rs_engine = e, rs_events = []\<rparr>"

section \<open>Lemmas\<close>

subsection \<open>Events\<close>

text \<open>The events that end a run for its client; events of child runs carry their own run id.\<close>

definition terminal :: "ws_event \<Rightarrow> bool" where
  "terminal ev \<longleftrightarrow> ev_run_id ev = [] \<and>
     ev_type ev \<in> {EventError, EventRunCompleted, EventRunCancelled, EventUserRequestInput}"

definition quiet :: "'w run_state \<Rightarrow> bool" where
  "quiet s \<longleftrightarrow> list_all (\<lambda>ev. \<not> terminal ev) (rs_events s)"

definition ended :: "'w run_state \<Rightarrow> bool" where
  "ended s \<longleftrightarrow> (\<exists>es t. rs_events s = es @ [t] \<and> list_all (\<lambda>ev. \<not> terminal ev) es \<and> terminal t)"

definition never_done :: "'w engine_env \<Rightarrow> bool" where
  "never_done env \<longleftrightarrow> (\<forall>w. \<not> fst (env_done env w))"

definition ends_well :: "'w engine_env \<Rightarrow> 'w run_state \<Rightarrow> bool" where
  "ends_well env s \<longleftrightarrow> ended s \<or> (quiet s \<and> \<not> never_done env)"

fun good_outcome :: "'w engine_env \<Rightarrow> 'w loop_outcome \<Rightarrow> bool" where
  "good_outcome env (Finished s) = ends_well env s"
| "good_outcome env (NextTurn s) = quiet s"

lemma terminal_mk [simp]:
  "terminal (mk_event t d) \<longleftrightarrow> t \<in> {EventError, EventRunCompleted, EventRunCancelled, EventUserRequestInput}"
  by (simp add: terminal_def mk_event_def)

lemma quiet_emit: "quiet s \<Longrightarrow> \<not> terminal ev \<Longrightarrow> quiet (emit s ev)"
  by (simp add: quiet_def emit_def)

lemma ended_emit: "quiet s \<Longrightarrow> terminal ev \<Longrightarrow> ended (emit s ev)"
  by (auto simp: quiet_def ended_def emit_def)

lemma ends_emit: "quiet s \<Longrightarrow> terminal ev \<Longrightarrow> ends_well env (emit s ev)"
  by (simp add: ends_well_def ended_emit)

lemma quiet_remember [simp]: "quiet (remember s i) = quiet s"
  by (simp add: quiet_def remember_def)

lemma quiet_compact [simp]: "quiet (compact_run env s n) = quiet s"
  by (simp add: quiet_def compact_run_def)

lemma quiet_take_task [simp]: "quiet (take_task s t) = quiet s"
  by (simp add: take_task_def)

lemma quiet_poll: "poll env s = (d, s') \<Longrightarrow> quiet s' = quiet s \<and> (d \<longrightarrow> \<not> never_done env)"
  by (auto simp: poll_def quiet_def never_done_def split: prod.splits) (metis fst_conv)

lemma quiet_ask: "ask_llm env s t b = (r, s') \<Longrightarrow> quiet s' = quiet s"
  by (auto simp: ask_llm_def quiet_def split: prod.splits)

lemma quiet_final: "finalResponseAfterFinalize env s = (r, s') \<Longrightarrow> quiet s' = quiet s"
  by (auto simp: finalResponseAfterFinalize_def Let_def dest!: quiet_ask
      split: prod.splits sum.splits list.splits if_splits)

lemma tool_event_quiet [simp]: "\<not> terminal (tool_call_event c)" "\<not> terminal (tool_result_event c r d b)"
  by (simp_all add: tool_call_event_def tool_result_event_def event_types)

lemma terminal_types [simp]:
  "terminal (mk_event EventError d)" "terminal (mk_event EventRunCompleted d)"
  "terminal (mk_event EventRunCancelled d)" "terminal (mk_event EventUserRequestInput d)"
  "\<not> terminal (mk_event EventAssistantStatus d)"
  by (simp_all add: event_types)

declare terminal_mk [simp del]

lemma good_after_tool:
  assumes "quiet s"
  shows "good_outcome env (after_tool env c out s)"
proof -
  obtain d s1 where p1: "poll env s = (d, s1)" by fastforce
  note q1 = quiet_poll [OF p1]
  let ?res = "case snd out of Some e \<Rightarrow> ''tool execution error: '' @ sanitizeToolError e | None \<Rightarrow> fst out"
  let ?s2 = "emit s1 (tool_result_event c ?res (env_elapsed env (rs_world s1))
    (toolCallSucceeded (env_codec env) (fst out) (snd out)))"
  obtain d2 s3 where p2: "poll env ?s2 = (d2, s3)" by fastforce
  note q2 = quiet_poll [OF p2]
  let ?s4 = "remember s3 (tool_item (tc_ID c) (compactToolResult (env_codec env) (tc_Name c) ?res))"
  obtain r s5 where f: "finalResponseAfterFinalize env ?s4 = (r, s5)" by fastforce
  have "quiet ?s2" using assms q1 by (simp add: quiet_emit)
  then show ?thesis
    using assms p1 p2 q1 q2 f quiet_final [OF f]
    by (auto simp: after_tool_def split_beta Let_def ends_well_def ended_emit split: sum.split)
qed

text \<open>
  The interface of a registered tool as far as the event stream is concerned: every event it
  emits satisfies a given predicate.
\<close>

locale tool_events =
  fixes env :: "'w engine_env" and P :: "ws_event \<Rightarrow> bool"
  assumes tool_emits: "env_tool env w n a = ((res, err, evs), w') \<Longrightarrow> list_all P evs"
begin

lemma run_tool_emits:
  "list_all P (rs_events s) \<Longrightarrow> run_tool env n a s = (out, s') \<Longrightarrow> list_all P (rs_events s')"
  using tool_emits by (auto simp: run_tool_def split: prod.splits)

lemma retry_emits:
  "list_all P (rs_events s) \<Longrightarrow> retry_exec env n a k s = (out, s') \<Longrightarrow> list_all P (rs_events s')"
proof (induction k arbitrary: s)
  case (Suc k)
  obtain d s1 where p: "poll env s = (d, s1)" by fastforce
  obtain res err s2 where t: "run_tool env n a s1 = ((res, err), s2)" by (metis surj_pair)
  obtain d2 w where sl: "env_sleep env (rs_world s2) (2 ^ (2 - k)) = (d2, w)" by fastforce
  have 1: "list_all P (rs_events s1)" using Suc.prems(1) p by (auto simp: poll_def split: prod.splits)
  then have 2: "list_all P (rs_events s2)" using run_tool_emits [OF _ t] by blast
  show ?case
    using Suc.prems Suc.IH [of "s2\<lparr>rs_world := w\<rparr>"] p t sl 1 2
    by (subst (asm) retry_exec.simps) (auto simp: Let_def split: if_splits)
next
  case 0
  obtain d s1 where p: "poll env s = (d, s1)" by fastforce
  obtain res err s2 where t: "run_tool env n a s1 = ((res, err), s2)" by (metis surj_pair)
  have 1: "list_all P (rs_events s1)" using 0(1) p by (auto simp: poll_def split: prod.splits)
  with 0 p t run_tool_emits [OF _ t] show ?case
    by (subst (asm) retry_exec.simps) (auto simp: Let_def split: if_splits)
qed

end

text \<open>Tools that emit no event that ends the run.\<close>

locale quiet_tools = tool_events env "\<lambda>ev. \<not> terminal ev" for env :: "'w engine_env"
begin

lemma quiet_run_tool: "quiet s \<Longrightarrow> run_tool env n a s = (out, s') \<Longrightarrow> quiet s'"
  unfolding quiet_def by (rule run_tool_emits)

lemma quiet_retry: "quiet s \<Longrightarrow> retry_exec env n a k s = (out, s') \<Longrightarrow> quiet s'"
  unfolding quiet_def by (rule retry_emits)

lemma good_exec: "quiet s \<Longrightarrow> good_outcome env (exec_tool_call env c s)"
proof -
  assume q: "quiet s"
  let ?s1 = "emit s (tool_call_event c)"
  have q1: "quiet ?s1" using q by (simp add: quiet_emit)
  obtain res err s2 where t: "run_tool env (tc_Name c) (tc_Arguments c) ?s1 = ((res, err), s2)"
    by (metis surj_pair)
  obtain out s3 where r: "retryableToolExec env (tc_Name c) (tc_Arguments c) ?s1 = (out, s3)" by fastforce
  have "quiet s2" "quiet s3"
    using quiet_run_tool [OF q1 t] quiet_retry [OF q1] r by (auto simp: retryableToolExec_def)
  then show ?thesis
    using q1 t r by (auto simp: exec_tool_call_def Let_def ends_emit good_after_tool split: sum.split)
qed

lemma good_tool_calls: "quiet s \<Longrightarrow> good_outcome env (tool_calls env cs s)"
proof (induction cs arbitrary: s)
  case (Cons c cs)
  then show ?case using good_exec [of s c] by (auto split: loop_outcome.split)
qed simp

lemma good_handle: "quiet s \<Longrightarrow> good_outcome env (handle_choice env choice s)"
  by (auto simp: handle_choice_def Let_def ends_emit quiet_emit intro!: good_tool_calls)

lemma good_turn: "quiet s \<Longrightarrow> good_outcome env (one_turn env task s)"
  by (auto simp: one_turn_def Let_def ends_emit intro!: good_handle dest!: quiet_ask
      split: prod.split sum.split list.split)

lemma good_loop: "quiet s \<Longrightarrow> ends_well env (run_loop env i task s)"
proof (induction "Suc maxMainLoopIterations - i" arbitrary: i task s rule: less_induct)
  case less
  obtain d s1 where p: "poll env s = (d, s1)" by fastforce
  have q: "quiet s1" using quiet_poll [OF p] less.prems by simp
  have rest: "ends_well env (run_loop env (Suc i) [] s2)"
    if "one_turn env task s1 = NextTurn s2" "\<not> maxMainLoopIterations < i" for s2
    using less.hyps [of "Suc i" s2 "[]"] good_turn [OF q, of task] that by simp
  show ?case
    using p q good_turn [OF q, of task] rest
    by (subst run_loop.simps) (auto simp: ends_emit split: loop_outcome.split)
qed

end

fun outcome_state :: "'w loop_outcome \<Rightarrow> 'w run_state" where
  "outcome_state (Finished s) = s"
| "outcome_state (NextTurn s) = s"

text \<open>
  If moreover the loop's own events, which carry no run id, satisfy the predicate, every event of
  a run does.
\<close>

locale event_source = tool_events +
  assumes own_emits: "P (mk_event t d)"
begin

abbreviation all_ok :: "'a run_state \<Rightarrow> bool" where
  "all_ok s \<equiv> list_all P (rs_events s)"

lemma own_tool_events: "P (tool_call_event c)" "P (tool_result_event c r d b)"
  by (simp_all add: tool_call_event_def tool_result_event_def own_emits)

lemma emit_ok: "all_ok s \<Longrightarrow> P ev \<Longrightarrow> all_ok (emit s ev)"
  by (simp add: emit_def)

lemma frames_ok [simp]: "all_ok (remember s i) = all_ok s" "all_ok (compact_run env' s n) = all_ok s"
  "all_ok (take_task s t) = all_ok s"
  by (simp_all add: remember_def compact_run_def take_task_def)

lemma poll_ok: "poll env s = (b, s') \<Longrightarrow> all_ok s' = all_ok s"
  by (auto simp: poll_def split: prod.splits)

lemma ask_ok: "ask_llm env s t b = (r, s') \<Longrightarrow> all_ok s' = all_ok s"
  by (auto simp: ask_llm_def split: prod.splits)

lemma final_ok: "finalResponseAfterFinalize env s = (r, s') \<Longrightarrow> all_ok s' = all_ok s"
  by (auto simp: finalResponseAfterFinalize_def Let_def dest!: ask_ok
      split: prod.splits sum.splits list.splits if_splits)

lemma after_tool_ok:
  assumes "all_ok s"
  shows "all_ok (outcome_state (after_tool env c out s))"
proof -
  obtain dn s1 where p1: "poll env s = (dn, s1)" by fastforce
  let ?res = "case snd out of Some e \<Rightarrow> ''tool execution error: '' @ sanitizeToolError e | None \<Rightarrow> fst out"
  let ?s2 = "emit s1 (tool_result_event c ?res (env_elapsed env (rs_world s1))
    (toolCallSucceeded (env_codec env) (fst out) (snd out)))"
  obtain d2 s3 where p2: "poll env ?s2 = (d2, s3)" by fastforce
  let ?s4 = "remember s3 (tool_item (tc_ID c) (compactToolResult (env_codec env) (tc_Name c) ?res))"
  obtain r s5 where f: "finalResponseAfterFinalize env ?s4 = (r, s5)" by fastforce
  have 1: "all_ok s1" using poll_ok [OF p1] assms by simp
  then have 3: "all_ok s3" using poll_ok [OF p2] emit_ok [OF 1 own_tool_events(2)] by simp
  then have "all_ok s5" using final_ok [OF f] by simp
  with 1 3 show ?thesis using p1 p2 f
    by (auto simp: after_tool_def split_beta Let_def own_emits intro!: emit_ok split: sum.split)
qed

lemma exec_ok:
  assumes "all_ok s"
  shows "all_ok (outcome_state (exec_tool_call env c s))"
proof -
  let ?s1 = "emit s (tool_call_event c)"
  have s1: "all_ok ?s1" using assms own_tool_events(1) by (rule emit_ok)
  obtain res err s2 where t: "run_tool env (tc_Name c) (tc_Arguments c) ?s1 = ((res, err), s2)"
    by (metis surj_pair)
  obtain out s3 where r: "retryableToolExec env (tc_Name c) (tc_Arguments c) ?s1 = (out, s3)" by fastforce
  have "all_ok s2" "all_ok s3"
    using run_tool_emits [OF s1 t] retry_emits [OF s1 r [unfolded retryableToolExec_def]] by simp_all
  then show ?thesis
    using t r s1 by (auto simp: exec_tool_call_def Let_def own_emits after_tool_ok intro!: emit_ok split: sum.split)
qed

lemma tool_calls_ok: "all_ok s \<Longrightarrow> all_ok (outcome_state (tool_calls env cs s))"
proof (induction cs arbitrary: s)
  case (Cons c cs)
  show ?case
    using exec_ok [OF Cons.prems, of c] Cons.IH [of "outcome_state (exec_tool_call env c s)"]
    by (cases "exec_tool_call env c s") simp_all
qed simp

lemma turn_ok:
  assumes "all_ok s"
  shows "all_ok (outcome_state (one_turn env task s))"
proof -
  obtain r s1 where a: "ask_llm env s task True = (r, s1)" by fastforce
  have "all_ok (outcome_state (handle_choice env choice s2))" if "all_ok s2" for choice s2
    using that by (auto simp: handle_choice_def Let_def own_emits intro!: tool_calls_ok emit_ok)
  with ask_ok [OF a] assms a show ?thesis
    by (auto simp: one_turn_def Let_def own_emits intro!: emit_ok split: sum.split list.split)
qed

lemma loop_ok: "all_ok s \<Longrightarrow> all_ok (run_loop env i task s)"
proof (induction "Suc maxMainLoopIterations - i" arbitrary: i task s rule: less_induct)
  case less
  obtain dn s1 where p: "poll env s = (dn, s1)" by fastforce
  have 1: "all_ok s1" using poll_ok [OF p] less.prems by simp
  have rest: "all_ok (run_loop env (Suc i) [] s2)"
    if "one_turn env task s1 = NextTurn s2" "\<not> maxMainLoopIterations < i" for s2
    using less.hyps [of "Suc i" s2 "[]"] turn_ok [OF 1, of task] that by simp
  show ?case
    using p 1 turn_ok [OF 1, of task] rest emit_ok [OF 1] own_emits
    by (subst run_loop.simps) (auto split: loop_outcome.split)
qed

lemma run_ok: "all_ok (Run env userInput w e)"
  by (simp add: Run_def loop_ok)

end

subsection \<open>Counting calls\<close>

text \<open>
  The same environment with two counters in its world: calls of the model, executions of a tool.
\<close>

definition counted :: "'w engine_env \<Rightarrow> ('w \<times> nat \<times> nat) engine_env" where
  "counted env =
     \<lparr>env_llm = \<lambda>(w, m, t) b k. (case env_llm env w b k of (r, w') \<Rightarrow> (r, (w', m + 1, t))),
      env_tool = \<lambda>(w, m, t) n a. (case env_tool env w n a of (r, w') \<Rightarrow> (r, (w', m, t + 1))),
      env_done = \<lambda>(w, m, t). (case env_done env w of (d, w') \<Rightarrow> (d, (w', m, t))),
      env_sleep = \<lambda>(w, m, t) n. (case env_sleep env w n of (d, w') \<Rightarrow> (d, (w', m, t))),
      env_ctx_error = \<lambda>(w, m, t). env_ctx_error env w,
      env_elapsed = \<lambda>(w, m, t). env_elapsed env w,
      env_vars = map_option (\<lambda>f (w, m, t). f w) (env_vars env),
      env_ask = env_ask env, env_quote = env_quote env, env_codec = env_codec env\<rparr>"

abbreviation llm_calls :: "('w \<times> nat \<times> nat) run_state \<Rightarrow> nat" where
  "llm_calls s \<equiv> fst (snd (rs_world s))"

abbreviation tool_runs :: "('w \<times> nat \<times> nat) run_state \<Rightarrow> nat" where
  "tool_runs s \<equiv> snd (snd (rs_world s))"

lemma count_simps [simp]:
  "rs_world (emit s ev) = rs_world s" "rs_world (remember s i) = rs_world s"
  "rs_world (compact_run env s n) = rs_world s" "rs_world (take_task s t) = rs_world s"
  by (simp_all add: emit_def remember_def compact_run_def take_task_def)

lemma count_poll: "poll (counted env) s = (d, s') \<Longrightarrow> llm_calls s' = llm_calls s \<and> tool_runs s' = tool_runs s"
  by (cases "rs_world s") (auto simp: poll_def counted_def split: prod.splits)

lemma count_ask: "ask_llm (counted env) s t b = (r, s') \<Longrightarrow> llm_calls s' = Suc (llm_calls s)"
  by (cases "rs_world s") (auto simp: ask_llm_def counted_def split: prod.splits)

lemma count_tool:
  "run_tool (counted env) n a s = (r, s') \<Longrightarrow> llm_calls s' = llm_calls s \<and> tool_runs s' = Suc (tool_runs s)"
  by (cases "rs_world s") (auto simp: run_tool_def counted_def split: prod.splits)

lemma count_sleep:
  "env_sleep (counted env) w n = (d, w') \<Longrightarrow> fst (snd w') = fst (snd w) \<and> snd (snd w') = snd (snd w)"
  by (cases w) (auto simp: counted_def split: prod.splits)

lemma count_retry:
  "retry_exec (counted env) n a k s = (out, s') \<Longrightarrow>
     llm_calls s' = llm_calls s \<and> tool_runs s' \<le> tool_runs s + k + 1"
proof (induction k arbitrary: s)
  case 0
  obtain d s1 where p: "poll (counted env) s = (d, s1)" by fastforce
  obtain res err s2 where t: "run_tool (counted env) n a s1 = ((res, err), s2)" by (metis surj_pair)
  show ?case using 0 p t count_poll [OF p] count_tool [OF t]
    by (subst (asm) retry_exec.simps) (auto simp: Let_def split: if_splits)
next
  case (Suc k)
  obtain d s1 where p: "poll (counted env) s = (d, s1)" by fastforce
  obtain res err s2 where t: "run_tool (counted env) n a s1 = ((res, err), s2)" by (metis surj_pair)
  obtain d2 w where sl: "env_sleep (counted env) (rs_world s2) (2 ^ (2 - k)) = (d2, w)"
    by (metis surj_pair)
  show ?case
    using Suc.prems Suc.IH [of "s2\<lparr>rs_world := w\<rparr>"] p t sl
      count_poll [OF p] count_tool [OF t] count_sleep [OF sl]
    by (subst (asm) retry_exec.simps) (auto simp: Let_def split: if_splits)
qed

text \<open>A call of the model outside \<open>one_turn\<close> is the last one.\<close>

definition calls_ok :: "nat \<Rightarrow> ('w \<times> nat \<times> nat) loop_outcome \<Rightarrow> bool" where
  "calls_ok n out \<longleftrightarrow> (case out of Finished s \<Rightarrow> llm_calls s \<le> n + 1 | NextTurn s \<Rightarrow> llm_calls s = n)"

lemma count_final:
  "finalResponseAfterFinalize (counted env) s = (r, s') \<Longrightarrow> llm_calls s' = Suc (llm_calls s)"
  by (auto simp: finalResponseAfterFinalize_def Let_def dest!: count_ask
      split: prod.splits sum.splits list.splits if_splits)

lemma count_after_tool: "calls_ok (llm_calls s) (after_tool (counted env) c out s)"
proof -
  obtain d s1 where p1: "poll (counted env) s = (d, s1)" by fastforce
  let ?res = "case snd out of Some e \<Rightarrow> ''tool execution error: '' @ sanitizeToolError e | None \<Rightarrow> fst out"
  let ?s2 = "emit s1 (tool_result_event c ?res (env_elapsed (counted env) (rs_world s1))
    (toolCallSucceeded (env_codec (counted env)) (fst out) (snd out)))"
  obtain d2 s3 where p2: "poll (counted env) ?s2 = (d2, s3)" by fastforce
  let ?s4 = "remember s3 (tool_item (tc_ID c) (compactToolResult (env_codec (counted env)) (tc_Name c) ?res))"
  obtain r s5 where f: "finalResponseAfterFinalize (counted env) ?s4 = (r, s5)" by fastforce
  show ?thesis
    using p1 p2 f count_poll [OF p1] count_poll [OF p2] count_final [OF f]
    by (auto simp: after_tool_def split_beta Let_def calls_ok_def split: sum.split)
qed

lemma count_exec: "calls_ok (llm_calls s) (exec_tool_call (counted env) c s)"
proof -
  let ?s1 = "emit s (tool_call_event c)"
  obtain res err s2 where t: "run_tool (counted env) (tc_Name c) (tc_Arguments c) ?s1 = ((res, err), s2)"
    by (metis surj_pair)
  obtain out s3 where r: "retryableToolExec (counted env) (tc_Name c) (tc_Arguments c) ?s1 = (out, s3)"
    by fastforce
  show ?thesis
    using t r count_tool [OF t] count_retry [OF r [unfolded retryableToolExec_def]]
      count_after_tool [of s2 env c] count_after_tool [of s3 env c]
    by (auto simp: exec_tool_call_def Let_def calls_ok_def split: sum.split)
qed

lemma count_tool_calls: "calls_ok (llm_calls s) (tool_calls (counted env) cs s)"
proof (induction cs arbitrary: s)
  case (Cons c cs)
  show ?case
  proof (cases "exec_tool_call (counted env) c s")
    case (NextTurn s')
    then show ?thesis using count_exec [of s env c] Cons [of s'] by (simp add: calls_ok_def)
  qed (use count_exec [of s env c] in \<open>simp add: calls_ok_def\<close>)
qed (simp add: calls_ok_def)

lemma count_handle: "calls_ok (llm_calls s) (handle_choice (counted env) choice s)"
  using count_tool_calls [of "remember s i" for i] count_tool_calls [of "remember (emit s e) i" for e i]
  by (auto simp: handle_choice_def Let_def calls_ok_def split: loop_outcome.splits)

lemma count_turn: "calls_ok (Suc (llm_calls s)) (one_turn (counted env) task s)"
proof -
  obtain r s1 where a: "ask_llm (counted env) s task True = (r, s1)" by fastforce
  show ?thesis
    using a count_ask [OF a] count_handle [of "compact_run (counted env) (take_task s1 task) n" for n]
    by (auto simp: one_turn_def Let_def calls_ok_def split: sum.split list.split)
qed

lemma count_loop:
  "llm_calls (run_loop (counted env) i task s) \<le> llm_calls s + (Suc maxMainLoopIterations - i) + 1"
proof (induction "Suc maxMainLoopIterations - i" arbitrary: i task s rule: less_induct)
  case less
  obtain d s1 where p: "poll (counted env) s = (d, s1)" by fastforce
  have rest: "llm_calls (run_loop (counted env) (Suc i) [] s2) \<le> llm_calls s2 + (maxMainLoopIterations - i) + 1"
    if "\<not> maxMainLoopIterations < i" for s2
    using less [of "Suc i" "[]" s2] that by simp
  show ?case
  proof (cases "d \<or> maxMainLoopIterations < i")
    case True
    then show ?thesis using p count_poll [OF p] by (subst run_loop.simps) auto
  next
    case False
    show ?thesis
    proof (cases "one_turn (counted env) task s1")
      case (NextTurn s2)
      then show ?thesis
        using False p count_poll [OF p] count_turn [of s1 env task] rest [of s2]
        by (subst run_loop.simps) (simp add: calls_ok_def, linarith)
    next
      case (Finished s2)
      then show ?thesis
        using False p count_poll [OF p] count_turn [of s1 env task]
        by (subst run_loop.simps) (simp add: calls_ok_def, linarith)
    qed
  qed
qed

subsection \<open>Results follow their calls\<close>

lemma history_poll: "poll env s = (d, s') \<Longrightarrow> rs_engine s' = rs_engine s"
  by (auto simp: poll_def split: prod.splits)

lemma history_run_tool: "run_tool env n a s = (out, s') \<Longrightarrow> rs_engine s' = rs_engine s"
  by (auto simp: run_tool_def split: prod.splits)

lemma history_retry: "retry_exec env n a k s = (out, s') \<Longrightarrow> rs_engine s' = rs_engine s"
proof (induction k arbitrary: s)
  case 0
  then show ?case
    by (subst (asm) retry_exec.simps)
      (auto simp: Let_def dest!: history_poll history_run_tool split: if_splits prod.splits)
next
  case (Suc k)
  show ?case using Suc.prems
    by (subst (asm) retry_exec.simps)
      (auto simp: Let_def dest!: history_poll history_run_tool Suc.IH
        split: if_splits prod.splits)
qed

lemma engine_emit [simp]: "rs_engine (emit s ev) = rs_engine s"
  by (simp add: emit_def)

text \<open>A call that lets the loop go on adds its own result to the history and nothing else.\<close>

definition adds_results :: "llm_tool_call list \<Rightarrow> engine \<Rightarrow> engine \<Rightarrow> bool" where
  "adds_results cs e e' \<longleftrightarrow> (\<exists>rs. e' = e\<lparr>en_history := en_history e @ rs\<rparr>
     \<and> map ci_ToolCallID rs = map tc_ID cs \<and> list_all is_tool rs)"

lemma after_tool_adds:
  "after_tool env c out s = NextTurn s' \<Longrightarrow> adds_results [c] (rs_engine s) (rs_engine s')"
  by (auto simp: after_tool_def Let_def remember_def adds_results_def tool_item_def is_tool_def
      dest!: history_poll split: prod.splits if_splits sum.splits)

lemma exec_adds:
  "exec_tool_call env c s = NextTurn s' \<Longrightarrow> adds_results [c] (rs_engine s) (rs_engine s')"
  by (auto simp: exec_tool_call_def Let_def retryableToolExec_def
      dest!: history_run_tool history_retry after_tool_adds
      split: prod.splits if_splits sum.splits)

lemma tool_calls_add:
  "tool_calls env cs s = NextTurn s' \<Longrightarrow> adds_results cs (rs_engine s) (rs_engine s')"
proof (induction cs arbitrary: s)
  case Nil
  then show ?case by (auto simp: adds_results_def)
next
  case (Cons c cs)
  then obtain s1 where s1: "exec_tool_call env c s = NextTurn s1" "tool_calls env cs s1 = NextTurn s'"
    by (auto split: loop_outcome.splits)
  from exec_adds [OF s1(1)] Cons.IH [OF s1(2)] show ?case
    unfolding adds_results_def
    by clarsimp (metis append_assoc list.pred_inject(2) list_all_append append_Cons append_Nil list.simps(9))
qed

subsection \<open>Sanitising errors\<close>

lemma replace_matches_none: "(\<And>t. suffix t s \<Longrightarrow> m t = None) \<Longrightarrow> replace_matches m s = s"
proof (induction s)
  case (Cons c s)
  then show ?case
    using Cons.prems [of "c # s"] by (simp add: replace_matches.simps(2) suffix_Cons)
qed simp

lemma sanitize_length: "length (sanitizeToolError msg) \<le> 514"
  by (simp add: sanitizeToolError_def Let_def truncated_mark_def)

subsection \<open>Validated input requests\<close>

lemma validate_options_ok:
  assumes "validate_options q i out opts = Inr res"
    and "distinct (map ao_ID out)" "list_all (\<lambda>opt. ao_ID opt \<noteq> [] \<and> ao_Label opt \<noteq> []) out"
  shows "distinct (map ao_ID res) \<and> list_all (\<lambda>opt. ao_ID opt \<noteq> [] \<and> ao_Label opt \<noteq> []) res
    \<and> length res = length out + length opts"
  using assms
proof (induction q i out opts rule: validate_options.induct)
  case (2 q i out opt opts)
  then show ?case by (auto simp: Let_def split: if_splits)
qed simp

section \<open>Properties\<close>

text \<open>
  C10. A run tells its client how it ended, once: when no registered tool emits an event that
  ends the run, the events of \<open>Run\<close> contain at most one such event (error, completion,
  cancellation, input request) and it is the last one; and if the context is never cancelled,
  there is exactly one. This holds for every model behaviour, every tool result and every
  starting history.
\<close>

theorem run_ends_with_one_terminal_event:
  assumes "\<And>w n a res err evs w'. env_tool env w n a = ((res, err, evs), w') \<Longrightarrow>
      list_all (\<lambda>ev. \<not> terminal ev) evs"
  shows "(\<exists>es t. rs_events (Run env userInput w e) = es @ [t] \<and> terminal t
            \<and> (\<forall>ev \<in> set es. \<not> terminal ev))
    \<or> ((\<forall>ev \<in> set (rs_events (Run env userInput w e)). \<not> terminal ev)
        \<and> (\<exists>w'. fst (env_done env w')))"
proof -
  have "quiet_tools env" by unfold_locales (rule assms)
  then have "ends_well env (Run env userInput w e)"
    unfolding Run_def by (rule quiet_tools.good_loop) (simp add: quiet_def)
  then show ?thesis
    by (auto simp: ends_well_def ended_def quiet_def never_done_def list_all_iff)
qed

text \<open>An environment whose model always answers and whose one tool echoes its arguments.\<close>

definition sample_env :: "unit engine_env" where
  "sample_env =
     \<lparr>env_llm = \<lambda>w b k. (Inr \<lparr>lr_Choices = [\<lparr>lc_Message = \<lparr>lm_Role = ''assistant'', lm_Content = ''done'',
          lm_ReasoningContent = [], lm_ToolCalls = []\<rparr>, lc_FinishReason = ''stop''\<rparr>],
          lr_PromptTokens = 10, lr_CompletionTokens = 1\<rparr>, w),
      env_tool = \<lambda>w n a. ((a, None, []), w), env_done = \<lambda>w. (False, w), env_sleep = \<lambda>w n. (False, w),
      env_ctx_error = \<lambda>w. ''context canceled'', env_elapsed = \<lambda>w. 0, env_vars = None,
      env_ask = \<lambda>a. Inl ''bad'', env_quote = \<lambda>a. a, env_codec = sample_codec\<rparr>"

theorem run_ends_with_one_terminal_event_witness:
  "\<exists>es t. rs_events (Run sample_env ''hi'' () sample_engine) = es @ [t] \<and> terminal t
     \<and> (\<forall>ev \<in> set es. \<not> terminal ev)"
proof -
  have q: "list_all (\<lambda>ev. \<not> terminal ev) evs"
    if "env_tool sample_env w n a = ((res, err, evs), w')" for w n a res err evs w'
    using that by (auto simp: sample_env_def)
  from run_ends_with_one_terminal_event [where env = sample_env and userInput = "''hi''" and w = "()"
      and e = sample_engine, OF q]
  show ?thesis by (auto simp: sample_env_def)
qed

text \<open>
  A run is bounded: whatever the model and the tools do, one run asks the model at most 51
  times (50 turns and the closing message after a delivery).
\<close>

theorem run_bounded_model_calls:
  "llm_calls (Run (counted env) userInput (w, 0, 0) e) \<le> 51"
  using count_loop [of env 1 userInput "\<lparr>rs_world = (w, 0, 0), rs_engine = e, rs_events = []\<rparr>"]
  by (simp add: Run_def maxMainLoopIterations_def)

text \<open>
  A tool call is executed at most four times, whatever transient errors it meets.
\<close>

theorem tool_call_bounded_attempts:
  "tool_runs (snd (retryableToolExec (counted env) n a s)) \<le> tool_runs s + 4"
proof -
  obtain out s' where "retry_exec (counted env) n a 3 s = (out, s')" by fastforce
  with count_retry [OF this] show ?thesis by (simp add: retryableToolExec_def)
qed

text \<open>
  C11. A turn that goes on has answered every tool call of the model's message: exactly one tool
  result per call is appended to the history, under the ids of the calls and in their order,
  and nothing else of the engine changes.
\<close>

theorem turn_answers_every_call:
  assumes "tool_calls env cs s = NextTurn s'"
  shows "\<exists>rs. rs_engine s' = (rs_engine s)\<lparr>en_history := en_history (rs_engine s) @ rs\<rparr>
    \<and> map ci_ToolCallID rs = map tc_ID cs \<and> (\<forall>m \<in> set rs. is_tool m)"
  using tool_calls_add [OF assms] by (auto simp: adds_results_def list_all_iff)

definition sample_call :: "string \<Rightarrow> string \<Rightarrow> llm_tool_call" where
  "sample_call i n = \<lparr>tc_ID = i, tc_Type = ''function'', tc_Name = n, tc_Arguments = ''{}''\<rparr>"

definition sample_state :: "'w \<Rightarrow> 'w run_state" where
  "sample_state w = \<lparr>rs_world = w, rs_engine = sample_engine, rs_events = []\<rparr>"

lemma sample_call_goes_on:
  "\<exists>s'. tool_calls sample_env [sample_call ''c'' ''data_list_tables''] (sample_state ()) = NextTurn s'"
  by (simp add: sample_env_def sample_call_def exec_tool_call_def Let_def retryableToolExec_def
      retry_exec.simps poll_def run_tool_def after_tool_def)

theorem turn_answers_every_call_witness:
  "\<exists>s' rs. tool_calls sample_env [sample_call ''c'' ''data_list_tables''] (sample_state ()) = NextTurn s'
     \<and> map ci_ToolCallID rs = [''c''] \<and> (\<forall>m \<in> set rs. is_tool m)"
proof -
  obtain s' where s: "tool_calls sample_env [sample_call ''c'' ''data_list_tables''] (sample_state ()) = NextTurn s'"
    using sample_call_goes_on by blast
  from turn_answers_every_call [OF s] obtain rs where rs:
    "map ci_ToolCallID rs = map tc_ID [sample_call ''c'' ''data_list_tables'']" "\<forall>m \<in> set rs. is_tool m"
    by blast
  then have "map ci_ToolCallID rs = [''c'']" by (simp add: sample_call_def)
  with s rs(2) show ?thesis by (intro exI [of _ s'] exI [of _ rs]) simp
qed

text \<open>
  A request for user input that reaches the client is well formed: it has a question, option
  ids are nonempty and pairwise distinct, labels are nonempty, the selection mode is one of the
  two modes, and without options a custom answer is allowed.
\<close>

theorem input_request_well_formed:
  assumes "parseAskUserToolCallArguments quote decoded = Inr d"
  shows "ad_Question d \<noteq> [] \<and> distinct (map ao_ID (ad_Options d))
    \<and> list_all (\<lambda>opt. ao_ID opt \<noteq> [] \<and> ao_Label opt \<noteq> []) (ad_Options d)
    \<and> ad_SelectionMode d \<in> {''single'', ''multiple''}
    \<and> (ad_Options d = [] \<longrightarrow> ad_AllowCustom d)"
proof -
  from assms obtain args where a: "decoded = Inr args"
    by (cases decoded) (auto simp: parseAskUserToolCallArguments_def)
  with assms obtain opts mode where v: "validate_options quote 0 [] (aa_Options args) = Inr opts"
    and m: "normalizeAskUserSelectionMode (aa_SelectionMode args) = Inr mode"
    by (auto simp: parseAskUserToolCallArguments_def validateAskUserOptions_def Let_def
        split: sum.splits if_splits)
  have d: "ad_Options d = opts" "ad_Question d \<noteq> []" "ad_SelectionMode d = mode"
    "opts = [] \<longrightarrow> ad_AllowCustom d"
    using assms a v m
    by (auto simp: parseAskUserToolCallArguments_def validateAskUserOptions_def Let_def split: if_splits)
  have "mode \<in> {''single'', ''multiple''}"
    using m by (auto simp: normalizeAskUserSelectionMode_def Let_def split: if_splits)
  with validate_options_ok [OF v] d show ?thesis by simp
qed

definition sample_ask :: ask_user_args where
  "sample_ask = \<lparr>aa_Question = ''q'', aa_Reason = [], aa_Scope = [], aa_ContextRef = [],
     aa_InputHint = [], aa_Required = False, aa_SelectionMode = [], aa_AllowCustom = None,
     aa_Options = []\<rparr>"

lemma sample_ask_ok: "\<exists>d. parseAskUserToolCallArguments quote (Inr sample_ask) = Inr d"
  by (simp add: parseAskUserToolCallArguments_def sample_ask_def validateAskUserOptions_def Let_def
      normalizeAskUserSelectionMode_def trim_space_plain plain_head_def plain_last_def ws_seqs_def
      to_lower_def)

theorem input_request_well_formed_witness:
  "\<exists>d. parseAskUserToolCallArguments (\<lambda>x. x) (Inr sample_ask) = Inr d \<and> ad_Question d \<noteq> []"
proof -
  obtain d where d: "parseAskUserToolCallArguments (\<lambda>x. x) (Inr sample_ask) = Inr d"
    using sample_ask_ok by blast
  from input_request_well_formed [OF d] d show ?thesis by blast
qed

text \<open>
  An input request stops the turn at once. If the same message also calls another tool after
  it, that call is never answered: after the user's reply has been written back the history
  still holds the call without a result.
\<close>

theorem input_request_drops_later_calls:
  "\<exists>(env :: unit engine_env) s s' e'. handle_choice env
       \<lparr>lc_Message = \<lparr>lm_Role = ''assistant'', lm_Content = [], lm_ReasoningContent = [],
          lm_ToolCalls = [sample_call ''q'' ''user_request_input'', sample_call ''x'' ''data_query_sql'']\<rparr>,
        lc_FinishReason = ''tool_calls''\<rparr> s = Finished s'
     \<and> ProvideAskUserResult (env_codec env) (rs_engine s') ''yes'' = (None, e')
     \<and> (\<exists>m \<in> set (en_history e'). ''x'' \<in> tc_ID ` set (ci_ToolCalls m)) \<and> \<not> has_result (en_history e') ''x''"
proof -
  let ?env = "sample_env\<lparr>env_ask := \<lambda>a. Inr sample_ask\<rparr>"
  obtain d where d: "parseAskUserToolCallArguments (\<lambda>a. a) (Inr sample_ask) = Inr d"
    using sample_ask_ok by blast
  let ?m = "\<lparr>lm_Role = ''assistant'', lm_Content = [], lm_ReasoningContent = [],
          lm_ToolCalls = [sample_call ''q'' ''user_request_input'', sample_call ''x'' ''data_query_sql'']\<rparr>"
  let ?h = "[user_item ''hi'', compactAssistantMessage sample_codec ?m]"
  let ?s = "sample_state () :: unit run_state"
  have "\<exists>s'. handle_choice ?env \<lparr>lc_Message = ?m, lc_FinishReason = ''tool_calls''\<rparr> ?s = Finished s'
      \<and> rs_engine s' = sample_engine\<lparr>en_history := ?h\<rparr>"
    by (simp add: handle_choice_def sample_call_def exec_tool_call_def d Let_def emit_def role_defs)
      (simp add: sample_env_def d sample_state_def remember_def sample_engine_def)
  then obtain s' where s': "handle_choice ?env \<lparr>lc_Message = ?m, lc_FinishReason = ''tool_calls''\<rparr> ?s = Finished s'"
    "rs_engine s' = sample_engine\<lparr>en_history := ?h\<rparr>" by blast
  let ?h' = "?h @ [tool_item ''q'' (buildAskUserToolResult sample_codec ''yes'')]"
  have p: "pending_ids ?h = [''q'']"
    by (simp add: pending_ids_def ask_ids_def calls_tools_def compactAssistantMessage_def sample_call_def role_defs)
  have r: "\<not> has_result ?h i" for i
    by (simp add: has_result_def is_tool_def user_item_def compactAssistantMessage_def role_defs)
  have "ProvideAskUserResult (env_codec ?env) (rs_engine s') ''yes'' = (None, sample_engine\<lparr>en_history := ?h'\<rparr>)"
    using p r by (simp add: s'(2) ProvideAskUserResult_def Let_def answer_step_def sample_env_def)
  moreover have "\<not> has_result ?h' ''x''"
    using r [of "''x''"] by (simp add: has_result_def tool_item_def)
  moreover have "\<exists>m \<in> set ?h'. ''x'' \<in> tc_ID ` set (ci_ToolCalls m)"
    by (simp add: compactAssistantMessage_def sample_call_def)
  ultimately show ?thesis using s'(1) by (intro exI [of _ ?env] exI [of _ ?s] exI [of _ s']) auto
qed

text \<open>
  Cancelling while a tool runs ends the run without any final event: the check after the
  execution returns, although the comment there leaves the report of the cancellation to the
  next iteration.
\<close>

definition cancel_env :: "nat engine_env" where
  "cancel_env =
     \<lparr>env_llm = \<lambda>w b k. (Inr \<lparr>lr_Choices = [\<lparr>lc_Message = \<lparr>lm_Role = ''assistant'', lm_Content = [],
          lm_ReasoningContent = [], lm_ToolCalls = [sample_call ''c'' ''data_list_tables'']\<rparr>,
          lc_FinishReason = ''tool_calls''\<rparr>], lr_PromptTokens = 10, lr_CompletionTokens = 1\<rparr>, w),
      env_tool = \<lambda>w n a. ((a, None, []), w), env_done = \<lambda>w. (w \<ge> 2, w + 1),
      env_sleep = \<lambda>w n. (False, w), env_ctx_error = \<lambda>w. ''context canceled'', env_elapsed = \<lambda>w. 0,
      env_vars = None, env_ask = \<lambda>a. Inl ''bad'', env_quote = \<lambda>a. a, env_codec = sample_codec\<rparr>"

theorem cancelled_tool_ends_silently:
  "rs_events (Run cancel_env ''hi'' 0 sample_engine) = [tool_call_event (sample_call ''c'' ''data_list_tables'')]"
proof -
  let ?s = "\<lparr>rs_world = Suc 0, rs_engine = sample_engine, rs_events = []\<rparr>"
  have "\<exists>s'. one_turn cancel_env ''hi'' ?s = Finished s'
      \<and> rs_events s' = [tool_call_event (sample_call ''c'' ''data_list_tables'')]"
    by (simp add: one_turn_def ask_llm_def cancel_env_def handle_choice_def Let_def role_defs
        exec_tool_call_def sample_call_def retryableToolExec_def retry_exec.simps poll_def run_tool_def
        after_tool_def emit_def remember_def compact_run_def take_task_def)
  moreover have "poll cancel_env \<lparr>rs_world = 0, rs_engine = sample_engine, rs_events = []\<rparr> = (False, ?s)"
    by (simp add: poll_def cancel_env_def)
  ultimately show ?thesis
    by (simp add: Run_def) (subst run_loop.simps, auto simp: maxMainLoopIterations_def)
qed

text \<open>
  A tool error shown to the model is at most 514 bytes long; but a connection string with the
  scheme \<open>postgres\<close>, the usual one, passes through unredacted: the pattern makes only the \<open>l\<close>
  of \<open>postgresql\<close> optional.
\<close>

theorem postgres_credentials_not_redacted:
  "sanitizeToolError ''postgres://u:p@h'' = ''postgres://u:p@h''
   \<and> sanitizeToolError ''postgresql://u:p@h'' = ''postgresql://***''
   \<and> length (sanitizeToolError msg) \<le> 514"
  using sanitize_length [of msg]
  by (simp add: sanitizeToolError_def Let_def replace_matches.simps(2) match_secret_def match_word_def
      fold_prefix_def to_lower_def lower_char_def match_dsn_def match_path_def re_space_def)

end
