(* ===== verification/Run_Hooks.thy ===== *)
theory Run_Hooks
  imports Session_Run Agent_Engine
begin

text \<open>
  What the server does with the events of a run (\<open>server/handler/runtime_hooks.go\<close> and the
  functions of \<open>server/handler/ws.go\<close> it calls): deliver them to the client, store them, and let
  the hooks drive the life of the run and of its report. The calls of the run repository are
  recorded in the order they are made; rendering and storing a report are parameters.
\<close>

section \<open>Snapshots of the report\<close>

definition ResolveReportTitleFromState :: "report_state option \<Rightarrow> string" where
  "ResolveReportTitleFromState st = (case st of None \<Rightarrow> [] | Some s \<Rightarrow> FinalTitle s)"

text \<open>\<open>marshal_sources\<close> encodes the evidence of a block; an encoding error leaves it out.\<close>

definition snapshot_of_block :: "(evidence_ref list \<Rightarrow> string option) \<Rightarrow> report_block \<Rightarrow> snapshot_block" where
  "snapshot_of_block marshal_sources b =
     \<lparr>sb_ID = rb_ID b, sb_Kind = rb_Kind b, sb_Title = rb_Title b, sb_Content = rb_Content b,
      sb_ChartID = rb_ChartID b,
      sb_Sources = (if rb_Sources b \<noteq> []
                    then (case marshal_sources (rb_Sources b) of Some j \<Rightarrow> j | None \<Rightarrow> []) else [])\<rparr>"

definition buildReportSnapshotLocked ::
  "(evidence_ref list \<Rightarrow> string option) \<Rightarrow> report_state option \<Rightarrow> report_snapshot" where
  "buildReportSnapshotLocked marshal_sources state =
     (case state of
        None \<Rightarrow> \<lparr>rn_Title = [], rn_Author = [], rn_NeedsFinalize = False, rn_Layout = empty_layout,
                 rn_Blocks = [], rn_Charts = []\<rparr>
      | Some st \<Rightarrow>
          \<lparr>rn_Title = (if trim_space (FinalTitle st) = [] then ResolveReportTitleFromState (Some st)
                       else trim_space (FinalTitle st)),
           rn_Author = trim_space (FinalAuthor st), rn_NeedsFinalize = NeedsFinalize st,
           rn_Layout = Layout st, rn_Blocks = map (snapshot_of_block marshal_sources) (Blocks st),
           rn_Charts = map (\<lambda>c. \<lparr>cd_ID = cd_ID c, cd_Option = cd_Option c, cd_Width = cd_Width c,
                                 cd_Height = cd_Height c\<rparr>) (Charts st)\<rparr>)"

section \<open>State of the dispatcher\<close>

text \<open>
  From outside: the clock, saving the final report and binding it to its run (the id of the
  stored file, or the error), the renderer, the JSON form of a snapshot, and the decoder.
\<close>

record hook_deps =
  hd_now :: "session \<Rightarrow> int"
  hd_save :: "session \<Rightarrow> string \<Rightarrow> string result"
  hd_html :: "string \<Rightarrow> string \<Rightarrow> report_state \<Rightarrow> string"
  hd_sources :: "evidence_ref list \<Rightarrow> string option"
  hd_snapshot :: "report_snapshot \<Rightarrow> json"
  hd_object :: "string \<Rightarrow> (string \<times> json) list option"

record hook_state =
  hk_session :: session
  hk_sent :: "ws_event list"
  hk_saved :: "(string \<times> ws_event) list"
  hk_status :: "(string \<times> string \<times> string option) list"
  hk_summary :: "(string \<times> string) list"
  hk_titles :: "string list"

text \<open>Of a scope's callbacks the ones a child run does without are flags.\<close>

record runtimeEventScope =
  sc_runID :: string
  sc_root :: bool

text \<open>Every event of a session carries the session's id, which is left out here.\<close>

definition sendSessionEvent :: "string \<Rightarrow> ws_event \<Rightarrow> hook_state \<Rightarrow> hook_state" where
  "sendSessionEvent runID ev st =
     st\<lparr>hk_sent := hk_sent st @ [if runID \<noteq> [] \<and> ev_run_id ev = [] then ev\<lparr>ev_run_id := runID\<rparr> else ev]\<rparr>"

text \<open>What is handed to the message store; its queue may drop events under load.\<close>

definition store_event :: "string \<Rightarrow> ws_event \<Rightarrow> hook_state \<Rightarrow> hook_state" where
  "store_event runID ev st = st\<lparr>hk_saved := hk_saved st @ [(runID, ev)]\<rparr>"

definition deliverToRun :: "string \<Rightarrow> ws_event \<Rightarrow> hook_state \<Rightarrow> hook_state" where
  "deliverToRun runID ev st = store_event runID ev (sendSessionEvent runID ev st)"

definition setRunStatus :: "string \<Rightarrow> string \<Rightarrow> string option \<Rightarrow> hook_state \<Rightarrow> hook_state" where
  "setRunStatus runID status err st = st\<lparr>hk_status := hk_status st @ [(runID, status, err)]\<rparr>"

definition setRunSummary :: "string \<Rightarrow> string \<Rightarrow> hook_state \<Rightarrow> hook_state" where
  "setRunSummary runID summary st = st\<lparr>hk_summary := hk_summary st @ [(runID, trim_space summary)]\<rparr>"

section \<open>The hooks\<close>

definition shouldEmitReportPreview :: "string \<Rightarrow> bool" where
  "shouldEmitReportPreview toolName \<longleftrightarrow>
     toolName = ''report_create_chart'' \<or> toolName = ''report_configure_layout''
     \<or> toolName = ''report_manage_blocks''"

definition emitReportPreviewUpdate :: "hook_deps \<Rightarrow> string \<Rightarrow> hook_state \<Rightarrow> hook_state" where
  "emitReportPreviewUpdate h runID st =
     (let rs = se_ReportState (hk_session st); snap = buildReportSnapshotLocked (hd_sources h) (Some rs)
      in deliverToRun runID
           (mk_event EventReportUpdate
             (JObj [(''html'', JStr (hd_html h [] [] rs)), (''title'', JStr (trim_space (rn_Title snap))),
                    (''report_snapshot'', hd_snapshot h snap)])) st)"

text \<open>The error, if saving failed, and the state with the event that reports the outcome.\<close>

definition finalizeAndPersistReport :: "hook_deps \<Rightarrow> string \<Rightarrow> hook_state \<Rightarrow> string option \<times> hook_state" where
  "finalizeAndPersistReport h runID st =
     (let rs = se_ReportState (hk_session st);
          html = hd_html h (FinalTitle rs) (FinalAuthor rs) rs;
          snap = buildReportSnapshotLocked (hd_sources h) (Some rs);
          title = trim_space (FinalTitle rs)
      in case hd_save h (hk_session st) runID of
           Inl err \<Rightarrow>
             (Some err, deliverToRun runID
                (mk_event EventError (error_data (''failed to save final report: '' @ err))) st)
         | Inr fileID \<Rightarrow>
             (None, deliverToRun runID
                (mk_event EventReportFinal
                  (JObj [(''html'', JStr html), (''title'', JStr title), (''reportFileId'', JStr fileID),
                         (''report_snapshot'', hd_snapshot h snap)]))
                (if title \<noteq> [] then st\<lparr>hk_titles := hk_titles st @ [title]\<rparr> else st)))"

definition rollbackFinalizeDraft :: "hook_deps \<Rightarrow> string \<Rightarrow> hook_state \<Rightarrow> hook_state" where
  "rollbackFinalizeDraft h toolResult st =
     (let s = hk_session st;
          rs = (se_ReportState s)\<lparr>NeedsFinalize := True\<rparr>;
          rs' = (case hd_object h (trim_space toolResult) of
                   None \<Rightarrow> rs
                 | Some p \<Rightarrow>
                     let r1 = (case map_of p ''report_title'' of
                                 Some (JStr t) \<Rightarrow> rs\<lparr>FinalTitle := trim_space t\<rparr> | _ \<Rightarrow> rs)
                     in (case map_of p ''author'' of
                           Some (JStr a) \<Rightarrow> r1\<lparr>FinalAuthor := trim_space a\<rparr> | _ \<Rightarrow> r1))
      in st\<lparr>hk_session := s\<lparr>se_ReportState := rs'\<rparr>\<rparr>)"

definition edit_off_event :: ws_event where
  "edit_off_event = mk_event EventStateReportEditUpdated (JObj [(''active'', JBool False)])"

definition finishTerminalRun :: "hook_deps \<Rightarrow> string \<Rightarrow> string \<Rightarrow> hook_state \<Rightarrow> bool \<times> hook_state" where
  "finishTerminalRun h runID status st =
     (let editWasActive = ed_Active (CurrentEditStateData (hk_session st));
          (finished, s') = FinishRun (hd_now h (hk_session st)) runID status (hk_session st);
          st1 = st\<lparr>hk_session := s'\<rparr>
      in (finished, if finished \<and> editWasActive then deliverToRun runID edit_off_event st1 else st1))"

text \<open>The type assertions on the data of an event: name, result and success; summary; message.\<close>

definition tool_result_data :: "json \<Rightarrow> (string \<times> string \<times> bool) option" where
  "tool_result_data d =
     (case d of
        JObj p \<Rightarrow>
          (case (map_of p ''name'', map_of p ''result'', map_of p ''success'') of
             (Some (JStr n), Some (JStr r), Some (JBool b)) \<Rightarrow> Some (n, r, b)
           | _ \<Rightarrow> None)
      | _ \<Rightarrow> None)"

definition str_field :: "string \<Rightarrow> json \<Rightarrow> string option" where
  "str_field k d =
     (case d of JObj p \<Rightarrow> (case map_of p k of Some (JStr v) \<Rightarrow> Some v | _ \<Rightarrow> None) | _ \<Rightarrow> None)"

definition reportLifecycleHook :: "hook_deps \<Rightarrow> runtimeEventScope \<Rightarrow> ws_event \<Rightarrow> hook_state \<Rightarrow> hook_state" where
  "reportLifecycleHook h scope ev st =
     (if ev_type ev \<noteq> EventToolResult then st
      else
        (case tool_result_data (ev_data ev) of
           None \<Rightarrow> st
         | Some (name, res, success) \<Rightarrow>
             let st1 = (if shouldEmitReportPreview name then emitReportPreviewUpdate h (sc_runID scope) st
                        else st)
             in if name = ''report_finalize'' \<and> success \<and> sc_root scope
                then (case finalizeAndPersistReport h (sc_runID scope) st1 of
                        (None, st2) \<Rightarrow> st2
                      | (Some err, st2) \<Rightarrow>
                          let st3 = rollbackFinalizeDraft h res st2;
                              (_, _, s') = CancelRun (hd_now h (hk_session st3)) (sc_runID scope) (hk_session st3);
                              (finished, st4) = finishTerminalRun h (sc_runID scope) ''failed''
                                                  (st3\<lparr>hk_session := s'\<rparr>)
                          in if finished
                             then setRunStatus (sc_runID scope) ''failed''
                                    (Some (''report saved but binding failed: '' @ err)) st4
                             else st4)
                else st1))"

definition runLifecycleHook :: "hook_deps \<Rightarrow> runtimeEventScope \<Rightarrow> ws_event \<Rightarrow> hook_state \<Rightarrow> hook_state" where
  "runLifecycleHook h scope ev st =
     (let runID = sc_runID scope;
          finish = (\<lambda>status msg. case finishTerminalRun h runID status st of
                       (False, st1) \<Rightarrow> (False, st1)
                     | (True, st1) \<Rightarrow> (True, if sc_root scope then setRunStatus runID status msg st1 else st1))
      in if trim_space runID = [] then st
         else if ev_type ev = EventUserRequestInput
         then (case SuspendRun (hd_now h (hk_session st)) runID (hk_session st) of
                 (False, _) \<Rightarrow> st
               | (True, s') \<Rightarrow>
                   let st1 = st\<lparr>hk_session := s'\<rparr>
                   in if sc_root scope then setRunStatus runID ''waiting_user_input'' None st1 else st1)
         else if ev_type ev = EventRunCompleted
         then (case finish ''completed'' None of
                 (False, st1) \<Rightarrow> st1
               | (True, st1) \<Rightarrow>
                   (case str_field ''summary'' (ev_data ev) of
                      Some summary \<Rightarrow> if sc_root scope then setRunSummary runID summary st1 else st1
                    | None \<Rightarrow> st1))
         else if ev_type ev = EventRunCancelled then snd (finish ''cancelled'' None)
         else if ev_type ev = EventError then snd (finish ''failed'' (str_field ''message'' (ev_data ev)))
         else st)"

text \<open>
  \<open>Emit\<close>: an event of another run goes to that run and may refresh the report preview; an event
  of this run goes through all hooks. The logging hook writes no state.
\<close>

definition dispatcher_Emit :: "hook_deps \<Rightarrow> string \<Rightarrow> ws_event \<Rightarrow> hook_state \<Rightarrow> hook_state" where
  "dispatcher_Emit h runID ev st =
     (let target = trim_space (ev_run_id ev)
      in if target \<noteq> [] \<and> target \<noteq> trim_space runID
         then reportLifecycleHook h \<lparr>sc_runID = target, sc_root = False\<rparr> ev (deliverToRun target ev st)
         else let scope = \<lparr>sc_runID = runID, sc_root = True\<rparr>
              in runLifecycleHook h scope ev (reportLifecycleHook h scope ev (deliverToRun runID ev st)))"

definition dispatch :: "hook_deps \<Rightarrow> string \<Rightarrow> ws_event list \<Rightarrow> hook_state \<Rightarrow> hook_state" where
  "dispatch h runID evs st = fold (dispatcher_Emit h runID) evs st"

section \<open>Lemmas\<close>

abbreviation active :: "hook_state \<Rightarrow> active_run option" where
  "active st \<equiv> se_ActiveRun (hk_session st)"

lemma deliver_frames [simp]:
  "hk_session (deliverToRun r ev st) = hk_session st" "hk_status (deliverToRun r ev st) = hk_status st"
  by (simp_all add: deliverToRun_def store_event_def sendSessionEvent_def)

lemma preview_frames [simp]:
  "hk_session (emitReportPreviewUpdate h r st) = hk_session st"
  "hk_status (emitReportPreviewUpdate h r st) = hk_status st"
  by (simp_all add: emitReportPreviewUpdate_def Let_def)

lemma finalize_frames:
  "finalizeAndPersistReport h r st = (e, st') \<Longrightarrow> hk_session st' = hk_session st \<and> hk_status st' = hk_status st"
  by (auto simp: finalizeAndPersistReport_def Let_def split: sum.splits if_splits)

lemma rollback_frames [simp]:
  "active (rollbackFinalizeDraft h res st) = active st"
  "hk_status (rollbackFinalizeDraft h res st) = hk_status st"
  by (simp_all add: rollbackFinalizeDraft_def Let_def)

lemma set_frames [simp]:
  "hk_session (setRunStatus r s m st) = hk_session st" "hk_session (setRunSummary r s st) = hk_session st"
  "hk_status (setRunStatus r s m st) = hk_status st @ [(r, s, m)]"
  "hk_status (setRunSummary r s st) = hk_status st"
  by (simp_all add: setRunStatus_def setRunSummary_def)

lemma finish_run:
  assumes "finishTerminalRun h r status st = (b, st')"
  shows "b = is_active (hk_session st) r" "hk_status st' = hk_status st"
    "active st' = (if is_active (hk_session st) r then None else active st)"
  using assms by (auto simp: finishTerminalRun_def Let_def FinishRun_def split: if_splits)

lemma cancel_active:
  "CancelRun now r s = (b, c, s') \<Longrightarrow> is_active s' i = is_active s i \<and> (se_ActiveRun s = None \<longrightarrow> s' = s)"
  by (auto simp: CancelRun_def is_active_def set_run_status_def split: option.splits if_splits)

text \<open>A child's event changes neither the run nor its recorded status.\<close>

lemma child_hook_frames:
  "hk_session (reportLifecycleHook h \<lparr>sc_runID = r, sc_root = False\<rparr> ev st) = hk_session st
   \<and> hk_status (reportLifecycleHook h \<lparr>sc_runID = r, sc_root = False\<rparr> ev st) = hk_status st"
  by (auto simp: reportLifecycleHook_def Let_def split: option.split)

text \<open>
  After a tool result the run is as before, or it was ended because the report could not be
  saved; either way the status is recorded exactly when the run ends.
\<close>

lemma report_hook_cases:
  assumes "st' = reportLifecycleHook h \<lparr>sc_runID = r, sc_root = True\<rparr> ev st"
  obtains (same) "hk_session st' = hk_session st" "hk_status st' = hk_status st"
  | (gone) "\<not> is_active (hk_session st) r" "active st = None \<longrightarrow> active st' = None" "hk_status st' = hk_status st"
  | (failed) msg where "is_active (hk_session st) r" "active st' = None"
      "hk_status st' = hk_status st @ [(r, ''failed'', msg)]"
proof (cases "tool_result_data (ev_data ev)")
  case None
  then show thesis using assms same by (simp add: reportLifecycleHook_def)
next
  case (Some nrs)
  obtain name res success where n: "nrs = (name, res, success)" by (metis surj_pair)
  let ?st1 = "if shouldEmitReportPreview name then emitReportPreviewUpdate h r st else st"
  obtain e st2 where f: "finalizeAndPersistReport h r ?st1 = (e, st2)" by fastforce
  have fr: "hk_session st2 = hk_session st" "hk_status st2 = hk_status st"
    using finalize_frames [OF f] by (simp_all split: if_splits)
  obtain b c s' where c: "CancelRun (hd_now h (hk_session (rollbackFinalizeDraft h res st2))) r
      (hk_session (rollbackFinalizeDraft h res st2)) = (b, c, s')"
    by (metis surj_pair)
  obtain fin st4 where g: "finishTerminalRun h r ''failed'' ((rollbackFinalizeDraft h res st2)\<lparr>hk_session := s'\<rparr>)
      = (fin, st4)" by fastforce
  show thesis
  proof (cases "ev_type ev = EventToolResult \<and> name = ''report_finalize'' \<and> success \<and> e \<noteq> None")
    case False
    then show thesis using assms same Some n f fr
      by (auto simp: reportLifecycleHook_def Let_def split: option.splits if_splits)
  next
    case True
    have act: "is_active s' r = is_active (hk_session st) r"
      using cancel_active [OF c] fr rollback_frames(1) [of h res st2] by (simp add: is_active_def)
    have st': "st' = (if fin then setRunStatus r ''failed'' (Some (''report saved but binding failed: '' @ the e)) st4
        else st4)"
      using assms Some n f c g True by (auto simp: reportLifecycleHook_def Let_def)
    show thesis
    proof (cases "is_active (hk_session st) r")
      case True
      then show thesis using failed st' finish_run [OF g] act fr by simp
    next
      case False
      have "active st = None \<longrightarrow> se_ActiveRun s' = None"
        using cancel_active [OF c] fr rollback_frames(1) [of h res st2] by auto
      with False show thesis using gone st' finish_run [OF g] act fr by simp
    qed
  qed
qed

section \<open>Properties\<close>

text \<open>Does the event end or suspend the run, seen from its dispatcher?\<close>

definition ends_run :: "string \<Rightarrow> ws_event \<Rightarrow> bool" where
  "ends_run runID ev \<longleftrightarrow> (trim_space (ev_run_id ev) = [] \<or> trim_space (ev_run_id ev) = trim_space runID)
     \<and> ev_type ev \<in> {EventError, EventRunCompleted, EventRunCancelled, EventUserRequestInput}"

definition final_status :: "ws_event \<Rightarrow> string" where
  "final_status ev =
     (if ev_type ev = EventRunCompleted then ''completed''
      else if ev_type ev = EventRunCancelled then ''cancelled''
      else if ev_type ev = EventUserRequestInput then ''waiting_user_input'' else ''failed'')"

text \<open>The run is still going and nothing is recorded, or it failed and that is recorded.\<close>

definition going :: "string \<Rightarrow> hook_state \<Rightarrow> hook_state \<Rightarrow> bool" where
  "going runID st0 st \<longleftrightarrow> is_active (hk_session st) runID \<and> hk_status st = hk_status st0"

definition gave_up :: "string \<Rightarrow> hook_state \<Rightarrow> hook_state \<Rightarrow> bool" where
  "gave_up runID st0 st \<longleftrightarrow> active st = None \<and> (\<exists>msg. hk_status st = hk_status st0 @ [(runID, ''failed'', msg)])"

lemma no_active [simp]: "active st = None \<Longrightarrow> \<not> is_active (hk_session st) r"
  by (simp add: is_active_def)

lemma run_hook_other:
  "ev_type ev \<notin> {EventError, EventRunCompleted, EventRunCancelled, EventUserRequestInput} \<Longrightarrow>
     runLifecycleHook h scope ev st = st"
  by (simp add: runLifecycleHook_def Let_def)

lemma run_hook_gone:
  assumes "active st = None"
  shows "active (runLifecycleHook h scope ev st) = None \<and> hk_status (runLifecycleHook h scope ev st) = hk_status st"
proof -
  have "\<not> fst (finishTerminalRun h r status st)" "active (snd (finishTerminalRun h r status st)) = None"
    "hk_status (snd (finishTerminalRun h r status st)) = hk_status st" for r status
    using finish_run [OF prod.collapse [symmetric], of h r status st] assms by simp_all
  moreover have "\<not> fst (SuspendRun n r (hk_session st))" for n r
    using assms by (simp add: SuspendRun_def)
  ultimately show ?thesis using assms by (simp add: runLifecycleHook_def Let_def case_prod_beta)
qed

lemma run_hook_ends:
  fixes h :: hook_deps
  assumes "is_active (hk_session st) r" "trim_space r \<noteq> []"
    and "ev_type ev \<in> {EventError, EventRunCompleted, EventRunCancelled, EventUserRequestInput}"
  defines "st' \<equiv> runLifecycleHook h \<lparr>sc_runID = r, sc_root = True\<rparr> ev st"
  shows "(\<exists>msg. hk_status st' = hk_status st @ [(r, final_status ev, msg)])
    \<and> (if ev_type ev = EventUserRequestInput then waiting (hk_session st') else active st' = None)"
proof (cases "ev_type ev = EventUserRequestInput")
  case True
  then show ?thesis using assms
    by (auto simp: runLifecycleHook_def Let_def SuspendRun_def final_status_def event_types waiting_def is_active_def
        set_run_status_def StatusWaiting_def split: option.splits)
next
  case False
  have fin: "\<exists>st1. finishTerminalRun h r status st = (True, st1) \<and> active st1 = None \<and> hk_status st1 = hk_status st"
    for status
    using finish_run [OF surjective_pairing, of h r status st] assms(1)
    by (metis surjective_pairing)
  from False assms(2,3) fin [of "''completed''"] fin [of "''cancelled''"] fin [of "''failed''"] show ?thesis
    unfolding st'_def runLifecycleHook_def Let_def
    by (auto simp: final_status_def event_types split: option.split)
qed

lemma emit_going:
  assumes "going r st0 st" "\<not> ends_run r ev"
  shows "going r st0 (dispatcher_Emit h r ev st) \<or> gave_up r st0 (dispatcher_Emit h r ev st)"
proof (cases "trim_space (ev_run_id ev) \<noteq> [] \<and> trim_space (ev_run_id ev) \<noteq> trim_space r")
  case True
  then show ?thesis using assms(1) child_hook_frames by (simp add: dispatcher_Emit_def Let_def going_def)
next
  case False
  then have o: "ev_type ev \<notin> {EventError, EventRunCompleted, EventRunCancelled, EventUserRequestInput}"
    using assms(2) unfolding ends_run_def by blast
  define st' where "st' = reportLifecycleHook h \<lparr>sc_runID = r, sc_root = True\<rparr> ev (deliverToRun r ev st)"
  have e: "dispatcher_Emit h r ev st = st'"
    using False run_hook_other [OF o] by (auto simp: dispatcher_Emit_def Let_def st'_def)
  from st'_def show ?thesis unfolding e
    by (cases rule: report_hook_cases) (use assms(1) in \<open>auto simp: going_def gave_up_def\<close>)
qed

lemma emit_gone:
  assumes "gave_up r st0 st"
  shows "gave_up r st0 (dispatcher_Emit h r ev st)"
proof (cases "trim_space (ev_run_id ev) \<noteq> [] \<and> trim_space (ev_run_id ev) \<noteq> trim_space r")
  case True
  then show ?thesis using assms child_hook_frames by (simp add: dispatcher_Emit_def Let_def gave_up_def)
next
  case False
  define st' where "st' = reportLifecycleHook h \<lparr>sc_runID = r, sc_root = True\<rparr> ev (deliverToRun r ev st)"
  have e: "dispatcher_Emit h r ev st = runLifecycleHook h \<lparr>sc_runID = r, sc_root = True\<rparr> ev st'"
    using False by (auto simp: dispatcher_Emit_def Let_def st'_def)
  have "active st' = None \<and> hk_status st' = hk_status st"
    using st'_def by (cases rule: report_hook_cases) (use assms in \<open>auto simp: gave_up_def\<close>)
  then show ?thesis unfolding e using run_hook_gone assms by (simp add: gave_up_def)
qed

lemma dispatch_quiet:
  "going r st0 st \<or> gave_up r st0 st \<Longrightarrow> \<forall>ev \<in> set es. \<not> ends_run r ev \<Longrightarrow>
     going r st0 (dispatch h r es st) \<or> gave_up r st0 (dispatch h r es st)"
  unfolding dispatch_def
proof (induction es arbitrary: st)
  case (Cons ev es)
  then show ?case using emit_going [of r st0 st ev h] emit_gone [of r st0 st h ev] by auto
qed simp

lemma run_outcome_lemma:
  assumes "is_active (hk_session st) runID" "trim_space runID \<noteq> []"
    and "\<forall>ev \<in> set es. \<not> ends_run runID ev" "ends_run runID t"
  shows "\<exists>status msg. hk_status (dispatch h runID (es @ [t]) st) = hk_status st @ [(runID, status, msg)]
    \<and> status \<in> {final_status t, ''failed''}
    \<and> (active (dispatch h runID (es @ [t]) st) = None
       \<or> status = ''waiting_user_input'' \<and> waiting (hk_session (dispatch h runID (es @ [t]) st)))"
proof -
  let ?s1 = "dispatch h runID es st"
  have last: "dispatch h runID (es @ [t]) st = dispatcher_Emit h runID t ?s1" by (simp add: dispatch_def)
  consider "going runID st ?s1" | "gave_up runID st ?s1"
    using dispatch_quiet [of runID st st es h] assms(1,3) by (auto simp: going_def)
  then show ?thesis
  proof cases
    case 1
    have ty: "ev_type t \<in> {EventError, EventRunCompleted, EventRunCancelled, EventUserRequestInput}"
      using assms(4) by (simp add: ends_run_def)
    then have "reportLifecycleHook h \<lparr>sc_runID = runID, sc_root = True\<rparr> t s2 = s2" for s2
      by (auto simp: reportLifecycleHook_def event_types)
    then have e: "dispatcher_Emit h runID t ?s1
        = runLifecycleHook h \<lparr>sc_runID = runID, sc_root = True\<rparr> t (deliverToRun runID t ?s1)"
      using assms(4) by (auto simp: dispatcher_Emit_def Let_def ends_run_def)
    from run_hook_ends [OF _ assms(2) ty, of "deliverToRun runID t ?s1" h] 1 show ?thesis
      unfolding last e by (auto simp: going_def final_status_def event_types split: if_splits)
  next
    case 2
    from emit_gone [OF this, of h t] show ?thesis unfolding last by (auto simp: gave_up_def)
  qed
qed

text \<open>
  The outcome of a run is recorded exactly once: when the events of a run end with the first
  one that ends or suspends it, the record gains one status, that of the last event, or failed
  if the final report could not be saved on the way; afterwards the session has no active run,
  or the run waits for the user.
\<close>

theorem run_outcome_recorded_once:
  assumes "is_active (hk_session st) runID" "trim_space runID \<noteq> []"
    and "\<forall>ev \<in> set es. \<not> ends_run runID ev" "ends_run runID t"
  shows "\<exists>status msg. hk_status (dispatch h runID (es @ [t]) st) = hk_status st @ [(runID, status, msg)]
    \<and> status \<in> {final_status t, ''failed''}
    \<and> (active (dispatch h runID (es @ [t]) st) = None
       \<or> status = ''waiting_user_input'' \<and> waiting (hk_session (dispatch h runID (es @ [t]) st)))"
  using assms by (rule run_outcome_lemma)

definition sample_hooks :: hook_deps where
  "sample_hooks = \<lparr>hd_now = \<lambda>s. 1, hd_save = \<lambda>s r. Inl ''disk full'', hd_html = \<lambda>t a st. [],
     hd_sources = \<lambda>es. Some ''x'', hd_snapshot = \<lambda>n. JNull, hd_object = \<lambda>s. None\<rparr>"

definition sample_hook_state :: hook_state where
  "sample_hook_state =
     \<lparr>hk_session = (New_Session ''s'' ''w'' ''u'' [] 0)\<lparr>se_ActiveRun := Some \<lparr>ar_RunID = ''r_1'', ar_Status = ''running'',
        ar_Cancel = Some 0, ar_StartedAt = 5\<rparr>\<rparr>,
      hk_sent = [], hk_saved = [], hk_status = [], hk_summary = [], hk_titles = []\<rparr>"

theorem run_outcome_recorded_once_witness:
  "\<exists>status msg. hk_status (dispatch sample_hooks ''r_1'' ([] @ [mk_event EventRunCompleted (summary_data ''ok'')])
      sample_hook_state) = hk_status sample_hook_state @ [(''r_1'', status, msg)]"
proof -
  let ?t = "mk_event EventRunCompleted (summary_data ''ok'')"
  have "is_active (hk_session sample_hook_state) ''r_1''"
    by (simp add: sample_hook_state_def is_active_def)
  moreover have "trim_space ''r_1'' \<noteq> []" by (simp add: trim_eval)
  moreover have "ends_run ''r_1'' ?t" by (simp add: ends_run_def mk_event_def)
  ultimately show ?thesis
    using run_outcome_recorded_once [of sample_hook_state "''r_1''" "[]" ?t sample_hooks] by auto
qed

text \<open>
  C4. A report survives a snapshot: loading the snapshot of a report into a session gives back its
  blocks, charts, layout and delivery flag, and its title and author without surrounding white
  space, provided the encoding of evidence can be decoded.
\<close>

theorem report_snapshot_roundtrip:
  assumes "\<And>b. b \<in> set (Blocks st) \<Longrightarrow> rb_Sources b \<noteq> [] \<Longrightarrow>
    \<exists>j. marshal_sources (rb_Sources b) = Some j \<and> j \<noteq> [] \<and> parse_sources j = Some (rb_Sources b)"
  shows "se_ReportState (Session_LoadReportSnapshot parse_sources (Some (buildReportSnapshotLocked marshal_sources (Some st))) s)
    = (se_ReportState s)\<lparr>Blocks := Blocks st, Charts := Charts st, Layout := Layout st,
         NeedsFinalize := NeedsFinalize st, FinalTitle := trim_space (FinalTitle st),
         FinalAuthor := trim_space (FinalAuthor st), FinalizeAttempts := 0, LastFinalizeIssueSignature := []\<rparr>"
proof -
  have "load_block parse_sources (snapshot_of_block marshal_sources b) = b" if "b \<in> set (Blocks st)" for b
    using assms [OF that] by (cases b) (auto simp: load_block_def snapshot_of_block_def)
  then have b: "map (load_block parse_sources \<circ> snapshot_of_block marshal_sources) (Blocks st) = Blocks st"
    by (simp add: map_idI)
  have c: "\<lparr>cd_ID = cd_ID c, cd_Option = cd_Option c, cd_Width = cd_Width c, cd_Height = cd_Height c\<rparr> = c" for c :: chart_data
    by (cases c) simp
  show ?thesis
    by (simp add: Session_LoadReportSnapshot_def buildReportSnapshotLocked_def ResolveReportTitleFromState_def Let_def
        b c trim_norm.norm_idem)
qed

definition sample_evidence :: "evidence_ref list" where
  "sample_evidence = [\<lparr>er_Kind = ''sql'', er_ToolName = ''data_query_sql'', er_SQL = ''SELECT 1'', er_TableName = ''t'',
     er_ChartID = [], er_Summary = []\<rparr>]"

definition sample_report :: report_state where
  "sample_report = empty_report\<lparr>FinalTitle := '' Sales '', Blocks := [\<lparr>rb_ID = ''b'', rb_Kind = ''markdown'', rb_Title = [],
     rb_Content = ''text'', rb_ChartID = [], rb_Sources = sample_evidence\<rparr>]\<rparr>"

theorem report_snapshot_roundtrip_witness:
  "Blocks (se_ReportState (Session_LoadReportSnapshot (\<lambda>j. Some sample_evidence)
      (Some (buildReportSnapshotLocked (\<lambda>es. Some ''[..]'') (Some sample_report))) (New_Session ''s'' ''w'' ''u'' [] 0)))
   = Blocks sample_report"
proof -
  have "\<exists>j. Some ''[..]'' = Some j \<and> j \<noteq> [] \<and> Some sample_evidence = Some (rb_Sources b)"
    if "b \<in> set (Blocks sample_report)" for b
    using that by (simp add: sample_report_def)
  from report_snapshot_roundtrip [of sample_report "\<lambda>es. Some ''[..]''" "\<lambda>j. Some sample_evidence", OF this]
  show ?thesis by simp
qed

end
