(* ===== verification/Session_Manager.thy ===== *)
theory Session_Manager
  imports Session_Run
begin

text \<open>
  \<open>server/session/manager.go\<close> and \<open>cleanup.go\<close>: the table of live sessions, who may obtain one,
  and the removal of expired sessions, old traces and stale temporary files. The session
  repository, the constructor of a session (which opens a database) and the full-delete callback
  are arguments; what they answer is not restricted. Writes to the repository are listed in the
  result. File operations are the list of removed names.
\<close>

section \<open>The manager\<close>

record session_record =
  sr_ID :: string
  sr_WorkspaceID :: string
  sr_UserID :: string

datatype repo_error = NoRows | RepoFailure string

datatype repo_write =
    RepoCreate string string string
  | RepoTouch string
  | RepoDelete string

type_synonym session_repo = "string \<Rightarrow> repo_error + session_record"

record manager =
  mg_sessions :: "string \<rightharpoonup> session"
  mg_repo :: "session_repo option"

definition not_authorized :: string where
  "not_authorized = ''not authorized to access this session''"

definition owned_by :: "session \<Rightarrow> string \<Rightarrow> string \<Rightarrow> bool" where
  "owned_by sess workspaceID userID \<longleftrightarrow> se_WorkspaceID sess = workspaceID \<and> se_UserID sess = userID"

definition record_owned_by :: "session_record \<Rightarrow> string \<Rightarrow> string \<Rightarrow> bool" where
  "record_owned_by r workspaceID userID \<longleftrightarrow> sr_WorkspaceID r = workspaceID \<and> sr_UserID r = userID"

definition put_session :: "string \<Rightarrow> session \<Rightarrow> manager \<Rightarrow> manager" where
  "put_session i sess m = m\<lparr>mg_sessions := (mg_sessions m)(i \<mapsto> sess)\<rparr>"

text \<open>
  \<open>mk\<close> is the session constructor, \<open>create_err\<close> the outcome of storing a new record. The second
  half of \<open>GetOrCreate\<close>, once it is known whether the session is new.
\<close>

definition open_session ::
  "int \<Rightarrow> (string \<Rightarrow> string \<Rightarrow> string \<Rightarrow> session result) \<Rightarrow> string option \<Rightarrow> manager \<Rightarrow> string \<Rightarrow> string \<Rightarrow>
   string \<Rightarrow> bool \<Rightarrow> (session \<times> bool) result \<times> repo_write list \<times> manager" where
  "open_session now mk create_err m i workspaceID userID created =
     (case mk i workspaceID userID of
        Inl err \<Rightarrow> (Inl err, [], m)
      | Inr sess \<Rightarrow>
          if created \<and> mg_repo m \<noteq> None \<and> create_err \<noteq> None then (Inl (the create_err), [], m)
          else
            let writes = (if created \<and> mg_repo m \<noteq> None then [RepoCreate i workspaceID userID] else [])
                         @ (if mg_repo m \<noteq> None then [RepoTouch i] else [])
            in (Inr (sess, created), writes, put_session i sess m))"

definition GetOrCreate ::
  "int \<Rightarrow> string \<Rightarrow> (string \<Rightarrow> string \<Rightarrow> string \<Rightarrow> session result) \<Rightarrow> string option \<Rightarrow> manager \<Rightarrow>
   string \<Rightarrow> string \<Rightarrow> string \<Rightarrow> (session \<times> bool) result \<times> repo_write list \<times> manager" where
  "GetOrCreate now uuid mk create_err m sessionID workspaceID userID =
     (case (if sessionID \<noteq> [] then mg_sessions m sessionID else None) of
        Some sess \<Rightarrow>
          if \<not> owned_by sess workspaceID userID then (Inl not_authorized, [], m)
          else (Inr (Touch now sess, False), [], put_session sessionID (Touch now sess) m)
      | None \<Rightarrow>
          let i = (if sessionID = [] then ''s_'' @ take 8 uuid else sessionID)
          in case (if sessionID \<noteq> [] then mg_repo m else None) of
               None \<Rightarrow> open_session now mk create_err m i workspaceID userID True
             | Some get \<Rightarrow>
                 (case get sessionID of
                    Inr r \<Rightarrow>
                      if \<not> record_owned_by r workspaceID userID then (Inl not_authorized, [], m)
                      else open_session now mk create_err m i (sr_WorkspaceID r) (sr_UserID r) False
                  | Inl NoRows \<Rightarrow> open_session now mk create_err m i workspaceID userID True
                  | Inl (RepoFailure err) \<Rightarrow> (Inl err, [], m)))"

definition serve :: "int \<Rightarrow> manager \<Rightarrow> string \<Rightarrow> string \<Rightarrow> string \<Rightarrow> session \<Rightarrow> session result \<times> repo_write list \<times> manager"
  where
  "serve now m sessionID workspaceID userID sess =
     (if \<not> owned_by sess workspaceID userID then (Inl not_authorized, [], m)
      else (Inr (Touch now sess), (if mg_repo m \<noteq> None then [RepoTouch sessionID] else []),
            put_session sessionID (Touch now sess) m))"

definition Manager_Get ::
  "int \<Rightarrow> (string \<Rightarrow> string \<Rightarrow> string \<Rightarrow> session result) \<Rightarrow> manager \<Rightarrow> string \<Rightarrow> string \<Rightarrow> string \<Rightarrow>
   session result \<times> repo_write list \<times> manager" where
  "Manager_Get now mk m sessionID workspaceID userID =
     (case mg_sessions m sessionID of
        Some sess \<Rightarrow> serve now m sessionID workspaceID userID sess
      | None \<Rightarrow>
          (case mg_repo m of
             None \<Rightarrow> (Inl (''session does not exist: '' @ sessionID), [], m)
           | Some get \<Rightarrow>
               (case get sessionID of
                  Inl _ \<Rightarrow> (Inl (''session does not exist: '' @ sessionID), [], m)
                | Inr r \<Rightarrow>
                    if \<not> record_owned_by r workspaceID userID then (Inl not_authorized, [], m)
                    else (case mk (sr_ID r) (sr_WorkspaceID r) (sr_UserID r) of
                            Inl err \<Rightarrow> (Inl err, [], m)
                          | Inr sess \<Rightarrow>
                              serve now (put_session sessionID sess m) sessionID workspaceID userID sess))))"

definition Peek :: "manager \<Rightarrow> string \<Rightarrow> string \<Rightarrow> string \<Rightarrow> (session option) result" where
  "Peek m sessionID workspaceID userID =
     (case mg_sessions m sessionID of
        None \<Rightarrow> Inr None
      | Some sess \<Rightarrow> if \<not> owned_by sess workspaceID userID then Inl not_authorized else Inr (Some sess))"

text \<open>\<open>destroy_err\<close> and \<open>db_err\<close> are the outcomes of removing the session's database.\<close>

definition Manager_Delete ::
  "int \<Rightarrow> string option \<Rightarrow> string option \<Rightarrow> manager \<Rightarrow> string \<Rightarrow> string \<Rightarrow> string \<Rightarrow>
   string option \<times> nat option \<times> manager" where
  "Manager_Delete now destroy_err db_err m sessionID workspaceID userID =
     (case mg_sessions m sessionID of
        None \<Rightarrow> (db_err, None, m)
      | Some sess \<Rightarrow>
          if \<not> owned_by sess workspaceID userID then (Some not_authorized, None, m)
          else (case Session_Destroy now destroy_err sess of
                  (err, cancelled, _) \<Rightarrow>
                    (err, cancelled, m\<lparr>mg_sessions := (mg_sessions m)(sessionID := None)\<rparr>)))"

text \<open>\<open>idle\<close> and \<open>clock\<close> are what waiting for the session sees; 10 seconds, in milliseconds.\<close>

definition Manager_Stop ::
  "int \<Rightarrow> (nat \<Rightarrow> bool) \<Rightarrow> (nat \<Rightarrow> int) \<Rightarrow> nat \<Rightarrow> manager \<Rightarrow> string \<Rightarrow> string \<Rightarrow> string \<Rightarrow>
   (string option \<times> nat option \<times> manager) option" where
  "Manager_Stop now idle clock fuel m sessionID workspaceID userID =
     (case mg_sessions m sessionID of
        None \<Rightarrow> Some (None, None, m)
      | Some sess \<Rightarrow>
          if \<not> owned_by sess workspaceID userID then Some (Some not_authorized, None, m)
          else
            (case CancelRun now [] sess of
               (_, c, sess') \<Rightarrow>
                 map_option (\<lambda>ok. (if ok then None else Some ''session still has running tasks, cannot delete'',
                                   c, put_session sessionID sess' m))
                   (WaitUntilIdle idle clock now 10000 fuel)))"

definition IsSessionLive :: "manager \<Rightarrow> string \<Rightarrow> bool" where
  "IsSessionLive m sessionID \<longleftrightarrow> mg_sessions m sessionID \<noteq> None"

section \<open>Expired sessions\<close>

definition is_idle :: "session \<Rightarrow> bool" where
  "is_idle sess = (case se_ActiveRun sess of None \<Rightarrow> True | Some r \<Rightarrow> ar_Status r \<noteq> StatusRunning)"

definition expired :: "int \<Rightarrow> session \<Rightarrow> bool" where
  "expired cutoff sess \<longleftrightarrow> is_idle sess \<and> se_LastSeenAt sess < cutoff"

text \<open>The scan, over an enumeration of the table in the order Go happens to choose.\<close>

definition cleanup_candidates :: "int \<Rightarrow> manager \<Rightarrow> string list \<Rightarrow> string list" where
  "cleanup_candidates cutoff m ids =
     filter (\<lambda>i. case mg_sessions m i of Some sess \<Rightarrow> expired cutoff sess | None \<Rightarrow> False) ids"

text \<open>
  One candidate, checked again under the lock: \<open>full_delete\<close> is the callback, if set; otherwise
  \<open>destroy\<close> is the outcome of destroying the session.
\<close>

definition cleanup_one ::
  "int \<Rightarrow> (string \<Rightarrow> string option) option \<Rightarrow> (string \<Rightarrow> string option) \<Rightarrow> manager \<Rightarrow> string \<Rightarrow>
   bool \<times> repo_write list \<times> manager" where
  "cleanup_one cutoff full_delete destroy m i =
     (case mg_sessions m i of
        None \<Rightarrow> (False, [], m)
      | Some sess \<Rightarrow>
          if \<not> expired cutoff sess then (False, [], m)
          else
            let err = (case full_delete of Some f \<Rightarrow> f i | None \<Rightarrow> destroy i);
                writes = (if full_delete = None \<and> err = None \<and> mg_repo m \<noteq> None then [RepoDelete i] else [])
            in if err \<noteq> None then (False, writes, m)
               else (True, writes, m\<lparr>mg_sessions := (mg_sessions m)(i := None)\<rparr>))"

fun cleanup_all ::
  "int \<Rightarrow> (string \<Rightarrow> string option) option \<Rightarrow> (string \<Rightarrow> string option) \<Rightarrow> manager \<Rightarrow> string list \<Rightarrow>
   nat \<times> repo_write list \<times> manager" where
  "cleanup_all cutoff full_delete destroy m [] = (0, [], m)"
| "cleanup_all cutoff full_delete destroy m (i # ids) =
     (let (ok, ws, m1) = cleanup_one cutoff full_delete destroy m i;
          (n, ws2, m2) = cleanup_all cutoff full_delete destroy m1 ids
      in ((if ok then 1 else 0) + n, ws @ ws2, m2))"

text \<open>
  The last step deletes expired sessions that only the repository knows; \<open>db_expired\<close> is what it
  lists (at most 100), or an error.
\<close>

definition cleanup_db_only ::
  "(string \<Rightarrow> string option) option \<Rightarrow> string list result \<Rightarrow> manager \<Rightarrow> nat" where
  "cleanup_db_only full_delete db_expired m =
     (case (mg_repo m, full_delete, db_expired) of
        (Some _, Some f, Inr ids) \<Rightarrow> length (filter (\<lambda>i. mg_sessions m i = None \<and> f i = None) ids)
      | _ \<Rightarrow> 0)"

definition CleanupExpiredSessions ::
  "int \<Rightarrow> int \<Rightarrow> (string \<Rightarrow> string option) option \<Rightarrow> (string \<Rightarrow> string option) \<Rightarrow> string list result \<Rightarrow>
   string list \<Rightarrow> manager \<Rightarrow> nat \<times> repo_write list \<times> manager" where
  "CleanupExpiredSessions now ttlHours full_delete destroy db_expired ids m =
     (if ttlHours \<le> 0 then (0, [], m)
      else
        let cutoff = now - ttlHours * 3600;
            (n, ws, m1) = cleanup_all cutoff full_delete destroy m (cleanup_candidates cutoff m ids)
        in (n + cleanup_db_only full_delete db_expired m1, ws, m1))"

section \<open>Old traces and temporary files\<close>

definition isDateDirName :: "string \<Rightarrow> bool" where
  "isDateDirName name \<longleftrightarrow>
     (\<forall>i < length name. if i = 4 \<or> i = 7 then name ! i = CHR ''-'' else is_digit (name ! i))"

definition leap_year :: "nat \<Rightarrow> bool" where
  "leap_year y \<longleftrightarrow> (y mod 4 = 0 \<and> y mod 100 \<noteq> 0) \<or> y mod 400 = 0"

definition month_days :: "nat \<Rightarrow> nat \<Rightarrow> nat" where
  "month_days y m = (if m = 2 then (if leap_year y then 29 else 28)
                     else if m \<in> {4, 6, 9, 11} then 30 else 31)"

text \<open>\<open>time.Parse\<close> with the layout \<open>2006-01-02\<close> on a name of that shape: year, month and day, if valid.\<close>

definition parse_date :: "string \<Rightarrow> (nat \<times> nat \<times> nat) option" where
  "parse_date name =
     (let y = nat_val (take 4 name); m = nat_val (take 2 (drop 5 name)); d = nat_val (drop 8 name)
      in if 1 \<le> m \<and> m \<le> 12 \<and> 1 \<le> d \<and> d \<le> month_days y m then Some (y, m, d) else None)"

definition date_before :: "nat \<times> nat \<times> nat \<Rightarrow> nat \<times> nat \<times> nat \<Rightarrow> bool" where
  "date_before a b \<longleftrightarrow>
     (case (a, b) of ((y1, m1, d1), (y2, m2, d2)) \<Rightarrow>
        y1 < y2 \<or> (y1 = y2 \<and> (m1 < m2 \<or> (m1 = m2 \<and> d1 < d2))))"

text \<open>
  \<open>cutoff\<close> is the day of the cutoff instant and \<open>midday\<close> says whether that instant is after
  midnight (a directory stands for the midnight that starts its day). \<open>entries\<close> are names with
  the flag of a directory; \<open>removable\<close> says which removals succeed.
\<close>

definition old_trace :: "nat \<times> nat \<times> nat \<Rightarrow> bool \<Rightarrow> string \<times> bool \<Rightarrow> bool" where
  "old_trace cutoff midday entry =
     (snd entry \<and> length (fst entry) = 10 \<and> isDateDirName (fst entry)
      \<and> (case parse_date (fst entry) of
           None \<Rightarrow> False
         | Some d \<Rightarrow> date_before d cutoff \<or> (d = cutoff \<and> midday)))"

definition CleanupOldTraces ::
  "int \<Rightarrow> string \<Rightarrow> nat \<times> nat \<times> nat \<Rightarrow> bool \<Rightarrow> (string \<times> bool) list option \<Rightarrow> (string \<Rightarrow> bool) \<Rightarrow>
   nat \<times> string list" where
  "CleanupOldTraces retentionDays traceDir cutoff midday entries removable =
     (if retentionDays \<le> 0 \<or> traceDir = [] then (0, [])
      else (case entries of
              None \<Rightarrow> (0, [])
            | Some es \<Rightarrow>
                let removed = filter removable (map fst (filter (old_trace cutoff midday) es))
                in (length removed, removed)))"

text \<open>Entries with their modification time, if it can be read; what is older than \<open>maxAge\<close>.\<close>

definition cleanupStaleTemp :: "int \<Rightarrow> int \<Rightarrow> (string \<times> int option) list option \<Rightarrow> string list" where
  "cleanupStaleTemp now maxAge entries =
     (case entries of
        None \<Rightarrow> []
      | Some es \<Rightarrow> map fst (filter (\<lambda>e. case snd e of Some t \<Rightarrow> t < now - maxAge | None \<Rightarrow> False) es))"

section \<open>Lemmas\<close>

text \<open>Sessions are stored under their owner: what the constructor promises.\<close>

definition constructs :: "(string \<Rightarrow> string \<Rightarrow> string \<Rightarrow> session result) \<Rightarrow> bool" where
  "constructs mk \<longleftrightarrow> (\<forall>i ws us sess. mk i ws us = Inr sess \<longrightarrow> se_WorkspaceID sess = ws \<and> se_UserID sess = us)"

lemma touch_owned [simp]: "owned_by (Touch now s) ws us = owned_by s ws us"
  by (simp add: owned_by_def Touch_def)

lemma cleanup_one_spec:
  assumes "cleanup_one cutoff fd ds m i = (ok, ws, m')"
  shows "(\<forall>j. mg_sessions m' j = mg_sessions m j
            \<or> (ok \<and> j = i \<and> mg_sessions m' j = None \<and> (\<exists>sess. mg_sessions m j = Some sess \<and> expired cutoff sess)))
    \<and> mg_repo m' = mg_repo m"
  using assms by (auto simp: cleanup_one_def Let_def split: option.splits if_splits)

lemma cleanup_all_spec:
  "cleanup_all cutoff fd ds m ids = (n, ws, m') \<Longrightarrow>
     (\<forall>j. mg_sessions m' j = mg_sessions m j
        \<or> (j \<in> set ids \<and> mg_sessions m' j = None \<and> (\<exists>sess. mg_sessions m j = Some sess \<and> expired cutoff sess)))"
proof (induction ids arbitrary: m n ws)
  case (Cons i ids)
  obtain ok ws1 m1 where 1: "cleanup_one cutoff fd ds m i = (ok, ws1, m1)" by (metis surj_pair)
  obtain n2 ws2 where 2: "cleanup_all cutoff fd ds m1 ids = (n2, ws2, m')"
    using Cons.prems 1 by (auto simp: Let_def split: prod.splits)
  from cleanup_one_spec [OF 1] Cons.IH [OF 2] show ?case
    by (metis list.set_intros)
qed simp

lemma cleanup_all_removes:
  "cleanup_all cutoff (Some (\<lambda>_. None)) ds m ids = (n, ws, m') \<Longrightarrow> j \<in> set ids \<Longrightarrow>
     mg_sessions m j = Some sess \<Longrightarrow> expired cutoff sess \<Longrightarrow> mg_sessions m' j = None"
proof (induction ids arbitrary: m n ws)
  case (Cons i ids)
  obtain ok ws1 m1 where 1: "cleanup_one cutoff (Some (\<lambda>_. None)) ds m i = (ok, ws1, m1)" by (metis surj_pair)
  obtain n2 ws2 where 2: "cleanup_all cutoff (Some (\<lambda>_. None)) ds m1 ids = (n2, ws2, m')"
    using Cons.prems 1 by (auto simp: Let_def split: prod.splits)
  show ?case
  proof (cases "j = i")
    case True
    with 1 Cons.prems have "mg_sessions m1 j = None" by (auto simp: cleanup_one_def Let_def split: if_splits)
    with cleanup_all_spec [OF 2] show ?thesis by metis
  next
    case False
    with 1 have "mg_sessions m1 j = mg_sessions m j" using cleanup_one_spec [OF 1] by blast
    with Cons.IH [OF 2] Cons.prems False show ?thesis by auto
  qed
qed simp

text \<open>An answer to a caller: a session of its own, or a refusal that changed nothing.\<close>

definition lawful :: "manager \<Rightarrow> string \<Rightarrow> string \<Rightarrow> (session \<times> bool) result \<times> repo_write list \<times> manager \<Rightarrow> bool" where
  "lawful m ws us out \<longleftrightarrow>
     (case out of (Inr (sess, _), _, _) \<Rightarrow> owned_by sess ws us | (Inl _, _, m') \<Rightarrow> m' = m)"

lemma constructs_owned: "constructs mk \<Longrightarrow> mk i ws us = Inr sess \<Longrightarrow> owned_by sess ws us"
  by (simp add: constructs_def owned_by_def)

lemma open_lawful: "constructs mk \<Longrightarrow> lawful m ws us (open_session now mk cerr m i ws us b)"
  by (auto simp: open_session_def Let_def lawful_def constructs_owned split: sum.split)

lemma get_or_create_lawful:
  assumes "constructs mk"
  shows "lawful m ws us (GetOrCreate now uuid mk cerr m sessionID ws us)"
proof -
  have 1: "lawful m ws us (Inl e, w, m)" for e w by (simp add: lawful_def)
  have 2: "lawful m ws us (Inr (sess, b), w, m')" if "owned_by sess ws us" for sess b w m'
    using that by (simp add: lawful_def)
  show ?thesis
    using open_lawful [OF assms] 1 2
    by (simp add: GetOrCreate_def Let_def record_owned_by_def split: option.split sum.split repo_error.split)
qed

lemma get_lawful:
  assumes "constructs mk"
  shows "case Manager_Get now mk m sessionID ws us of
           (Inr sess, _, m') \<Rightarrow> owned_by sess ws us \<and> mg_sessions m' sessionID = Some sess
         | (Inl _, _, m') \<Rightarrow> m' = m"
  using constructs_owned [OF assms]
  by (auto simp: Manager_Get_def serve_def put_session_def record_owned_by_def
      split: option.split sum.split)

section \<open>Properties\<close>

text \<open>
  C26. Sessions are handed out to their owners only: whatever the repository answers, a session
  returned by \<open>GetOrCreate\<close>, \<open>Get\<close> or \<open>Peek\<close> belongs to the workspace and the user that
  asked; and a refused request leaves the table of sessions as it was. (The constructor
  stores the workspace and the user it is given.)
\<close>

theorem session_access_authorized:
  assumes "constructs mk"
  shows "(case GetOrCreate now uuid mk cerr m sessionID ws us of
            (Inr (sess, _), _, _) \<Rightarrow> owned_by sess ws us | (Inl _, _, m') \<Rightarrow> m' = m)
    \<and> (case Manager_Get now mk m sessionID ws us of
            (Inr sess, _, m') \<Rightarrow> owned_by sess ws us \<and> mg_sessions m' sessionID = Some sess
          | (Inl _, _, m') \<Rightarrow> m' = m)
    \<and> (\<forall>sess. Peek m sessionID ws us = Inr (Some sess) \<longrightarrow> owned_by sess ws us)"
  using get_or_create_lawful [OF assms, where now = now and uuid = uuid and cerr = cerr and m = m
      and sessionID = sessionID and ws = ws and us = us]
    get_lawful [OF assms, where now = now and m = m and sessionID = sessionID and ws = ws and us = us]
  by (auto simp: lawful_def Peek_def split: option.splits if_splits)

definition sample_mk :: "string \<Rightarrow> string \<Rightarrow> string \<Rightarrow> session result" where
  "sample_mk i ws us = Inr (New_Session i ws us [] 0)"

lemma sample_mk_constructs: "constructs sample_mk"
  by (simp add: constructs_def sample_mk_def New_Session_def)

definition sample_manager :: manager where
  "sample_manager = \<lparr>mg_sessions = [''s'' \<mapsto> New_Session ''s'' ''w'' ''u'' [] 0], mg_repo = None\<rparr>"

theorem session_access_authorized_witness:
  "constructs sample_mk \<and>
   (\<exists>sess. Peek sample_manager ''s'' ''w'' ''u'' = Inr (Some sess) \<and> owned_by sess ''w'' ''u'')"
proof -
  have "\<exists>sess. Peek sample_manager ''s'' ''w'' ''u'' = Inr (Some sess)"
    by (simp add: Peek_def sample_manager_def owned_by_def New_Session_def)
  with session_access_authorized [OF sample_mk_constructs, where m = sample_manager
      and sessionID = "''s''" and ws = "''w''" and us = "''u''"] sample_mk_constructs
  show ?thesis by blast
qed

text \<open>
  Cleaning up: a session disappears from the table only if its last activity is before the
  cutoff and no run of it is in the state \<open>running\<close>; every other session stays, unchanged.
  If every deletion succeeds, all such sessions among the scanned ones disappear.
\<close>

theorem cleanup_removes_expired_only:
  assumes "CleanupExpiredSessions now ttl fd ds db ids m = (n, ws, m')"
  shows "(\<forall>i. mg_sessions m' i = mg_sessions m i
            \<or> (0 < ttl \<and> mg_sessions m' i = None
               \<and> (\<exists>sess. mg_sessions m i = Some sess \<and> se_LastSeenAt sess < now - ttl * 3600
                     \<and> (\<forall>r. se_ActiveRun sess = Some r \<longrightarrow> ar_Status r \<noteq> ''running''))))
    \<and> (fd = Some (\<lambda>_. None) \<longrightarrow> 0 < ttl \<longrightarrow>
         (\<forall>i sess. i \<in> set ids \<longrightarrow> mg_sessions m i = Some sess
              \<longrightarrow> expired (now - ttl * 3600) sess \<longrightarrow> mg_sessions m' i = None))"
proof (cases "ttl \<le> 0")
  case True
  then show ?thesis using assms by (simp add: CleanupExpiredSessions_def)
next
  case False
  let ?c = "now - ttl * 3600"
  let ?cands = "cleanup_candidates ?c m ids"
  obtain k ws1 where a: "cleanup_all ?c fd ds m ?cands = (k, ws1, m')"
    using assms False by (auto simp: CleanupExpiredSessions_def Let_def split: prod.splits)
  have e: "expired ?c sess \<longleftrightarrow> se_LastSeenAt sess < ?c
      \<and> (\<forall>r. se_ActiveRun sess = Some r \<longrightarrow> ar_Status r \<noteq> ''running'')" for sess
    by (auto simp: expired_def is_idle_def StatusRunning_def split: option.split)
  have "i \<in> set ?cands" if "i \<in> set ids" "mg_sessions m i = Some sess" "expired ?c sess" for i sess
    using that by (simp add: cleanup_candidates_def)
  then have "mg_sessions m' i = None"
    if "fd = Some (\<lambda>_. None)" "i \<in> set ids" "mg_sessions m i = Some sess" "expired ?c sess" for i sess
    using that cleanup_all_removes a by blast
  moreover have "mg_sessions m' i = mg_sessions m i \<or> (mg_sessions m' i = None
      \<and> (\<exists>sess. mg_sessions m i = Some sess \<and> expired ?c sess))" for i
    using cleanup_all_spec [OF a] by blast
  ultimately show ?thesis using False unfolding e by (metis not_le)
qed

theorem cleanup_removes_expired_only_witness:
  "\<exists>n ws m'. CleanupExpiredSessions 9000 1 (Some (\<lambda>_. None)) (\<lambda>_. None) (Inr []) [''s''] sample_manager = (n, ws, m')
     \<and> mg_sessions m' ''s'' = None"
proof -
  obtain n ws m' where r: "CleanupExpiredSessions 9000 1 (Some (\<lambda>_. None)) (\<lambda>_. None) (Inr []) [''s'']
      sample_manager = (n, ws, m')" by (metis surj_pair)
  have "expired 5400 (New_Session ''s'' ''w'' ''u'' [] 0)"
    by (simp add: expired_def is_idle_def New_Session_def)
  with cleanup_removes_expired_only [OF r] r show ?thesis by (simp add: sample_manager_def)
qed

text \<open>
  A session whose run waits for the user's answer counts as idle, so the cleanup removes it
  with the pending question, although the table lookup for stale runs treats such a session
  as live.
\<close>

theorem waiting_session_is_cleaned:
  "\<exists>m sess r. mg_sessions m ''s'' = Some sess \<and> se_ActiveRun sess = Some r
     \<and> ar_Status r = ''waiting_user_input'' \<and> IsSessionLive m ''s''
     \<and> mg_sessions (snd (snd (CleanupExpiredSessions 9000 1 (Some (\<lambda>_. None)) (\<lambda>_. None) (Inr []) [''s''] m))) ''s'' = None"
proof -
  let ?r = "\<lparr>ar_RunID = ''r_1'', ar_Status = ''waiting_user_input'', ar_Cancel = Some 0, ar_StartedAt = 0\<rparr>"
  let ?sess = "(New_Session ''s'' ''w'' ''u'' [] 0)\<lparr>se_ActiveRun := Some ?r\<rparr>"
  let ?m = "\<lparr>mg_sessions = [''s'' \<mapsto> ?sess], mg_repo = None\<rparr>"
  show ?thesis
    by (intro exI [of _ ?m] exI [of _ ?sess] exI [of _ ?r])
      (simp add: CleanupExpiredSessions_def cleanup_candidates_def expired_def is_idle_def
        StatusRunning_def New_Session_def cleanup_one_def IsSessionLive_def Let_def)
qed

text \<open>
  Trace directories are removed only if their name is a valid date before the cutoff (or the
  cutoff day itself, when the cutoff lies after its midnight), and nothing is removed when the
  retention is off.
\<close>

theorem trace_cleanup_only_old:
  "\<forall>name \<in> set (snd (CleanupOldTraces days dir cutoff midday entries removable)).
     days > 0 \<and> dir \<noteq> [] \<and> length name = 10 \<and> isDateDirName name
     \<and> (\<exists>d. parse_date name = Some d \<and> (date_before d cutoff \<or> d = cutoff \<and> midday))"
  by (auto simp: CleanupOldTraces_def old_trace_def Let_def split: option.splits if_splits)

theorem trace_cleanup_only_old_witness:
  "''2024-01-01'' \<in> set (snd (CleanupOldTraces 3 ''d'' (2024, 1, 2) False
      (Some [(''2024-01-01'', True), (''notes'', True)]) (\<lambda>_. True)))
   \<and> (\<exists>d. parse_date ''2024-01-01'' = Some d \<and> date_before d (2024, 1, 2))"
proof -
  have m: "''2024-01-01'' \<in> set (snd (CleanupOldTraces 3 ''d'' (2024, 1, 2) False
      (Some [(''2024-01-01'', True), (''notes'', True)]) (\<lambda>_. True)))"
    by code_simp
  with trace_cleanup_only_old [of 3 "''d''" "(2024, 1, 2)" False
      "Some [(''2024-01-01'', True), (''notes'', True)]" "\<lambda>_. True"]
  show ?thesis by blast
qed

end
