(* ===== verification/Run_Restore.thy ===== *)
theory Run_Restore
  imports Run_Store Run_Hooks Session_Manager "HOL-Library.Multiset"
begin

text \<open>
  The stored events of a run and what is restored from them: \<open>MessageRepository\<close> of
  \<open>server/repository/sqlite/store.go\<close>, \<open>saveEventToDBSync\<close> and the report snapshot loader of
  \<open>server/handler/ws.go\<close>, \<open>server/handler/runtime_state.go\<close> and \<open>server/handler/session_runtime.go\<close>.
  The queue before the store may drop events under load; here it keeps their order. The JSON
  encoder and its decoders into the types the code names are parameters.
\<close>

section \<open>Stored messages\<close>

record run_message =
  rm_ID :: string
  rm_RunID :: string
  rm_SessionID :: string
  rm_WorkspaceID :: string
  rm_Type :: string
  rm_Name :: string
  rm_ToolCallID :: "string option"
  rm_Content :: string
  rm_Success :: "bool option"
  rm_Duration :: "int option"
  rm_CreatedAt :: int

type_synonym message_table = "run_message list"

definition sql_Message_Create ::
  "(string \<Rightarrow> bool) \<Rightarrow> (string \<Rightarrow> bool) \<Rightarrow> run_message \<Rightarrow> message_table \<Rightarrow> db_error option \<times> message_table" where
  "sql_Message_Create run_row session_row msg t =
     (if rm_ID msg \<in> rm_ID ` set t \<or> \<not> run_row (rm_RunID msg) \<or> \<not> session_row (rm_SessionID msg)
      then (Some ConstraintFailed, t) else (None, t @ [msg]))"

definition sql_Message_ListByRun :: "message_table \<Rightarrow> string \<Rightarrow> run_message list" where
  "sql_Message_ListByRun t runID = take 5000 (sort_key rm_CreatedAt (filter (\<lambda>m. rm_RunID m = runID) t))"

text \<open>
  The decoders of the code: \<open>jc_marshal\<close> and \<open>jc_raw\<close> encode the data of an event and the raw
  arguments of a call (empty on an error); of the others \<open>None\<close> is a decoding error, and a map of
  facts that is absent from the text is the nil map.
\<close>

record restore_codec =
  jc_marshal :: "json \<Rightarrow> string"
  jc_raw :: "string \<Rightarrow> string"
  jc_memory :: "string \<Rightarrow> (string \<times> string) list option option"
  jc_goals :: "string \<Rightarrow> goal_rec list option"
  jc_report :: "string \<Rightarrow> (report_snapshot option \<times> string) option"
  jc_edit :: "string \<Rightarrow> edit_state_data option"
  jc_fact :: "string \<Rightarrow> (string \<times> string) option"
  jc_goal :: "string \<Rightarrow> goal_manage_args option"
  jc_goal_id :: "string \<Rightarrow> string option"

text \<open>
  \<open>saveEventToDBSync\<close>: the message of an event. The code chooses by the Go type of the data; each
  event type has one.
\<close>

definition text_of :: "string \<Rightarrow> json \<Rightarrow> string" where
  "text_of k d = (case str_field k d of Some v \<Rightarrow> v | None \<Rightarrow> [])"

definition call_id_of :: "json \<Rightarrow> string option" where
  "call_id_of d = (if text_of ''id'' d \<noteq> [] then Some (text_of ''id'' d) else None)"

definition saveEventToDBSync ::
  "restore_codec \<Rightarrow> string \<Rightarrow> int \<Rightarrow> string \<Rightarrow> string \<Rightarrow> string \<Rightarrow> ws_event \<Rightarrow> run_message" where
  "saveEventToDBSync jc uuid now workspaceID sessionID runID ev =
     (let d = ev_data ev;
          msg = \<lparr>rm_ID = uuid, rm_RunID = runID, rm_SessionID = sessionID, rm_WorkspaceID = workspaceID,
                 rm_Type = ev_type ev, rm_Name = [], rm_ToolCallID = None, rm_Content = [],
                 rm_Success = None, rm_Duration = None, rm_CreatedAt = now\<rparr>
      in if ev_type ev = ''user'' \<or> ev_type ev = EventAssistantStatus
         then msg\<lparr>rm_Content := text_of ''content'' d\<rparr>
         else if ev_type ev = EventToolCall
         then msg\<lparr>rm_Name := text_of ''name'' d, rm_ToolCallID := call_id_of d,
                  rm_Content := jc_raw jc (text_of ''arguments'' d)\<rparr>
         else if ev_type ev = EventToolResult
         then msg\<lparr>rm_Name := text_of ''name'' d, rm_ToolCallID := call_id_of d,
                  rm_Content := text_of ''result'' d,
                  rm_Duration := Some (case d of JObj p \<Rightarrow> (case map_of p ''duration'' of Some (JInt n) \<Rightarrow> n | _ \<Rightarrow> 0)
                                       | _ \<Rightarrow> 0),
                  rm_Success := Some (case d of JObj p \<Rightarrow> map_of p ''success'' = Some (JBool True) | _ \<Rightarrow> False)\<rparr>
         else if ev_type ev = EventError then msg\<lparr>rm_Content := text_of ''message'' d\<rparr>
         else if ev_type ev = EventRunCompleted then msg\<lparr>rm_Content := text_of ''summary'' d\<rparr>
         else msg\<lparr>rm_Content := jc_marshal jc d\<rparr>)"

section \<open>The messages of a tree of runs\<close>

definition visit_child ::
  "(string \<Rightarrow> 'm list) \<Rightarrow> string \<Rightarrow> string list \<times> string list \<times> 'm list \<Rightarrow> string list \<times> string list \<times> 'm list" where
  "visit_child msgs c st =
     (case st of (visited, queue, acc) \<Rightarrow>
        if c \<in> set visited then st else (c # visited, queue @ [c], acc @ msgs c))"

primrec collect_loop ::
  "nat \<Rightarrow> (string \<Rightarrow> string list) \<Rightarrow> (string \<Rightarrow> 'm list) \<Rightarrow> string list \<Rightarrow> string list \<Rightarrow> 'm list \<Rightarrow> 'm list option" where
  "collect_loop 0 children msgs queue visited acc = None"
| "collect_loop (Suc n) children msgs queue visited acc =
     (case queue of
        [] \<Rightarrow> Some acc
      | p # rest \<Rightarrow>
          (case fold (visit_child msgs) (children p) (visited, rest, acc) of
             (visited', queue', acc') \<Rightarrow> collect_loop n children msgs queue' visited' acc'))"

definition sortRunMessages :: "run_message list \<Rightarrow> run_message list" where
  "sortRunMessages ms = sort_key rm_CreatedAt ms"

definition collectRunTreeMessages ::
  "nat \<Rightarrow> run_table \<Rightarrow> message_table \<Rightarrow> string \<Rightarrow> run_message list option" where
  "collectRunTreeMessages n runs msgs runID =
     (if trim_space runID = [] then Some []
      else map_option sortRunMessages
             (collect_loop n (\<lambda>p. map an_ID (sql_Run_ListByParent runs p)) (sql_Message_ListByRun msgs)
                [runID] [runID] (sql_Message_ListByRun msgs runID)))"

primrec collect_runs :: "(string \<Rightarrow> 'm list option) \<Rightarrow> string list \<Rightarrow> 'm list option" where
  "collect_runs f [] = Some []"
| "collect_runs f (r # rs) = Option.bind (f r) (\<lambda>a. map_option (\<lambda>b. a @ b) (collect_runs f rs))"

definition collectSessionMessages ::
  "nat \<Rightarrow> run_table \<Rightarrow> message_table \<Rightarrow> string \<Rightarrow> run_message list option" where
  "collectSessionMessages n runs msgs sessionID =
     (if trim_space sessionID = [] then Some []
      else map_option sortRunMessages
             (collect_runs (collectRunTreeMessages n runs msgs) (map an_ID (sql_Run_ListBySession runs sessionID (- 1)))))"

section \<open>The state behind the messages\<close>

record restored =
  rt_memory :: "(string \<times> string) list option"
  rt_goals :: "goal_rec list"
  rt_snapshot :: "report_snapshot option"
  rt_html :: string
  rt_edit :: "edit_state_data option"
  rt_pending :: "(string \<times> string) list"

definition nothing_restored :: restored where
  "nothing_restored = \<lparr>rt_memory = Some [], rt_goals = [], rt_snapshot = None, rt_html = [], rt_edit = None,
     rt_pending = []\<rparr>"

definition extractGoalIDFromResult :: "restore_codec \<Rightarrow> string \<Rightarrow> string" where
  "extractGoalIDFromResult jc c = (case jc_goal_id jc c of Some i \<Rightarrow> i | None \<Rightarrow> [])"

text \<open>The replay of a successful call; writing to a nil map panics, which is \<open>None\<close>.\<close>

definition replay_fact :: "restore_codec \<Rightarrow> string \<Rightarrow> restored \<Rightarrow> restored option" where
  "replay_fact jc args st =
     (case jc_fact jc args of
        None \<Rightarrow> Some st
      | Some (key, fct) \<Rightarrow>
          if key = [] then Some st
          else map_option (\<lambda>m. st\<lparr>rt_memory := Some (AList.update key fct m)\<rparr>) (rt_memory st))"

definition replay_goal :: "restore_codec \<Rightarrow> string \<Rightarrow> string \<Rightarrow> restored \<Rightarrow> restored" where
  "replay_goal jc args content st =
     (case jc_goal jc args of
        None \<Rightarrow> st
      | Some a \<Rightarrow>
          if ga_action a = ''add''
          then (if extractGoalIDFromResult jc content = [] then st
                else st\<lparr>rt_goals := rt_goals st @ [\<lparr>sg_ID = extractGoalIDFromResult jc content,
                          ParentGoalID = ga_parent_goal_id a, Description = ga_description a,
                          sg_Status = StatusPending, Blocking = False, Result = [],
                          sg_CreatedAt = 0, sg_UpdatedAt = 0\<rparr>]\<rparr>)
          else if ga_action a = ''complete'' \<or> ga_action a = ''reject''
          then st\<lparr>rt_goals := map (\<lambda>g. if sg_ID g = ga_goal_id a
                     then g\<lparr>sg_Status := (if ga_action a = ''reject'' then StatusRejected else StatusComplete),
                            Result := ga_result a\<rparr>
                     else g) (rt_goals st)\<rparr>
          else st)"

definition restore_step :: "restore_codec \<Rightarrow> run_message \<Rightarrow> restored \<Rightarrow> restored option" where
  "restore_step jc msg st =
     (let c = rm_Content msg; call = (case rm_ToolCallID msg of Some i \<Rightarrow> i | None \<Rightarrow> [])
      in if rm_Type msg = EventStateMemoryUpdated
         then Some (case jc_memory jc c of Some m \<Rightarrow> st\<lparr>rt_memory := m\<rparr> | None \<Rightarrow> st)
         else if rm_Type msg = EventStateSubgoalsUpdated
         then Some (case jc_goals jc c of Some g \<Rightarrow> st\<lparr>rt_goals := g\<rparr> | None \<Rightarrow> st)
         else if rm_Type msg = EventReportUpdate \<or> rm_Type msg = EventReportFinal
         then Some (case jc_report jc c of
                      None \<Rightarrow> st
                    | Some (snap, html) \<Rightarrow>
                        st\<lparr>rt_snapshot := (if snap \<noteq> None then snap else rt_snapshot st),
                           rt_html := (if trim_space html \<noteq> [] then html else rt_html st)\<rparr>)
         else if rm_Type msg = EventStateReportEditUpdated
         then Some (case jc_edit jc c of
                      None \<Rightarrow> st
                    | Some e \<Rightarrow> st\<lparr>rt_edit := (if ed_Active e \<and> ed_EditContext e \<noteq> None then Some e else None)\<rparr>)
         else if rm_Type msg = EventToolCall
         then Some (if call \<noteq> [] then st\<lparr>rt_pending := AList.update call c (rt_pending st)\<rparr> else st)
         else if rm_Type msg = EventToolResult
         then (case map_of (rt_pending st) call of
                 None \<Rightarrow> Some st
               | Some args \<Rightarrow>
                   if call = [] then Some st
                   else
                     let st1 = st\<lparr>rt_pending := AList.delete call (rt_pending st)\<rparr>
                     in if rm_Success msg \<noteq> Some True then Some st1
                        else if rm_Name msg = ''memory_save_fact'' then replay_fact jc args st1
                        else if rm_Name msg = ''goal_manage'' then Some (replay_goal jc args c st1)
                        else Some st1)
         else Some st)"

text \<open>\<open>render\<close> is \<open>renderReportHTMLFromSnapshotData\<close>.\<close>

definition deriveRuntimeStateFromMessages ::
  "restore_codec \<Rightarrow> (report_snapshot \<Rightarrow> string option) \<Rightarrow> run_message list \<Rightarrow> restored option" where
  "deriveRuntimeStateFromMessages jc render ms =
     map_option (\<lambda>st. case Option.bind (rt_snapshot st) render of
                        Some html \<Rightarrow> st\<lparr>rt_html := html\<rparr> | None \<Rightarrow> st)
       (fold (\<lambda>m acc. Option.bind acc (restore_step jc m)) ms (Some nothing_restored))"

definition loadSessionRuntimeStateFromPersistence ::
  "restore_codec \<Rightarrow> (report_snapshot \<Rightarrow> string option) \<Rightarrow> nat \<Rightarrow> run_table \<Rightarrow> message_table \<Rightarrow> string \<Rightarrow> restored option" where
  "loadSessionRuntimeStateFromPersistence jc render n runs msgs sessionID =
     Option.bind (collectSessionMessages n runs msgs sessionID)
       (\<lambda>ms. if ms = [] then Some nothing_restored else deriveRuntimeStateFromMessages jc render ms)"

definition deriveRuntimeStateFromRun ::
  "restore_codec \<Rightarrow> (report_snapshot \<Rightarrow> string option) \<Rightarrow> nat \<Rightarrow> run_table \<Rightarrow> message_table \<Rightarrow> string \<Rightarrow> restored option" where
  "deriveRuntimeStateFromRun jc render n runs msgs runID =
     Option.bind (collectRunTreeMessages n runs msgs runID)
       (\<lambda>ms. if ms = [] then Some nothing_restored else deriveRuntimeStateFromMessages jc render ms)"

section \<open>The collection visits every run of the tree once\<close>

lemma visit_child_eq:
  "visit_child msgs c (visited, queue, acc) =
     (if c \<in> set visited then (visited, queue, acc) else (c # visited, queue @ [c], acc @ msgs c))"
  by (simp add: visit_child_def)

locale child_graph =
  fixes children :: "string \<Rightarrow> string list"
  assumes finite_children: "finite (\<Union>p. set (children p))"
begin

definition reach :: "string \<Rightarrow> string set" where
  "reach r = {(p, c). c \<in> set (children p)}\<^sup>* `` {r}"

lemma reach_refl: "r \<in> reach r"
  by (simp add: reach_def)

lemma reach_child: "p \<in> reach r \<Longrightarrow> c \<in> set (children p) \<Longrightarrow> c \<in> reach r"
  by (auto simp: reach_def intro: rtrancl_into_rtrancl)

lemma reach_least:
  assumes "r \<in> A" "\<And>p c. p \<in> A \<Longrightarrow> c \<in> set (children p) \<Longrightarrow> c \<in> A"
  shows "reach r \<subseteq> A"
proof
  fix x assume "x \<in> reach r"
  then have "(r, x) \<in> {(p, c). c \<in> set (children p)}\<^sup>*" by (simp add: reach_def)
  then show "x \<in> A" by (induction) (use assms in auto)
qed

lemma reach_subset: "reach r \<subseteq> insert r (\<Union>p. set (children p))"
  by (rule reach_least) auto

lemma finite_reach: "finite (reach r)"
  using finite_children by (intro finite_subset [OF reach_subset]) simp

text \<open>The invariant of the loop: every visited run is collected once and is waiting or expanded.\<close>

definition collecting :: "string \<Rightarrow> (string \<Rightarrow> 'm list) \<Rightarrow> string list \<Rightarrow> string list \<Rightarrow> 'm list \<Rightarrow> bool" where
  "collecting r msgs queue visited acc \<longleftrightarrow>
     r \<in> set visited \<and> distinct visited \<and> set queue \<subseteq> set visited \<and> set visited \<subseteq> reach r
     \<and> (\<forall>p \<in> set visited - set queue. set (children p) \<subseteq> set visited)
     \<and> mset acc = (\<Sum>i \<in> set visited. mset (msgs i))"

lemma visit_children:
  assumes "distinct visited" "mset acc = (\<Sum>i \<in> set visited. mset (msgs i))"
    and "fold (visit_child msgs) cs (visited, queue, acc) = (visited', queue', acc')"
  shows "distinct visited' \<and> mset acc' = (\<Sum>i \<in> set visited'. mset (msgs i))
    \<and> set visited' = set visited \<union> set cs \<and> set queue' = set queue \<union> (set cs - set visited)
    \<and> length queue' + length visited = length queue + length visited'"
  using assms
proof (induction cs arbitrary: visited queue acc)
  case (Cons c cs)
  show ?case
  proof (cases "c \<in> set visited")
    case True
    then show ?thesis using Cons.IH [of visited acc queue] Cons.prems by (auto simp: visit_child_eq)
  next
    case False
    have "fold (visit_child msgs) cs (c # visited, queue @ [c], acc @ msgs c) = (visited', queue', acc')"
      using Cons.prems(3) False by (simp add: visit_child_eq)
    then show ?thesis
      using Cons.IH [of "c # visited" "acc @ msgs c" "queue @ [c]"] Cons.prems(1,2) False
      by (auto simp: add.commute)
  qed
qed simp

lemma collect_loop_correct:
  assumes "collecting r msgs queue visited acc" "card (reach r) - length visited + length queue < n"
  shows "\<exists>ms. collect_loop n children msgs queue visited acc = Some ms \<and> mset ms = (\<Sum>i \<in> reach r. mset (msgs i))"
  using assms
proof (induction n arbitrary: queue visited acc)
  case (Suc n)
  show ?case
  proof (cases queue)
    case Nil
    have "set visited = reach r"
      using Suc.prems(1) reach_least [of r "set visited"] by (auto simp: collecting_def Nil)
    then show ?thesis using Suc.prems(1) by (simp add: Nil collecting_def)
  next
    case (Cons p rest)
    obtain v q a where st: "fold (visit_child msgs) (children p) (visited, rest, acc) = (v, q, a)"
      by (metis prod_cases3)
    have inv: "distinct visited" "mset acc = (\<Sum>i \<in> set visited. mset (msgs i))" "p \<in> set visited"
      "set visited \<subseteq> reach r" "r \<in> set visited" "set rest \<subseteq> set visited"
      "\<forall>x \<in> set visited - set queue. set (children x) \<subseteq> set visited"
      using Suc.prems(1) by (auto simp: collecting_def Cons)
    note vc = visit_children [OF inv(1,2) st]
    have "collecting r msgs q v a"
      unfolding collecting_def using vc inv reach_child [of p r] by (auto simp: Cons)
    moreover have "length v \<le> card (reach r)"
      using calculation card_mono [OF finite_reach, of "set v" r] distinct_card [of v] by (auto simp: collecting_def)
    moreover have "length visited \<le> length v"
      using vc card_mono [of "set v" "set visited"] distinct_card [of v] distinct_card [OF inv(1)] by auto
    ultimately have "\<exists>ms. collect_loop n children msgs q v a = Some ms
        \<and> mset ms = (\<Sum>i \<in> reach r. mset (msgs i))"
      using Suc.prems(2) vc by (intro Suc.IH) (auto simp: Cons)
    then show ?thesis by (simp add: Cons st)
  qed
qed simp

lemma collect_tree:
  assumes "card (reach r) < n"
  shows "\<exists>ms. collect_loop n children msgs [r] [r] (msgs r) = Some ms \<and> mset ms = (\<Sum>i \<in> reach r. mset (msgs i))"
proof (rule collect_loop_correct)
  show "collecting r msgs [r] [r] (msgs r)" by (simp add: collecting_def reach_refl)
  have "card (reach r) > 0" using finite_reach reach_refl by (auto simp: card_gt_0_iff)
  then show "card (reach r) - length [r] + length [r] < n" using assms by simp
qed

end

interpretation run_graph: child_graph "\<lambda>p. map an_ID (sql_Run_ListByParent runs p)" for runs
proof
  have "(\<Union>p. set (map an_ID (sql_Run_ListByParent runs p))) \<subseteq> an_ID ` set runs"
    using child_of_table by force
  then show "finite (\<Union>p. set (map an_ID (sql_Run_ListByParent runs p)))" by (rule finite_subset) simp
qed

text \<open>The runs below a run, itself included, as the listing of children shows them.\<close>

definition run_tree :: "run_table \<Rightarrow> string \<Rightarrow> string set" where
  "run_tree runs r = {(p, c). c \<in> set (map an_ID (sql_Run_ListByParent runs p))}\<^sup>* `` {r}"

lemma run_tree_reach: "run_tree runs r = run_graph.reach runs r"
  by (simp add: run_tree_def run_graph.reach_def)

lemma card_run_tree: "card (run_tree runs r) \<le> Suc (length runs)"
proof -
  have "run_tree runs r \<subseteq> insert r (an_ID ` set runs)"
    using run_graph.reach_subset [of runs r] child_of_table by (fastforce simp: run_tree_reach)
  then have "card (run_tree runs r) \<le> card (insert r (an_ID ` set runs))" by (intro card_mono) auto
  also have "\<dots> \<le> Suc (card (an_ID ` set runs))" by (rule card_insert_le_m1) simp_all
  also have "\<dots> \<le> Suc (length runs)" using card_image_le [of "set runs" an_ID] card_length [of runs] by simp
  finally show ?thesis .
qed

text \<open>
  Collecting the messages of a run terminates on every table of runs, even one whose parents form
  a cycle; the result holds the messages of every run of the tree exactly once, in the order of
  time.
\<close>

theorem run_tree_collected:
  assumes "trim_space runID \<noteq> []"
  shows "\<exists>ms. collectRunTreeMessages (length runs + 2) runs msgs runID = Some ms
    \<and> sorted (map rm_CreatedAt ms)
    \<and> mset ms = (\<Sum>i \<in> run_tree runs runID. mset (sql_Message_ListByRun msgs i))"
proof -
  have "card (run_graph.reach runs runID) < length runs + 2"
    using card_run_tree [of runs runID] by (simp add: run_tree_reach)
  from run_graph.collect_tree [OF this, of "sql_Message_ListByRun msgs"] show ?thesis
    using assms by (auto simp: collectRunTreeMessages_def run_tree_reach sortRunMessages_def)
qed

definition sample_message :: run_message where
  "sample_message = \<lparr>rm_ID = ''m_1'', rm_RunID = ''r_1'', rm_SessionID = ''s_1'', rm_WorkspaceID = ''w_1'',
     rm_Type = EventError, rm_Name = [], rm_ToolCallID = None, rm_Content = ''x'', rm_Success = None,
     rm_Duration = None, rm_CreatedAt = 4\<rparr>"

theorem run_tree_collected_witness:
  "\<exists>ms. collectRunTreeMessages (length sample_runs + 2) sample_runs
       [sample_message, sample_message\<lparr>rm_ID := ''m_2'', rm_RunID := ''d_1'', rm_CreatedAt := 3\<rparr>] ''r_1'' = Some ms
    \<and> sorted (map rm_CreatedAt ms)
    \<and> mset ms = (\<Sum>i \<in> run_tree sample_runs ''r_1''. mset (sql_Message_ListByRun
       [sample_message, sample_message\<lparr>rm_ID := ''m_2'', rm_RunID := ''d_1'', rm_CreatedAt := 3\<rparr>] i))"
  by (rule run_tree_collected) (simp add: trim_eval)

section \<open>Restoring working memory and goals\<close>

text \<open>
  A call of \<open>memory_save_fact\<close> with its key and fact, the events the engine emits for it, and the
  memory after it. The call succeeds unless the tool fails or answers that it did not.
\<close>

definition fact_call ::
  "(payload result \<Rightarrow> string) \<Rightarrow> llm_tool_call \<times> string \<times> string \<Rightarrow> working_memory \<Rightarrow> working_memory \<times> ws_event list" where
  "fact_call fmt call m =
     (case call of (c, key, fct) \<Rightarrow>
        (case SaveMemory_Execute (Some m) True (Inr (key, fct)) of
           (m', evs, r) \<Rightarrow>
             (the m', [tool_call_event c] @ evs @
                [tool_result_event c (fmt r) 0
                   (case r of Inl _ \<Rightarrow> False | Inr p \<Rightarrow> p ''ok'' \<noteq> Some (JBool False))])))"

primrec fact_calls ::
  "(payload result \<Rightarrow> string) \<Rightarrow> (llm_tool_call \<times> string \<times> string) list \<Rightarrow> working_memory \<Rightarrow>
     working_memory \<times> ws_event list" where
  "fact_calls fmt [] m = (m, [])"
| "fact_calls fmt (c # cs) m =
     (let (m1, evs) = fact_call fmt c m; (m2, evs2) = fact_calls fmt cs m1 in (m2, evs @ evs2))"

text \<open>
  What the code relies on of the JSON codec: facts and the arguments of the calls survive it, if
  their texts are valid UTF-8 (\<open>utf8ok\<close>).
\<close>

definition decodes_facts :: "(string \<Rightarrow> bool) \<Rightarrow> restore_codec \<Rightarrow> bool" where
  "decodes_facts utf8ok jc \<longleftrightarrow>
     (\<forall>fs. distinct (map fst fs) \<and> (\<forall>(k, v) \<in> set fs. utf8ok k \<and> utf8ok v) \<longrightarrow>
        (\<exists>fs'. jc_memory jc (jc_marshal jc (JObj [(''facts'', facts_json fs)])) = Some (Some fs')
           \<and> distinct (map fst fs') \<and> map_of fs' = map_of fs))"

definition decodes_call :: "(string \<Rightarrow> bool) \<Rightarrow> restore_codec \<Rightarrow> llm_tool_call \<times> string \<times> string \<Rightarrow> bool" where
  "decodes_call utf8ok jc call \<longleftrightarrow>
     (case call of (c, key, fct) \<Rightarrow>
        tc_Name c = ''memory_save_fact'' \<and> tc_ID c \<noteq> [] \<and> utf8ok key \<and> utf8ok fct
        \<and> jc_fact jc (jc_raw jc (tc_Arguments c)) = Some (key, fct))"

definition restore_all :: "restore_codec \<Rightarrow> run_message list \<Rightarrow> restored \<Rightarrow> restored option" where
  "restore_all jc ms st = fold (\<lambda>m acc. Option.bind acc (restore_step jc m)) ms (Some st)"

text \<open>The events of a run in the order they are stored, the time counting from \<open>k\<close>.\<close>

primrec stored_events ::
  "restore_codec \<Rightarrow> (nat \<Rightarrow> string) \<Rightarrow> string \<Rightarrow> string \<Rightarrow> string \<Rightarrow> nat \<Rightarrow> ws_event list \<Rightarrow> run_message list" where
  "stored_events jc ids w s r k [] = []"
| "stored_events jc ids w s r k (ev # evs) =
     saveEventToDBSync jc (ids k) (int k) w s r ev # stored_events jc ids w s r (Suc k) evs"

lemma stored_events_append:
  "stored_events jc ids w s r k (xs @ ys) = stored_events jc ids w s r k xs @ stored_events jc ids w s r (k + length xs) ys"
  by (induction xs arbitrary: k) auto

lemma restore_all_append:
  "restore_all jc (xs @ ys) st = Option.bind (restore_all jc xs st) (restore_all jc ys)"
proof -
  have none: "fold (\<lambda>m acc. Option.bind acc (restore_step jc m)) ms None = None" for ms by (induction ms) auto
  show ?thesis by (cases "restore_all jc xs st") (simp_all add: restore_all_def none)
qed

lemma restore_all_simps [simp]:
  "restore_all jc [] st = Some st"
  "restore_all jc (m # ms) st = Option.bind (restore_step jc m st) (restore_all jc ms)"
  using restore_all_append [of jc "[m]" ms st] by (simp_all add: restore_all_def)

lemmas event_types =
  EventToolCall_def EventToolResult_def EventStateMemoryUpdated_def EventStateSubgoalsUpdated_def
  EventReportUpdate_def EventReportFinal_def EventStateReportEditUpdated_def EventError_def
  EventRunCompleted_def EventAssistantStatus_def

lemma restore_tool_call:
  "restore_step jc (saveEventToDBSync jc i now w s r (tool_call_event c)) st =
     Some (if tc_ID c \<noteq> [] then st\<lparr>rt_pending := AList.update (tc_ID c) (jc_raw jc (tc_Arguments c)) (rt_pending st)\<rparr>
           else st)"
  by (simp add: restore_step_def saveEventToDBSync_def tool_call_event_def mk_event_def event_types text_of_def
      str_field_def call_id_of_def Let_def)

lemma restore_tool_result:
  assumes "map_of (rt_pending st) (tc_ID c) = Some args" "tc_ID c \<noteq> []"
  shows "restore_step jc (saveEventToDBSync jc i now w s r (tool_result_event c res d ok)) st =
     (let st1 = st\<lparr>rt_pending := AList.delete (tc_ID c) (rt_pending st)\<rparr>
      in if \<not> ok then Some st1
         else if tc_Name c = ''memory_save_fact'' then replay_fact jc args st1
         else if tc_Name c = ''goal_manage'' then Some (replay_goal jc args res st1)
         else Some st1)"
  using assms
  by (simp add: restore_step_def saveEventToDBSync_def tool_result_event_def mk_event_def event_types text_of_def
      str_field_def call_id_of_def Let_def)

lemma restore_memory_event:
  "restore_step jc (saveEventToDBSync jc i now w s r (mk_event EventStateMemoryUpdated d)) st =
     Some (case jc_memory jc (jc_marshal jc d) of Some m \<Rightarrow> st\<lparr>rt_memory := m\<rparr> | None \<Rightarrow> st)"
  by (simp add: restore_step_def saveEventToDBSync_def mk_event_def event_types Let_def)

lemma fact_call_cases:
  assumes "length fct \<le> maxFactLen"
  shows "(\<exists>t. fact_call fmt (c, key, fct) m = (m, [tool_call_event c, tool_result_event c t 0 False]))
    \<or> (\<exists>t fs. key \<noteq> [] \<and> fs = AList.update key fct (Facts m) \<and>
         fact_call fmt (c, key, fct) m = (m\<lparr>Facts := fs\<rparr>, [tool_call_event c,
           mk_event EventStateMemoryUpdated (JObj [(''facts'', facts_json fs)]), tool_result_event c t 0 True]))"
  using assms by (auto simp: fact_call_def SaveMemory_Execute_def SaveFact_def Memory_Snapshot_def Let_def)

text \<open>The restored facts agree with the memory, and its texts are valid.\<close>

definition memory_restored :: "(string \<Rightarrow> bool) \<Rightarrow> working_memory \<Rightarrow> restored \<Rightarrow> bool" where
  "memory_restored utf8ok m st \<longleftrightarrow>
     (\<exists>fs. rt_memory st = Some fs \<and> distinct (map fst fs) \<and> map_of fs = map_of (Facts m)) \<and> rt_snapshot st = None
     \<and> distinct (map fst (Facts m)) \<and> (\<forall>(k, v) \<in> set (Facts m). utf8ok k \<and> utf8ok v)"

lemma fact_call_restored:
  assumes "decodes_facts utf8ok jc" "decodes_call utf8ok jc (c, key, fct)" "length fct \<le> maxFactLen"
    "memory_restored utf8ok m st" "fact_call fmt (c, key, fct) m = (m', evs)"
  shows "\<exists>st'. restore_all jc (stored_events jc ids w s r k evs) st = Some st' \<and> memory_restored utf8ok m' st'"
proof -
  have call: "tc_ID c \<noteq> []" "tc_Name c = ''memory_save_fact''" "utf8ok key" "utf8ok fct"
      "jc_fact jc (jc_raw jc (tc_Arguments c)) = Some (key, fct)"
    using assms(2) by (auto simp: decodes_call_def)
  show ?thesis
    using fact_call_cases [OF assms(3), of fmt c key m]
  proof (elim disjE exE conjE)
    fix t assume "fact_call fmt (c, key, fct) m = (m, [tool_call_event c, tool_result_event c t 0 False])"
    then show ?thesis
      using assms(4,5) call(1)
      by (auto simp: restore_tool_call restore_tool_result [where args = "jc_raw jc (tc_Arguments c)"] update_conv'
          memory_restored_def)
  next
    fix t fs
    assume key: "key \<noteq> []" and fs: "fs = AList.update key fct (Facts m)"
      and ev: "fact_call fmt (c, key, fct) m = (m\<lparr>Facts := fs\<rparr>, [tool_call_event c,
          mk_event EventStateMemoryUpdated (JObj [(''facts'', facts_json fs)]), tool_result_event c t 0 True])"
    have fs_ok: "distinct (map fst fs)" "\<forall>(k, v) \<in> set fs. utf8ok k \<and> utf8ok v"
      using assms(4) call set_update_subset [of key fct "Facts m"]
      by (auto simp: memory_restored_def fs distinct_update)
    then obtain fs' where fs': "jc_memory jc (jc_marshal jc (JObj [(''facts'', facts_json fs)])) = Some (Some fs')"
        "map_of fs' = map_of fs" "distinct (map fst fs')"
      using assms(1) unfolding decodes_facts_def by blast
    have "map_of (AList.update key fct fs') = map_of fs"
      by (simp add: update_conv' fs'(2)) (simp add: fs update_conv')
    then show ?thesis
      using assms(4,5) call key ev fs'(1,3) fs_ok
      by (auto simp: restore_tool_call restore_memory_event replay_fact_def memory_restored_def
          restore_tool_result [where args = "jc_raw jc (tc_Arguments c)"] update_conv' distinct_update)
  qed
qed

lemma fact_calls_restored:
  assumes "decodes_facts utf8ok jc" "\<forall>call \<in> set calls. decodes_call utf8ok jc call \<and> length (snd (snd call)) \<le> maxFactLen"
    "memory_restored utf8ok m st" "fact_calls fmt calls m = (m', evs)"
  shows "\<exists>st'. restore_all jc (stored_events jc ids w s r k evs) st = Some st' \<and> memory_restored utf8ok m' st'"
  using assms(2-)
proof (induction calls arbitrary: m st evs k)
  case (Cons call calls)
  obtain c key fct where call: "call = (c, key, fct)" by (cases call) auto
  obtain m1 e1 where one: "fact_call fmt (c, key, fct) m = (m1, e1)" by fastforce
  obtain m2 e2 where rest: "fact_calls fmt calls m1 = (m2, e2)" by fastforce
  have ev: "m' = m2" "evs = e1 @ e2" using Cons.prems(3) one rest by (auto simp: call Let_def)
  obtain st1 where st1: "restore_all jc (stored_events jc ids w s r k e1) st = Some st1" "memory_restored utf8ok m1 st1"
    using fact_call_restored [OF assms(1) _ _ Cons.prems(2) one, of ids w s r k] Cons.prems(1) by (auto simp: call)
  from Cons.IH [OF _ st1(2), of e2 "k + length e1"] rest Cons.prems(1) ev(1) obtain st' where
    "restore_all jc (stored_events jc ids w s r (k + length e1) e2) st1 = Some st'" "memory_restored utf8ok m' st'"
    by auto
  then show ?case using st1(1) by (simp add: ev(2) stored_events_append restore_all_append)
qed simp

lemma replace_snapshot_map:
  assumes "distinct (map fst fs)"
  shows "map_of (Facts (ReplaceSnapshot m fs)) = map_of fs"
proof -
  have fold: "map_of (fold (\<lambda>(k, v). AList.update k v) fs acc) = map_of acc ++ map_of (rev fs)" for acc
    by (induction fs arbitrary: acc) (auto simp: update_conv' map_add_def split: option.split)
  have "map_of (rev fs) = map_of fs"
    using assms map_of_inject_set [of "rev fs" fs] by (simp add: rev_map [symmetric])
  then show ?thesis by (simp add: ReplaceSnapshot_def fold)
qed

text \<open>
  The facts a run has saved come back: replaying the stored events of any sequence of
  \<open>memory_save_fact\<close> calls, accepted or refused, restores exactly the facts of the working memory,
  provided no fact was longer than the memory keeps.
\<close>

lemma saved_facts_lemma:
  assumes "decodes_facts utf8ok jc" "list_all (decodes_call utf8ok jc) calls"
    "list_all (\<lambda>call. length (snd (snd call)) \<le> maxFactLen) calls"
    "fact_calls fmt calls NewWorkingMemory = (m, evs)"
  shows "\<exists>st fs. deriveRuntimeStateFromMessages jc render (stored_events jc ids w s r 0 evs) = Some st
    \<and> rt_memory st = Some fs \<and> map_of (Facts (ReplaceSnapshot m0 fs)) = map_of (Facts m)"
proof -
  have init: "memory_restored utf8ok NewWorkingMemory nothing_restored"
    by (simp add: memory_restored_def nothing_restored_def NewWorkingMemory_def)
  have calls: "\<forall>call \<in> set calls. decodes_call utf8ok jc call \<and> length (snd (snd call)) \<le> maxFactLen"
    using assms(2,3) by (auto simp: list_all_iff)
  obtain st where st: "restore_all jc (stored_events jc ids w s r 0 evs) nothing_restored = Some st"
      "memory_restored utf8ok m st"
    using fact_calls_restored [OF assms(1) calls init assms(4)] by blast
  then obtain fs where fs: "rt_memory st = Some fs" "map_of fs = map_of (Facts m)" "rt_snapshot st = None"
      "distinct (map fst fs)"
    by (auto simp: memory_restored_def)
  then show ?thesis
    using st(1) replace_snapshot_map [of fs m0]
    by (simp add: deriveRuntimeStateFromMessages_def restore_all_def)
qed

text \<open>A codec to evaluate the statements on: every character is marked, every text closed.\<close>

definition flat :: "string list \<Rightarrow> string" where
  "flat ss = concat (map (\<lambda>s. concat (map (\<lambda>c. [CHR ''x'', c]) s) @ ''y'') ss)"

fun unflat :: "string \<Rightarrow> string list" where
  "unflat [] = []"
| "unflat [a] = [[]]"
| "unflat (a # b # r) =
     (if a = CHR ''y'' then [] # unflat (b # r)
      else (case unflat r of [] \<Rightarrow> [] | s # ss \<Rightarrow> (b # s) # ss))"

fun pairs :: "string list \<Rightarrow> (string \<times> string) list" where
  "pairs (k # v # r) = (k, v) # pairs r"
| "pairs _ = []"

definition sample_marshal :: "json \<Rightarrow> string" where
  "sample_marshal j =
     (case j of
        JObj [(_, JObj kvs)] \<Rightarrow> flat (concat (map (\<lambda>(k, v). [k, (case v of JStr s \<Rightarrow> s | _ \<Rightarrow> [])]) kvs))
      | _ \<Rightarrow> [])"

definition sample_restore_codec :: restore_codec where
  "sample_restore_codec = \<lparr>jc_marshal = sample_marshal, jc_raw = (\<lambda>s. s), jc_memory = (\<lambda>s. Some (Some (pairs (unflat s)))),
     jc_goals = (\<lambda>_. None), jc_report = (\<lambda>_. None), jc_edit = (\<lambda>_. None),
     jc_fact = (\<lambda>s. case pairs (unflat s) of [kv] \<Rightarrow> Some kv | _ \<Rightarrow> None),
     jc_goal = (\<lambda>_. None), jc_goal_id = (\<lambda>_. None)\<rparr>"

lemma unflat_y: "unflat (CHR ''y'' # r) = [] # unflat r"
  by (cases r) auto

lemma unflat_flat: "unflat (flat ss) = ss"
proof (induction ss)
  case (Cons s ss)
  have "unflat (concat (map (\<lambda>c. [CHR ''x'', c]) s) @ CHR ''y'' # flat ss) = s # ss"
    using Cons by (induction s) (simp_all add: unflat_y)
  then show ?case by (simp add: flat_def)
qed (simp add: flat_def)

lemma pairs_concat: "pairs (concat (map (\<lambda>(k, v). [k, v]) fs)) = fs"
  by (induction fs) auto

lemma sample_restore_codec_facts: "decodes_facts (\<lambda>_. True) sample_restore_codec"
proof -
  have "sample_marshal (JObj [(''facts'', facts_json fs)]) = flat (concat (map (\<lambda>(k, v). [k, v]) fs))" for fs
    by (simp add: sample_marshal_def facts_json_def split_def comp_def)
  then show ?thesis by (simp add: decodes_facts_def sample_restore_codec_def unflat_flat pairs_concat)
qed

definition sample_fact_call :: "llm_tool_call \<times> string \<times> string" where
  "sample_fact_call = (\<lparr>tc_ID = ''c1'', tc_Type = ''function'', tc_Name = ''memory_save_fact'', tc_Arguments = flat [''rows'', ''12'']\<rparr>,
     ''rows'', ''12'')"

lemma sample_fact_call_decodes:
  "list_all (decodes_call (\<lambda>_. True) sample_restore_codec) [sample_fact_call]"
  "list_all (\<lambda>call. length (snd (snd call)) \<le> maxFactLen) [sample_fact_call]"
  by (simp_all add: decodes_call_def sample_fact_call_def sample_restore_codec_def unflat_flat maxFactLen_def)

text \<open>
  A fact that was longer than the memory keeps comes back at its full length: the replay of the
  call overwrites the truncated text of the memory's own event.
\<close>

lemma long_fact_restored_untruncated:
  assumes "decodes_facts utf8ok jc" "decodes_call utf8ok jc (c, key, fct)" "maxFactLen < length fct" "key \<noteq> []"
    "utf8ok (take maxFactLen fct)" "fact_call fmt (c, key, fct) NewWorkingMemory = (m, evs)"
  shows "\<exists>st fs. restore_all jc (stored_events jc ids w s r 0 evs) nothing_restored = Some st
    \<and> rt_memory st = Some fs \<and> map_of fs key = Some fct \<and> map_of (Facts m) key = Some (take maxFactLen fct)"
proof -
  have "fct \<noteq> []" using assms(3) by auto
  then have ev: "m = \<lparr>Facts = [(key, take maxFactLen fct)]\<rparr>"
      "\<exists>t. evs = [tool_call_event c, mk_event EventStateMemoryUpdated
         (JObj [(''facts'', facts_json [(key, take maxFactLen fct)])]), tool_result_event c t 0 True]"
    using assms(3,4,6)
    by (auto simp: fact_call_def SaveMemory_Execute_def SaveFact_def Memory_Snapshot_def NewWorkingMemory_def
        maxFacts_def Let_def)
  obtain fs' where "jc_memory jc (jc_marshal jc (JObj [(''facts'', facts_json [(key, take maxFactLen fct)])])) = Some (Some fs')"
    using assms(1) [unfolded decodes_facts_def, rule_format, of "[(key, take maxFactLen fct)]"] assms(2,5)
    by (auto simp: decodes_call_def)
  then show ?thesis
    using ev assms(2,4)
    by (auto simp: restore_tool_call restore_memory_event replay_fact_def decodes_call_def nothing_restored_def
        restore_tool_result [where args = "jc_raw jc (tc_Arguments c)"] update_conv')
qed

text \<open>
  A goal that was just added comes back twice: the event of the goal manager already lists it, and
  the replay of the call adds it again, so that its id is no longer unique.
\<close>

lemma added_goal_restored_twice:
  assumes "AddGoalWithBlocking now uuid goals desc parent blocking = (goals', Inr gid)"
    and "jc_goals jc (jc_marshal jc (ev_data (hd (emitUpdate True goals')))) = Some goals'"
    and "jc_goal jc (jc_raw jc (tc_Arguments c)) = Some \<lparr>ga_action = ''add'', ga_description = desc,
           ga_parent_goal_id = parent, ga_blocking = blocking, ga_goal_id = [], ga_result = []\<rparr>"
    and "jc_goal_id jc result = Some gid" "tc_ID c \<noteq> []" "tc_Name c = ''goal_manage''"
  shows "\<exists>st. restore_all jc (stored_events jc ids w s r 0
        ([tool_call_event c] @ emitUpdate True goals' @ [tool_result_event c result 0 True])) nothing_restored = Some st
    \<and> \<not> distinct (map sg_ID (rt_goals st))"
proof -
  have gid: "gid \<in> sg_ID ` set goals'" "gid \<noteq> []"
    using assms(1) by (auto simp: AddGoalWithBlocking_def Let_def split: if_splits)
  have emit: "emitUpdate True goals' = [mk_event EventStateSubgoalsUpdated (ev_data (hd (emitUpdate True goals')))]"
    by (simp add: emitUpdate_def mk_event_def)
  have "restore_step jc (saveEventToDBSync jc i t w s r (mk_event EventStateSubgoalsUpdated
          (ev_data (hd (emitUpdate True goals'))))) st = Some (st\<lparr>rt_goals := goals'\<rparr>)" for i t st
    using assms(2) by (simp add: restore_step_def saveEventToDBSync_def mk_event_def event_types Let_def)
  then show ?thesis
    using assms(3-) gid
    by (subst emit) (simp add: restore_tool_call replay_goal_def extractGoalIDFromResult_def
        restore_tool_result [where args = "jc_raw jc (tc_Arguments c)"] update_conv' Let_def)
qed

end
