(* ===== verification/Report_Blocks.thy ===== *)
theory Report_Blocks
  imports Report_Scope "HOL-Library.Multiset"
begin

text \<open>
  \<open>server/tools/report_blocks.go\<close> and the tool \<open>report_manage_blocks\<close> of \<open>report_tools.go\<close>: block
  construction, insertion, replacement, removal and reordering under the edit scope of the turn.
  Every operation returns the report state on its error paths too, because the code mutates the
  shared state before some of its checks.
\<close>

section \<open>Parameters, results and errors\<close>

record reportBlockMutationParams =
  bp_Action :: string
  bp_BlockID :: string
  bp_BlockKind :: string
  bp_Title :: string
  bp_Content :: string
  bp_ChartID :: string
  bp_BeforeBlockID :: string
  bp_AfterBlockID :: string
  bp_Sources :: "evidence_ref list"

record reportBlockMutationResult =
  br_Action :: string
  br_BlockID :: string
  br_BlockKind :: string
  br_BlockCount :: int
  br_UISummary :: string

datatype block_error = reportBlockScopeError (be_Action: string) (be_BlockID: string) | PlainBlockError string

type_synonym block_outcome = "(block_error + reportBlockMutationResult) \<times> report_state"

section \<open>Helpers\<close>

definition buildBlockID :: "string \<Rightarrow> nat \<Rightarrow> string" where
  "buildBlockID title defaultIndex =
     (let base = to_lower (trim_space title);
          base = replace_byte (CHR '' '') (CHR ''-'') base;
          base = replace_byte (CHR ''_'') (CHR ''-'') base;
          base = replace_byte (CHR ''/'') (CHR ''-'') base;
          base = replace_byte (CHR 0x5C) (CHR ''-'') base;
          base = trim_byte (CHR ''-'') base
      in if base = [] then ''section-'' @ itoa (int defaultIndex) else base)"

definition resolve_block_id :: "string \<Rightarrow> string \<Rightarrow> string \<Rightarrow> nat \<Rightarrow> string" where
  "resolve_block_id blockID title chartID defaultIndex =
     (if blockID = []
      then if title \<noteq> [] then buildBlockID title defaultIndex
           else if chartID \<noteq> [] then buildBlockID chartID defaultIndex
           else ''block-'' @ itoa (int defaultIndex)
      else blockID)"

definition buildReportBlock ::
  "string \<Rightarrow> string \<Rightarrow> string \<Rightarrow> string \<Rightarrow> string \<Rightarrow> evidence_ref list \<Rightarrow> nat \<Rightarrow> report_block result" where
  "buildReportBlock kind blockID title content chartID sources defaultIndex =
     (let block = \<lparr>rb_ID = resolve_block_id blockID title chartID defaultIndex, rb_Kind = kind,
                   rb_Title = title, rb_Content = content, rb_ChartID = chartID,
                   rb_Sources = sources\<rparr>
      in if kind = ''markdown'' \<or> kind = ''html''
         then if trim_space content = []
              then Inl (''content is required for '' @ kind @ '' block'')
              else Inr block
         else if kind = ''chart''
         then if trim_space chartID = [] then Inl ''chart_id is required for chart block''
              else Inr block
         else Inl (''unsupported block_kind: '' @ kind))"

definition resolveReportBlockInsertIndex ::
  "report_block list \<Rightarrow> string \<Rightarrow> string \<Rightarrow> nat result" where
  "resolveReportBlockInsertIndex blocks beforeBlockID afterBlockID =
     (if beforeBlockID \<noteq> [] \<and> afterBlockID \<noteq> []
      then Inl ''before_block_id and after_block_id cannot both be set''
      else if beforeBlockID \<noteq> []
      then (case findReportBlockIndex blocks beforeBlockID of
              None \<Rightarrow> Inl (''before_block_id '' @ beforeBlockID @ '' not found'')
            | Some i \<Rightarrow> Inr i)
      else if afterBlockID \<noteq> []
      then (case findReportBlockIndex blocks afterBlockID of
              None \<Rightarrow> Inl (''after_block_id '' @ afterBlockID @ '' not found'')
            | Some i \<Rightarrow> Inr (i + 1))
      else Inr (length blocks))"

text \<open>Grow by one, shift the tail right, store: an insertion, with the index clamped.\<close>

definition insertReportBlockAt :: "report_block list \<Rightarrow> report_block \<Rightarrow> nat \<Rightarrow> report_block list" where
  "insertReportBlockAt blocks block index = insert_nth (min index (length blocks)) block blocks"

section \<open>Operations\<close>

definition upsert_with_sources :: "report_state \<Rightarrow> report_block \<Rightarrow> report_block" where
  "upsert_with_sources state block =
     (case findReportBlockIndex (Blocks state) (rb_ID block) of
        None \<Rightarrow> block
      | Some i \<Rightarrow> if rb_Sources block = [] \<and> rb_Sources (Blocks state ! i) \<noteq> []
                  then block\<lparr>rb_Sources := rb_Sources (Blocks state ! i)\<rparr> else block)"

text \<open>The list the new block goes into: the existing block of that name, if any, is gone.\<close>

definition without_block :: "report_state \<Rightarrow> string \<Rightarrow> report_block list" where
  "without_block st x = (case findReportBlockIndex (Blocks st) x of
     None \<Rightarrow> Blocks st | Some i \<Rightarrow> remove_nth i (Blocks st))"

definition upsert_position :: "report_state \<Rightarrow> string \<Rightarrow> reportBlockMutationParams \<Rightarrow> nat result" where
  "upsert_position state x params =
     (let before = trim_space (bp_BeforeBlockID params);
          after = trim_space (bp_AfterBlockID params);
          existing = findReportBlockIndex (Blocks state) x
      in if before = [] \<and> after = [] \<and> existing \<noteq> None then Inr (the existing)
         else resolveReportBlockInsertIndex (without_block state x) before after)"

definition upsertReportBlock ::
  "(string \<Rightarrow> string) \<Rightarrow> report_state \<Rightarrow> report_edit_state option \<Rightarrow> reportBlockMutationParams \<Rightarrow> block_outcome"
  where
  "upsertReportBlock unesc state es params =
     (let kind = (if trim_space (bp_BlockKind params) = [] then ''markdown''
                  else trim_space (bp_BlockKind params))
      in case buildReportBlock kind (bp_BlockID params) (trim_space (bp_Title params))
                (bp_Content params) (trim_space (bp_ChartID params)) (bp_Sources params)
                (length (Blocks state) + 1) of
           Inl err \<Rightarrow> (Inl (PlainBlockError err), state)
         | Inr built \<Rightarrow>
             let existing = findReportBlockIndex (Blocks state) (rb_ID built);
                 block = upsert_with_sources state built
             in if \<not> BlockMutationAllowed es (bp_Action params) (rb_ID block)
                then (Inl (reportBlockScopeError (bp_Action params) (rb_ID block)), state)
                else if \<not> SelectionBlockMutationAllowed unesc es block
                then (Inl (reportBlockScopeError ''partial_selection'' (rb_ID block)), state)
                else
                  let blocks = without_block state (rb_ID block);
                      state1 = state\<lparr>Blocks := blocks\<rparr>;
                      summaryText =
                        (if existing \<noteq> None
                         then ''updated block ['' @ rb_Kind block @ ''] '' @ rb_ID block
                                @ '' in report state; delivery_state=draft''
                         else ''block ['' @ rb_Kind block @ ''] '' @ rb_ID block
                                @ '' written to report state; delivery_state=draft'')
                  in case upsert_position state (rb_ID block) params of
                       Inl err \<Rightarrow> (Inl (PlainBlockError err), state1)
                     | Inr n \<Rightarrow>
                         let state2 = state1\<lparr>Blocks := insertReportBlockAt blocks block n,
                                             NeedsFinalize := True\<rparr>
                         in (Inr \<lparr>br_Action = bp_Action params, br_BlockID = rb_ID block,
                                  br_BlockKind = rb_Kind block,
                                  br_BlockCount = int (length (Blocks state2)),
                                  br_UISummary = summaryText\<rparr>, state2))"

definition removeReportBlock ::
  "report_state \<Rightarrow> report_edit_state option \<Rightarrow> reportBlockMutationParams \<Rightarrow> block_outcome" where
  "removeReportBlock state es params =
     (if \<not> BlockMutationAllowed es (bp_Action params) (bp_BlockID params)
      then (Inl (reportBlockScopeError (bp_Action params) (bp_BlockID params)), state)
      else
        (case findReportBlockIndex (Blocks state) (bp_BlockID params) of
           None \<Rightarrow> (Inl (PlainBlockError (''block_id '' @ bp_BlockID params @ '' not found'')), state)
         | Some i \<Rightarrow>
             let removed = Blocks state ! i;
                 state1 = state\<lparr>Blocks := remove_nth i (Blocks state), NeedsFinalize := True\<rparr>
             in (Inr \<lparr>br_Action = bp_Action params, br_BlockID = bp_BlockID params,
                      br_BlockKind = rb_Kind removed,
                      br_BlockCount = int (length (Blocks state1)),
                      br_UISummary = ''removed block ['' @ rb_Kind removed @ ''] '' @ rb_ID removed
                                       @ '' from report state; delivery_state=draft''\<rparr>, state1)))"

definition moveReportBlock ::
  "report_state \<Rightarrow> report_edit_state option \<Rightarrow> reportBlockMutationParams \<Rightarrow> block_outcome" where
  "moveReportBlock state es params =
     (if \<not> BlockMutationAllowed es (bp_Action params) (bp_BlockID params)
      then (Inl (reportBlockScopeError (bp_Action params) (bp_BlockID params)), state)
      else
        (case findReportBlockIndex (Blocks state) (bp_BlockID params) of
           None \<Rightarrow> (Inl (PlainBlockError (''block_id '' @ bp_BlockID params @ '' not found'')), state)
         | Some i \<Rightarrow>
             let block = Blocks state ! i;
                 blocks = remove_nth i (Blocks state)
             in case resolveReportBlockInsertIndex blocks (trim_space (bp_BeforeBlockID params))
                       (trim_space (bp_AfterBlockID params)) of
                  Inl err \<Rightarrow> (Inl (PlainBlockError err), state)
                | Inr n \<Rightarrow>
                    let state1 = state\<lparr>Blocks := insertReportBlockAt blocks block n,
                                       NeedsFinalize := True\<rparr>
                    in (Inr \<lparr>br_Action = bp_Action params, br_BlockID = bp_BlockID params,
                             br_BlockKind = rb_Kind block,
                             br_BlockCount = int (length (Blocks state1)),
                             br_UISummary = ''reordered block ['' @ rb_Kind block @ ''] ''
                               @ rb_ID block @ '' in report state; delivery_state=draft''\<rparr>,
                        state1)))"

definition applyReportBlockMutation ::
  "(string \<Rightarrow> string) \<Rightarrow> report_state \<Rightarrow> report_edit_state option \<Rightarrow> reportBlockMutationParams \<Rightarrow> block_outcome"
  where
  "applyReportBlockMutation unesc state es params =
     (let action = (if trim_space (bp_Action params) = [] then ''append''
                    else trim_space (bp_Action params));
          blockID = trim_space (bp_BlockID params);
          params' = params\<lparr>bp_Action := action, bp_BlockID := blockID\<rparr>
      in if blockID = [] \<and> action \<noteq> ''append''
         then (Inl (PlainBlockError (''block_id is required for '' @ action @ '' action'')), state)
         else if action = ''append'' \<or> action = ''upsert''
         then upsertReportBlock unesc state es params'
         else if action = ''remove'' then removeReportBlock state es params'
         else if action = ''move'' then moveReportBlock state es params'
         else (Inl (PlainBlockError (''unknown action: '' @ action)), state))"

text \<open>
  The tool: \<open>args\<close> is the outcome of \<open>normalizeStringifiedJSONFields\<close> followed by \<open>json.Unmarshal\<close>.
\<close>

definition ManageReportBlocks_Execute ::
  "(string \<Rightarrow> string) \<Rightarrow> report_edit_state option \<Rightarrow> report_state \<Rightarrow>
   string + reportBlockMutationParams \<Rightarrow> payload result \<times> report_state" where
  "ManageReportBlocks_Execute unesc es state args =
     (case args of
        Inl err \<Rightarrow> (Inl (''failed to parse parameters: '' @ err), state)
      | Inr params \<Rightarrow>
          (case applyReportBlockMutation unesc state es params of
             (Inl (reportBlockScopeError action blockID), state') \<Rightarrow>
               (Inr (reportEditScopeFailure ''report_manage_blocks'' ''block_id'' blockID '' block''
                       (''block '' @ blockID @ '' is outside current partial edit scope'')
                       [''action'' \<mapsto> JStr action] es), state')
           | (Inl (PlainBlockError err), state') \<Rightarrow> (Inl err, state')
           | (Inr res, state') \<Rightarrow>
               (Inr (reportDraftSuccess ''report_manage_blocks'' state'
                       [''action'' \<mapsto> JStr (br_Action res),
                        ''block_id'' \<mapsto> JStr (br_BlockID res),
                        ''block_kind'' \<mapsto> JStr (br_BlockKind res),
                        ''block_count'' \<mapsto> JInt (br_BlockCount res),
                        ''ui_summary'' \<mapsto> JStr (br_UISummary res)]), state')))"

section \<open>Lemmas\<close>

lemma filter_remove_nth: "i < length xs \<Longrightarrow> \<not> P (xs ! i) \<Longrightarrow> filter P (remove_nth i xs) = filter P xs"
  by (metis id_take_nth_drop remove_nth_def filter.simps(2) filter_append)

lemma filter_insert_nth: "\<not> P x \<Longrightarrow> filter P (insert_nth i x xs) = filter P xs"
  by (metis append_take_drop_id insert_nth_def filter.simps(2) filter_append)

lemma mset_insert_nth [simp]: "mset (insert_nth i x xs) = add_mset x (mset xs)"
  by (metis append_take_drop_id insert_nth_def mset.simps(2) mset_append union_mset_add_mset_right)

lemma mset_remove_nth: "i < length xs \<Longrightarrow> add_mset (xs ! i) (mset (remove_nth i xs)) = mset xs"
  by (metis id_take_nth_drop remove_nth_def mset.simps(2) mset_append union_mset_add_mset_right)

lemma find_block_Some:
  "findReportBlockIndex bs x = Some i \<Longrightarrow> i < length bs \<and> rb_ID (bs ! i) = x"
  unfolding findReportBlockIndex_def by (drule find_index_Some) simp

lemma find_block_None: "findReportBlockIndex bs x = None \<longleftrightarrow> x \<notin> rb_ID ` set bs"
  by (auto simp: findReportBlockIndex_def find_index_None)

lemma upsert_with_sources_fields [simp]:
  "rb_ID (upsert_with_sources st b) = rb_ID b" "rb_Kind (upsert_with_sources st b) = rb_Kind b"
  "rb_Content (upsert_with_sources st b) = rb_Content b"
  "rb_Title (upsert_with_sources st b) = rb_Title b"
  "rb_ChartID (upsert_with_sources st b) = rb_ChartID b"
  by (auto simp: upsert_with_sources_def split: option.split)

text \<open>A block that the renderer knows how to show, under a name.\<close>

definition block_ok :: "report_block \<Rightarrow> bool" where
  "block_ok b \<longleftrightarrow> rb_ID b \<noteq> [] \<and>
     ((rb_Kind b = ''markdown'' \<or> rb_Kind b = ''html'') \<and> trim_space (rb_Content b) \<noteq> []
      \<or> rb_Kind b = ''chart'' \<and> trim_space (rb_ChartID b) \<noteq> [])"

definition blocks_inv :: "report_state \<Rightarrow> bool" where
  "blocks_inv st \<longleftrightarrow> distinct (map rb_ID (Blocks st)) \<and> list_all block_ok (Blocks st)"

lemma buildBlockID_nonempty: "buildBlockID title n \<noteq> []"
  by (simp add: buildBlockID_def Let_def)

lemma resolve_block_id_nonempty: "resolve_block_id b t c n \<noteq> []"
  by (simp add: resolve_block_id_def buildBlockID_nonempty)

lemma buildReportBlock_ok:
  "buildReportBlock k i t c ch s n = Inr b \<Longrightarrow> block_ok b \<and> rb_ID b = resolve_block_id i t ch n"
  by (auto simp: buildReportBlock_def Let_def block_ok_def resolve_block_id_nonempty
      split: if_splits)

lemma block_ok_sources [simp]: "block_ok (upsert_with_sources st b) = block_ok b"
  by (simp add: block_ok_def)

lemma list_all_remove_nth: "list_all P xs \<Longrightarrow> list_all P (remove_nth i xs)"
  by (auto simp: list_all_iff dest: subsetD [OF set_remove_nth_subset])

lemma list_all_insert_nth [simp]: "list_all P (insert_nth i x xs) \<longleftrightarrow> P x \<and> list_all P xs"
  by (simp add: list_all_iff)

text \<open>The two surgeries every operation is made of.\<close>

lemma blocks_inv_cut: "blocks_inv st \<Longrightarrow> blocks_inv (st\<lparr>Blocks := remove_nth i (Blocks st), NeedsFinalize := n\<rparr>)"
  by (simp add: blocks_inv_def map_remove_nth distinct_remove_nth list_all_remove_nth)

lemma ids_after_cut:
  assumes "blocks_inv st" "findReportBlockIndex (Blocks st) x = Some i"
  shows "x \<notin> rb_ID ` set (remove_nth i (Blocks st))"
proof -
  have "rb_ID ` set (remove_nth i (Blocks st)) = set (remove_nth i (map rb_ID (Blocks st)))"
    by (simp flip: map_remove_nth)
  then show ?thesis
    using assms find_block_Some [OF assms(2)] by (simp add: set_remove_nth blocks_inv_def)
qed

lemma blocks_inv_insert:
  assumes "distinct (map rb_ID bs)" "list_all block_ok bs" "block_ok b" "rb_ID b \<notin> rb_ID ` set bs"
  shows "blocks_inv (st\<lparr>Blocks := insertReportBlockAt bs b n, NeedsFinalize := m\<rparr>)"
  using assms by (simp add: blocks_inv_def insertReportBlockAt_def map_insert_nth distinct_insert_nth)

lemmas block_ops = upsertReportBlock_def removeReportBlock_def moveReportBlock_def

lemma without_block_inv:
  assumes "blocks_inv st"
  shows "distinct (map rb_ID (without_block st x)) \<and> list_all block_ok (without_block st x)
    \<and> x \<notin> rb_ID ` set (without_block st x)"
proof (cases "findReportBlockIndex (Blocks st) x")
  case None
  then show ?thesis using assms find_block_None [of "Blocks st" x] by (simp add: without_block_def blocks_inv_def)
next
  case (Some i)
  then show ?thesis
    using assms blocks_inv_cut [OF assms, where i = i and n = False] ids_after_cut [OF assms Some]
    by (auto simp: without_block_def blocks_inv_def)
qed

lemma without_block_others:
  "(\<And>b. rb_ID b = x \<Longrightarrow> \<not> P b) \<Longrightarrow> filter P (without_block st x) = filter P (Blocks st)"
  by (auto simp: without_block_def filter_remove_nth dest: find_block_Some split: option.split)

text \<open>
  What an upsert does, in one statement: an untouched state, the error path that has already
  cut the old block out, or the block stored at some place among the others.
\<close>

lemma upsert_cases:
  assumes "upsertReportBlock unesc st es p = (out, st')"
  obtains (refused) e where "out = Inl e" "st' = st"
  | (lost) b e where "out = Inl (PlainBlockError e)" "st' = st\<lparr>Blocks := without_block st (rb_ID b)\<rparr>"
      "block_ok b" "rb_ID b = resolve_block_id (bp_BlockID p) (trim_space (bp_Title p))
         (trim_space (bp_ChartID p)) (length (Blocks st) + 1)"
      "BlockMutationAllowed es (bp_Action p) (rb_ID b)"
      "trim_space (bp_BeforeBlockID p) \<noteq> [] \<or> trim_space (bp_AfterBlockID p) \<noteq> []"
  | (stored) b n r where "out = Inr r" "br_BlockID r = rb_ID b"
      "st' = st\<lparr>Blocks := insertReportBlockAt (without_block st (rb_ID b)) b n, NeedsFinalize := True\<rparr>"
      "block_ok b" "rb_ID b = resolve_block_id (bp_BlockID p) (trim_space (bp_Title p))
         (trim_space (bp_ChartID p)) (length (Blocks st) + 1)"
      "BlockMutationAllowed es (bp_Action p) (rb_ID b)" "SelectionBlockMutationAllowed unesc es b"
      "rb_Content b = bp_Content p" "rb_Title b = trim_space (bp_Title p)"
      "br_BlockCount r = int (length (Blocks st'))"
proof -
  let ?kind = "if trim_space (bp_BlockKind p) = [] then ''markdown'' else trim_space (bp_BlockKind p)"
  show thesis
  proof (cases "buildReportBlock ?kind (bp_BlockID p) (trim_space (bp_Title p))
                (bp_Content p) (trim_space (bp_ChartID p)) (bp_Sources p) (length (Blocks st) + 1)")
    case (Inl e)
    then show thesis using assms by (intro refused) (auto simp: upsertReportBlock_def Let_def)
  next
    case built: (Inr b0)
    let ?b = "upsert_with_sources st b0"
    let ?bs = "without_block st (rb_ID b0)"
    have b0: "block_ok b0" "rb_ID b0 = resolve_block_id (bp_BlockID p) (trim_space (bp_Title p))
         (trim_space (bp_ChartID p)) (length (Blocks st) + 1)"
      using buildReportBlock_ok [OF built] by auto
    have f: "rb_Content b0 = bp_Content p" "rb_Title b0 = trim_space (bp_Title p)"
      using built by (auto simp: buildReportBlock_def Let_def split: if_splits)
    show thesis
    proof (cases "BlockMutationAllowed es (bp_Action p) (rb_ID b0) \<and> SelectionBlockMutationAllowed unesc es ?b")
      case False
      then show thesis using assms built refused by (auto simp: upsertReportBlock_def Let_def split: if_splits)
    next
      case True
      show thesis
      proof (cases "upsert_position st (rb_ID b0) p")
        case (Inl e)
        then show thesis using assms built True b0
          by (intro lost [of e b0])
            (auto simp: upsertReportBlock_def Let_def upsert_position_def resolveReportBlockInsertIndex_def
              split: if_splits)
      next
        case (Inr n)
        have "\<exists>r. out = Inr r \<and> br_BlockID r = rb_ID b0 \<and> br_BlockCount r = int (length (Blocks st'))
          \<and> st' = st\<lparr>Blocks := insertReportBlockAt ?bs ?b n, NeedsFinalize := True\<rparr>"
          using assms built True Inr
          by (simp add: upsertReportBlock_def Let_def) fastforce
        then show thesis using True b0 f by (elim exE conjE, intro stored [of _ ?b n]) simp_all
      qed
    qed
  qed
qed

lemma upsert_inv:
  assumes "blocks_inv st" "upsertReportBlock unesc st es p = (out, st')"
  shows "blocks_inv st'"
  using assms(2)
proof (cases rule: upsert_cases)
  case (lost b e)
  then show ?thesis using without_block_inv [OF assms(1), of "rb_ID b"] by (simp add: blocks_inv_def)
next
  case (stored b n r)
  show ?thesis
    unfolding stored(3)
    using without_block_inv [OF assms(1), of "rb_ID b"] stored(4) by (blast intro: blocks_inv_insert)
qed (simp add: assms)

lemma remove_inv: "blocks_inv st \<Longrightarrow> blocks_inv (snd (removeReportBlock st es p))"
  by (simp add: removeReportBlock_def Let_def blocks_inv_cut split: option.split)

text \<open>A move that succeeds is one cut and one insertion of the same block.\<close>

lemma move_cases:
  assumes "moveReportBlock st es p = (out, st')"
  obtains (refused) e where "out = Inl e" "st' = st"
  | (moved) i n r where "out = Inr r" "findReportBlockIndex (Blocks st) (bp_BlockID p) = Some i"
      "BlockMutationAllowed es (bp_Action p) (bp_BlockID p)"
      "st' = st\<lparr>Blocks := insertReportBlockAt (remove_nth i (Blocks st)) (Blocks st ! i) n,
                NeedsFinalize := True\<rparr>"
proof (cases "BlockMutationAllowed es (bp_Action p) (bp_BlockID p)
       \<and> findReportBlockIndex (Blocks st) (bp_BlockID p) \<noteq> None")
  case False
  then show thesis using assms refused by (auto simp: moveReportBlock_def split: if_splits)
next
  case True
  then obtain i where i: "findReportBlockIndex (Blocks st) (bp_BlockID p) = Some i" by blast
  show thesis
    using assms True i refused moved [OF _ i]
    by (cases "resolveReportBlockInsertIndex (remove_nth i (Blocks st))
          (trim_space (bp_BeforeBlockID p)) (trim_space (bp_AfterBlockID p))")
      (auto simp: moveReportBlock_def Let_def)
qed

lemma move_inv:
  assumes "blocks_inv st" "moveReportBlock st es p = (out, st')"
  shows "blocks_inv st'"
  using assms(2)
proof (cases rule: move_cases)
  case (moved i n r)
  then have "block_ok (Blocks st ! i)"
    using assms(1) find_block_Some [OF moved(2)] by (simp add: blocks_inv_def list_all_length)
  then show ?thesis
    unfolding moved(4)
    using find_block_Some [OF moved(2)] without_block_inv [OF assms(1), of "bp_BlockID p"] moved(2)
    by (intro blocks_inv_insert) (simp_all add: without_block_def)
qed (simp add: assms)

lemma snd_if: "P (snd x) \<Longrightarrow> P (snd y) \<Longrightarrow> P (snd (if b then x else y))"
  by simp

lemma apply_inv: "blocks_inv st \<Longrightarrow> blocks_inv (snd (applyReportBlockMutation unesc st es p))"
proof -
  assume i: "blocks_inv st"
  have "blocks_inv (snd (upsertReportBlock unesc st es q))" "blocks_inv (snd (moveReportBlock st es q))"
    "blocks_inv (snd (removeReportBlock st es q))" for q
    using upsert_inv [OF i prod.collapse [symmetric]] move_inv [OF i prod.collapse [symmetric]] remove_inv [OF i] by blast+
  then show ?thesis unfolding applyReportBlockMutation_def Let_def
    by (intro snd_if [of blocks_inv]) (simp_all add: i)
qed

text \<open>Blocks other than the one named by the operation keep their content and their order.\<close>

lemma upsert_others:
  assumes "upsertReportBlock unesc st es p = (out, st')"
    and "\<And>b :: report_block. BlockMutationAllowed es (bp_Action p) (rb_ID b) \<Longrightarrow>
           rb_ID b = resolve_block_id (bp_BlockID p) (trim_space (bp_Title p))
             (trim_space (bp_ChartID p)) (length (Blocks st) + 1) \<Longrightarrow> rb_ID b = x"
  shows "filter (\<lambda>b. rb_ID b \<noteq> x) (Blocks st') = filter (\<lambda>b. rb_ID b \<noteq> x) (Blocks st)"
  using assms(1)
proof (cases rule: upsert_cases)
  case (lost b e)
  then show ?thesis using assms(2) [of b] by (simp add: without_block_others)
next
  case (stored b n r)
  then show ?thesis
    using assms(2) [of b] by (simp add: insertReportBlockAt_def filter_insert_nth without_block_others)
qed simp

lemma remove_others:
  "filter (\<lambda>b. rb_ID b \<noteq> bp_BlockID p) (Blocks (snd (removeReportBlock st es p)))
     = filter (\<lambda>b. rb_ID b \<noteq> bp_BlockID p) (Blocks st)"
  by (auto simp: removeReportBlock_def Let_def filter_remove_nth split: option.split
      dest: find_block_Some)

lemma move_others:
  assumes "moveReportBlock st es p = (out, st')"
  shows "filter (\<lambda>b. rb_ID b \<noteq> bp_BlockID p) (Blocks st') = filter (\<lambda>b. rb_ID b \<noteq> bp_BlockID p) (Blocks st)"
  using assms
  by (cases rule: move_cases)
    (auto simp: insertReportBlockAt_def filter_insert_nth filter_remove_nth dest: find_block_Some)

text \<open>A scope that preserves other blocks lets one action through: the upsert of its target.\<close>

lemma guarded_block_action:
  assumes "modeLocked s \<noteq> []" "es_PreserveOtherBlocks s"
    and "BlockMutationAllowed (Some s) action x"
  shows "to_lower (trim_space action) = ''upsert'' \<and> trim_space x = trim_space (es_TargetBlockID s)"
  using assms by (auto simp: BlockMutationAllowed_def Let_def split: if_splits)

lemma blocks_inv_empty: "blocks_inv empty_report"
  by (simp add: blocks_inv_def empty_report_def)

definition block_step ::
  "(string \<Rightarrow> string) \<Rightarrow> report_state \<Rightarrow> report_edit_state option \<times> (string + reportBlockMutationParams) \<Rightarrow> report_state"
  where "block_step unesc st op = snd (ManageReportBlocks_Execute unesc (fst op) st (snd op))"

lemma execute_state:
  "snd (ManageReportBlocks_Execute unesc es st args) =
     (case args of Inl _ \<Rightarrow> st | Inr p \<Rightarrow> snd (applyReportBlockMutation unesc st es p))"
  by (auto simp: ManageReportBlocks_Execute_def split: sum.split prod.split block_error.split)

lemma block_step_inv: "blocks_inv st \<Longrightarrow> blocks_inv (block_step unesc st op)"
  by (simp add: block_step_def execute_state apply_inv split: sum.split)

interpretation block_machine: machine "block_step unesc" "\<lambda>st. st = empty_report" blocks_inv for unesc
  by unfold_locales (simp_all add: block_step_inv blocks_inv_empty)

lemma move_permutes:
  assumes "moveReportBlock st es p = (out, st')"
  shows "mset (Blocks st') = mset (Blocks st)"
  using assms
  by (cases rule: move_cases)
    (auto simp: insertReportBlockAt_def mset_remove_nth dest: find_block_Some)

lemma draft_after_upsert:
  assumes "upsertReportBlock unesc st es p = (Inr r, st')"
  shows "NeedsFinalize st' \<and> Blocks st' \<noteq> []
    \<and> (\<exists>b \<in> set (Blocks st'). rb_ID b = br_BlockID r \<and> rb_Content b = bp_Content p
                \<and> rb_Title b = trim_space (bp_Title p))"
  using assms
proof (cases rule: upsert_cases)
  case (stored b n r')
  then have "b \<in> set (Blocks st')" by (simp add: insertReportBlockAt_def)
  with stored show ?thesis by force
qed simp_all

lemmas eval_blocks =
  applyReportBlockMutation_def upsertReportBlock_def removeReportBlock_def buildReportBlock_def
  resolve_block_id_def upsert_position_def upsert_with_sources_def without_block_def
  findReportBlockIndex_def resolveReportBlockInsertIndex_def insertReportBlockAt_def
  BlockMutationAllowed_def SelectionBlockMutationAllowed_def SelectionMutationAllowed_def Let_def
  remove_nth_def insert_nth_def trim_eval empty_report_def itoa_def itoa_nat.simps

definition sample_params :: "string \<Rightarrow> string \<Rightarrow> string \<Rightarrow> string \<Rightarrow> reportBlockMutationParams" where
  "sample_params action i content before =
     \<lparr>bp_Action = action, bp_BlockID = i, bp_BlockKind = [], bp_Title = [], bp_Content = content,
      bp_ChartID = [], bp_BeforeBlockID = before, bp_AfterBlockID = [], bp_Sources = []\<rparr>"

definition sample_block :: "string \<Rightarrow> string \<Rightarrow> report_block" where
  "sample_block i c = \<lparr>rb_ID = i, rb_Kind = ''markdown'', rb_Title = [], rb_Content = c,
     rb_ChartID = [], rb_Sources = []\<rparr>"

section \<open>Properties\<close>

text \<open>
  Whatever sequence of \<open>report_manage_blocks\<close> calls an agent makes, under whatever edit
  scopes, successful or refused: the blocks of the report have pairwise distinct, nonempty names
  and each is a Markdown or HTML block with content or a chart block naming a chart.
\<close>

theorem blocks_always_well_formed:
  "blocks_inv (foldl (block_step unesc) empty_report ops)"
  by (rule block_machine.inv_run) simp


definition sample_target :: report_edit_state where
  "sample_target = empty_edit\<lparr>es_Mode := ''revise_block'', es_TargetBlockID := ''b'',
     es_PreserveOtherBlocks := True\<rparr>"


text \<open>
  A successful upsert puts the new content and title in the block it answers with, marks the
  report as a draft that needs finalizing, and adds a block exactly when the name was not in use.
\<close>

theorem upsert_stores_block:
  assumes "blocks_inv st" and "upsertReportBlock unesc st es p = (Inr r, st')"
  shows "NeedsFinalize st' \<and> (\<exists>!b. b \<in> set (Blocks st') \<and> rb_ID b = br_BlockID r)
    \<and> (\<exists>b \<in> set (Blocks st'). rb_ID b = br_BlockID r \<and> rb_Content b = bp_Content p
          \<and> rb_Title b = trim_space (bp_Title p))
    \<and> length (Blocks st') =
        length (Blocks st) + (if br_BlockID r \<in> rb_ID ` set (Blocks st) then 0 else 1)
    \<and> br_BlockCount r = int (length (Blocks st'))"
proof -
  have inv: "blocks_inv st'" by (rule upsert_inv [OF assms])
  have d: "NeedsFinalize st'"
    "\<exists>b \<in> set (Blocks st'). rb_ID b = br_BlockID r \<and> rb_Content b = bp_Content p
       \<and> rb_Title b = trim_space (bp_Title p)"
    using draft_after_upsert [OF assms(2)] by auto
  have u: "b = b'" if "b \<in> set (Blocks st')" "b' \<in> set (Blocks st')" "rb_ID b = rb_ID b'" for b b'
    using inv that by (auto simp: blocks_inv_def distinct_map inj_on_def)
  have len: "length (Blocks st') =
      length (Blocks st) + (if br_BlockID r \<in> rb_ID ` set (Blocks st) then 0 else 1)
    \<and> br_BlockCount r = int (length (Blocks st'))"
    using assms(2)
  proof (cases rule: upsert_cases)
    case (stored b n r')
    have "length (without_block st (rb_ID b)) =
        length (Blocks st) - (if rb_ID b \<in> rb_ID ` set (Blocks st) then 1 else 0)"
      using find_block_None [of "Blocks st" "rb_ID b"]
      by (auto simp: without_block_def dest: find_block_Some split: option.split)
    with stored show ?thesis
      by (cases "Blocks st") (auto simp: insertReportBlockAt_def)
  qed simp_all
  from d(2) u have "\<exists>!b. b \<in> set (Blocks st') \<and> rb_ID b = br_BlockID r" by metis
  with d len show ?thesis by blast
qed

theorem upsert_stores_block_witness:
  "\<exists>r st'. upsertReportBlock (\<lambda>x. x) empty_report None (sample_params ''append'' [] ''hi'' []) = (Inr r, st')
     \<and> NeedsFinalize st' \<and> length (Blocks st') = 1"
proof -
  obtain r st' where e:
    "upsertReportBlock (\<lambda>x. x) empty_report None (sample_params ''append'' [] ''hi'' []) = (Inr r, st')"
    by (simp add: eval_blocks sample_params_def)
  from upsert_stores_block [OF blocks_inv_empty e] e show ?thesis
    by (auto simp: empty_report_def)
qed

text \<open>
  A move, refused or not, only reorders: the report holds the same blocks with the same
  multiplicities.
\<close>

theorem move_only_reorders:
  "mset (Blocks (snd (moveReportBlock st es p))) = mset (Blocks st)"
  by (rule move_permutes [OF prod.collapse [symmetric]])

text \<open>
  An upsert whose \<open>before_block_id\<close> does not exist answers with an error, and the block it was
  to update is gone from the report, which is not even marked as changed.
\<close>

theorem failed_upsert_loses_block:
  "\<exists>st p e st'. blocks_inv st \<and> length (Blocks st) = 1
     \<and> applyReportBlockMutation (\<lambda>x. x) st None p = (Inl (PlainBlockError e), st')
     \<and> Blocks st' = [] \<and> NeedsFinalize st' = NeedsFinalize st"
  by (intro exI [of _ "empty_report\<lparr>Blocks := [sample_block ''a'' ''x'']\<rparr>"]
      exI [of _ "sample_params ''upsert'' ''a'' ''new'' ''zz''"])
    (simp add: eval_blocks sample_params_def sample_block_def blocks_inv_def block_ok_def)

text \<open>
  An append without a name takes \<open>block-<n>\<close> with \<open>n\<close> one more than the number of blocks, which
  can be the name of a block still present: two appends, the removal of the first block and
  a third append leave one block, the second append's content overwritten.
\<close>

theorem append_overwrites_after_removal:
  "map rb_Content (Blocks (foldl (block_step (\<lambda>x. x)) empty_report
     [(None, Inr (sample_params ''append'' [] ''one'' [])),
      (None, Inr (sample_params ''append'' [] ''two'' [])),
      (None, Inr (sample_params ''remove'' ''block-1'' [] [])),
      (None, Inr (sample_params ''append'' [] ''three'' []))])) = [''three'']"
proof -
  let ?s = "\<lambda>bs. empty_report\<lparr>Blocks := bs, NeedsFinalize := True\<rparr>"
  let ?b1 = "sample_block ''block-1'' ''one''" and ?b2 = "sample_block ''block-2''"
  let ?step = "block_step (\<lambda>x. x)"
  note ev = block_step_def execute_state eval_blocks sample_params_def sample_block_def
  have "?step empty_report (None, Inr (sample_params ''append'' [] ''one'' [])) = ?s [?b1]"
    by (simp add: ev)
  moreover have "?step (?s [?b1]) (None, Inr (sample_params ''append'' [] ''two'' [])) = ?s [?b1, ?b2 ''two'']"
    by (simp add: ev)
  moreover have "?step (?s [?b1, ?b2 ''two'']) (None, Inr (sample_params ''remove'' ''block-1'' [] [])) = ?s [?b2 ''two'']"
    by (simp add: ev)
  moreover have "?step (?s [?b2 ''two'']) (None, Inr (sample_params ''append'' [] ''three'' [])) = ?s [?b2 ''three'']"
    by (simp add: ev)
  ultimately show ?thesis by (simp add: sample_block_def)
qed

end
