(* ===== verification/Report_Charts.thy ===== *)
theory Report_Charts
  imports Report_Blocks
begin

text \<open>
  \<open>server/tools/chart.go\<close> and \<open>report_charts.go\<close>: the chart DSL that builds an ECharts option and the
  tool \<open>report_create_chart\<close> that stores a chart in the report. A \<open>float64\<close> decoded from JSON
  is finite and modelled by a rational; object members are listed in the key order in which
  \<open>json.Marshal\<close> writes them, and marshalling itself (which cannot fail on such values) is left
  out: a built option is the JSON value.
\<close>

section \<open>Parameters\<close>

record chartSeriesInput =
  cs_Name :: string
  cs_Type :: string
  cs_Data :: "rat list"
  cs_YAxis :: string
  cs_Smooth :: bool
  cs_Color :: string
  cs_Stack :: string

record chartValueInput =
  cv_Name :: string
  cv_Value :: rat
  cv_Color :: string

record createChartParams =
  cp_ChartID :: string
  cp_Title :: string
  cp_Option :: string
  cp_ChartType :: string
  cp_Categories :: "string list"
  cp_Series :: "chartSeriesInput list"
  cp_Values :: "chartValueInput list"
  cp_Legend :: "string list"
  cp_XAxisName :: string
  cp_YAxisName :: string
  cp_Y2AxisName :: string

section \<open>The option DSL\<close>

definition firstNonEmptySeriesType :: "chartSeriesInput list \<Rightarrow> string \<Rightarrow> string" where
  "firstNonEmptySeriesType series defaultType =
     (case find (\<lambda>t. t \<noteq> []) (map (\<lambda>item. to_lower (trim_space (cs_Type item))) series) of
        Some t \<Rightarrow> t
      | None \<Rightarrow> defaultType)"

definition appendIfMissing :: "string list \<Rightarrow> string \<Rightarrow> string list" where
  "appendIfMissing items value =
     (let v = trim_space value
      in if v = [] then items else if v \<in> set items then items else items @ [v])"

text \<open>A Go slice that was never appended to is nil and prints as \<open>null\<close>.\<close>

definition string_slice :: "string list \<Rightarrow> json" where
  "string_slice xs = (if xs = [] then JNull else JArr (map JStr xs))"

definition series_type :: "string \<Rightarrow> chartSeriesInput \<Rightarrow> string" where
  "series_type defaultType item =
     (let t = to_lower (trim_space (cs_Type item)) in if t = [] then defaultType else t)"

definition series_name :: "createChartParams \<Rightarrow> nat \<Rightarrow> chartSeriesInput \<Rightarrow> string" where
  "series_name params i item =
     (let name = trim_space (cs_Name item)
      in if name \<noteq> [] then name
         else if length (cp_Series params) = 1 then cp_Title params
         else ''series_'' @ itoa (int i + 1))"

definition right_axis :: "chartSeriesInput \<Rightarrow> bool" where
  "right_axis item \<longleftrightarrow> equal_fold (cs_YAxis item) ''right''"

definition series_item :: "string \<Rightarrow> createChartParams \<Rightarrow> nat \<Rightarrow> chartSeriesInput \<Rightarrow> json" where
  "series_item defaultType params i item =
     JObj ([(''data'', JArr (map JNum (cs_Data item)))]
       @ (if trim_space (cs_Color item) \<noteq> []
          then [(''itemStyle'', JObj [(''color'', JStr (trim_space (cs_Color item)))])] else [])
       @ [(''name'', JStr (series_name params i item))]
       @ (if cs_Smooth item then [(''smooth'', JBool True)] else [])
       @ (if trim_space (cs_Stack item) \<noteq> [] then [(''stack'', JStr (trim_space (cs_Stack item)))]
          else [])
       @ [(''type'', JStr (series_type defaultType item))]
       @ (if right_axis item then [(''yAxisIndex'', JInt 1)] else []))"

text \<open>The loop over the series: the error of the first bad one, or legend, right axis, items.\<close>

fun axis_series ::
  "string \<Rightarrow> createChartParams \<Rightarrow> nat \<Rightarrow> string list \<Rightarrow> bool \<Rightarrow> json list \<Rightarrow> chartSeriesInput list \<Rightarrow>
   (string list \<times> bool \<times> json list) result" where
  "axis_series defaultType params i legend hasRight acc [] = Inr (legend, hasRight, acc)"
| "axis_series defaultType params i legend hasRight acc (item # items) =
     (if cs_Data item = []
      then Inl (''series['' @ itoa (int i) @ ''].data cannot be empty'')
      else if length (cs_Data item) \<noteq> length (cp_Categories params)
      then Inl (''series['' @ itoa (int i) @ ''].data length must match categories'')
      else if series_type defaultType item \<noteq> ''bar'' \<and> series_type defaultType item \<noteq> ''line''
      then Inl (''series['' @ itoa (int i) @ ''].type only supports bar or line'')
      else axis_series defaultType params (i + 1)
             (appendIfMissing legend (series_name params i item)) (hasRight \<or> right_axis item)
             (acc @ [series_item defaultType params i item]) items)"

definition title_json :: "string \<Rightarrow> json" where
  "title_json title =
     JObj [(''left'', JStr ''center''), (''text'', JStr title),
           (''textStyle'', JObj [(''color'', JStr ''#374151''), (''fontSize'', JInt 18),
                                 (''fontWeight'', JInt 700)]),
           (''top'', JInt 8)]"

definition legend_json :: "string list \<Rightarrow> json" where
  "legend_json legend =
     JObj [(''data'', string_slice legend), (''left'', JStr ''center''), (''top'', JInt 42),
           (''type'', JStr ''scroll'')]"

definition axis_json :: "string \<Rightarrow> json" where
  "axis_json name = JObj [(''name'', JStr name), (''type'', JStr ''value'')]"

definition right_axis_name :: "createChartParams \<Rightarrow> string" where
  "right_axis_name params =
     (if trim_space (cp_Y2AxisName params) = [] then ''right_axis''
      else trim_space (cp_Y2AxisName params))"

definition buildAxisChartOption :: "createChartParams \<Rightarrow> string \<Rightarrow> json result" where
  "buildAxisChartOption params defaultType =
     (if cp_Categories params = [] then Inl ''bar/line charts require categories''
      else if cp_Series params = [] then Inl ''bar/line charts require series''
      else
        (case axis_series defaultType params 0 (cp_Legend params) False [] (cp_Series params) of
           Inl err \<Rightarrow> Inl err
         | Inr (legend, hasRightAxis, series) \<Rightarrow>
             Inr (JObj
               [(''grid'', JObj [(''bottom'', JStr ''8%''), (''containLabel'', JBool True),
                                 (''left'', JStr ''7%''), (''right'', JStr ''7%''),
                                 (''top'', JInt 88)]),
                (''legend'', legend_json legend),
                (''series'', JArr series),
                (''title'', title_json (cp_Title params)),
                (''tooltip'', JObj [(''trigger'', JStr ''axis'')]),
                (''xAxis'', JObj [(''data'', JArr (map JStr (cp_Categories params))),
                                  (''name'', JStr (trim_space (cp_XAxisName params))),
                                  (''type'', JStr ''category'')]),
                (''yAxis'', JArr (axis_json (trim_space (cp_YAxisName params))
                   # (if hasRightAxis then [axis_json (right_axis_name params)] else [])))])))"

fun pie_entries ::
  "nat \<Rightarrow> string list \<Rightarrow> json list \<Rightarrow> chartValueInput list \<Rightarrow> (string list \<times> json list) result" where
  "pie_entries i legend acc [] = Inr (legend, acc)"
| "pie_entries i legend acc (item # items) =
     (let name = trim_space (cv_Name item)
      in if name = [] then Inl (''values['' @ itoa (int i) @ ''].name cannot be empty'')
         else pie_entries (i + 1) (appendIfMissing legend name)
                (acc @ [JObj ((if trim_space (cv_Color item) \<noteq> []
                               then [(''itemStyle'', JObj [(''color'', JStr (trim_space (cv_Color item)))])]
                               else [])
                              @ [(''name'', JStr name), (''value'', JNum (cv_Value item))])])
                items)"

definition buildPieOption :: "createChartParams \<Rightarrow> json result" where
  "buildPieOption params =
     (if cp_Values params = [] then Inl ''pie charts require values''
      else
        (case pie_entries 0 (cp_Legend params) [] (cp_Values params) of
           Inl err \<Rightarrow> Inl err
         | Inr (legend, pieData) \<Rightarrow>
             Inr (JObj
               [(''legend'', legend_json legend),
                (''series'', JArr [JObj [(''data'', JArr pieData), (''name'', JStr (cp_Title params)),
                                         (''radius'', JStr ''55%''), (''type'', JStr ''pie'')]]),
                (''title'', title_json (cp_Title params)),
                (''tooltip'', JObj [(''trigger'', JStr ''item'')])])))"

definition buildOptionFromDSL :: "createChartParams \<Rightarrow> json result" where
  "buildOptionFromDSL params =
     (let given = to_lower (trim_space (cp_ChartType params));
          chartType =
            (if given = [] then
               (if cp_Values params \<noteq> [] then ''pie''
                else if cp_Series params \<noteq> [] then firstNonEmptySeriesType (cp_Series params) ''bar''
                else [])
             else given)
      in if chartType = ''pie'' then buildPieOption params
         else if chartType = ''bar'' \<or> chartType = ''line'' then buildAxisChartOption params chartType
         else Inl ''chart_type is required; currently only bar, line, pie are supported'')"

definition hasRawChartOption :: "string \<Rightarrow> bool" where
  "hasRawChartOption option =
     (let trimmed = trim_space option in trimmed \<noteq> [] \<and> trimmed \<noteq> ''null'' \<and> trimmed \<noteq> ''{}'')"

definition resolveChartOption :: "createChartParams \<Rightarrow> chart_option result" where
  "resolveChartOption params =
     (if hasRawChartOption (cp_Option params) then Inr (RawOption (cp_Option params))
      else (case buildOptionFromDSL params of Inl err \<Rightarrow> Inl err | Inr j \<Rightarrow> Inr (BuiltOption j)))"

section \<open>Storing a chart\<close>

record reportChartMutationResult =
  cr_ChartID :: string
  cr_Title :: string
  cr_ChartRef :: string
  cr_Replaced :: bool

datatype chart_error =
    reportChartValidationError string string string
  | reportChartScopeError string

definition store_chart :: "chart_data \<Rightarrow> chart_data list \<Rightarrow> chart_data list \<times> bool" where
  "store_chart chart charts =
     (case find_index (\<lambda>c. trim_space (cd_ID c) = cd_ID chart) charts of
        Some i \<Rightarrow> (charts[i := chart], True)
      | None \<Rightarrow> (charts @ [chart], False))"

definition applyReportChartMutation ::
  "report_state \<Rightarrow> report_edit_state option \<Rightarrow> createChartParams \<Rightarrow>
   (chart_error + reportChartMutationResult) \<times> report_state" where
  "applyReportChartMutation state es params =
     (case resolveChartOption params of
        Inl err \<Rightarrow>
          (Inl (reportChartValidationError (cp_ChartID params) (cp_Title params) err), state)
      | Inr option \<Rightarrow>
          if \<not> ChartMutationAllowed es (cp_ChartID params)
          then (Inl (reportChartScopeError (cp_ChartID params)), state)
          else
            let chart = \<lparr>cd_ID = cp_ChartID params, cd_Option = option, cd_Width = ''100%'',
                         cd_Height = ''400px''\<rparr>;
                (charts, replaced) = store_chart chart (Charts state)
            in (Inr \<lparr>cr_ChartID = cp_ChartID params, cr_Title = cp_Title params,
                     cr_ChartRef = ''{{chart:'' @ cp_ChartID params @ ''}}'',
                     cr_Replaced = replaced\<rparr>,
                state\<lparr>Charts := charts, NeedsFinalize := True\<rparr>))"

definition chartValidationFeedback ::
  "string \<Rightarrow> string \<Rightarrow> string \<Rightarrow> string \<Rightarrow> string \<Rightarrow> payload" where
  "chartValidationFeedback code chartID title message detail =
     (let p = [''chart_id'' \<mapsto> JStr chartID, ''title'' \<mapsto> JStr title];
          p1 = (if detail \<noteq> [] then p(''detail'' \<mapsto> JStr detail) else p)
      in toolFailure ''report_create_chart'' code message
           (p1(''required_fields'' \<mapsto> JArr [JStr ''chart_id'', JStr ''title''],
               ''supported_shapes'' \<mapsto> JArr [JStr ''chart_type + categories + series'',
                                             JStr ''chart_type=pie + values''])))"

definition CreateChart_Execute ::
  "report_edit_state option \<Rightarrow> report_state \<Rightarrow> string + createChartParams \<Rightarrow>
   payload result \<times> report_state" where
  "CreateChart_Execute es state args =
     (case args of
        Inl err \<Rightarrow> (Inl (''failed to parse parameters: '' @ err), state)
      | Inr params \<Rightarrow>
          (case applyReportChartMutation state es params of
             (Inl (reportChartValidationError chartID title detail), state') \<Rightarrow>
               (Inr (chartValidationFeedback ''invalid_chart_spec'' chartID title
                       ''invalid chart definition'' detail), state')
           | (Inl (reportChartScopeError chartID), state') \<Rightarrow>
               (Inr (reportEditScopeFailure ''report_create_chart'' ''chart_id'' chartID ''chart''
                       (''chart '' @ chartID @ '' is outside current partial edit scope'')
                       Map.empty es), state')
           | (Inr res, state') \<Rightarrow>
               (Inr (reportDraftSuccess ''report_create_chart'' state'
                       [''chart_id'' \<mapsto> JStr (cr_ChartID res),
                        ''title'' \<mapsto> JStr (cr_Title res),
                        ''chart_ref'' \<mapsto> JStr (cr_ChartRef res),
                        ''ui_summary'' \<mapsto>
                          JStr (''chart '' @ cr_ChartID res
                                @ (if cr_Replaced res then '' updated in'' else '' written to'')
                                @ '' report state; delivery_state=draft'')]), state')))"

section \<open>Lemmas\<close>

definition obj_get :: "string \<Rightarrow> json \<Rightarrow> json option" where
  "obj_get k j = (case j of JObj kvs \<Rightarrow> map_of kvs k | _ \<Rightarrow> None)"

lemma axis_series_ok:
  assumes "axis_series t params i legend right acc items = Inr (legend', right', out)"
  shows "right' = (right \<or> (\<exists>x \<in> set items. right_axis x))
    \<and> out = acc @ map (\<lambda>(k, x). series_item t params k x) (enumerate i items)
    \<and> (\<forall>x \<in> set items. length (cs_Data x) = length (cp_Categories params)
          \<and> (series_type t x = ''bar'' \<or> series_type t x = ''line''))"
  using assms
proof (induction items arbitrary: i legend right acc)
  case (Cons x items)
  then have "axis_series t params (i + 1) (appendIfMissing legend (series_name params i x))
      (right \<or> right_axis x) (acc @ [series_item t params i x]) items = Inr (legend', right', out)"
    and "length (cs_Data x) = length (cp_Categories params)"
    and "series_type t x = ''bar'' \<or> series_type t x = ''line''"
    by (simp_all split: if_splits)
  with Cons.IH show ?case by fastforce
qed simp

lemma series_item_get:
  "obj_get ''data'' (series_item t p i x) = Some (JArr (map JNum (cs_Data x)))"
  "obj_get ''yAxisIndex'' (series_item t p i x) = (if right_axis x then Some (JInt 1) else None)"
  "obj_get ''type'' (series_item t p i x) = Some (JStr (series_type t x))"
  by (simp_all add: obj_get_def series_item_def)

lemma in_set_enumerate: "(k, x) \<in> set (enumerate i xs) \<Longrightarrow> x \<in> set xs"
  by (metis enumerate_eq_zip in_set_zipE)

lemma store_chart_stored: "chart \<in> set (fst (store_chart chart charts))"
  by (auto simp: store_chart_def set_update_memI dest: find_index_Some split: option.split)

lemma filter_list_update:
  "i < length xs \<Longrightarrow> \<not> P (xs ! i) \<Longrightarrow> \<not> P y \<Longrightarrow> filter P (xs[i := y]) = filter P xs"
  by (metis filter_insert_nth filter_remove_nth insert_remove_nth)

lemma store_chart_others:
  assumes "\<not> P chart" "\<And>c. trim_space (cd_ID c) = cd_ID chart \<Longrightarrow> \<not> P c"
  shows "filter P (fst (store_chart chart charts)) = filter P charts"
  using assms
  by (auto simp: store_chart_def filter_list_update dest!: find_index_Some split: option.split)

lemma chart_cases:
  assumes "applyReportChartMutation st es p = (out, st')"
  obtains (refused) e where "out = Inl e" "st' = st"
  | (stored) chart r where "out = Inr r" "ChartMutationAllowed es (cp_ChartID p)"
      "cd_ID chart = cp_ChartID p" "resolveChartOption p = Inr (cd_Option chart)"
      "st' = st\<lparr>Charts := fst (store_chart chart (Charts st)), NeedsFinalize := True\<rparr>"
proof (cases "resolveChartOption p")
  case (Inl e)
  then show thesis using assms refused by (auto simp: applyReportChartMutation_def)
next
  case (Inr opt)
  show thesis
  proof (cases "ChartMutationAllowed es (cp_ChartID p)")
    case True
    with Inr show thesis using assms
      by (intro stored [of _ "\<lparr>cd_ID = cp_ChartID p, cd_Option = opt, cd_Width = ''100%'',
                         cd_Height = ''400px''\<rparr>"])
        (auto simp: applyReportChartMutation_def Let_def split_beta)
  next
    case False
    with Inr show thesis using assms refused by (auto simp: applyReportChartMutation_def)
  qed
qed

lemma chart_execute_state:
  "snd (CreateChart_Execute es st args) =
     (case args of Inl _ \<Rightarrow> st | Inr p \<Rightarrow> snd (applyReportChartMutation st es p))"
  by (auto simp: CreateChart_Execute_def split: sum.split prod.split chart_error.split)

lemma chart_keeps_blocks:
  "Blocks (snd (applyReportChartMutation st es p)) = Blocks st
   \<and> Layout (snd (applyReportChartMutation st es p)) = Layout st
   \<and> FinalTitle (snd (applyReportChartMutation st es p)) = FinalTitle st"
  using prod.collapse [of "applyReportChartMutation st es p", symmetric]
  by (cases rule: chart_cases) auto

definition sample_chart :: "string \<Rightarrow> createChartParams" where
  "sample_chart i = \<lparr>cp_ChartID = i, cp_Title = ''t'', cp_Option = [], cp_ChartType = ''bar'',
     cp_Categories = [''q1''],
     cp_Series = [\<lparr>cs_Name = ''s'', cs_Type = [], cs_Data = [1], cs_YAxis = ''right'',
                   cs_Smooth = False, cs_Color = [], cs_Stack = []\<rparr>],
     cp_Values = [], cp_Legend = [], cp_XAxisName = [], cp_YAxisName = [], cp_Y2AxisName = []\<rparr>"

lemma sample_chart_built:
  "\<exists>j. buildAxisChartOption (sample_chart i) ''bar'' = Inr j"
  "\<exists>j. resolveChartOption (sample_chart i) = Inr j"
  by (simp_all add: buildAxisChartOption_def sample_chart_def series_type_def resolveChartOption_def
      hasRawChartOption_def buildOptionFromDSL_def trim_eval to_lower_def lower_char_def Let_def)

section \<open>Properties\<close>

text \<open>
  A bar or line option built from the DSL is consistent: it has one series per requested
  series, every series holds exactly one value per category, and an axis index used by a
  series refers to an axis that the option defines.
\<close>

theorem axis_option_consistent:
  assumes "buildAxisChartOption params t = Inr opt"
  shows "\<exists>series yaxes. obj_get ''series'' opt = Some (JArr series)
    \<and> obj_get ''yAxis'' opt = Some (JArr yaxes)
    \<and> length series = length (cp_Series params)
    \<and> (\<forall>s \<in> set series. \<exists>ds. obj_get ''data'' s = Some (JArr ds)
          \<and> length ds = length (cp_Categories params))
    \<and> (\<forall>s \<in> set series. \<forall>k. obj_get ''yAxisIndex'' s = Some (JInt k)
          \<longrightarrow> 0 \<le> k \<and> k < int (length yaxes))"
proof -
  from assms obtain legend right series where
    a: "axis_series t params 0 (cp_Legend params) False [] (cp_Series params) = Inr (legend, right, series)"
    and o: "obj_get ''series'' opt = Some (JArr series)"
      "obj_get ''yAxis'' opt = Some (JArr (axis_json (trim_space (cp_YAxisName params))
         # (if right then [axis_json (right_axis_name params)] else [])))"
    by (auto simp: buildAxisChartOption_def obj_get_def split: if_splits sum.splits)
  note ok = axis_series_ok [OF a]
  have item: "\<exists>k x. s = series_item t params k x \<and> x \<in> set (cp_Series params)" if "s \<in> set series" for s
    using that ok by (auto dest: in_set_enumerate)
  have "length series = length (cp_Series params)" using ok by simp
  moreover have "\<exists>ds. obj_get ''data'' s = Some (JArr ds) \<and> length ds = length (cp_Categories params)"
    if "s \<in> set series" for s
    using item [OF that] ok by (auto simp: series_item_get)
  moreover have "0 \<le> k \<and> k < 1 + (if right then 1 else 0)"
    if "s \<in> set series" "obj_get ''yAxisIndex'' s = Some (JInt k)" for s k
    using item [OF that(1)] that(2) ok by (auto simp: series_item_get split: if_splits)
  ultimately show ?thesis using o by auto
qed

theorem axis_option_consistent_witness:
  "\<exists>opt series. buildAxisChartOption (sample_chart ''c'') ''bar'' = Inr opt
     \<and> obj_get ''series'' opt = Some (JArr series) \<and> length series = 1"
proof -
  obtain opt where o: "buildAxisChartOption (sample_chart ''c'') ''bar'' = Inr opt"
    using sample_chart_built by blast
  from axis_option_consistent [OF o] o show ?thesis by (auto simp: sample_chart_def)
qed

text \<open>
  Creating a chart: under an active scope that preserves other blocks, every stored chart
  whose name is not among the editable ones keeps its place and its definition, whatever the
  call and whether or not it succeeds; the blocks, the layout and the title are never changed.
\<close>

theorem chart_call_respects_scope:
  assumes "modeLocked s \<noteq> []" and "es_PreserveOtherBlocks s"
  shows "filter (\<lambda>c. trim_space (cd_ID c) \<notin> es_AllowedChartIDs s)
           (Charts (snd (CreateChart_Execute (Some s) st args)))
         = filter (\<lambda>c. trim_space (cd_ID c) \<notin> es_AllowedChartIDs s) (Charts st)
    \<and> Blocks (snd (CreateChart_Execute (Some s) st args)) = Blocks st
    \<and> Layout (snd (CreateChart_Execute (Some s) st args)) = Layout st
    \<and> FinalTitle (snd (CreateChart_Execute (Some s) st args)) = FinalTitle st"
proof (cases args)
  case (Inr p)
  let ?P = "\<lambda>c. trim_space (cd_ID c) \<notin> es_AllowedChartIDs s"
  have "filter ?P (Charts (snd (applyReportChartMutation st (Some s) p))) = filter ?P (Charts st)"
    using prod.collapse [of "applyReportChartMutation st (Some s) p", symmetric]
  proof (cases rule: chart_cases)
    case (stored chart r)
    then have "trim_space (cd_ID chart) \<in> es_AllowedChartIDs s"
      using assms by (simp add: ChartMutationAllowed_def)
    moreover have "trim_space (cd_ID c) \<in> es_AllowedChartIDs s"
      if "trim_space (cd_ID c) = cd_ID chart" for c :: chart_data
      using that calculation by (metis trim_space_idem)
    ultimately have "filter ?P (fst (store_chart chart (Charts st))) = filter ?P (Charts st)"
      by (intro store_chart_others) simp_all
    with stored show ?thesis by simp
  qed simp
  with Inr show ?thesis by (simp add: chart_execute_state chart_keeps_blocks)
qed (simp add: chart_execute_state)

theorem chart_call_respects_scope_witness:
  "Blocks (snd (CreateChart_Execute (Some sample_target) empty_report (Inr (sample_chart ''c'')))) = []"
proof -
  have "modeLocked sample_target \<noteq> []" "es_PreserveOtherBlocks sample_target"
    by (simp_all add: sample_target_def empty_edit_def modeLocked_def trim_eval)
  from chart_call_respects_scope [OF this] show ?thesis by (simp add: empty_report_def)
qed

text \<open>
  Without a scope, a well-formed chart under a name without surrounding blanks is stored and
  replaces the chart of that name in place; the report becomes a draft; charts of other names
  are kept.
\<close>

theorem chart_call_stores:
  assumes "resolveChartOption p = Inr opt" and "trim_space (cp_ChartID p) = cp_ChartID p"
  shows "let st' = snd (CreateChart_Execute None st (Inr p)) in
      NeedsFinalize st'
      \<and> (\<exists>c \<in> set (Charts st'). cd_ID c = cp_ChartID p \<and> cd_Option c = opt)
      \<and> filter (\<lambda>c. trim_space (cd_ID c) \<noteq> cp_ChartID p) (Charts st')
          = filter (\<lambda>c. trim_space (cd_ID c) \<noteq> cp_ChartID p) (Charts st)
      \<and> length (Charts st') = length (Charts st)
          + (if \<exists>c \<in> set (Charts st). trim_space (cd_ID c) = cp_ChartID p then 0 else 1)"
proof -
  let ?c = "\<lparr>cd_ID = cp_ChartID p, cd_Option = opt, cd_Width = ''100%'', cd_Height = ''400px''\<rparr>"
  let ?st = "snd (CreateChart_Execute None st (Inr p))"
  have st': "?st = st\<lparr>Charts := fst (store_chart ?c (Charts st)), NeedsFinalize := True\<rparr>"
    using assms(1)
    by (simp add: chart_execute_state applyReportChartMutation_def ChartMutationAllowed_def
        Let_def split_beta)
  have "length (fst (store_chart ?c (Charts st))) = length (Charts st)
          + (if \<exists>c \<in> set (Charts st). trim_space (cd_ID c) = cp_ChartID p then 0 else 1)"
    using find_index_None [of "\<lambda>c. trim_space (cd_ID c) = cp_ChartID p" "Charts st"]
    by (auto simp: store_chart_def split: option.split)
  moreover have "filter (\<lambda>c. trim_space (cd_ID c) \<noteq> cp_ChartID p) (fst (store_chart ?c (Charts st)))
      = filter (\<lambda>c. trim_space (cd_ID c) \<noteq> cp_ChartID p) (Charts st)"
    using assms(2) by (simp add: store_chart_others)
  moreover have "\<exists>c \<in> set (fst (store_chart ?c (Charts st))). cd_ID c = cp_ChartID p \<and> cd_Option c = opt"
    by (rule bexI [OF _ store_chart_stored]) simp
  ultimately show ?thesis unfolding Let_def st' by simp
qed

theorem chart_call_stores_witness:
  "NeedsFinalize (snd (CreateChart_Execute None empty_report (Inr (sample_chart ''c''))))"
proof -
  obtain opt where "resolveChartOption (sample_chart ''c'') = Inr opt"
    using sample_chart_built by blast
  moreover have "trim_space (cp_ChartID (sample_chart ''c'')) = cp_ChartID (sample_chart ''c'')"
    by (simp add: sample_chart_def trim_eval)
  ultimately show ?thesis using chart_call_stores [of "sample_chart ''c''" opt empty_report]
    by (simp add: Let_def)
qed

text \<open>
  A name with a leading blank is compared untrimmed with trimmed names, so it never matches:
  creating the same chart twice stores it twice under one name.
\<close>

theorem padded_chart_id_duplicates:
  "map cd_ID (Charts (foldl (\<lambda>st p. snd (CreateChart_Execute None st (Inr p))) empty_report
     [sample_chart '' c'', sample_chart '' c''])) = ['' c'', '' c'']"
proof -
  obtain opt where o: "resolveChartOption (sample_chart '' c'') = Inr opt"
    using sample_chart_built by blast
  have "trim_space '' c'' = ''c''"
    by (simp add: trim_space_def trim_left_def trim_right_def ws_seqs_def strip_front.simps)
  with o show ?thesis
    by (simp add: chart_execute_state applyReportChartMutation_def ChartMutationAllowed_def Let_def
        store_chart_def sample_chart_def empty_report_def)
qed

end
