(* ===== verification/Report_Finalize.thy ===== *)
theory Report_Finalize
  imports Report_Charts Subgoals
begin

text \<open>
  Delivery: the finalize checks of \<open>server/tools/report_guardrails.go\<close>, \<open>report_finalize.go\<close>,
  \<open>report_layout.go\<close> and the tools \<open>report_finalize\<close> and \<open>report_configure_layout\<close> of \<open>report_tools.go\<close>.
  The goal tree enters through the interface \<open>SubgoalChecker\<close>: \<open>checker\<close> is \<open>None\<close> when the tool
  has none, and otherwise the outcome of its \<open>CanFinalize\<close>, itself \<open>None\<close> when that call
  does not return. \<open>parse_object\<close> stands for \<open>json.Unmarshal\<close> into a map.
\<close>

section \<open>Layout\<close>

record reportLayoutParams =
  lp_Action :: string
  lp_CustomCSS :: string
  lp_BodyClass :: string

record reportLayoutResult =
  lr_Action :: string
  lr_HasCustomCSS :: bool
  lr_BodyClass :: string
  lr_UISummary :: string

definition maxCustomCSSSize :: nat where
  "maxCustomCSSSize = 10240"

definition merge_layout :: "reportLayoutParams \<Rightarrow> report_layout \<Rightarrow> report_layout" where
  "merge_layout params l =
     (let l1 = (if lp_CustomCSS params \<noteq> [] then l\<lparr>CustomCSS := lp_CustomCSS params\<rparr> else l)
      in if lp_BodyClass params \<noteq> [] then l1\<lparr>BodyClass := trim_space (lp_BodyClass params)\<rparr> else l1)"

definition applyReportLayoutMutation ::
  "report_state \<Rightarrow> reportLayoutParams \<Rightarrow> reportLayoutResult result \<times> report_state" where
  "applyReportLayoutMutation state params =
     (let action = (if trim_space (lp_Action params) = [] then ''merge''
                    else trim_space (lp_Action params))
      in if action = ''reset''
         then (Inr \<lparr>lr_Action = action, lr_HasCustomCSS = False, lr_BodyClass = [],
                    lr_UISummary = ''report layout reset; delivery_state=draft''\<rparr>,
               state\<lparr>Layout := empty_layout, NeedsFinalize := True\<rparr>)
         else if action = ''merge''
         then if lp_CustomCSS params \<noteq> [] \<and> length (lp_CustomCSS params) > maxCustomCSSSize
              then (Inl (''custom_css exceeds maximum allowed size ('' @ itoa (int maxCustomCSSSize)
                         @ '' bytes)''), state)
              else
                let l = merge_layout params (Layout state)
                in (Inr \<lparr>lr_Action = action, lr_HasCustomCSS = (CustomCSS l \<noteq> []),
                         lr_BodyClass = BodyClass l,
                         lr_UISummary = ''report layout updated; delivery_state=draft''\<rparr>,
                    state\<lparr>Layout := l, NeedsFinalize := True\<rparr>)
         else (Inl (''unknown action: '' @ action), state))"

text \<open>
  The tool decodes its arguments twice: into a map, whose keys it checks, and into the
  parameter struct. \<open>unsupported_fields\<close> is reported in the iteration order of a Go map; the
  model keeps the order of the arguments.
\<close>

definition ConfigureReport_Execute ::
  "report_state \<Rightarrow> string + string list \<Rightarrow> string + reportLayoutParams \<Rightarrow> payload result \<times> report_state"
  where
  "ConfigureReport_Execute state raw args =
     (case raw of
        Inl err \<Rightarrow> (Inl (''failed to parse parameters: '' @ err), state)
      | Inr keys \<Rightarrow>
          let unsupported =
                filter (\<lambda>k. k \<notin> {''action'', ''custom_css'', ''body_class''}) (remdups keys)
          in if unsupported \<noteq> []
             then (Inr (toolFailure ''report_configure_layout'' ''unsupported_layout_fields''
                          ''unsupported layout fields''
                          [''unsupported_fields'' \<mapsto> JArr (map JStr unsupported),
                           ''ui_summary'' \<mapsto> JStr ''unsupported layout fields.'']), state)
             else
               (case args of
                  Inl err \<Rightarrow> (Inl (''failed to parse parameters: '' @ err), state)
                | Inr params \<Rightarrow>
                    (case applyReportLayoutMutation state params of
                       (Inl err, state') \<Rightarrow> (Inl err, state')
                     | (Inr res, state') \<Rightarrow>
                         (Inr (reportDraftSuccess ''report_configure_layout'' state'
                                 [''action'' \<mapsto> JStr (lr_Action res),
                                  ''has_custom_css'' \<mapsto> JBool (lr_HasCustomCSS res),
                                  ''body_class'' \<mapsto> JStr (lr_BodyClass res),
                                  ''ui_summary'' \<mapsto> JStr (lr_UISummary res)]), state'))))"

section \<open>Structural checks\<close>

definition is_chart_block :: "report_block \<Rightarrow> bool" where
  "is_chart_block b \<longleftrightarrow> equal_fold (trim_space (rb_Kind b)) ''chart''"

definition referencedChartsOutsideChartBlocks :: "report_block list \<Rightarrow> string list" where
  "referencedChartsOutsideChartBlocks blocks =
     remdups (concat (map (\<lambda>b. if is_chart_block b then [] else chartRefsOutsideChartBlock (rb_Content b))
                        blocks))"

definition renderableReportBlockCount :: "report_block list \<Rightarrow> nat" where
  "renderableReportBlockCount blocks =
     length (filter (\<lambda>b. to_lower (trim_space (rb_Kind b)) \<in> {''markdown'', ''html'', ''chart''}) blocks)"

text \<open>One entry per increment of \<open>refCounts\<close>; the count of a chart is its multiplicity.\<close>

definition chart_references :: "report_block list \<Rightarrow> string list" where
  "chart_references blocks =
     concat (map (\<lambda>b. (if is_chart_block b \<and> trim_space (rb_ChartID b) \<noteq> []
                       then [trim_space (rb_ChartID b)] else [])
                      @ referencedChartsOutsideChartBlocks [b]) blocks)"

definition known_charts :: "report_state \<Rightarrow> string set" where
  "known_charts state = {c \<in> (\<lambda>c. trim_space (cd_ID c)) ` set (Charts state). c \<noteq> []}"

definition reportFinalizeIssues :: "report_state option \<Rightarrow> string list" where
  "reportFinalizeIssues st =
     (case st of
        None \<Rightarrow> [''report_state_missing'']
      | Some state \<Rightarrow>
          let refs = chart_references (Blocks state);
              missing = sort (filter (\<lambda>c. c \<notin> known_charts state) (remdups refs));
              duplicates = sort (map (\<lambda>c. c @ ''(x'' @ itoa (int (count_list refs c)) @ '')'')
                                  (filter (\<lambda>c. count_list refs c > 1) (remdups refs)))
          in (if renderableReportBlockCount (Blocks state) = 0 then [''report_has_no_blocks''] else [])
             @ map (\<lambda>c. ''missing_chart:'' @ c) missing
             @ map (\<lambda>d. ''duplicate_chart:'' @ d) duplicates)"

section \<open>Semantic checks\<close>

text \<open>The fields of \<open>service.SessionSourceSummary\<close> that the check reads.\<close>

record sessionSourceSummary =
  ss_SourceID :: string
  ss_DisplayName :: string
  ss_AnalysisTableName :: string
  ss_SemanticStatus :: string
  ss_ProfileID :: string
  ss_AmbiguityCount :: int
  ss_ConfirmedOverrideCount :: int

definition unresolved_source :: "sessionSourceSummary \<Rightarrow> bool" where
  "unresolved_source s \<longleftrightarrow> ss_AmbiguityCount s > 0
     \<and> to_lower (trim_space (ss_SemanticStatus s)) \<noteq> ''confirmed''
     \<and> ss_ConfirmedOverrideCount s < ss_AmbiguityCount s"

definition source_ref :: "sessionSourceSummary \<Rightarrow> string" where
  "source_ref s =
     (if trim_space (ss_AnalysisTableName s) \<noteq> [] then trim_space (ss_AnalysisTableName s)
      else if trim_space (ss_ProfileID s) \<noteq> [] then trim_space (ss_ProfileID s)
      else if trim_space (ss_SourceID s) \<noteq> [] then trim_space (ss_SourceID s)
      else ''unknown_source'')"

definition ambiguity_text :: "nat \<Rightarrow> json \<Rightarrow> string" where
  "ambiguity_text i a =
     (case a of
        JObj am \<Rightarrow>
          (if i > 0 then ''; '' else [])
          @ (case map_of am ''kind'' of
               Some (JStr kind) \<Rightarrow> if kind \<noteq> [] then kind @ '': '' else []
             | _ \<Rightarrow> [])
          @ (case map_of am ''candidates'' of
               Some (JArr cands) \<Rightarrow>
                 join '', '' (concat (map (\<lambda>c. case c of JStr s \<Rightarrow> [s] | _ \<Rightarrow> []) cands))
             | _ \<Rightarrow> [])
      | _ \<Rightarrow> [])"

definition ambiguities_text :: "(string \<times> json) list \<Rightarrow> string" where
  "ambiguities_text profile =
     (case map_of profile ''ambiguities'' of
        Some (JArr amb) \<Rightarrow>
          if amb \<noteq> []
          then '', ambiguities=['' @ concat (map (\<lambda>(i, a). ambiguity_text i a) (enumerate 0 amb)) @ '']''
          else []
      | _ \<Rightarrow> [])"

definition source_detail ::
  "(string \<Rightarrow> (string \<times> json) list option) \<Rightarrow> (string \<Rightarrow> string result) option \<Rightarrow>
   sessionSourceSummary \<Rightarrow> string" where
  "source_detail parse_object profileDetail s =
     ss_DisplayName s @ '' (profile='' @ ss_ProfileID s
     @ (case profileDetail of
          None \<Rightarrow> []
        | Some detail \<Rightarrow>
            if ss_ProfileID s = [] then []
            else (case detail (ss_ProfileID s) of
                    Inl _ \<Rightarrow> []
                  | Inr profileJSON \<Rightarrow>
                      if profileJSON = [] then []
                      else (case parse_object profileJSON of
                              None \<Rightarrow> []
                            | Some profile \<Rightarrow> ambiguities_text profile)))
     @ '')'' @ '', unresolved_ambiguities='' @ itoa (ss_AmbiguityCount s)"

definition reportSemanticFinalizeIssues ::
  "(string \<Rightarrow> (string \<times> json) list option) \<Rightarrow> sessionSourceSummary list \<Rightarrow>
   (string \<Rightarrow> string result) option \<Rightarrow> string list" where
  "reportSemanticFinalizeIssues parse_object sources profileDetail =
     map (\<lambda>s. ''unresolved_semantic_ambiguity:'' @ source_ref s @ '':''
              @ source_detail parse_object profileDetail s)
       (filter unresolved_source sources)"

section \<open>Finalizing\<close>

record reportFinalizeParams =
  fp_ReportTitle :: string
  fp_Author :: string

record reportFinalizeResult =
  fr_ReportTitle :: string
  fr_Author :: string
  fr_BlockCount :: int
  fr_ChartCount :: int

datatype finalize_error =
    reportFinalizeBlockedError "string list"
  | reportFinalizeIssuesError "string list"
  | reportAlreadyFinalizedError

definition finalizeReportState ::
  "report_state \<Rightarrow> (bool \<times> string list) option option \<Rightarrow> reportFinalizeParams \<Rightarrow> string list \<Rightarrow>
   ((finalize_error + reportFinalizeResult) \<times> report_state) option" where
  "finalizeReportState state checker params semanticIssues =
     (if ds_IsFinalized (describeReportDeliveryStateLocked state)
      then Some (Inl reportAlreadyFinalizedError, state)
      else
        (let author = trim_space (fp_Author params)
         in case (case checker of None \<Rightarrow> Some (True, []) | Some verdict \<Rightarrow> verdict) of
              None \<Rightarrow> None
            | Some (canFinalize, blockers) \<Rightarrow>
                if \<not> canFinalize then Some (Inl (reportFinalizeBlockedError blockers), state)
                else if reportFinalizeIssues (Some state) \<noteq> []
                then Some (Inl (reportFinalizeIssuesError (reportFinalizeIssues (Some state))), state)
                else if semanticIssues \<noteq> []
                then Some (Inl (reportFinalizeIssuesError semanticIssues), state)
                else Some (Inr \<lparr>fr_ReportTitle = fp_ReportTitle params, fr_Author = author,
                                fr_BlockCount = int (length (Blocks state)),
                                fr_ChartCount = int (length (Charts state))\<rparr>,
                           state\<lparr>FinalTitle := fp_ReportTitle params, FinalAuthor := author,
                                 NeedsFinalize := False\<rparr>)))"

definition semanticFinalizeIssueSignature :: "string list \<Rightarrow> string" where
  "semanticFinalizeIssueSignature issues =
     (let semantic = filter (\<lambda>t. has_prefix t ''unresolved_semantic_ambiguity:'') (map trim_space issues)
      in if semantic = [] then [] else join [CHR 0x0A] (sort semantic))"

definition maxFinalizeRetries :: int where
  "maxFinalizeRetries = 4"

definition loop_failure :: "int \<Rightarrow> string list \<Rightarrow> payload" where
  "loop_failure attempts semanticIssues =
     toolFailure ''report_finalize'' ''finalize_loop_detected''
       (''report_finalize has been called '' @ itoa attempts
        @ '' times with the same unresolved semantic ambiguity. User confirmation or explicit user authorization is required before delivery.'')
       [''finalize_attempts'' \<mapsto> JInt attempts, ''max_retries'' \<mapsto> JInt maxFinalizeRetries,
        ''unresolved_ambiguity_count'' \<mapsto> JInt (int (length semanticIssues))]"

text \<open>The branch for \<open>reportFinalizeIssuesError\<close>: the counter of identical semantic refusals.\<close>

definition finalize_issues_answer ::
  "report_state \<Rightarrow> string list \<Rightarrow> string list \<Rightarrow> payload \<times> report_state" where
  "finalize_issues_answer state issues semanticIssues =
     (let signature = semanticFinalizeIssueSignature issues
      in if signature \<noteq> []
         then
           let state1 =
                 (if LastFinalizeIssueSignature state = signature
                  then state\<lparr>FinalizeAttempts := FinalizeAttempts state + 1\<rparr>
                  else state\<lparr>LastFinalizeIssueSignature := signature, FinalizeAttempts := 1\<rparr>)
           in if FinalizeAttempts state1 > maxFinalizeRetries
              then (loop_failure (FinalizeAttempts state1) semanticIssues, state1)
              else (reportFinalizeIssuesFailure state1 issues, state1)
         else
           let state1 = state\<lparr>FinalizeAttempts := 0, LastFinalizeIssueSignature := []\<rparr>
           in (reportFinalizeIssuesFailure state1 issues, state1))"

definition semantic_issues ::
  "(string \<Rightarrow> (string \<times> json) list option) \<Rightarrow> (sessionSourceSummary list result) option \<Rightarrow>
   (string \<Rightarrow> string result) option \<Rightarrow> string list" where
  "semantic_issues parse_object provider profileDetail =
     (case provider of
        None \<Rightarrow> []
      | Some (Inl _) \<Rightarrow> [''semantic_sources_unavailable'']
      | Some (Inr sources) \<Rightarrow> reportSemanticFinalizeIssues parse_object sources profileDetail)"

definition finalize_answer :: "reportFinalizeResult \<Rightarrow> payload" where
  "finalize_answer res =
     reportFinalizeSuccess
       [''report_title'' \<mapsto> JStr (fr_ReportTitle res), ''author'' \<mapsto> JStr (fr_Author res),
        ''block_count'' \<mapsto> JInt (fr_BlockCount res), ''chart_count'' \<mapsto> JInt (fr_ChartCount res),
        ''ui_summary'' \<mapsto>
          JStr (''delivery_state=finalized; block_count='' @ itoa (fr_BlockCount res)
                @ ''; chart_count='' @ itoa (fr_ChartCount res))]"

definition FinalizeReport_Execute ::
  "(string \<Rightarrow> (string \<times> json) list option) \<Rightarrow> (sessionSourceSummary list result) option \<Rightarrow>
   (string \<Rightarrow> string result) option \<Rightarrow> (bool \<times> string list) option option \<Rightarrow>
   report_state \<Rightarrow> string + reportFinalizeParams \<Rightarrow> (payload result \<times> report_state) option" where
  "FinalizeReport_Execute parse_object provider profileDetail checker state args =
     (case args of
        Inl err \<Rightarrow> Some (Inl (''failed to parse parameters: '' @ err), state)
      | Inr params \<Rightarrow>
          let semanticIssues = semantic_issues parse_object provider profileDetail
          in case finalizeReportState state checker params semanticIssues of
               None \<Rightarrow> None
             | Some (Inl (reportFinalizeBlockedError blockers), state') \<Rightarrow>
                 Some (Inr (reportFinalizeBlockedFailure state' blockers), state')
             | Some (Inl (reportFinalizeIssuesError issues), state') \<Rightarrow>
                 (case finalize_issues_answer state' issues semanticIssues of
                    (answer, state2) \<Rightarrow> Some (Inr answer, state2))
             | Some (Inl reportAlreadyFinalizedError, state') \<Rightarrow>
                 Some (Inr (reportAlreadyFinalizedFailure state'), state')
             | Some (Inr res, state') \<Rightarrow>
                 Some (Inr (finalize_answer res),
                       state'\<lparr>FinalizeAttempts := 0, LastFinalizeIssueSignature := []\<rparr>))"

section \<open>Lemmas\<close>

lemma sort_eq_Nil: "sort xs = [] \<longleftrightarrow> xs = []"
  by (metis length_0_conv length_sort)

lemma finalize_issues_none:
  "reportFinalizeIssues (Some st) = [] \<longleftrightarrow>
     renderableReportBlockCount (Blocks st) > 0
     \<and> (\<forall>c \<in> set (chart_references (Blocks st)). c \<in> known_charts st
           \<and> count_list (chart_references (Blocks st)) c = 1)"
proof -
  have "count_list xs c = 1 \<longleftrightarrow> \<not> 1 < count_list xs c" if "c \<in> set xs" for c :: string and xs
    using that by (metis count_list_0_iff less_one linorder_neqE_nat)
  then show ?thesis
    by (auto simp: reportFinalizeIssues_def Let_def filter_empty_conv sort_eq_Nil)
qed

lemma finalize_state_cases:
  assumes "finalizeReportState st checker p sem = Some (out, st')"
  obtains (already) "ds_IsFinalized (describeReportDeliveryStateLocked st)"
      "out = Inl reportAlreadyFinalizedError" "st' = st"
  | (blocked) bs where "out = Inl (reportFinalizeBlockedError bs)" "st' = st"
      "checker = Some (Some (False, bs))"
  | (issues) iss where "out = Inl (reportFinalizeIssuesError iss)" "st' = st" "iss \<noteq> []"
      "reportFinalizeIssues (Some st) = [] \<longrightarrow> iss = sem"
      "reportFinalizeIssues (Some st) \<noteq> [] \<longrightarrow> iss = reportFinalizeIssues (Some st)"
  | (delivered) r where "out = Inr r"
      "checker = None \<or> (\<exists>bs. checker = Some (Some (True, bs)))"
      "reportFinalizeIssues (Some st) = []" "sem = []"
      "st' = st\<lparr>FinalTitle := fp_ReportTitle p, FinalAuthor := trim_space (fp_Author p),
                NeedsFinalize := False\<rparr>"
proof (cases "ds_IsFinalized (describeReportDeliveryStateLocked st)")
  case True
  then show thesis using assms by (intro already) (simp_all add: finalizeReportState_def)
next
  case False
  let ?v = "case checker of None \<Rightarrow> Some (True, []) | Some verdict \<Rightarrow> verdict"
  obtain ok bs where v: "?v = Some (ok, bs)"
    using assms False by (cases ?v) (auto simp: finalizeReportState_def)
  then have c: "checker = None \<and> ok \<or> checker = Some (Some (ok, bs))"
    by (auto split: option.splits)
  note eq = assms [unfolded finalizeReportState_def v Let_def]
  consider "\<not> ok" | "ok" "reportFinalizeIssues (Some st) \<noteq> []"
    | "ok" "reportFinalizeIssues (Some st) = []" "sem \<noteq> []"
    | "ok" "reportFinalizeIssues (Some st) = []" "sem = []" by blast
  then show thesis
  proof cases
    case 1
    then show thesis using eq False c by (intro blocked) simp_all
  next
    case 2
    then show thesis using eq False by (intro issues) auto
  next
    case 3
    then show thesis using eq False by (intro issues) simp_all
  next
    case 4
    then have "\<exists>r. out = Inr r \<and> st' = st\<lparr>FinalTitle := fp_ReportTitle p,
        FinalAuthor := trim_space (fp_Author p), NeedsFinalize := False\<rparr>"
      using eq False by auto
    then show thesis using 4 c by (auto intro: delivered)
  qed
qed

text \<open>What the tool may change: on success the title, author and flag; otherwise its counter.\<close>

definition same_report :: "report_state \<Rightarrow> report_state \<Rightarrow> bool" where
  "same_report st st' \<longleftrightarrow> Blocks st' = Blocks st \<and> Charts st' = Charts st \<and> Layout st' = Layout st"

definition same_delivery :: "report_state \<Rightarrow> report_state \<Rightarrow> bool" where
  "same_delivery st st' \<longleftrightarrow> FinalTitle st' = FinalTitle st \<and> FinalAuthor st' = FinalAuthor st
     \<and> NeedsFinalize st' = NeedsFinalize st"

lemma issues_answer_state:
  "same_report st (snd (finalize_issues_answer st iss sem))
   \<and> same_delivery st (snd (finalize_issues_answer st iss sem))"
  by (simp add: finalize_issues_answer_def Let_def same_report_def same_delivery_def)

lemma issues_answer_failed: "fst (finalize_issues_answer st iss sem) ''ok'' = Some (JBool False)"
  by (simp add: finalize_issues_answer_def Let_def loop_failure_def answer_defs)

lemma finalize_execute_cases:
  assumes "FinalizeReport_Execute po pr pd checker st args = Some (out, st')"
  obtains (failed) "same_report st st'" "same_delivery st st'"
      "\<And>a. out = Inr a \<Longrightarrow> a ''ok'' = Some (JBool False)"
  | (delivered) p a where "args = Inr p" "out = Inr a" "a ''ok'' = Some (JBool True)"
      "a ''delivery_state'' = Some (JStr ''finalized'')"
      "checker = None \<or> (\<exists>bs. checker = Some (Some (True, bs)))"
      "reportFinalizeIssues (Some st) = []" "semantic_issues po pr pd = []"
      "st' = st\<lparr>FinalTitle := fp_ReportTitle p, FinalAuthor := trim_space (fp_Author p),
                NeedsFinalize := False, FinalizeAttempts := 0, LastFinalizeIssueSignature := []\<rparr>"
proof (cases args)
  case (Inl e)
  then show thesis using assms failed
    by (auto simp: FinalizeReport_Execute_def same_report_def same_delivery_def)
next
  case (Inr p)
  then obtain out1 st1 where f:
    "finalizeReportState st checker p (semantic_issues po pr pd) = Some (out1, st1)"
    using assms by (auto simp: FinalizeReport_Execute_def Let_def split: option.splits)
  then show thesis
  proof (cases rule: finalize_state_cases)
    case (issues iss)
    let ?a = "finalize_issues_answer st iss (semantic_issues po pr pd)"
    have "out = Inr (fst ?a)" "st' = snd ?a"
      using assms Inr f issues(1,2)
      by (simp_all add: FinalizeReport_Execute_def Let_def split_beta)
    then show thesis
      using issues_answer_state [of st iss] by (intro failed) (auto simp: issues_answer_failed)
  next
    case (delivered r)
    then have "out = Inr (finalize_answer r) \<and> st' = st\<lparr>FinalTitle := fp_ReportTitle p,
        FinalAuthor := trim_space (fp_Author p), NeedsFinalize := False, FinalizeAttempts := 0,
        LastFinalizeIssueSignature := []\<rparr>"
      using assms Inr f by (simp add: FinalizeReport_Execute_def Let_def)
    then show thesis using delivered(2-4)
      by (intro that(2) [OF Inr, of "finalize_answer r"]) (simp_all add: finalize_answer_def answer_defs)
  qed (use assms Inr f failed in \<open>auto simp: FinalizeReport_Execute_def Let_def answer_defs
      same_report_def same_delivery_def\<close>)+
qed

subsection \<open>The signature of a semantic refusal\<close>

lemma strip_front_stops:
  assumes "\<And>p. p \<in> set ps \<Longrightarrow> c \<notin> set p"
  shows "\<exists>zs. strip_front ps (xs @ c # ys) = zs @ c # ys"
proof (induction "length xs" arbitrary: xs rule: less_induct)
  case less
  show ?case
  proof (cases "find (\<lambda>p. p \<noteq> [] \<and> prefix p (xs @ c # ys)) ps")
    case None
    then show ?thesis by (subst strip_front.simps) auto
  next
    case (Some p)
    then have p: "p \<in> set ps" "p \<noteq> []" "prefix p (xs @ c # ys)" by (auto simp: find_Some_iff)
    with assms [OF p(1)] have "prefix p xs"
      by (auto simp: prefix_append prefix_Cons)
    then obtain xs' where xs: "xs = p @ xs'" by (auto simp: prefix_def)
    with less [of xs'] p(2) obtain zs where "strip_front ps (xs' @ c # ys) = zs @ c # ys" by auto
    then show ?thesis using Some xs by (subst strip_front.simps) simp
  qed
qed

lemma colon_no_space: "p \<in> set ws_seqs \<Longrightarrow> CHR '':'' \<notin> set p"
  by (auto simp: ws_seqs_def)

lemma trim_space_keeps_label:
  assumes "plain_head (hd (w @ '':''))"
  shows "prefix (w @ '':'') (trim_space (w @ '':'' @ s))"
proof -
  have "clean ws_seqs (w @ '':'' @ s)"
    unfolding clean_def
  proof (intro ballI impI notI)
    fix p assume p: "p \<in> set ws_seqs" "p \<noteq> []" "prefix p (w @ '':'' @ s)"
    then have "hd p = hd (w @ '':'' @ s)" by (auto simp: prefix_def)
    then have "hd p = hd (w @ '':'')" by (simp add: hd_append)
    with assms p show False by (metis image_eqI list.set_map plain_head_def)
  qed
  then have "trim_space (w @ '':'' @ s) = trim_right (w @ '':'' @ s)"
    by (simp add: trim_space_def trim_left_def strip_front_id)
  moreover obtain zs where
    "strip_front (map rev ws_seqs) (rev s @ CHR '':'' # rev w) = zs @ CHR '':'' # rev w"
    using strip_front_stops [of "map rev ws_seqs" "CHR '':''" "rev s" "rev w"] colon_no_space
    by (metis (no_types, lifting) imageE list.set_map set_rev)
  ultimately show ?thesis by (simp add: trim_right_def)
qed

lemma signature_of_unresolved:
  assumes "filter unresolved_source sources \<noteq> []"
  shows "semanticFinalizeIssueSignature (reportSemanticFinalizeIssues po sources pd) \<noteq> []"
proof -
  let ?w = "''unresolved_semantic_ambiguity:''"
  obtain s ss where ss: "filter unresolved_source sources = s # ss" using assms by (cases "filter unresolved_source sources") auto
  have pre: "prefix ?w (trim_space (?w @ x))" for x
    using trim_space_keeps_label [of "''unresolved_semantic_ambiguity''" x]
    by (simp add: plain_head_def ws_seqs_def)
  have "join [CHR 0x0A] (y # ys) \<noteq> []" if "y \<noteq> []" for y ys
    using that by (cases ys) auto
  moreover have "\<exists>y ys. sort (filter (prefix ?w) (map trim_space (reportSemanticFinalizeIssues po sources pd))) = y # ys \<and> prefix ?w y"
  proof -
    let ?l = "filter (prefix ?w) (map trim_space (reportSemanticFinalizeIssues po sources pd))"
    have "?l \<noteq> []" using pre by (simp add: reportSemanticFinalizeIssues_def ss)
    then obtain y ys where y: "sort ?l = y # ys" by (metis neq_Nil_conv sort_eq_Nil)
    then have "y \<in> set ?l" by (metis list.set_intros(1) set_sort)
    with y show ?thesis by auto
  qed
  ultimately show ?thesis unfolding semanticFinalizeIssueSignature_def Let_def
    by (metis (full_types) list.discI prefix_bot.extremum_uniqueI sort_eq_Nil)
qed

lemma finalize_returns:
  "checker \<noteq> Some None \<Longrightarrow> \<exists>out st'. FinalizeReport_Execute po pr pd checker st args = Some (out, st')"
  by (cases args; cases checker)
    (auto simp: FinalizeReport_Execute_def finalizeReportState_def Let_def split: prod.split)

subsection \<open>Sequences of report tool calls\<close>

datatype report_op =
    OpBlocks "report_edit_state option" "string + reportBlockMutationParams"
  | OpChart "report_edit_state option" "string + createChartParams"
  | OpLayout "string + string list" "string + reportLayoutParams"
  | OpFinalize "sessionSourceSummary list result option" "(bool \<times> string list) option option"
      "string + reportFinalizeParams"

text \<open>One call; a finalize call that does not return leaves the state as it was.\<close>

fun report_step ::
  "(string \<Rightarrow> string) \<Rightarrow> (string \<Rightarrow> (string \<times> json) list option) \<Rightarrow> (string \<Rightarrow> string result) option \<Rightarrow>
   report_state \<Rightarrow> report_op \<Rightarrow> report_state" where
  "report_step unesc po pd st (OpBlocks es args) = snd (ManageReportBlocks_Execute unesc es st args)"
| "report_step unesc po pd st (OpChart es args) = snd (CreateChart_Execute es st args)"
| "report_step unesc po pd st (OpLayout raw args) = snd (ConfigureReport_Execute st raw args)"
| "report_step unesc po pd st (OpFinalize provider checker args) =
     (case FinalizeReport_Execute po provider pd checker st args of
        Some (_, st') \<Rightarrow> st' | None \<Rightarrow> st)"

definition report_inv :: "report_state \<Rightarrow> bool" where
  "report_inv st \<longleftrightarrow> blocks_inv st \<and> length (CustomCSS (Layout st)) \<le> maxCustomCSSSize"

text \<open>Delivered reports have no structural defect.\<close>

definition delivery_inv :: "report_state \<Rightarrow> bool" where
  "delivery_inv st \<longleftrightarrow>
     (ds_IsFinalized (describeReportDeliveryStateLocked st) \<longrightarrow> reportFinalizeIssues (Some st) = [])"

lemma layout_mutation_cases:
  "snd (applyReportLayoutMutation st p) = st
   \<or> (\<exists>l. snd (applyReportLayoutMutation st p) = st\<lparr>Layout := l, NeedsFinalize := True\<rparr>
        \<and> (length (CustomCSS (Layout st)) \<le> maxCustomCSSSize \<longrightarrow> length (CustomCSS l) \<le> maxCustomCSSSize))"
proof -
  have "length (CustomCSS (merge_layout p (Layout st))) \<le> maxCustomCSSSize"
    if "lp_CustomCSS p \<noteq> [] \<longrightarrow> length (lp_CustomCSS p) \<le> maxCustomCSSSize"
      "length (CustomCSS (Layout st)) \<le> maxCustomCSSSize"
    using that by (simp add: merge_layout_def Let_def)
  moreover obtain action where "action = (if trim_space (lp_Action p) = [] then ''merge'' else trim_space (lp_Action p))"
    by blast
  ultimately show ?thesis
    unfolding applyReportLayoutMutation_def Let_def
    by (cases "action = ''reset''"; cases "action = ''merge''") (auto simp: empty_layout_def simp del: if_split)
qed

lemma layout_cases:
  assumes "ConfigureReport_Execute st raw args = (out, st')"
  shows "st' = st \<or> (\<exists>l. st' = st\<lparr>Layout := l, NeedsFinalize := True\<rparr>
           \<and> (length (CustomCSS (Layout st)) \<le> maxCustomCSSSize \<longrightarrow> length (CustomCSS l) \<le> maxCustomCSSSize))"
proof -
  have "st' = st \<or> (\<exists>p. st' = snd (applyReportLayoutMutation st p))"
    using assms by (auto simp: ConfigureReport_Execute_def Let_def split: sum.splits prod.splits if_splits)
      (metis snd_conv)+
  then show ?thesis using layout_mutation_cases by metis
qed

lemma layout_untouched_blocks:
  "Layout (snd (applyReportBlockMutation unesc st es p)) = Layout st"
proof -
  have u: "Layout (snd (upsertReportBlock unesc st es q)) = Layout st" for q
    using prod.collapse [of "upsertReportBlock unesc st es q", symmetric]
    by (cases rule: upsert_cases) auto
  have m: "Layout (snd (moveReportBlock st es q)) = Layout st" for q
    using prod.collapse [of "moveReportBlock st es q", symmetric]
    by (cases rule: move_cases) auto
  show ?thesis
    by (simp add: applyReportBlockMutation_def Let_def u m removeReportBlock_def split: option.split)
qed

lemma same_report_inv: "same_report st st' \<Longrightarrow> report_inv st' = report_inv st"
  by (simp add: same_report_def report_inv_def blocks_inv_def)

lemma finalize_keeps_report:
  "FinalizeReport_Execute po pr pd checker st args = Some (out, st') \<Longrightarrow> same_report st st'"
  by (erule finalize_execute_cases) (auto simp: same_report_def)

lemma report_step_inv:
  assumes "report_inv st"
  shows "report_inv (report_step unesc po pd st op)"
proof (cases op)
  case (OpBlocks es args)
  then show ?thesis using assms
    by (cases args) (simp_all add: report_inv_def execute_state apply_inv layout_untouched_blocks)
next
  case (OpChart es args)
  then show ?thesis using assms
    by (cases args) (simp_all add: report_inv_def chart_execute_state chart_keeps_blocks blocks_inv_def)
next
  case (OpLayout raw args)
  with assms layout_cases [OF prod.collapse [symmetric], of st raw args] show ?thesis
    by (auto simp: report_inv_def blocks_inv_def)
next
  case (OpFinalize provider checker args)
  with assms show ?thesis
    by (auto simp: same_report_inv dest!: finalize_keeps_report split: option.split)
qed

interpretation report_machine: machine "report_step unesc po pd" "\<lambda>st. st = empty_report" report_inv
  for unesc po pd
proof unfold_locales
  show "report_inv st" if "st = empty_report" for st
    using that blocks_inv_empty by (simp add: report_inv_def) (simp add: empty_report_def empty_layout_def)
qed (rule report_step_inv)

text \<open>Calls that give no placement (\<open>before_block_id\<close>, \<open>after_block_id\<close>).\<close>

definition unplaced :: "report_op \<Rightarrow> bool" where
  "unplaced op = (case op of
      OpBlocks es (Inr p) \<Rightarrow> trim_space (bp_BeforeBlockID p) = [] \<and> trim_space (bp_AfterBlockID p) = []
    | _ \<Rightarrow> True)"

lemma delivery_inv_draft: "NeedsFinalize st \<Longrightarrow> delivery_inv st"
  by (simp add: delivery_inv_def delivery_simps)

lemma delivery_inv_changed: "st' = st \<or> NeedsFinalize st' \<Longrightarrow> delivery_inv st \<Longrightarrow> delivery_inv st'"
  using delivery_inv_draft by blast

lemma block_call_draft:
  assumes "trim_space (bp_BeforeBlockID p) = []" "trim_space (bp_AfterBlockID p) = []"
  shows "snd (applyReportBlockMutation unesc st es p) = st
    \<or> NeedsFinalize (snd (applyReportBlockMutation unesc st es p))"
proof -
  have u: "snd (upsertReportBlock unesc st es q) = st \<or> NeedsFinalize (snd (upsertReportBlock unesc st es q))"
    if "trim_space (bp_BeforeBlockID q) = []" "trim_space (bp_AfterBlockID q) = []" for q
    using prod.collapse [of "upsertReportBlock unesc st es q", symmetric]
    by (cases rule: upsert_cases) (use that in auto)
  have m: "snd (moveReportBlock st es q) = st \<or> NeedsFinalize (snd (moveReportBlock st es q))" for q
    using prod.collapse [of "moveReportBlock st es q", symmetric]
    by (cases rule: move_cases) auto
  show ?thesis using assms
    by (simp add: applyReportBlockMutation_def Let_def u m removeReportBlock_def split: option.split)
qed

lemma chart_call_draft:
  "snd (applyReportChartMutation st es p) = st \<or> NeedsFinalize (snd (applyReportChartMutation st es p))"
  using prod.collapse [of "applyReportChartMutation st es p", symmetric]
  by (cases rule: chart_cases) auto

lemma issues_cong:
  "same_report st st' \<Longrightarrow> reportFinalizeIssues (Some st') = reportFinalizeIssues (Some st)"
  by (simp add: reportFinalizeIssues_def same_report_def known_charts_def)

lemma finalize_delivery_inv:
  assumes "delivery_inv st" "FinalizeReport_Execute po pr pd checker st args = Some (out, st')"
  shows "delivery_inv st'"
  using assms(2)
proof (cases rule: finalize_execute_cases)
  case failed
  then have "ds_IsFinalized (describeReportDeliveryStateLocked st') =
      ds_IsFinalized (describeReportDeliveryStateLocked st)"
    by (simp add: delivery_simps same_report_def same_delivery_def)
  with failed(1) assms(1) show ?thesis by (simp add: delivery_inv_def issues_cong)
next
  case (delivered p a)
  then have "same_report st st'" by (simp add: same_report_def)
  with delivered show ?thesis by (simp add: delivery_inv_def issues_cong)
qed

lemma guarded_delivery_inv:
  assumes "delivery_inv st" "unplaced op"
  shows "delivery_inv (report_step unesc po pd st op)"
proof (cases op)
  case (OpBlocks es args)
  then show ?thesis using assms delivery_inv_changed [OF block_call_draft assms(1)]
    by (cases args) (simp_all add: execute_state unplaced_def)
next
  case (OpChart es args)
  then show ?thesis using assms delivery_inv_changed [OF chart_call_draft assms(1)]
    by (cases args) (simp_all add: chart_execute_state)
next
  case (OpLayout raw args)
  with assms(1) layout_cases [OF prod.collapse [symmetric], of st raw args] show ?thesis
    by (auto intro: delivery_inv_draft)
next
  case (OpFinalize provider checker args)
  with assms(1) show ?thesis by (auto intro: finalize_delivery_inv split: option.split)
qed

definition unplaced_step ::
  "(string \<Rightarrow> string) \<Rightarrow> (string \<Rightarrow> (string \<times> json) list option) \<Rightarrow> (string \<Rightarrow> string result) option \<Rightarrow>
   report_state \<Rightarrow> report_op \<Rightarrow> report_state" where
  "unplaced_step unesc po pd st op = (if unplaced op then report_step unesc po pd st op else st)"

interpretation delivery_machine:
  machine "unplaced_step unesc po pd" "\<lambda>st. st = empty_report" delivery_inv for unesc po pd
proof unfold_locales
  show "delivery_inv st" if "st = empty_report" for st
    using that by (simp add: delivery_inv_def delivery_simps empty_report_def)
qed (simp add: unplaced_step_def guarded_delivery_inv)

lemma unplaced_run:
  "list_all unplaced ops \<Longrightarrow>
     foldl (report_step unesc po pd) st ops = foldl (unplaced_step unesc po pd) st ops"
  by (induction ops arbitrary: st) (simp_all add: unplaced_step_def)

subsection \<open>Repeated refusals\<close>

lemma refused_call:
  assumes "\<not> ds_IsFinalized (describeReportDeliveryStateLocked st)"
    and "checker = None \<or> (\<exists>bs. checker = Some (Some (True, bs)))"
    and "reportFinalizeIssues (Some st) = []"
    and "filter unresolved_source sources \<noteq> []"
  shows "FinalizeReport_Execute po (Some (Inr sources)) pd checker st (Inr p) =
    (let sem = reportSemanticFinalizeIssues po sources pd; a = finalize_issues_answer st sem sem
     in Some (Inr (fst a), snd a))"
proof -
  have "reportSemanticFinalizeIssues po sources pd \<noteq> []"
    using assms(4) by (simp add: reportSemanticFinalizeIssues_def)
  with assms show ?thesis
    by (auto simp: FinalizeReport_Execute_def finalizeReportState_def semantic_issues_def Let_def
        split_beta)
qed

text \<open>The state after \<open>n\<close> identical refused calls, from a state with another signature.\<close>

definition refused_state :: "report_state \<Rightarrow> string \<Rightarrow> nat \<Rightarrow> report_state" where
  "refused_state st sig n =
     (if n = 0 then st else st\<lparr>LastFinalizeIssueSignature := sig, FinalizeAttempts := int n\<rparr>)"

lemma issues_answer_counts:
  assumes "semanticFinalizeIssueSignature iss = sig" "sig \<noteq> []" "LastFinalizeIssueSignature st \<noteq> sig"
  shows "snd (finalize_issues_answer (refused_state st sig n) iss sem) = refused_state st sig (Suc n)"
    and "fst (finalize_issues_answer (refused_state st sig n) iss sem) ''error_code'' =
      Some (JStr (if n < 4 then ''report_state_invalid'' else ''finalize_loop_detected''))"
  using assms
  by (simp_all add: finalize_issues_answer_def refused_state_def Let_def maxFinalizeRetries_def
      loop_failure_def answer_defs)

lemma refused_state_report:
  "same_report st (refused_state st sig n) \<and> same_delivery st (refused_state st sig n)"
  by (simp add: refused_state_def same_report_def same_delivery_def)

lemma delivery_cong:
  "same_report st st' \<Longrightarrow> same_delivery st st' \<Longrightarrow>
     ds_IsFinalized (describeReportDeliveryStateLocked st') =
     ds_IsFinalized (describeReportDeliveryStateLocked st)"
  by (simp add: delivery_simps same_report_def same_delivery_def)

section \<open>Properties\<close>

text \<open>
  C16. Whatever sequence of report tool calls is made (blocks, charts, layout, finalize), under
  whatever scopes, sources and goal trees, as long as the block calls give no placement: a report
  whose delivery state is \<open>finalized\<close> has a renderable block, and every chart its blocks
  refer to exists and is referred to exactly once.
\<close>

theorem finalized_report_is_sound:
  assumes "list_all unplaced ops"
  shows "let st = foldl (report_step unesc po pd) empty_report ops
    in ds_DeliveryState (describeReportDeliveryStateLocked st) = ''finalized'' \<longrightarrow>
       renderableReportBlockCount (Blocks st) > 0
       \<and> (\<forall>c \<in> set (chart_references (Blocks st)).
            c \<in> known_charts st \<and> count_list (chart_references (Blocks st)) c = 1)"
proof -
  let ?st = "foldl (report_step unesc po pd) empty_report ops"
  have inv: "delivery_inv ?st"
    unfolding unplaced_run [OF assms] by (rule delivery_machine.inv_run) simp
  have "ds_IsFinalized (describeReportDeliveryStateLocked ?st)"
    if "ds_DeliveryState (describeReportDeliveryStateLocked ?st) = ''finalized''"
    using that by (auto simp: delivery_simps split: if_splits)
  with inv show ?thesis
    unfolding Let_def delivery_inv_def finalize_issues_none by blast
qed

text \<open>A report with one Markdown block that shows one chart inline, and the calls that deliver it.\<close>

definition sample_session :: "report_op list" where
  "sample_session =
     [OpBlocks None (Inr (sample_params ''append'' ''intro'' ''hello'' [])),
      OpFinalize None None (Inr \<lparr>fp_ReportTitle = ''T'', fp_Author = []\<rparr>)]"

lemma hello_no_refs: "chartRefsOutsideChartBlock ''hello'' = []"
  by (simp add: chartRefsOutsideChartBlock_def chart_refs.simps(2))

lemmas eval_finalize =
  FinalizeReport_Execute_def finalizeReportState_def semantic_issues_def finalize_issues_none
  renderableReportBlockCount_def chart_references_def referencedChartsOutsideChartBlocks_def
  is_chart_block_def equal_fold_def to_lower_def lower_char_def delivery_simps hello_no_refs

lemma sample_upsert:
  "upsertReportBlock unesc empty_report None (sample_params ''append'' ''intro'' ''hello'' [])
     = (Inr \<lparr>br_Action = ''append'', br_BlockID = ''intro'', br_BlockKind = ''markdown'', br_BlockCount = 1,
          br_UISummary = ''block [markdown] intro written to report state; delivery_state=draft''\<rparr>,
        empty_report\<lparr>Blocks := [sample_block ''intro'' ''hello''], NeedsFinalize := True\<rparr>)"
proof -
  let ?b = "sample_block ''intro'' ''hello''"
  have build: "buildReportBlock ''markdown'' ''intro'' [] ''hello'' [] [] (length (Blocks empty_report) + 1) = Inr ?b"
    by (simp add: buildReportBlock_def resolve_block_id_def sample_block_def trim_eval)
  have b: "rb_ID ?b = ''intro''" "rb_Kind ?b = ''markdown''" by (simp_all add: sample_block_def)
  have f: "findReportBlockIndex (Blocks empty_report) x = None" for x
    by (simp add: findReportBlockIndex_def empty_report_def)
  have pos: "upsert_position empty_report ''intro'' (sample_params ''append'' ''intro'' ''hello'' []) = Inr 0"
    by (simp add: upsert_position_def sample_params_def f resolveReportBlockInsertIndex_def without_block_def)
      (simp add: empty_report_def)
  have bl: "without_block empty_report x = []" for x by (simp add: without_block_def f) (simp add: empty_report_def)
  have s: "upsert_with_sources empty_report ?b = ?b" by (simp add: upsert_with_sources_def f)
  have g: "BlockMutationAllowed None a x" "SelectionBlockMutationAllowed unesc None ?b" for a x
    by (simp_all add: BlockMutationAllowed_def SelectionBlockMutationAllowed_def)
  have p: "trim_space (bp_BlockKind (sample_params ''append'' ''intro'' ''hello'' [])) = []"
    "bp_BlockID (sample_params ''append'' ''intro'' ''hello'' []) = ''intro''"
    "trim_space (bp_Title (sample_params ''append'' ''intro'' ''hello'' [])) = []"
    "bp_Content (sample_params ''append'' ''intro'' ''hello'' []) = ''hello''"
    "trim_space (bp_ChartID (sample_params ''append'' ''intro'' ''hello'' [])) = []"
    "bp_Sources (sample_params ''append'' ''intro'' ''hello'' []) = []"
    "bp_Action (sample_params ''append'' ''intro'' ''hello'' []) = ''append''"
    by (simp_all add: sample_params_def)
  show ?thesis
    unfolding upsertReportBlock_def
    by (simp only: p simp_thms if_True if_False Let_def build sum.case s b f g bl pos)
      (simp add: insertReportBlockAt_def insert_nth_def empty_report_def)
qed

lemma sample_session_step1:
  "report_step unesc po pd empty_report (OpBlocks None (Inr (sample_params ''append'' ''intro'' ''hello'' [])))
     = empty_report\<lparr>Blocks := [sample_block ''intro'' ''hello''], NeedsFinalize := True\<rparr>"
proof -
  have "applyReportBlockMutation unesc empty_report None (sample_params ''append'' ''intro'' ''hello'' [])
      = upsertReportBlock unesc empty_report None (sample_params ''append'' ''intro'' ''hello'' [])"
    by (simp add: applyReportBlockMutation_def sample_params_def trim_eval)
  then show ?thesis by (simp add: execute_state sample_upsert)
qed

lemma sample_session_step2:
  "report_step unesc po pd (empty_report\<lparr>Blocks := [sample_block ''intro'' ''hello''], NeedsFinalize := n\<rparr>)
     (OpFinalize None None (Inr \<lparr>fp_ReportTitle = t, fp_Author = []\<rparr>))
     = empty_report\<lparr>Blocks := [sample_block ''intro'' ''hello''], FinalTitle := t\<rparr>"
  by (simp add: eval_finalize Let_def sample_block_def empty_report_def trim_eval)

theorem finalized_report_is_sound_witness:
  "list_all unplaced sample_session \<and>
   (let st = foldl (report_step (\<lambda>x. x) Map.empty None) empty_report sample_session
    in ds_DeliveryState (describeReportDeliveryStateLocked st) = ''finalized''
       \<and> renderableReportBlockCount (Blocks st) > 0)"
proof -
  have u: "list_all unplaced sample_session"
    by (simp add: sample_session_def unplaced_def sample_params_def)
  moreover have "ds_DeliveryState (describeReportDeliveryStateLocked
      (foldl (report_step (\<lambda>x. x) Map.empty None) empty_report sample_session)) = ''finalized''"
    unfolding sample_session_def foldl.simps sample_session_step1 sample_session_step2
    by (simp add: delivery_simps empty_report_def trim_eval)
  ultimately show ?thesis
    using finalized_report_is_sound [OF u, of "\<lambda>x. x" Map.empty None] by (simp add: Let_def)
qed

text \<open>
  Whatever sequence of report tool calls is made, placements included: the blocks stay well
  formed and the custom style sheet never exceeds 10240 bytes.
\<close>

theorem report_always_bounded:
  "let st = foldl (report_step unesc po pd) empty_report ops
   in blocks_inv st \<and> length (CustomCSS (Layout st)) \<le> 10240"
  using report_machine.inv_run [of empty_report unesc po pd ops]
  by (simp add: Let_def report_inv_def maxCustomCSSSize_def)

text \<open>
  One finalize call never changes the blocks, the charts or the layout. If it does not
  answer \<open>ok\<close>, the title, author and draft flag are unchanged too; if it does, the goal
  checker allowed it, no structural or semantic issue was left, and, for a title that is not
  blank, the report is now in the delivery state \<open>finalized\<close>.
\<close>

theorem finalize_call_spec:
  assumes "FinalizeReport_Execute po pr pd checker st args = Some (out, st')"
  shows "same_report st st'
    \<and> ((\<exists>a p. out = Inr a \<and> a ''ok'' = Some (JBool True) \<and> args = Inr p
          \<and> (checker = None \<or> (\<exists>bs. checker = Some (Some (True, bs))))
          \<and> reportFinalizeIssues (Some st) = [] \<and> semantic_issues po pr pd = []
          \<and> FinalTitle st' = fp_ReportTitle p
          \<and> (trim_space (fp_ReportTitle p) \<noteq> [] \<longrightarrow>
               ds_DeliveryState (describeReportDeliveryStateLocked st') = ''finalized''))
       \<or> (same_delivery st st' \<and> (\<forall>a. out = Inr a \<longrightarrow> a ''ok'' = Some (JBool False))))"
  using assms
proof (cases rule: finalize_execute_cases)
  case (delivered p a)
  have "Blocks st \<noteq> []"
    using delivered(6) unfolding finalize_issues_none by (auto simp: renderableReportBlockCount_def)
  with delivered show ?thesis by (simp add: same_report_def delivery_simps)
qed simp

theorem finalize_call_spec_witness:
  "\<exists>out st'. FinalizeReport_Execute Map.empty None None None empty_report (Inl ''bad'') = Some (out, st')
     \<and> same_report empty_report st'"
proof -
  have e: "FinalizeReport_Execute Map.empty None None None empty_report (Inl ''bad'')
      = Some (Inl (''failed to parse parameters: '' @ ''bad''), empty_report)"
    by (simp add: FinalizeReport_Execute_def)
  from finalize_call_spec [OF e] e show ?thesis by blast
qed

text \<open>The report after \<open>n\<close> calls with the same arguments and sources.\<close>

fun finalize_repeat ::
  "(string \<Rightarrow> (string \<times> json) list option) \<Rightarrow> sessionSourceSummary list \<Rightarrow> (string \<Rightarrow> string result) option \<Rightarrow>
   (bool \<times> string list) option option \<Rightarrow> reportFinalizeParams \<Rightarrow> report_state \<Rightarrow> nat \<Rightarrow> report_state" where
  "finalize_repeat po sources pd checker p st 0 = st"
| "finalize_repeat po sources pd checker p st (Suc n) =
     (case FinalizeReport_Execute po (Some (Inr sources)) pd checker
             (finalize_repeat po sources pd checker p st n) (Inr p) of
        Some (_, st') \<Rightarrow> st' | None \<Rightarrow> finalize_repeat po sources pd checker p st n)"

text \<open>
  Loop detection: as long as the same sources stay unresolved, the first four calls of
  \<open>report_finalize\<close> report the issues and every later one reports \<open>finalize_loop_detected\<close>; the
  report is not delivered by any of them.
\<close>

theorem finalize_loop_detected_after_four:
  assumes "\<not> ds_IsFinalized (describeReportDeliveryStateLocked st)"
    and "checker = None \<or> (\<exists>bs. checker = Some (Some (True, bs)))"
    and "reportFinalizeIssues (Some st) = []"
    and "filter unresolved_source sources \<noteq> []"
    and "LastFinalizeIssueSignature st = []"
  shows "\<exists>a st'. FinalizeReport_Execute po (Some (Inr sources)) pd checker
        (finalize_repeat po sources pd checker p st n) (Inr p) = Some (Inr a, st')
    \<and> a ''error_code'' =
        Some (JStr (if n < 4 then ''report_state_invalid'' else ''finalize_loop_detected''))
    \<and> \<not> ds_IsFinalized (describeReportDeliveryStateLocked st')"
proof -
  let ?sem = "reportSemanticFinalizeIssues po sources pd"
  let ?sig = "semanticFinalizeIssueSignature ?sem"
  let ?r = "refused_state st ?sig"
  let ?call = "\<lambda>st. FinalizeReport_Execute po (Some (Inr sources)) pd checker st (Inr p)"
  have sig: "?sig \<noteq> []" "LastFinalizeIssueSignature st \<noteq> ?sig"
    using signature_of_unresolved [OF assms(4), of po pd] assms(5) by simp_all
  have open_r: "\<not> ds_IsFinalized (describeReportDeliveryStateLocked (?r k))"
    "reportFinalizeIssues (Some (?r k)) = []" for k
    using assms(1,3) refused_state_report [of st ?sig k] by (metis delivery_cong issues_cong)+
  have step: "?call (?r k) = Some (Inr (fst (finalize_issues_answer (?r k) ?sem ?sem)), ?r (Suc k))" for k
    using refused_call [OF open_r(1) assms(2) open_r(2) assms(4)] issues_answer_counts(1) [OF refl sig]
    by (simp add: Let_def)
  have "finalize_repeat po sources pd checker p st k = ?r k" for k
    by (induction k) (simp_all add: step, simp add: refused_state_def)
  then show ?thesis
    using step issues_answer_counts(2) [OF refl sig] open_r(1) by auto
qed

definition sample_source :: sessionSourceSummary where
  "sample_source = \<lparr>ss_SourceID = ''s'', ss_DisplayName = ''d'', ss_AnalysisTableName = ''t'',
     ss_SemanticStatus = ''inferred'', ss_ProfileID = ''p'', ss_AmbiguityCount = 2,
     ss_ConfirmedOverrideCount = 0\<rparr>"

lemma sample_draft_ready:
  "reportFinalizeIssues (Some (empty_report\<lparr>Blocks := [sample_block ''intro'' ''hello''], NeedsFinalize := True\<rparr>)) = []"
  by (simp add: eval_finalize sample_block_def trim_eval)

theorem finalize_loop_detected_after_four_witness:
  "\<exists>a st'. FinalizeReport_Execute Map.empty (Some (Inr [sample_source])) None None
      (finalize_repeat Map.empty [sample_source] None None \<lparr>fp_ReportTitle = ''T'', fp_Author = []\<rparr>
        (empty_report\<lparr>Blocks := [sample_block ''intro'' ''hello''], NeedsFinalize := True\<rparr>) 4)
      (Inr \<lparr>fp_ReportTitle = ''T'', fp_Author = []\<rparr>) = Some (Inr a, st')
    \<and> a ''error_code'' = Some (JStr ''finalize_loop_detected'')"
proof -
  have "filter unresolved_source [sample_source] \<noteq> []"
    by (simp add: unresolved_source_def sample_source_def trim_eval to_lower_def lower_char_def)
  from finalize_loop_detected_after_four [OF _ _ sample_draft_ready this, of None Map.empty None
      "\<lparr>fp_ReportTitle = ''T'', fp_Author = []\<rparr>" 4]
  show ?thesis by (auto simp: delivery_simps empty_report_def)
qed

text \<open>
  A blank title is accepted: the tool answers \<open>delivery_state = finalized\<close> while the delivery
  state derived from the report is \<open>draft\<close>.
\<close>

theorem blank_title_answers_finalized:
  "\<exists>a st'. FinalizeReport_Execute po None pd None
       (empty_report\<lparr>Blocks := [sample_block ''intro'' ''hello''], NeedsFinalize := True\<rparr>)
       (Inr \<lparr>fp_ReportTitle = [], fp_Author = []\<rparr>) = Some (Inr a, st')
     \<and> a ''delivery_state'' = Some (JStr ''finalized'')
     \<and> ds_DeliveryState (describeReportDeliveryStateLocked st') = ''draft''"
  by (simp add: eval_finalize Let_def sample_block_def empty_report_def trim_eval
      finalize_answer_def answer_defs)

text \<open>
  The placement restriction of the soundness theorem is needed: an upsert that fails on its
  \<open>before_block_id\<close> after a report was delivered leaves a report that still counts as \<open>finalized\<close>
  and no longer has a block.
\<close>

theorem failed_upsert_breaks_finalized_report:
  "\<exists>ops. let st = foldl (report_step (\<lambda>x. x) Map.empty None) empty_report ops
     in ds_DeliveryState (describeReportDeliveryStateLocked st) = ''finalized''
        \<and> reportFinalizeIssues (Some st) = [''report_has_no_blocks'']"
proof -
  let ?step = "report_step (\<lambda>x. x) Map.empty None"
  obtain opt where o: "resolveChartOption (sample_chart ''c'') = Inr opt"
    using sample_chart_built by blast
  let ?c = "\<lparr>cd_ID = ''c'', cd_Option = opt, cd_Width = ''100%'', cd_Height = ''400px''\<rparr>"
  let ?r = "empty_report\<lparr>Blocks := [sample_block ''intro'' ''hello''], Charts := [?c], FinalTitle := ''T''\<rparr>"
  let ?ops = "[OpBlocks None (Inr (sample_params ''append'' ''intro'' ''hello'' [])),
      OpChart None (Inr (sample_chart ''c'')),
      OpFinalize None None (Inr \<lparr>fp_ReportTitle = ''T'', fp_Author = []\<rparr>),
      OpBlocks None (Inr (sample_params ''upsert'' ''intro'' ''x'' ''zz''))]"
  have 2: "?step (empty_report\<lparr>Blocks := [sample_block ''intro'' ''hello''], NeedsFinalize := True\<rparr>)
      (OpChart None (Inr (sample_chart ''c''))) = ?r\<lparr>FinalTitle := [], NeedsFinalize := True\<rparr>"
    using o by (simp add: chart_execute_state applyReportChartMutation_def ChartMutationAllowed_def
        Let_def store_chart_def sample_chart_def empty_report_def)
  have 3: "?step (?r\<lparr>FinalTitle := [], NeedsFinalize := True\<rparr>)
      (OpFinalize None None (Inr \<lparr>fp_ReportTitle = ''T'', fp_Author = []\<rparr>)) = ?r"
    by (simp add: eval_finalize Let_def sample_block_def empty_report_def trim_eval)
  have 4: "?step ?r (OpBlocks None (Inr (sample_params ''upsert'' ''intro'' ''x'' ''zz''))) = ?r\<lparr>Blocks := []\<rparr>"
    by (simp add: execute_state eval_blocks sample_params_def sample_block_def)
  have "foldl ?step empty_report ?ops = ?r\<lparr>Blocks := []\<rparr>"
    unfolding foldl.simps sample_session_step1 2 3 4 ..
  moreover have "ds_DeliveryState (describeReportDeliveryStateLocked (?r\<lparr>Blocks := []\<rparr>)) = ''finalized''"
    by (simp add: delivery_simps empty_report_def trim_eval)
  moreover have "reportFinalizeIssues (Some (?r\<lparr>Blocks := []\<rparr>)) = [''report_has_no_blocks'']"
    by (simp add: reportFinalizeIssues_def renderableReportBlockCount_def chart_references_def)
  ultimately show ?thesis unfolding Let_def by metis
qed

end
