(* ===== verification/Tool_Registry.thy ===== *)
theory Tool_Registry
  imports Agent_Engine Working_Memory Subgoals Report_Finalize
begin

text \<open>
  The tool registry of \<open>server/tools/registry.go\<close>, the registry that \<open>session.New\<close> builds from
  the global tool builders (\<open>server/session/types.go\<close>), and the modelled tools as registry
  entries over one shared tool state.

  A tool call may not return (the goal search of \<open>Subgoals\<close> can diverge on a corrupt goal list),
  so the result of a tool is an option, \<open>None\<close> standing for a call that does not come back.
\<close>

section \<open>The registry\<close>

type_synonym tool_outcome = "string \<times> string option \<times> ws_event list"

record 'w tool =
  tl_Name :: string
  tl_Description :: string
  tl_Parameters :: string
  tl_Strict :: "bool option"
  tl_Execute :: "string \<Rightarrow> 'w \<Rightarrow> (tool_outcome \<times> 'w) option"

type_synonym 'w registry = "(string \<times> 'w tool) list"

definition NewRegistry :: "'w registry" where
  "NewRegistry = []"

definition Register :: "'w registry \<Rightarrow> 'w tool \<Rightarrow> 'w registry" where
  "Register r t = AList.update (tl_Name t) t r"

definition Registry_Get :: "'w registry \<Rightarrow> string \<Rightarrow> 'w tool result" where
  "Registry_Get r name =
     (case map_of r name of
        None \<Rightarrow> Inl (''tool '' @ [CHR 0x27] @ name @ [CHR 0x27] @ '' not registered'')
      | Some t \<Rightarrow> Inr t)"

definition HasTool :: "'w registry \<Rightarrow> string \<Rightarrow> bool" where
  "HasTool r name \<longleftrightarrow> map_of r name \<noteq> None"

definition ListTools :: "'w registry \<Rightarrow> 'w tool list" where
  "ListTools r = map snd r"

definition CloneFiltered :: "'w registry \<Rightarrow> string list \<Rightarrow> 'w registry" where
  "CloneFiltered r allowed =
     foldl (\<lambda>filtered name. case map_of r name of Some t \<Rightarrow> Register filtered t | None \<Rightarrow> filtered)
       NewRegistry allowed"

text \<open>\<open>globalToolBuilders\<close> is the list of builders, in the order of their registration.\<close>

definition RegisterGlobalTool :: "('c \<Rightarrow> 'w tool option) list \<Rightarrow> ('c \<Rightarrow> 'w tool option) \<Rightarrow>
    ('c \<Rightarrow> 'w tool option) list" where
  "RegisterGlobalTool builders b = builders @ [b]"

definition LoadGlobalTools :: "('c \<Rightarrow> 'w tool option) list \<Rightarrow> 'c \<Rightarrow> 'w registry \<Rightarrow> 'w registry" where
  "LoadGlobalTools builders ctx r =
     foldl (\<lambda>r b. case b ctx of Some t \<Rightarrow> Register r t | None \<Rightarrow> r) r builders"

record function_spec =
  fs_Name :: string
  fs_Description :: string
  fs_Parameters :: string
  fs_Strict :: bool

record tool_spec =
  ts_Type :: string
  ts_Function :: function_spec

definition GetToolSpecs :: "'w registry \<Rightarrow> tool_spec list" where
  "GetToolSpecs r =
     map (\<lambda>t. \<lparr>ts_Type = ''function'',
               ts_Function = \<lparr>fs_Name = tl_Name t, fs_Description = tl_Description t,
                              fs_Parameters = tl_Parameters t,
                              fs_Strict = (case tl_Strict t of None \<Rightarrow> False | Some b \<Rightarrow> b)\<rparr>\<rparr>)
         (ListTools r)"

definition Registry_Execute ::
  "'w registry \<Rightarrow> string \<Rightarrow> string \<Rightarrow> 'w \<Rightarrow> (tool_outcome \<times> 'w) option" where
  "Registry_Execute r name args w =
     (case Registry_Get r name of
        Inl err \<Rightarrow> Some (([], Some err, []), w)
      | Inr t \<Rightarrow> tl_Execute t args w)"

subsection \<open>The registry of a session\<close>

definition runtimeAllowed :: "string list" where
  "runtimeAllowed =
     [''state_time_context_inspect'', ''state_session_sources_inspect'',
      ''state_semantic_profile_inspect'', ''data_list_tables'', ''data_describe_table'',
      ''data_query_sql'', ''report_create_chart'', ''report_manage_blocks'',
      ''report_configure_layout'', ''report_finalize'', ''memory_save_fact'',
      ''state_memory_inspect'', ''state_goal_inspect'', ''state_report_inspect'',
      ''state_report_edit_inspect'', ''state_source_confirm_profile'', ''goal_manage'',
      ''user_request_input'', ''task_delegate'']"

definition buildRuntimeRegistry ::
  "('c \<Rightarrow> 'w tool option) list \<Rightarrow> 'c \<Rightarrow> string list \<Rightarrow> 'w registry" where
  "buildRuntimeRegistry builders ctx allowed =
     (let reg = LoadGlobalTools builders ctx NewRegistry
      in if allowed \<noteq> [] then CloneFiltered reg allowed else reg)"

section \<open>Laws of the registry\<close>

text \<open>Every tool is stored under its own name, once.\<close>

definition registry_ok :: "'w registry \<Rightarrow> bool" where
  "registry_ok r \<longleftrightarrow> distinct (map fst r) \<and> (\<forall>(n, t) \<in> set r. tl_Name t = n)"

lemma registry_ok_new [inv_intros]: "registry_ok NewRegistry"
  by (simp add: registry_ok_def NewRegistry_def)

lemma registry_ok_lookup: "registry_ok r \<Longrightarrow> map_of r n = Some t \<Longrightarrow> tl_Name t = n"
  unfolding registry_ok_def by (blast dest: map_of_SomeD)

lemma registry_ok_register [inv_intros]: "registry_ok r \<Longrightarrow> registry_ok (Register r t)"
  using set_update_subset [of "tl_Name t" t r]
  by (fastforce simp: registry_ok_def Register_def distinct_update)

lemma map_of_register: "map_of (Register r t) = (map_of r)(tl_Name t \<mapsto> t)"
  by (simp add: Register_def update_conv')

lemma registry_ok_load: "registry_ok r \<Longrightarrow> registry_ok (LoadGlobalTools builders ctx r)"
  unfolding LoadGlobalTools_def
  by (induction builders arbitrary: r) (auto intro: inv_intros split: option.split)

lemma clone_steps:
  assumes "registry_ok r" "registry_ok acc"
  shows "registry_ok (foldl (\<lambda>f name. case map_of r name of Some t \<Rightarrow> Register f t | None \<Rightarrow> f) acc allowed)
    \<and> map_of (foldl (\<lambda>f name. case map_of r name of Some t \<Rightarrow> Register f t | None \<Rightarrow> f) acc allowed) n
      = (if n \<in> set allowed \<and> map_of r n \<noteq> None then map_of r n else map_of acc n)"
  using assms(2)
proof (induction allowed arbitrary: acc)
  case (Cons a allowed)
  show ?case
  proof (cases "map_of r a")
    case None
    then show ?thesis using Cons by auto
  next
    case (Some t)
    have "registry_ok (Register acc t)" using Cons.prems by (rule inv_intros)
    from Cons.IH [OF this] Some registry_ok_lookup [OF assms(1) Some] show ?thesis
      by (auto simp: map_of_register)
  qed
qed simp

lemma clone_lookup:
  assumes "registry_ok r"
  shows "map_of (CloneFiltered r allowed) n = (if n \<in> set allowed then map_of r n else None)"
  using clone_steps [OF assms registry_ok_new, of allowed n]
  by (auto simp: CloneFiltered_def NewRegistry_def)

lemma registry_ok_clone: "registry_ok r \<Longrightarrow> registry_ok (CloneFiltered r allowed)"
  unfolding CloneFiltered_def by (blast intro: clone_steps [THEN conjunct1] registry_ok_new)

lemma registry_ok_runtime: "registry_ok (buildRuntimeRegistry builders ctx allowed)"
  by (simp add: buildRuntimeRegistry_def Let_def registry_ok_clone registry_ok_load registry_ok_new)

section \<open>Properties\<close>

text \<open>
  The registry of a (sub-)agent is cut to its allowed tools: with a non-empty list of allowed
  names, a call of a name in the list behaves as in the unrestricted registry, and a call of
  any other name is refused with the registry's error, runs no tool and changes nothing.
\<close>

theorem runtime_registry_restricts:
  assumes "allowed \<noteq> []"
  shows "Registry_Execute (buildRuntimeRegistry builders ctx allowed) name args w =
     (if name \<in> set allowed
      then Registry_Execute (buildRuntimeRegistry builders ctx []) name args w
      else Some (([], Some (''tool '' @ [CHR 0x27] @ name @ [CHR 0x27] @ '' not registered''), []), w))"
  using assms clone_lookup [OF registry_ok_load [OF registry_ok_new], of builders ctx allowed name]
  by (simp add: Registry_Execute_def Registry_Get_def buildRuntimeRegistry_def Let_def)

definition sample_builder :: "unit \<Rightarrow> unit tool option" where
  "sample_builder ctx = Some \<lparr>tl_Name = ''echo'', tl_Description = [], tl_Parameters = [], tl_Strict = None,
     tl_Execute = \<lambda>args w. Some ((args, None, []), w)\<rparr>"

theorem runtime_registry_restricts_witness:
  "Registry_Execute (buildRuntimeRegistry [sample_builder] () [''other'']) ''echo'' ''x'' () =
     Some (([], Some (''tool '' @ [CHR 0x27] @ ''echo'' @ [CHR 0x27] @ '' not registered''), []), ())"
  by (subst runtime_registry_restricts) simp_all

end
