(* ===== verification/Session_Tools.thy ===== *)
theory Session_Tools
  imports Tool_Registry
begin

text \<open>
  The modelled tools as entries of the session's registry, over one tool state: the working
  memory, the goal list, the report and the edit scope that \<open>session.New\<close> hands to every tool
  through \<open>tools.ToolContext\<close>. The theory shows that every call of such a registry keeps the
  invariants of all four, returns, and emits no event that ends a run.
\<close>

section \<open>Shared tool state and dependencies\<close>

record tool_world =
  tw_Memory :: "working_memory option"
  tw_Goals :: "subgoal_manager option"
  tw_Report :: report_state
  tw_Edit :: "report_edit_state option"

text \<open>
  What the tools take from outside: the clock, fresh UUIDs, the JSON decoder for each argument
  type (\<open>Inl\<close> the decoder's error), the encoder for answers, the HTML unescaper, the source
  and profile providers, and the texts shown to the model.
\<close>

record tool_deps =
  td_now :: "tool_world \<Rightarrow> int"
  td_uuid :: "tool_world \<Rightarrow> string"
  td_unesc :: "string \<Rightarrow> string"
  td_quote :: "string \<Rightarrow> string"
  td_object :: "string \<Rightarrow> (string \<times> json) list option"
  td_sources :: "sessionSourceSummary list result option"
  td_profile :: "(string \<Rightarrow> string result) option"
  td_marshal :: "payload \<Rightarrow> string"
  td_doc :: "string \<Rightarrow> string \<times> string"
  td_save_args :: "string \<Rightarrow> string + string \<times> string"
  td_goal_args :: "string \<Rightarrow> string + goal_manage_args"
  td_block_args :: "string \<Rightarrow> string + reportBlockMutationParams"
  td_chart_args :: "string \<Rightarrow> string + createChartParams"
  td_layout_keys :: "string \<Rightarrow> string + string list"
  td_layout_args :: "string \<Rightarrow> string + reportLayoutParams"
  td_final_args :: "string \<Rightarrow> string + reportFinalizeParams"
  td_ask_args :: "string \<Rightarrow> string + ask_user_args"

text \<open>The Go pair \<open>(string, error)\<close> of an answer, with the events emitted on the way.\<close>

definition tool_answer :: "tool_deps \<Rightarrow> ws_event list \<Rightarrow> payload result \<Rightarrow> tool_outcome" where
  "tool_answer d evs r =
     (case r of Inl e \<Rightarrow> ([], Some e, evs) | Inr p \<Rightarrow> (td_marshal d p, None, evs))"

definition mk_tool ::
  "tool_deps \<Rightarrow> string \<Rightarrow> (string \<Rightarrow> tool_world \<Rightarrow> (tool_outcome \<times> tool_world) option) \<Rightarrow> tool_world tool" where
  "mk_tool d name ex =
     \<lparr>tl_Name = name, tl_Description = fst (td_doc d name), tl_Parameters = snd (td_doc d name),
      tl_Strict = None, tl_Execute = ex\<rparr>"

section \<open>The tools\<close>

definition SaveMemoryTool :: "tool_deps \<Rightarrow> tool_world tool" where
  "SaveMemoryTool d = mk_tool d ''memory_save_fact'' (\<lambda>args w.
     case SaveMemory_Execute (tw_Memory w) True (td_save_args d args) of
       (mem, evs, r) \<Rightarrow> Some (tool_answer d evs r, w\<lparr>tw_Memory := mem\<rparr>))"

definition InspectMemoryTool :: "tool_deps \<Rightarrow> tool_world tool" where
  "InspectMemoryTool d = mk_tool d ''state_memory_inspect'' (\<lambda>args w.
     Some (tool_answer d [] (InspectMemory_Execute (tw_Memory w)), w))"

definition AskUserTool :: "tool_deps \<Rightarrow> tool_world tool" where
  "AskUserTool d = mk_tool d ''user_request_input'' (\<lambda>args w.
     Some (tool_answer d [] (AskUser_Execute (td_quote d) (td_ask_args d args)), w))"

definition ManageSubgoalsTool :: "tool_deps \<Rightarrow> tool_world tool" where
  "ManageSubgoalsTool d = mk_tool d ''goal_manage'' (\<lambda>args w.
     map_option (\<lambda>(mgr, evs, r). (tool_answer d evs r, w\<lparr>tw_Goals := mgr\<rparr>))
       (ManageSubgoals_Execute (td_now d w) (td_uuid d w) True (tw_Goals w) (td_goal_args d args)))"

definition InspectGoalsTool :: "tool_deps \<Rightarrow> tool_world tool" where
  "InspectGoalsTool d = mk_tool d ''state_goal_inspect'' (\<lambda>args w.
     map_option (\<lambda>r. (tool_answer d [] r, w)) (InspectGoals_Execute (tw_Goals w)))"

definition ManageReportBlocksTool :: "tool_deps \<Rightarrow> tool_world tool" where
  "ManageReportBlocksTool d = mk_tool d ''report_manage_blocks'' (\<lambda>args w.
     case ManageReportBlocks_Execute (td_unesc d) (tw_Edit w) (tw_Report w) (td_block_args d args) of
       (r, st) \<Rightarrow> Some (tool_answer d [] r, w\<lparr>tw_Report := st\<rparr>))"

definition CreateChartTool :: "tool_deps \<Rightarrow> tool_world tool" where
  "CreateChartTool d = mk_tool d ''report_create_chart'' (\<lambda>args w.
     case CreateChart_Execute (tw_Edit w) (tw_Report w) (td_chart_args d args) of
       (r, st) \<Rightarrow> Some (tool_answer d [] r, w\<lparr>tw_Report := st\<rparr>))"

definition ConfigureReportTool :: "tool_deps \<Rightarrow> tool_world tool" where
  "ConfigureReportTool d = mk_tool d ''report_configure_layout'' (\<lambda>args w.
     case ConfigureReport_Execute (tw_Report w) (td_layout_keys d args) (td_layout_args d args) of
       (r, st) \<Rightarrow> Some (tool_answer d [] r, w\<lparr>tw_Report := st\<rparr>))"

definition FinalizeReportTool :: "tool_deps \<Rightarrow> tool_world tool" where
  "FinalizeReportTool d = mk_tool d ''report_finalize'' (\<lambda>args w.
     map_option (\<lambda>(r, st). (tool_answer d [] r, w\<lparr>tw_Report := st\<rparr>))
       (FinalizeReport_Execute (td_object d) (td_sources d) (td_profile d)
          (map_option CanFinalize (tw_Goals w)) (tw_Report w) (td_final_args d args)))"

text \<open>
  The global builders of these tools. A builder answers nil when the pointer its tool needs is
  nil in the context.
\<close>

definition session_builders :: "tool_deps \<Rightarrow> (tool_world \<Rightarrow> tool_world tool option) list" where
  "session_builders d =
     [\<lambda>ctx. map_option (\<lambda>_. SaveMemoryTool d) (tw_Memory ctx),
      \<lambda>ctx. map_option (\<lambda>_. InspectMemoryTool d) (tw_Memory ctx),
      \<lambda>ctx. Some (AskUserTool d),
      \<lambda>ctx. map_option (\<lambda>_. InspectGoalsTool d) (tw_Goals ctx),
      \<lambda>ctx. map_option (\<lambda>_. ManageSubgoalsTool d) (tw_Goals ctx),
      \<lambda>ctx. Some (CreateChartTool d),
      \<lambda>ctx. Some (ManageReportBlocksTool d),
      \<lambda>ctx. Some (ConfigureReportTool d),
      \<lambda>ctx. Some (FinalizeReportTool d)]"

definition session_tools :: "tool_deps \<Rightarrow> tool_world tool list" where
  "session_tools d =
     [SaveMemoryTool d, InspectMemoryTool d, AskUserTool d, InspectGoalsTool d, ManageSubgoalsTool d,
      CreateChartTool d, ManageReportBlocksTool d, ConfigureReportTool d, FinalizeReportTool d]"

definition session_registry :: "tool_deps \<Rightarrow> tool_world \<Rightarrow> string list \<Rightarrow> tool_world registry" where
  "session_registry d ctx allowed = buildRuntimeRegistry (session_builders d) ctx allowed"

section \<open>Which tools a session has\<close>

lemma load_step_range:
  "list_all (\<lambda>b. \<forall>t. b ctx = Some t \<longrightarrow> t \<in> T) bs \<Longrightarrow> snd ` set r \<subseteq> T \<Longrightarrow>
     snd ` set (LoadGlobalTools bs ctx r) \<subseteq> T"
  unfolding LoadGlobalTools_def
proof (induction bs arbitrary: r)
  case (Cons b bs)
  have "snd ` set (Register r t) \<subseteq> insert t (snd ` set r)" for t
    using image_mono [OF set_update_subset, of snd "tl_Name t" t r] by (simp add: Register_def)
  then have "snd ` set (case b ctx of Some t \<Rightarrow> Register r t | None \<Rightarrow> r) \<subseteq> T"
    using Cons.prems by (cases "b ctx") (simp_all, blast)
  with Cons show ?case by simp
qed simp

lemma session_builders_range:
  "list_all (\<lambda>b. \<forall>t. b ctx = Some t \<longrightarrow> t \<in> set (session_tools d)) (session_builders d)"
  by (auto simp: session_builders_def session_tools_def)

lemma session_registry_range:
  assumes "map_of (session_registry d ctx allowed) name = Some t"
  shows "t \<in> set (session_tools d)"
proof -
  let ?reg = "LoadGlobalTools (session_builders d) ctx NewRegistry"
  have "registry_ok ?reg" by (intro registry_ok_load registry_ok_new)
  then have "map_of ?reg name = Some t"
    using assms clone_lookup [of ?reg allowed name]
    by (auto simp: session_registry_def buildRuntimeRegistry_def Let_def split: if_splits)
  then have "t \<in> snd ` set ?reg" by (force dest: map_of_SomeD)
  moreover have "snd ` set (NewRegistry :: tool_world registry) \<subseteq> set (session_tools d)"
    by (simp add: NewRegistry_def)
  ultimately show ?thesis using load_step_range [OF session_builders_range] by blast
qed

text \<open>A call either fails in the lookup or runs one of the tools above.\<close>

lemma registry_call_cases:
  assumes "Registry_Execute (session_registry d ctx allowed) name args w = out"
  obtains (unknown) e where "out = Some (([], Some e, []), w)"
    | (tool) t where "t \<in> set (session_tools d)" "out = tl_Execute t args w"
  using assms session_registry_range
  by (fastforce simp: Registry_Execute_def Registry_Get_def split: option.splits)

section \<open>Invariants kept by every call\<close>

definition world_inv :: "tool_world \<Rightarrow> bool" where
  "world_inv w \<longleftrightarrow> (\<forall>m. tw_Memory w = Some m \<longrightarrow> memory_inv m)
     \<and> (\<forall>gs. tw_Goals w = Some gs \<longrightarrow> goals_inv gs \<and> distinct (map sg_ID gs))
     \<and> report_inv (tw_Report w)"

text \<open>The generator returns an id no goal of the tree has.\<close>

definition fresh_ids :: "tool_deps \<Rightarrow> bool" where
  "fresh_ids d \<longleftrightarrow> (\<forall>w gs. world_inv w \<longrightarrow> tw_Goals w = Some gs \<longrightarrow>
     ''goal_'' @ take 8 (td_uuid d w) \<notin> sg_ID ` set gs)"

definition goals_ok :: "tool_world \<Rightarrow> bool" where
  "goals_ok w \<longleftrightarrow> (\<forall>gs. tw_Goals w = Some gs \<longrightarrow> goals_inv gs \<and> distinct (map sg_ID gs))"

lemma world_invI [intro]:
  "\<lbrakk>\<And>m. tw_Memory w = Some m \<Longrightarrow> memory_inv m; goals_ok w; report_inv (tw_Report w)\<rbrakk> \<Longrightarrow> world_inv w"
  by (simp add: world_inv_def goals_ok_def)

lemma world_invD:
  assumes "world_inv w"
  shows "tw_Memory w = Some m \<Longrightarrow> memory_inv m" "goals_ok w" "report_inv (tw_Report w)"
  using assms by (auto simp: world_inv_def goals_ok_def)

lemma goals_ok_other [simp]:
  "goals_ok (w\<lparr>tw_Memory := m\<rparr>) = goals_ok w" "goals_ok (w\<lparr>tw_Report := r\<rparr>) = goals_ok w"
  by (simp_all add: goals_ok_def)

lemma can_finalize_some: "goals_ok w \<Longrightarrow> tw_Goals w = Some gs \<Longrightarrow> \<exists>v. CanFinalize gs = Some v"
  using can_finalize_terminates [OF distinct_ids_one_parent] by (auto simp: goals_ok_def)

text \<open>A contract for one tool: it returns and keeps the invariants.\<close>

definition tool_ok :: "tool_world tool \<Rightarrow> bool" where
  "tool_ok t \<longleftrightarrow> (\<forall>args w. world_inv w \<longrightarrow>
     (case tl_Execute t args w of
        None \<Rightarrow> False
      | Some (_, w') \<Rightarrow> world_inv w'))"

lemma tool_okI:
  assumes "\<And>args w. world_inv w \<Longrightarrow> \<exists>evs r w'. ex args w = Some (tool_answer d evs r, w')
      \<and> world_inv w'"
  shows "tool_ok (mk_tool d n ex)"
  unfolding tool_ok_def
proof (intro allI impI)
  fix args w assume "world_inv w"
  from assms [OF this] obtain evs r w' where "ex args w = Some (tool_answer d evs r, w')"
    "world_inv w'" by blast
  then show "case tl_Execute (mk_tool d n ex) args w of None \<Rightarrow> False
      | Some (_, w') \<Rightarrow> world_inv w'"
    by (simp add: mk_tool_def tool_answer_def split: sum.split)
qed

lemma report_call:
  assumes "world_inv w"
  shows "world_inv (w\<lparr>tw_Report := report_step u po pd (tw_Report w) op\<rparr>)"
  using report_step_inv [OF world_invD(3) [OF assms]] world_invD [OF assms] by auto

lemma save_memory_inv:
  assumes "memory_inv m"
  shows "\<exists>m' evs r. SaveMemory_Execute (Some m) e a = (Some m', evs, r) \<and> memory_inv m'"
proof (cases a)
  case (Inl x)
  then show ?thesis using assms by (simp add: SaveMemory_Execute_def)
next
  case (Inr kf)
  obtain k f where kf: "kf = (k, f)" by fastforce
  obtain m' saved where sv: "SaveFact m k f = (m', saved)" by fastforce
  then have "memory_inv m'" using save_fact_inv [OF assms, of k f] by simp
  then show ?thesis using assms Inr kf sv
    by (simp add: SaveMemory_Execute_def Let_def terminal_mk event_types)
qed

lemma save_memory_ok: "tool_ok (SaveMemoryTool d)"
  unfolding SaveMemoryTool_def
proof (rule tool_okI)
  fix args w assume w: "world_inv w"
  show "\<exists>evs r w'. (case SaveMemory_Execute (tw_Memory w) True (td_save_args d args) of
       (mem, evs, r) \<Rightarrow> Some (tool_answer d evs r, w\<lparr>tw_Memory := mem\<rparr>)) = Some (tool_answer d evs r, w')
     \<and> world_inv w'"
  proof (cases "tw_Memory w")
    case None
    then show ?thesis using w by (auto simp: SaveMemory_Execute_def world_inv_def)
  next
    case (Some m)
    with save_memory_inv [OF world_invD(1) [OF w Some], of True "td_save_args d args"] w show ?thesis
      by (fastforce simp: world_inv_def)
  qed
qed

lemma report_tool_okI:
  assumes "\<And>args w. ex args w = Some (tool_answer d [] (r args w),
      w\<lparr>tw_Report := report_step u po pd (tw_Report w) (oper args w)\<rparr>)"
  shows "tool_ok (mk_tool d n ex)"
proof (rule tool_okI)
  fix args w assume "world_inv w"
  then have "world_inv (w\<lparr>tw_Report := report_step u po pd (tw_Report w) (oper args w)\<rparr>)"
    by (rule report_call)
  then show "\<exists>evs r w'. ex args w = Some (tool_answer d evs r, w') \<and> world_inv w'"
    unfolding assms by fastforce
qed

lemma blocks_tool_ok: "tool_ok (ManageReportBlocksTool d)"
  unfolding ManageReportBlocksTool_def
  by (rule report_tool_okI [where oper = "\<lambda>args w. OpBlocks (tw_Edit w) (td_block_args d args)" and u = "td_unesc d"])
    (simp add: split_beta)

lemma chart_tool_ok: "tool_ok (CreateChartTool d)"
  unfolding CreateChartTool_def
  by (rule report_tool_okI [where oper = "\<lambda>args w. OpChart (tw_Edit w) (td_chart_args d args)"])
    (simp add: split_beta)

lemma layout_tool_ok: "tool_ok (ConfigureReportTool d)"
  unfolding ConfigureReportTool_def
  by (rule report_tool_okI [where oper = "\<lambda>args w. OpLayout (td_layout_keys d args) (td_layout_args d args)"])
    (simp add: split_beta)

lemma finalize_tool_ok: "tool_ok (FinalizeReportTool d)"
  unfolding FinalizeReportTool_def
proof (rule tool_okI)
  fix args w assume w: "world_inv w"
  let ?checker = "map_option CanFinalize (tw_Goals w)"
  let ?call = "FinalizeReport_Execute (td_object d) (td_sources d) (td_profile d) ?checker (tw_Report w)
      (td_final_args d args)"
  have "?checker \<noteq> Some None"
    using can_finalize_some [OF world_invD(2) [OF w]] by (cases "tw_Goals w") auto
  then have "\<exists>r st. ?call = Some (r, st)" by (rule finalize_returns)
  then obtain r st where c: "?call = Some (r, st)" by blast
  have "world_inv (w\<lparr>tw_Report := st\<rparr>)"
    using report_call [OF w, where op = "OpFinalize (td_sources d) ?checker (td_final_args d args)"
        and po = "td_object d" and pd = "td_profile d"] c by simp
  with c show "\<exists>evs r w'. map_option (\<lambda>(r, st). (tool_answer d [] r, w\<lparr>tw_Report := st\<rparr>)) ?call
      = Some (tool_answer d evs r, w') \<and> world_inv w'"
    by fastforce
qed

lemma manage_goals_tool_ok: "fresh_ids d \<Longrightarrow> tool_ok (ManageSubgoalsTool d)"
  unfolding ManageSubgoalsTool_def
proof (rule tool_okI)
  fix args w assume fresh: "fresh_ids d" and w: "world_inv w"
  let ?call = "ManageSubgoals_Execute (td_now d w) (td_uuid d w) True (tw_Goals w) (td_goal_args d args)"
  show "\<exists>evs r w'. map_option (\<lambda>(mgr, evs, r). (tool_answer d evs r, w\<lparr>tw_Goals := mgr\<rparr>)) ?call
      = Some (tool_answer d evs r, w') \<and> world_inv w'"
  proof (cases "tw_Goals w")
    case None
    then show ?thesis using w by (auto simp: ManageSubgoals_Execute_def world_inv_def)
  next
    case (Some gs)
    then have gs: "goals_inv gs" "distinct (map sg_ID gs)" "''goal_'' @ take 8 (td_uuid d w) \<notin> sg_ID ` set gs"
      using w fresh by (auto simp: world_inv_def fresh_ids_def)
    obtain gs' evs r where c: "?call = Some (Some gs', evs, r)" "distinct (map sg_ID gs')"
      using manage_goals_returns [OF gs(2,3), of "td_now d w" True "td_goal_args d args"] Some by auto
    then have "goals_inv gs'" using manage_goals_inv [OF gs(1)] Some by fastforce
    then have "world_inv (w\<lparr>tw_Goals := Some gs'\<rparr>)" using w c(2) by (simp add: world_inv_def)
    with c show ?thesis by fastforce
  qed
qed

lemma inspect_goals_tool_ok: "tool_ok (InspectGoalsTool d)"
  unfolding InspectGoalsTool_def
proof (rule tool_okI)
  fix args w assume w: "world_inv w"
  have "\<exists>r. InspectGoals_Execute (tw_Goals w) = Some r"
    using can_finalize_some [OF world_invD(2) [OF w]]
    by (auto simp: InspectGoals_Execute_def buildGoalStateFacts_def split: option.split)
  then show "\<exists>evs r w'. map_option (\<lambda>r. (tool_answer d [] r, w)) (InspectGoals_Execute (tw_Goals w))
      = Some (tool_answer d evs r, w') \<and> world_inv w'"
    using w by fastforce
qed

lemma read_tools_ok: "tool_ok (InspectMemoryTool d)" "tool_ok (AskUserTool d)"
  unfolding InspectMemoryTool_def AskUserTool_def by (rule tool_okI, fastforce)+

lemmas tools_ok =
  save_memory_ok blocks_tool_ok chart_tool_ok layout_tool_ok finalize_tool_ok manage_goals_tool_ok
  inspect_goals_tool_ok read_tools_ok

lemma session_tools_ok: "fresh_ids d \<Longrightarrow> t \<in> set (session_tools d) \<Longrightarrow> tool_ok t"
  by (auto simp: session_tools_def intro: tools_ok)

lemma registry_call_ok:
  assumes "fresh_ids d" "world_inv w"
  obtains res err evs w' where
    "Registry_Execute (session_registry d ctx allowed) name args w = Some ((res, err, evs), w')"
    "world_inv w'"
proof -
  have "\<exists>res err evs w'. Registry_Execute (session_registry d ctx allowed) name args w = Some ((res, err, evs), w')
    \<and> world_inv w'"
  proof (rule registry_call_cases [OF refl, of d ctx allowed name args w])
    fix e assume "Registry_Execute (session_registry d ctx allowed) name args w = Some (([], Some e, []), w)"
    with assms(2) show ?thesis by simp
  next
    fix t assume t: "t \<in> set (session_tools d)"
      and e: "Registry_Execute (session_registry d ctx allowed) name args w = tl_Execute t args w"
    from session_tools_ok [OF assms(1) t] assms(2) e show ?thesis
      by (fastforce simp: tool_ok_def split: option.splits)
  qed
  with that show thesis by blast
qed

section \<open>What the world of a run keeps\<close>

text \<open>
  Interfaces between the loop and its environment: a property of the world that the tools, the
  clock and the cancellation signal keep.
\<close>

locale kept_tools =
  fixes env :: "'w engine_env" and I :: "'w \<Rightarrow> bool"
  assumes tool_keeps: "I w \<Longrightarrow> env_tool env w n a = (out, w') \<Longrightarrow> I w'"
    and done_keeps: "I w \<Longrightarrow> env_done env w = (dn, w') \<Longrightarrow> I w'"
    and sleep_keeps: "I w \<Longrightarrow> env_sleep env w secs = (dn, w') \<Longrightarrow> I w'"
begin

lemma poll_keeps: "I (rs_world s) \<Longrightarrow> poll env s = (dn, s') \<Longrightarrow> I (rs_world s')"
  by (auto simp: poll_def split: prod.splits dest: done_keeps)

lemma run_tool_keeps: "I (rs_world s) \<Longrightarrow> run_tool env n a s = (r, s') \<Longrightarrow> I (rs_world s')"
  by (auto simp: run_tool_def split: prod.splits dest: tool_keeps)

lemma retry_keeps: "I (rs_world s) \<Longrightarrow> retry_exec env n a k s = (out, s') \<Longrightarrow> I (rs_world s')"
proof (induction k arbitrary: s)
  case 0
  obtain dn s1 where p: "poll env s = (dn, s1)" by fastforce
  obtain res err s2 where t: "run_tool env n a s1 = ((res, err), s2)" by (metis surj_pair)
  show ?case using 0 p t poll_keeps [OF 0(1) p] run_tool_keeps [OF _ t]
    by (subst (asm) retry_exec.simps) (auto simp: Let_def split: if_splits)
next
  case (Suc k)
  obtain dn s1 where p: "poll env s = (dn, s1)" by fastforce
  obtain res err s2 where t: "run_tool env n a s1 = ((res, err), s2)" by (metis surj_pair)
  obtain d2 w where sl: "env_sleep env (rs_world s2) (2 ^ (2 - k)) = (d2, w)" by (metis surj_pair)
  have 2: "I (rs_world s2)" using run_tool_keeps [OF poll_keeps [OF Suc.prems(1) p] t] .
  then have "I w" using sleep_keeps [OF _ sl] by blast
  then show ?case
    using Suc.prems Suc.IH [of "s2\<lparr>rs_world := w\<rparr>"] p t sl 2 poll_keeps [OF Suc.prems(1) p]
    by (subst (asm) retry_exec.simps) (auto simp: Let_def split: if_splits)
qed

end

text \<open>If the model keeps it too, it holds when the run ends.\<close>

locale kept_world = kept_tools +
  assumes llm_keeps: "I w \<Longrightarrow> env_llm env w b k = (r, w') \<Longrightarrow> I w'"
begin

lemma ask_keeps: "I (rs_world s) \<Longrightarrow> ask_llm env s t b = (r, s') \<Longrightarrow> I (rs_world s')"
  by (auto simp: ask_llm_def split: prod.splits dest: llm_keeps)

lemma final_keeps: "I (rs_world s) \<Longrightarrow> finalResponseAfterFinalize env s = (r, s') \<Longrightarrow> I (rs_world s')"
proof -
  assume s: "I (rs_world s)" and f: "finalResponseAfterFinalize env s = (r, s')"
  obtain a s1 where a: "ask_llm env s [] False = (a, s1)" by fastforce
  have "rs_world s' = rs_world s1"
    using f a by (auto simp: finalResponseAfterFinalize_def Let_def split: sum.splits list.splits if_splits)
  with ask_keeps [OF s a] show ?thesis by simp
qed

lemma after_tool_keeps:
  assumes "I (rs_world s)"
  shows "I (rs_world (outcome_state (after_tool env c out s)))"
proof -
  obtain dn s1 where p1: "poll env s = (dn, s1)" by fastforce
  let ?res = "case snd out of Some e \<Rightarrow> ''tool execution error: '' @ sanitizeToolError e | None \<Rightarrow> fst out"
  let ?s2 = "emit s1 (tool_result_event c ?res (env_elapsed env (rs_world s1))
    (toolCallSucceeded (env_codec env) (fst out) (snd out)))"
  obtain d2 s3 where p2: "poll env ?s2 = (d2, s3)" by fastforce
  let ?s4 = "remember s3 (tool_item (tc_ID c) (compactToolResult (env_codec env) (tc_Name c) ?res))"
  obtain r s5 where f: "finalResponseAfterFinalize env ?s4 = (r, s5)" by fastforce
  have 1: "I (rs_world s1)" using poll_keeps [OF assms p1] .
  then have 3: "I (rs_world s3)" using poll_keeps [OF _ p2] by simp
  then have "I (rs_world s5)" using final_keeps [OF _ f] by simp
  with 1 3 show ?thesis using p1 p2 f
    by (auto simp: after_tool_def split_beta Let_def split: sum.split)
qed

lemma exec_keeps:
  assumes "I (rs_world s)"
  shows "I (rs_world (outcome_state (exec_tool_call env c s)))"
proof -
  let ?s1 = "emit s (tool_call_event c)"
  obtain res err s2 where t: "run_tool env (tc_Name c) (tc_Arguments c) ?s1 = ((res, err), s2)"
    by (metis surj_pair)
  obtain out s3 where r: "retryableToolExec env (tc_Name c) (tc_Arguments c) ?s1 = (out, s3)" by fastforce
  have "I (rs_world s2)" "I (rs_world s3)"
    using run_tool_keeps [OF _ t] retry_keeps [OF _ r [unfolded retryableToolExec_def]] assms by simp_all
  then show ?thesis
    using t r assms by (auto simp: exec_tool_call_def Let_def after_tool_keeps split: sum.split)
qed

lemma tool_calls_keep: "I (rs_world s) \<Longrightarrow> I (rs_world (outcome_state (tool_calls env cs s)))"
proof (induction cs arbitrary: s)
  case (Cons c cs)
  show ?case
    using exec_keeps [OF Cons.prems, of c] Cons.IH [of "outcome_state (exec_tool_call env c s)"]
    by (cases "exec_tool_call env c s") simp_all
qed simp

lemma turn_keeps:
  assumes "I (rs_world s)"
  shows "I (rs_world (outcome_state (one_turn env task s)))"
proof -
  obtain r s1 where a: "ask_llm env s task True = (r, s1)" by fastforce
  have "I (rs_world (outcome_state (handle_choice env choice s2)))" if "I (rs_world s2)" for choice s2
    using that by (auto simp: handle_choice_def Let_def intro!: tool_calls_keep)
  with ask_keeps [OF assms a] a show ?thesis
    by (auto simp: one_turn_def Let_def split: sum.split list.split)
qed

lemma loop_keeps: "I (rs_world s) \<Longrightarrow> I (rs_world (run_loop env i task s))"
proof (induction "Suc maxMainLoopIterations - i" arbitrary: i task s rule: less_induct)
  case less
  obtain dn s1 where p: "poll env s = (dn, s1)" by fastforce
  have 1: "I (rs_world s1)" using poll_keeps [OF less.prems p] .
  have rest: "I (rs_world (run_loop env (Suc i) [] s2))"
    if "one_turn env task s1 = NextTurn s2" "\<not> maxMainLoopIterations < i" for s2
    using less.hyps [of "Suc i" s2 "[]"] turn_keeps [OF 1, of task] that by simp
  show ?case
    using p 1 turn_keeps [OF 1, of task] rest
    by (subst run_loop.simps) (auto split: loop_outcome.split)
qed

lemma run_keeps: "I w \<Longrightarrow> I (rs_world (Run env userInput w e))"
  by (simp add: Run_def loop_keeps)

end

section \<open>The session's tools under the engine\<close>

lemma manage_goals_events:
  assumes "ManageSubgoals_Execute now u em mgr args = Some (mgr', evs, r)"
  shows "list_all (\<lambda>ev. \<not> terminal ev) evs"
proof -
  have "list_all (\<lambda>ev. \<not> terminal ev) (emitUpdate em gs)" for gs
    by (simp add: emitUpdate_def terminal_mk event_types)
  then show ?thesis using assms
    by (auto simp: ManageSubgoals_Execute_def close_goal_def split: option.splits sum.splits if_splits prod.splits)
qed


lemma save_memory_events:
  "SaveMemory_Execute mem em args = (mem', evs, r) \<Longrightarrow> list_all (\<lambda>ev. \<not> terminal ev) evs"
  by (auto simp: SaveMemory_Execute_def Let_def terminal_mk event_types
      split: option.splits sum.splits if_splits prod.splits)

lemma answer_events [simp]: "tool_answer d evs r = (res, err, evs') \<Longrightarrow> evs' = evs"
  by (auto simp: tool_answer_def split: sum.splits)

lemma session_tool_events:
  assumes "t \<in> set (session_tools d)" "tl_Execute t args w = Some ((res, err, evs), w')"
  shows "list_all (\<lambda>ev. \<not> terminal ev) evs"
  using assms save_memory_events manage_goals_events
  by (auto simp: session_tools_def SaveMemoryTool_def InspectMemoryTool_def AskUserTool_def
      InspectGoalsTool_def ManageSubgoalsTool_def CreateChartTool_def ManageReportBlocksTool_def
      ConfigureReportTool_def FinalizeReportTool_def mk_tool_def split: prod.splits dest!: answer_events)

lemma registry_events:
  assumes "Registry_Execute (session_registry d ctx allowed) name args w = Some ((res, err, evs), w')"
  shows "list_all (\<lambda>ev. \<not> terminal ev) evs"
  using assms
  by (rule registry_call_cases) (auto dest: session_tool_events [OF _ sym])

text \<open>
  The engine's environment with the session's registry behind \<open>registry.Execute\<close>. A call that
  does not return never hands control back to the loop; the engine's tool function is total, so
  its value there is immaterial: \<open>registry_call_ok\<close> excludes the case.
\<close>

definition session_env ::
  "tool_deps \<Rightarrow> tool_world \<Rightarrow> string list \<Rightarrow> tool_world engine_env \<Rightarrow> tool_world engine_env" where
  "session_env d ctx allowed env =
     env\<lparr>env_tool := \<lambda>w n a.
       case Registry_Execute (session_registry d ctx allowed) n a w of
         Some r \<Rightarrow> r | None \<Rightarrow> (([], None, []), w)\<rparr>"

interpretation session_quiet: quiet_tools "session_env d ctx allowed env" for d ctx allowed env
proof unfold_locales
  show "list_all (\<lambda>ev. \<not> terminal ev) evs"
    if "env_tool (session_env d ctx allowed env) w n a = ((res, err, evs), w')" for w n a res err evs w'
    using that registry_events by (auto simp: session_env_def split: option.splits)
qed

text \<open>
  The rest of the environment as far as the tool state is concerned: the model, the clock and
  the cancellation signal do not write the tool state, and the ids are fresh. The parameters are
  those of a session; \<open>still\<close> is an environment around a given tool table.
\<close>

definition still :: "tool_world engine_env \<Rightarrow> bool" where
  "still env \<longleftrightarrow> (\<forall>w b k. snd (env_llm env w b k) = w) \<and> (\<forall>w. snd (env_done env w) = w)
     \<and> (\<forall>w n. snd (env_sleep env w n) = w)"

interpretation session_kept: kept_world "session_env d ctx allowed env"
  "\<lambda>w. fresh_ids d \<and> still env \<longrightarrow> world_inv w" for d ctx allowed env
proof unfold_locales
  fix w n a out w'
  assume w: "fresh_ids d \<and> still env \<longrightarrow> world_inv w"
    and call: "env_tool (session_env d ctx allowed env) w n a = (out, w')"
  show "fresh_ids d \<and> still env \<longrightarrow> world_inv w'"
  proof
    assume fs: "fresh_ids d \<and> still env"
    obtain res err evs w2 where
      "Registry_Execute (session_registry d ctx allowed) n a w = Some ((res, err, evs), w2)" "world_inv w2"
      using registry_call_ok w fs by blast
    with call show "world_inv w'" by (simp add: session_env_def)
  qed
next
  fix w b k r w'
  assume "fresh_ids d \<and> still env \<longrightarrow> world_inv w" "env_llm (session_env d ctx allowed env) w b k = (r, w')"
  moreover have "still env \<longrightarrow> snd (env_llm env w b k) = w" by (simp add: still_def)
  ultimately show "fresh_ids d \<and> still env \<longrightarrow> world_inv w'" by (auto simp: session_env_def)
next
  fix w dn w'
  assume "fresh_ids d \<and> still env \<longrightarrow> world_inv w" "env_done (session_env d ctx allowed env) w = (dn, w')"
  moreover have "still env \<longrightarrow> snd (env_done env w) = w" by (simp add: still_def)
  ultimately show "fresh_ids d \<and> still env \<longrightarrow> world_inv w'" by (auto simp: session_env_def)
next
  fix w secs dn w'
  assume "fresh_ids d \<and> still env \<longrightarrow> world_inv w" "env_sleep (session_env d ctx allowed env) w secs = (dn, w')"
  moreover have "still env \<longrightarrow> snd (env_sleep env w secs) = w" by (simp add: still_def)
  ultimately show "fresh_ids d \<and> still env \<longrightarrow> world_inv w'" by (auto simp: session_env_def)
qed

section \<open>Delivery\<close>

abbreviation delivered :: "report_state \<Rightarrow> bool" where
  "delivered st \<equiv> ds_IsFinalized (describeReportDeliveryStateLocked st)"

lemma block_call_no_delivery:
  "delivered (snd (applyReportBlockMutation unesc st es p)) \<Longrightarrow> delivered st"
proof -
  have lost: "Blocks st = [] \<Longrightarrow> without_block st i = []" for i
    by (simp add: without_block_def remove_nth_def split: option.split)
  have u: "delivered (snd (upsertReportBlock unesc st es q)) \<Longrightarrow> delivered st" for q
    using prod.collapse [of "upsertReportBlock unesc st es q", symmetric]
    by (cases rule: upsert_cases) (auto simp: delivery_simps lost)
  have m: "delivered (snd (moveReportBlock st es q)) \<Longrightarrow> delivered st" for q
    using prod.collapse [of "moveReportBlock st es q", symmetric]
    by (cases rule: move_cases) (auto simp: delivery_simps)
  have r: "delivered (snd (removeReportBlock st es q)) \<Longrightarrow> delivered st" for q
    by (auto simp: removeReportBlock_def Let_def delivery_simps split: option.splits if_splits)
  show "delivered (snd (applyReportBlockMutation unesc st es p)) \<Longrightarrow> delivered st"
    by (auto simp: applyReportBlockMutation_def Let_def split: if_splits dest: u m r)
qed

lemma draft_not_delivered: "st' = st \<or> NeedsFinalize st' \<Longrightarrow> delivered st' \<Longrightarrow> delivered st"
  by (auto simp: delivery_simps)

lemma no_delivery_by_edits:
  assumes "delivered (report_step unesc po pd st op)" "\<not> delivered st"
  shows "\<exists>provider checker args. op = OpFinalize provider checker args"
proof (cases op)
  case (OpBlocks es args)
  then show ?thesis using assms block_call_no_delivery
    by (cases args) (auto simp: execute_state)
next
  case (OpChart es args)
  then show ?thesis using assms draft_not_delivered [OF chart_call_draft, of st es]
    by (cases args) (auto simp: chart_execute_state)
next
  case (OpLayout raw args)
  with assms layout_cases [OF prod.collapse [symmetric], of st raw args] show ?thesis
    by (auto simp: delivery_simps)
qed simp

lemma finalize_delivers:
  assumes "FinalizeReport_Execute po pr pd checker st args = Some (out, st')"
    and "delivered st'" "\<not> delivered st"
  shows "(checker = None \<or> (\<exists>bs. checker = Some (Some (True, bs)))) \<and> reportFinalizeIssues (Some st) = []
    \<and> semantic_issues po pr pd = [] \<and> same_report st st'"
  using assms(1)
proof (cases rule: finalize_execute_cases)
  case failed
  then have "delivered st' = delivered st"
    by (simp add: delivery_simps same_report_def same_delivery_def)
  with assms show ?thesis by simp
qed (simp_all add: same_report_def)

text \<open>
  A call of a session tool touches the report through one of the four report operations, or not
  at all.
\<close>

lemma session_tool_report:
  assumes "t \<in> set (session_tools d)" "tl_Execute t args w = Some (out, w')"
  shows "tw_Report w' = tw_Report w
    \<or> (\<exists>op. tw_Report w' = report_step (td_unesc d) (td_object d) (td_profile d) (tw_Report w) op
          \<and> (\<forall>p c a. op \<noteq> OpFinalize p c a))
    \<or> (tl_Name t = ''report_finalize'' \<and>
        (\<exists>r. FinalizeReport_Execute (td_object d) (td_sources d) (td_profile d)
               (map_option CanFinalize (tw_Goals w)) (tw_Report w) (td_final_args d args)
             = Some (r, tw_Report w')) \<and> tw_Goals w' = tw_Goals w)"
proof -
  let ?step = "report_step (td_unesc d) (td_object d) (td_profile d) (tw_Report w)"
  have ops: "snd (ManageReportBlocks_Execute (td_unesc d) es (tw_Report w) a1) = ?step (OpBlocks es a1)"
    "snd (CreateChart_Execute es (tw_Report w) a2) = ?step (OpChart es a2)"
    "snd (ConfigureReport_Execute (tw_Report w) raw a3) = ?step (OpLayout raw a3)" for es a1 a2 a3 raw
    by simp_all
  consider "t = ManageReportBlocksTool d" | "t = CreateChartTool d" | "t = ConfigureReportTool d"
    | "t = FinalizeReportTool d"
    | "t \<in> {SaveMemoryTool d, InspectMemoryTool d, AskUserTool d, InspectGoalsTool d, ManageSubgoalsTool d}"
    using assms(1) by (auto simp: session_tools_def)
  then show ?thesis
  proof cases
    case 1
    then have "tw_Report w' = ?step (OpBlocks (tw_Edit w) (td_block_args d args))"
      using assms(2) by (auto simp: ManageReportBlocksTool_def mk_tool_def split_beta)
    then show ?thesis by blast
  next
    case 2
    then have "tw_Report w' = ?step (OpChart (tw_Edit w) (td_chart_args d args))"
      using assms(2) by (auto simp: CreateChartTool_def mk_tool_def split_beta)
    then show ?thesis by blast
  next
    case 3
    then have "tw_Report w' = ?step (OpLayout (td_layout_keys d args) (td_layout_args d args))"
      using assms(2) by (auto simp: ConfigureReportTool_def mk_tool_def split_beta)
    then show ?thesis by blast
  next
    case 4
    then show ?thesis using assms(2) by (auto simp: FinalizeReportTool_def mk_tool_def)
  next
    case 5
    then show ?thesis using assms(2)
      by (auto simp: SaveMemoryTool_def InspectMemoryTool_def AskUserTool_def InspectGoalsTool_def
          ManageSubgoalsTool_def mk_tool_def split: prod.splits)
  qed
qed

lemma session_registry_names:
  "map_of (session_registry d ctx allowed) name = Some t \<Longrightarrow> tl_Name t = name"
  unfolding session_registry_def by (rule registry_ok_lookup [OF registry_ok_runtime])

section \<open>A concrete session\<close>

text \<open>
  Dependencies for examples: every decoder answers one fixed value, and the UUID is the first of
  31 one-letter names no goal carries.
\<close>

definition candidate_ids :: "string list" where
  "candidate_ids = map (\<lambda>n. [char_of n]) [65..<96]"

definition first_free_id :: "tool_world \<Rightarrow> string" where
  "first_free_id w =
     (case tw_Goals w of
        None \<Rightarrow> []
      | Some gs \<Rightarrow>
          (case find (\<lambda>u. ''goal_'' @ u \<notin> sg_ID ` set gs) candidate_ids of Some u \<Rightarrow> u | None \<Rightarrow> []))"

definition sample_deps :: tool_deps where
  "sample_deps =
     \<lparr>td_now = \<lambda>w. 0, td_uuid = first_free_id, td_unesc = \<lambda>s. s, td_quote = \<lambda>s. s, td_object = \<lambda>s. None,
      td_sources = None, td_profile = None, td_marshal = \<lambda>p. ''{}'', td_doc = \<lambda>n. ([], []),
      td_save_args = \<lambda>a. Inr (''k'', a),
      td_goal_args = \<lambda>a. Inr \<lparr>ga_action = ''add'', ga_description = a, ga_parent_goal_id = [],
        ga_blocking = True, ga_goal_id = [], ga_result = []\<rparr>,
      td_block_args = \<lambda>a. Inl ''bad'', td_chart_args = \<lambda>a. Inl ''bad'', td_layout_keys = \<lambda>a. Inl ''bad'',
      td_layout_args = \<lambda>a. Inl ''bad'', td_final_args = \<lambda>a. Inr \<lparr>fp_ReportTitle = ''T'', fp_Author = []\<rparr>,
      td_ask_args = \<lambda>a. Inl ''bad''\<rparr>"

definition sample_world :: tool_world where
  "sample_world =
     \<lparr>tw_Memory = Some NewWorkingMemory, tw_Goals = Some [],
      tw_Report = empty_report\<lparr>Blocks := [sample_block ''intro'' ''hello''], NeedsFinalize := True\<rparr>,
      tw_Edit = None\<rparr>"

lemma candidates_distinct: "distinct (map (\<lambda>u. ''goal_'' @ u) candidate_ids)" "length candidate_ids = 31"
  by (simp_all add: candidate_ids_def upt_rec)

lemma candidate_short: "u \<in> set candidate_ids \<Longrightarrow> take 8 u = u"
  by (auto simp: candidate_ids_def)

lemma sample_fresh: "fresh_ids sample_deps"
  unfolding fresh_ids_def
proof (intro allI impI)
  fix w gs assume "world_inv w" and g: "tw_Goals w = Some gs"
  then have "length gs \<le> 30" by (simp add: world_inv_def goals_inv_def maxGoals_def)
  then have "card (sg_ID ` set gs) < card (set (map (\<lambda>u. ''goal_'' @ u) candidate_ids))"
    using card_image_le [OF finite_set, of sg_ID gs] card_length [of gs] candidates_distinct(2)
      distinct_card [OF candidates_distinct(1)] by (simp only: length_map)
  then have "\<not> set (map (\<lambda>u. ''goal_'' @ u) candidate_ids) \<subseteq> sg_ID ` set gs"
    using card_mono [of "sg_ID ` set gs" "set (map (\<lambda>u. ''goal_'' @ u) candidate_ids)"]
    by (meson finite_imageI finite_set not_less)
  then have "find (\<lambda>u. ''goal_'' @ u \<notin> sg_ID ` set gs) candidate_ids \<noteq> None"
    by (auto simp: find_None_iff)
  then obtain u where u: "find (\<lambda>u. ''goal_'' @ u \<notin> sg_ID ` set gs) candidate_ids = Some u" by blast
  then have "u \<in> set candidate_ids" "''goal_'' @ u \<notin> sg_ID ` set gs"
    by (auto simp: find_Some_iff)
  with u g show "''goal_'' @ take 8 (td_uuid sample_deps w) \<notin> sg_ID ` set gs"
    by (simp add: sample_deps_def first_free_id_def candidate_short)
qed

lemma load_last:
  "b ctx = Some t \<Longrightarrow> map_of (LoadGlobalTools (bs @ [b]) ctx r) (tl_Name t) = Some t"
  by (simp add: LoadGlobalTools_def map_of_register)

lemma session_finalize_tool:
  "map_of (session_registry d ctx runtimeAllowed) ''report_finalize'' = Some (FinalizeReportTool d)"
proof -
  let ?reg = "LoadGlobalTools (session_builders d) ctx NewRegistry"
  have "session_builders d = butlast (session_builders d) @ [\<lambda>ctx. Some (FinalizeReportTool d)]"
    by (simp add: session_builders_def)
  then have "map_of ?reg (tl_Name (FinalizeReportTool d)) = Some (FinalizeReportTool d)"
    by (metis load_last)
  moreover have "tl_Name (FinalizeReportTool d) = ''report_finalize''"
    by (simp add: FinalizeReportTool_def mk_tool_def)
  moreover have "''report_finalize'' \<in> set runtimeAllowed" "runtimeAllowed \<noteq> []"
    by (simp_all add: runtimeAllowed_def)
  ultimately show ?thesis
    using clone_lookup [OF registry_ok_load [OF registry_ok_new], of "session_builders d" ctx runtimeAllowed]
    by (simp add: session_registry_def buildRuntimeRegistry_def)
qed

lemma sample_world_inv: "world_inv sample_world"
  using new_memory_inv
  by (simp add: world_inv_def sample_world_def goals_inv_def report_inv_def blocks_inv_def block_ok_def
      empty_report_def empty_layout_def sample_block_def trim_eval)

end
