(* ===== verification/Delegate_Agent.thy ===== *)
theory Delegate_Agent
  imports Session_Tools
begin

text \<open>
  The tool \<open>task_delegate\<close> of \<open>server/agent/worker.go\<close>: a sub-agent with a restricted registry, its
  own prompt bundle and at most 25 turns, run inside one tool call of its parent. The calls of
  the interface \<open>DelegateRunPersistence\<close> (\<open>server/agent/delegate_persistence.go\<close>) are recorded in
  the order they are made; their errors are only logged by the code.
\<close>

section \<open>Arguments and their checks\<close>

text \<open>A nil slice of allowed tools is \<open>None\<close>.\<close>

record delegate_args =
  dg_RoleName :: string
  dg_PolicyAppendix :: string
  dg_TaskInstruction :: string
  dg_AllowedTools :: "string list option"
  dg_GoalID :: string

definition names :: "string list option \<Rightarrow> string list" where
  "names a = (case a of None \<Rightarrow> [] | Some xs \<Rightarrow> xs)"

definition disallowedDelegateTools :: "string list \<Rightarrow> string list" where
  "disallowedDelegateTools allowed =
     filter (\<lambda>n. n = ''user_request_input'' \<or> n = ''report_finalize'' \<or> n = ''task_delegate'')
       (map trim_space allowed)"

text \<open>
  \<open>strings.ToLower\<close> as far as the tokens below can tell: apart from the ASCII letters only U+0130
  and U+212A become ASCII letters, and no letter becomes one of the Chinese signs.
\<close>

definition lower_rune :: "rune \<Rightarrow> rune" where
  "lower_rune r =
     (if 65 \<le> r \<and> r \<le> 90 then r + 32 else if r = 0x130 then 105 else if r = 0x212A then 107 else r)"

definition lower_text :: "string \<Rightarrow> string" where
  "lower_text s = of_runes (map lower_rune (runes s))"

definition suspiciousTokens :: "string list" where
  "suspiciousTokens =
     [[CHR 0x60, CHR 0x60, CHR 0x60],
      [CHR 0x7B, CHR 0x22],
      [CHR 0x22, CHR 0x74, CHR 0x6F, CHR 0x6F, CHR 0x6C, CHR 0x22],
      ''|---'',
      ''context:'',
      ''history:'',
      ''runtime:'',
      ''schema:'',
      [CHR 0xE8, CHR 0x83, CHR 0x8C, CHR 0xE6, CHR 0x99, CHR 0xAF, CHR 0xEF, CHR 0xBC, CHR 0x9A],
      [CHR 0xE8, CHR 0x83, CHR 0x8C, CHR 0xE6, CHR 0x99, CHR 0xAF, CHR 0x3A],
      [CHR 0xE4, CHR 0xB8, CHR 0x8A, CHR 0xE4, CHR 0xB8, CHR 0x8B, CHR 0xE6, CHR 0x96, CHR 0x87, CHR 0xEF, CHR 0xBC, CHR 0x9A],
      [CHR 0xE4, CHR 0xB8, CHR 0x8A, CHR 0xE4, CHR 0xB8, CHR 0x8B, CHR 0xE6, CHR 0x96, CHR 0x87, CHR 0x3A],
      [CHR 0xE5, CHR 0x8E, CHR 0x86, CHR 0xE5, CHR 0x8F, CHR 0xB2, CHR 0xEF, CHR 0xBC, CHR 0x9A],
      [CHR 0xE5, CHR 0x8E, CHR 0x86, CHR 0xE5, CHR 0x8F, CHR 0xB2, CHR 0x3A],
      [CHR 0xE5, CHR 0xB7, CHR 0xB2, CHR 0xE7, CHR 0x9F, CHR 0xA5, CHR 0xE4, CHR 0xBA, CHR 0x8B, CHR 0xE5, CHR 0xAE, CHR 0x9E],
      [CHR 0xE7, CHR 0x94, CHR 0xA8, CHR 0xE6, CHR 0x88, CHR 0xB7, CHR 0xE5, CHR 0x8E, CHR 0x9F, CHR 0xE8, CHR 0xAF, CHR 0x9D],
      [CHR 0xE8, CHR 0xA1, CHR 0xA8, CHR 0xE7, CHR 0xBB, CHR 0x93, CHR 0xE6, CHR 0x9E, CHR 0x84],
      [CHR 0xE5, CHR 0x88, CHR 0x97, CHR 0xE5, CHR 0xA6, CHR 0x82, CHR 0xE4, CHR 0xB8, CHR 0x8B]]"

definition validatePolicyAppendix :: "string \<Rightarrow> string option" where
  "validatePolicyAppendix raw =
     (let trimmed = trim_space raw
      in if trimmed = [] then None
         else if length (runes trimmed) > 280
         then Some ''policy_appendix too long; it can only contain short constraints, not context dumps''
         else if length (filter (\<lambda>line. trim_space line \<noteq> []) (split_on (CHR 0x0A) trimmed)) > 6
         then Some ''policy_appendix has too many lines; it can only contain a few constraint rules''
         else if list_ex (\<lambda>token. contains (lower_text trimmed) token) suspiciousTokens
         then Some (''policy_appendix can only contain constraints, not background facts, history records, ''
                    @ ''or structured context dumps'')
         else None)"

section \<open>Answers\<close>

record delegateTraceItem =
  dt_Kind :: string
  dt_Summary :: string

definition allowed_json :: "string list option \<Rightarrow> json" where
  "allowed_json a = (case a of None \<Rightarrow> JNull | Some xs \<Rightarrow> JArr (map JStr xs))"

definition delegateToolSuccess ::
  "string \<Rightarrow> string \<Rightarrow> string \<Rightarrow> string list option \<Rightarrow> string \<Rightarrow> string \<Rightarrow> delegateTraceItem list \<Rightarrow> payload" where
  "delegateToolSuccess childRunID roleName taskInstruction allowedTools goalID summary trace =
     [''ok'' \<mapsto> JBool True, ''tool'' \<mapsto> JStr ''task_delegate'', ''child_run_id'' \<mapsto> JStr childRunID,
      ''delegate_role'' \<mapsto> JStr roleName, ''task_instruction'' \<mapsto> JStr taskInstruction,
      ''allowed_tools'' \<mapsto> allowed_json allowedTools, ''child_result'' \<mapsto> JStr summary,
      ''child_run_status'' \<mapsto> JStr ''completed'',
      ''ui_summary'' \<mapsto> JStr (''Sub-agent '' @ roleName @ '' completed: '' @ summary),
      ''trace_count'' \<mapsto> JInt (int (length trace))]
     ++ (if trim_space goalID \<noteq> [] then [''goal_id'' \<mapsto> JStr goalID] else Map.empty)"

definition delegateToolFailure ::
  "string \<Rightarrow> string \<Rightarrow> string \<Rightarrow> string list option \<Rightarrow> string \<Rightarrow> string \<Rightarrow> string \<Rightarrow> payload \<Rightarrow> payload" where
  "delegateToolFailure childRunID roleName taskInstruction allowedTools goalID code message extra =
     [''ok'' \<mapsto> JBool False, ''tool'' \<mapsto> JStr ''task_delegate'', ''error_code'' \<mapsto> JStr code,
      ''message'' \<mapsto> JStr message, ''delegate_role'' \<mapsto> JStr roleName,
      ''task_instruction'' \<mapsto> JStr taskInstruction, ''allowed_tools'' \<mapsto> allowed_json allowedTools,
      ''ui_summary'' \<mapsto> JStr (if trim_space roleName = [] then ''Sub-agent failed.''
                             else ''Sub-agent '' @ roleName @ '' failed.'')]
     ++ (if trim_space childRunID \<noteq> [] then [''child_run_id'' \<mapsto> JStr childRunID] else Map.empty)
     ++ (if trim_space goalID \<noteq> [] then [''goal_id'' \<mapsto> JStr goalID] else Map.empty)
     ++ extra"

definition delegateChildToolFailure :: "string \<Rightarrow> string \<Rightarrow> payload" where
  "delegateChildToolFailure toolName message =
     [''ok'' \<mapsto> JBool False, ''tool'' \<mapsto> JStr toolName, ''error_code'' \<mapsto> JStr ''execution_error'',
      ''message'' \<mapsto> JStr message]"

definition clipDelegateToolResult :: "codec \<Rightarrow> string \<Rightarrow> nat \<Rightarrow> string" where
  "clipDelegateToolResult cd raw mx =
     (case parse_object cd (trim_space raw) of
        None \<Rightarrow> clipText raw mx
      | Some payload \<Rightarrow>
          (case str_member payload ''ui_summary'' of
             Some summary \<Rightarrow> clipText summary mx
           | None \<Rightarrow>
               (case str_member payload ''message'' of
                  Some message \<Rightarrow> clipText message mx
                | None \<Rightarrow> clipText (marshal cd (JObj payload)) mx)))"

section \<open>The sub-agent\<close>

record childRunStart =
  cr_ParentRunID :: string
  cr_RoleName :: string
  cr_InputMessage :: string
  cr_GoalID :: string
  cr_AllowedTools :: "string list option"

datatype persist_op =
    UpdateChildRunStatus string string "string option"
  | UpdateChildRunSummary string string
  | UpdateChildRunTokens string int int

text \<open>
  What the tool takes from its context: the decoder of its arguments, the policy text, the id of
  the parent run, the persistence (\<open>StartChildRun\<close>, or \<open>None\<close> for a context without one) and the
  model, clock and cancellation signal that a sub-agent with given tool specifications sees.
\<close>

record delegate_deps =
  dl_args :: "string \<Rightarrow> string + delegate_args"
  dl_policy :: string
  dl_parent_run :: string
  dl_persistence :: "(childRunStart \<Rightarrow> tool_world \<Rightarrow> string result) option"
  dl_env :: "tool_spec list \<Rightarrow> tool_world engine_env"

record child_state =
  ch_run :: "tool_world run_state"
  ch_bundle :: prompt_bundle
  ch_trace :: "delegateTraceItem list"
  ch_promptTokens :: int
  ch_completionTokens :: int
  ch_persist :: "persist_op list"

text \<open>\<open>childEmit\<close>: an event without a run id gets the id of the child run.\<close>

definition stamp :: "string \<Rightarrow> ws_event \<Rightarrow> ws_event" where
  "stamp childRunID ev =
     (if trim_space childRunID \<noteq> [] \<and> trim_space (ev_run_id ev) = [] then ev\<lparr>ev_run_id := childRunID\<rparr>
      else ev)"

definition childEmit :: "string \<Rightarrow> ws_event \<Rightarrow> child_state \<Rightarrow> child_state" where
  "childEmit childRunID ev s = s\<lparr>ch_run := emit (ch_run s) (stamp childRunID ev)\<rparr>"

definition trace_add :: "string \<Rightarrow> string \<Rightarrow> child_state \<Rightarrow> child_state" where
  "trace_add kind summary s = s\<lparr>ch_trace := ch_trace s @ [\<lparr>dt_Kind = kind, dt_Summary = summary\<rparr>]\<rparr>"

definition child_remember :: "conversation_item \<Rightarrow> child_state \<Rightarrow> child_state" where
  "child_remember item s =
     s\<lparr>ch_bundle := (ch_bundle s)\<lparr>pb_History := pb_History (ch_bundle s) @ [item]\<rparr>\<rparr>"

text \<open>The registry of the sub-agent behind its environment; its tools emit through \<open>childEmit\<close>.\<close>

definition prepareRegistryRuntimeTools ::
  "tool_world registry \<Rightarrow> string \<Rightarrow> tool_world engine_env \<Rightarrow> tool_world engine_env" where
  "prepareRegistryRuntimeTools reg childRunID env =
     env\<lparr>env_tool := \<lambda>w n a.
       case Registry_Execute reg n a w of
         Some ((res, err, evs), w') \<Rightarrow> ((res, err, map (stamp childRunID) evs), w')
       | None \<Rightarrow> (([], None, []), w)\<rparr>"

text \<open>
  \<open>UpdateGoalStatus\<close> on the shared goal tree and the event that shows it. The first update is
  announced only when it succeeds, the later ones always.
\<close>

definition set_goal ::
  "tool_deps \<Rightarrow> string \<Rightarrow> string \<Rightarrow> string \<Rightarrow> string \<Rightarrow> bool \<Rightarrow> child_state \<Rightarrow> child_state" where
  "set_goal d childRunID gid status res always s =
     (case tw_Goals (rs_world (ch_run s)) of
        None \<Rightarrow> s
      | Some gs \<Rightarrow>
          if gid = [] then s
          else
            (let w = rs_world (ch_run s);
                 (gs', r) = UpdateGoalStatus (td_now d w) gs gid status res;
                 s1 = s\<lparr>ch_run := (ch_run s)\<lparr>rs_world := w\<lparr>tw_Goals := Some gs'\<rparr>\<rparr>\<rparr>
             in if always \<or> r = Inr ()
                then childEmit childRunID
                       (mk_event EventStateSubgoalsUpdated
                         (JObj [(''goals'', JArr (map goal_json (Subgoals_ListAll gs')))])) s1
                else s1))"

text \<open>Persistence calls are made when there is a persistence and a child run.\<close>

definition persist :: "bool \<Rightarrow> string \<Rightarrow> persist_op list \<Rightarrow> child_state \<Rightarrow> child_state" where
  "persist present childRunID ops s =
     (if present \<and> childRunID \<noteq> [] then s\<lparr>ch_persist := ch_persist s @ ops\<rparr> else s)"

definition tokens_op :: "string \<Rightarrow> child_state \<Rightarrow> persist_op" where
  "tokens_op childRunID s = UpdateChildRunTokens childRunID (ch_promptTokens s) (ch_completionTokens s)"

definition child_call ::
  "tool_deps \<Rightarrow> tool_world engine_env \<Rightarrow> string \<Rightarrow> llm_tool_call \<Rightarrow> child_state \<Rightarrow> child_state" where
  "child_call d env childRunID c s =
     (let s1 = trace_add ''tool_call'' (tc_Name c @ ''('' @ clipText (tc_Arguments c) 120 @ '')'') s;
          s2 = childEmit childRunID ((tool_call_event c)\<lparr>ev_run_id := childRunID\<rparr>) s1;
          ((res, err), r) = retryableToolExec env (tc_Name c) (tc_Arguments c) (ch_run s2);
          s3 = s2\<lparr>ch_run := r\<rparr>;
          duration = env_elapsed env (rs_world r)
      in case err of
           Some e \<Rightarrow>
             let answer = td_marshal d (delegateChildToolFailure (tc_Name c) e)
             in child_remember (tool_item (tc_ID c) answer)
                  (childEmit childRunID ((tool_result_event c answer duration False)\<lparr>ev_run_id := childRunID\<rparr>)
                    (trace_add ''tool_error'' (tc_Name c @ '' failed: '' @ clipText e 160) s3))
         | None \<Rightarrow>
             child_remember (tool_item (tc_ID c) res)
               (childEmit childRunID ((tool_result_event c res duration True)\<lparr>ev_run_id := childRunID\<rparr>)
                 (trace_add ''tool_result''
                   (tc_Name c @ '' ok: '' @ clipDelegateToolResult (env_codec env) res 160) s3)))"

definition child_calls ::
  "tool_deps \<Rightarrow> tool_world engine_env \<Rightarrow> string \<Rightarrow> llm_tool_call list \<Rightarrow> child_state \<Rightarrow> child_state" where
  "child_calls d env childRunID cs s = fold (child_call d env childRunID) cs s"

text \<open>After an answer of the model: tokens are counted, the task enters the history once.\<close>

definition child_answered :: "codec \<Rightarrow> llm_response \<Rightarrow> child_state \<Rightarrow> child_state" where
  "child_answered cd resp s =
     (let b = ch_bundle s;
          b1 = (if pb_Task b \<noteq> []
                then b\<lparr>pb_History := pb_History b @ [user_item (pb_Task b)], pb_Task := []\<rparr> else b)
      in s\<lparr>ch_promptTokens := ch_promptTokens s + lr_PromptTokens resp,
           ch_completionTokens := ch_completionTokens s + lr_CompletionTokens resp,
           ch_bundle := compactWorkerBundle cd b1 (lr_PromptTokens resp)\<rparr>)"

text \<open>The Go pair \<open>(string, error)\<close>.\<close>

type_synonym go_answer = "string \<times> string option"

datatype child_outcome = ChildEnds go_answer child_state | ChildGoes child_state

definition failure :: "tool_deps \<Rightarrow> string \<Rightarrow> delegate_args \<Rightarrow> string \<Rightarrow> string \<Rightarrow> payload \<Rightarrow> go_answer" where
  "failure d childRunID a code message extra =
     (td_marshal d (delegateToolFailure childRunID (dg_RoleName a) (dg_TaskInstruction a)
        (dg_AllowedTools a) (dg_GoalID a) code message extra), None)"

definition child_failed :: payload where
  "child_failed = [''child_run_status'' \<mapsto> JStr ''failed'']"

definition child_choice ::
  "tool_deps \<Rightarrow> tool_world engine_env \<Rightarrow> bool \<Rightarrow> string \<Rightarrow> delegate_args \<Rightarrow> llm_choice \<Rightarrow> child_state \<Rightarrow> child_outcome"
where
  "child_choice d env present childRunID a choice s =
     (let msg = lc_Message choice;
          content = trim_space (lm_Content msg);
          s1 = (if lm_Content msg \<noteq> []
                then childEmit childRunID
                       ((mk_event EventAssistantStatus (JObj [(''content'', JStr content)]))\<lparr>ev_run_id := childRunID\<rparr>)
                       (trace_add ''assistant_status'' (clipText content 160) s)
                else s)
      in if lc_FinishReason choice = LLMFinishReasonStop \<and> lm_ToolCalls msg = []
         then let s2 = childEmit childRunID
                         ((mk_event EventRunCompleted (summary_data content))\<lparr>ev_run_id := childRunID\<rparr>) s1
              in ChildEnds
                   (td_marshal d (delegateToolSuccess childRunID (dg_RoleName a) (dg_TaskInstruction a)
                      (dg_AllowedTools a) (dg_GoalID a) content (ch_trace s2)), None)
                   (persist present childRunID
                     [UpdateChildRunSummary childRunID content,
                      UpdateChildRunStatus childRunID ''completed'' None, tokens_op childRunID s2] s2)
         else if lm_ToolCalls msg = [] then ChildGoes s1
         else ChildGoes (child_calls d env childRunID (lm_ToolCalls msg)
                          (child_remember (compactAssistantMessage (env_codec env) msg) s1)))"

definition child_turn ::
  "tool_deps \<Rightarrow> tool_world engine_env \<Rightarrow> bool \<Rightarrow> string \<Rightarrow> delegate_args \<Rightarrow> child_state \<Rightarrow> child_outcome" where
  "child_turn d env present childRunID a s =
     (let (dn, r) = poll env (ch_run s); s0 = s\<lparr>ch_run := r\<rparr>
      in if dn
         then let s1 = set_goal d childRunID (dg_GoalID a) StatusPending ''task cancelled'' True s0
              in ChildEnds ([], Some (env_ctx_error env (rs_world (ch_run s1))))
                   (persist present childRunID
                     [UpdateChildRunStatus childRunID ''cancelled'' (Some ''task cancelled''),
                      tokens_op childRunID s1] s1)
         else
           let (ans, w) = env_llm env (rs_world (ch_run s0)) (ch_bundle s0) True;
               s1 = s0\<lparr>ch_run := (ch_run s0)\<lparr>rs_world := w\<rparr>\<rparr>
           in case ans of
                Inl err \<Rightarrow>
                  let s2 = set_goal d childRunID (dg_GoalID a) StatusPending err True s1
                  in ChildEnds (failure d childRunID a ''delegate_execution_failed''
                                  (''delegated agent failed: '' @ err) child_failed)
                       (persist present childRunID
                         [UpdateChildRunStatus childRunID ''failed'' (Some err), tokens_op childRunID s2] s2)
              | Inr resp \<Rightarrow>
                  let s2 = child_answered (env_codec env) resp s1
                  in case lr_Choices resp of
                       [] \<Rightarrow> ChildEnds (failure d childRunID a ''delegate_no_response''
                                         ''delegated agent returned no response'' child_failed)
                              (persist present childRunID
                                [UpdateChildRunStatus childRunID ''failed''
                                   (Some ''delegated agent returned no response'')] s2)
                     | choice # _ \<Rightarrow> child_choice d env present childRunID a choice s2)"

definition maxWorkerIterations :: nat where
  "maxWorkerIterations = 25"

text \<open>The loop, with \<open>n\<close> iterations left.\<close>

fun child_loop ::
  "tool_deps \<Rightarrow> tool_world engine_env \<Rightarrow> bool \<Rightarrow> string \<Rightarrow> delegate_args \<Rightarrow> nat \<Rightarrow> child_state \<Rightarrow> go_answer \<times> child_state"
where
  "child_loop d env present childRunID a 0 s =
     (let message = ''delegated agent '' @ dg_RoleName a @ '' max iterations reached''
      in (failure d childRunID a ''delegate_max_iterations_reached'' message child_failed,
          persist present childRunID
            [UpdateChildRunStatus childRunID ''failed'' (Some message), tokens_op childRunID s] s))"
| "child_loop d env present childRunID a (Suc n) s =
     (case child_turn d env present childRunID a s of
        ChildEnds ans s' \<Rightarrow> (ans, s')
      | ChildGoes s' \<Rightarrow> child_loop d env present childRunID a n s')"

definition no_engine :: engine where
  "no_engine = \<lparr>en_policy = [], en_history = [], en_contextDigest = []\<rparr>"

text \<open>
  The sub-agent after its arguments are accepted and its run is started. The run state holds
  the tool state and the events; a sub-agent has no engine of its own.
\<close>

definition run_child ::
  "tool_deps \<Rightarrow> delegate_deps \<Rightarrow> tool_world registry \<Rightarrow> bool \<Rightarrow> string \<Rightarrow> delegate_args \<Rightarrow> tool_world
     \<Rightarrow> go_answer \<times> child_state" where
  "run_child d dl subReg present childRunID a w =
     (let env = prepareRegistryRuntimeTools subReg childRunID (dl_env dl (GetToolSpecs subReg));
          s0 = \<lparr>ch_run = \<lparr>rs_world = w, rs_engine = no_engine, rs_events = []\<rparr>,
                ch_bundle = \<lparr>pb_Policy = dl_policy dl, pb_PolicyAppendix = trim_space (dg_PolicyAppendix a),
                             pb_Task = dg_TaskInstruction a, pb_RuntimeContext = [], pb_History = []\<rparr>,
                ch_trace = [], ch_promptTokens = 0, ch_completionTokens = 0, ch_persist = []\<rparr>
      in child_loop d env present childRunID a maxWorkerIterations
           (set_goal d childRunID (dg_GoalID a) StatusRunning [] False s0))"

definition buildDelegateRegistry ::
  "(string list \<Rightarrow> 'w registry) option \<Rightarrow> 'w registry option \<Rightarrow> string list \<Rightarrow> 'w registry" where
  "buildDelegateRegistry registryFactory baseRegistry allowed =
     (case registryFactory of
        Some f \<Rightarrow> f allowed
      | None \<Rightarrow> (case baseRegistry of None \<Rightarrow> NewRegistry | Some r \<Rightarrow> CloneFiltered r allowed))"

text \<open>The checks before a run is started: the refusal, or nothing.\<close>

definition delegate_refusal ::
  "tool_deps \<Rightarrow> (string list \<Rightarrow> tool_world registry) \<Rightarrow> delegate_args \<Rightarrow> go_answer option" where
  "delegate_refusal d factory a =
     (let allowed = names (dg_AllowedTools a); forbidden = disallowedDelegateTools allowed
      in if trim_space (dg_RoleName a) = []
         then Some (failure d [] (a\<lparr>dg_RoleName := []\<rparr>) ''missing_role_name'' ''role_name is required'' Map.empty)
         else if trim_space (dg_TaskInstruction a) = []
         then Some (failure d [] (a\<lparr>dg_TaskInstruction := []\<rparr>) ''missing_task_instruction''
                      ''task_instruction is required'' Map.empty)
         else if allowed = []
         then Some (failure d [] (a\<lparr>dg_AllowedTools := None\<rparr>) ''missing_allowed_tools''
                      ''allowed_tools is required'' Map.empty)
         else if forbidden \<noteq> []
         then Some (failure d [] a ''disallowed_delegate_tools''
                      (''delegate cannot use these tools: '' @ join '', '' forbidden)
                      [''disallowed_tools'' \<mapsto> JArr (map JStr forbidden)])
         else case validatePolicyAppendix (dg_PolicyAppendix a) of
                Some err \<Rightarrow> Some (failure d [] a ''policy_appendix_invalid'' err Map.empty)
              | None \<Rightarrow>
                  if ListTools (factory allowed) = []
                  then Some (failure d [] a ''no_allowed_tools_resolved''
                               ''no allowed tools resolved for delegate'' Map.empty)
                  else None)"

definition no_args :: delegate_args where
  "no_args = \<lparr>dg_RoleName = [], dg_PolicyAppendix = [], dg_TaskInstruction = [], dg_AllowedTools = None,
     dg_GoalID = []\<rparr>"

text \<open>
  The whole tool: the answer, the events, the tool state and the persistence calls.
\<close>

definition DelegateTask_Execute ::
  "tool_deps \<Rightarrow> delegate_deps \<Rightarrow> (string list \<Rightarrow> tool_world registry) option \<Rightarrow> tool_world registry option
     \<Rightarrow> string \<Rightarrow> tool_world \<Rightarrow> (tool_outcome \<times> tool_world) \<times> persist_op list" where
  "DelegateTask_Execute d dl registryFactory baseRegistry args w =
     (let refuse = (\<lambda>(ans :: go_answer). (((fst ans, snd ans, []), w), []));
          factory = buildDelegateRegistry registryFactory baseRegistry
      in if baseRegistry = None \<and> registryFactory = None
         then refuse (failure d [] no_args ''delegate_registry_missing''
                        ''delegate base registry is not configured'' Map.empty)
         else
           (case dl_args dl args of
              Inl err \<Rightarrow> refuse (failure d [] no_args ''invalid_arguments''
                                   (''invalid arguments: '' @ err) Map.empty)
            | Inr a \<Rightarrow>
                (case delegate_refusal d factory a of
                   Some ans \<Rightarrow> refuse ans
                 | None \<Rightarrow>
                     let started = (case dl_persistence dl of
                           None \<Rightarrow> Inr []
                         | Some start \<Rightarrow>
                             start \<lparr>cr_ParentRunID = dl_parent_run dl, cr_RoleName = dg_RoleName a,
                                    cr_InputMessage = dg_TaskInstruction a, cr_GoalID = dg_GoalID a,
                                    cr_AllowedTools = dg_AllowedTools a\<rparr> w)
                     in case started of
                          Inl err \<Rightarrow> refuse (failure d [] a ''child_run_start_failed''
                                               (''failed to start child run: '' @ err) Map.empty)
                        | Inr childRunID \<Rightarrow>
                            let (ans, s) = run_child d dl (factory (names (dg_AllowedTools a)))
                                             (dl_persistence dl \<noteq> None) childRunID a w
                            in (((fst ans, snd ans, rs_events (ch_run s)), rs_world (ch_run s)),
                                ch_persist s))))"

text \<open>The tool as a registry entry.\<close>

definition DelegateTaskTool ::
  "tool_deps \<Rightarrow> delegate_deps \<Rightarrow> (string list \<Rightarrow> tool_world registry) option \<Rightarrow> tool_world registry option
     \<Rightarrow> tool_world tool" where
  "DelegateTaskTool d dl registryFactory baseRegistry = mk_tool d ''task_delegate'' (\<lambda>args w.
     Some (fst (DelegateTask_Execute d dl registryFactory baseRegistry args w)))"

text \<open>
  The session's registry with delegation. In the code the tool's factory is the function that
  builds this very registry, so sub-agents could nest without bound; here the nesting depth is
  a parameter, and depth 0 has no delegation.
\<close>

fun nested_registry ::
  "tool_deps \<Rightarrow> delegate_deps \<Rightarrow> nat \<Rightarrow> tool_world \<Rightarrow> string list \<Rightarrow> tool_world registry" where
  "nested_registry d dl 0 ctx allowed = session_registry d ctx allowed"
| "nested_registry d dl (Suc n) ctx allowed =
     buildRuntimeRegistry
       (session_builders d @ [\<lambda>c. Some (DelegateTaskTool d dl (Some (nested_registry d dl n ctx)) None)])
       ctx allowed"

declare nested_registry.simps(2) [simp del]

section \<open>Delegation does not nest\<close>

lemma clone_cong:
  "(\<And>n. n \<in> set allowed \<Longrightarrow> map_of r n = map_of r' n) \<Longrightarrow> CloneFiltered r allowed = CloneFiltered r' allowed"
  unfolding CloneFiltered_def by (rule foldl_cong) auto

lemma load_append:
  "LoadGlobalTools (bs @ [b]) ctx r =
     (case b ctx of Some t \<Rightarrow> Register (LoadGlobalTools bs ctx r) t | None \<Rightarrow> LoadGlobalTools bs ctx r)"
  by (simp add: LoadGlobalTools_def split: option.split)

lemma factory_first [simp]: "buildDelegateRegistry (Some f) base = f"
  by (rule ext) (simp add: buildDelegateRegistry_def)

lemma delegate_tool_name [simp]: "tl_Name (DelegateTaskTool d dl f b) = ''task_delegate''"
  by (simp add: DelegateTaskTool_def mk_tool_def)

lemma nested_is_session:
  assumes "allowed \<noteq> []" "''task_delegate'' \<notin> set allowed"
  shows "nested_registry d dl n ctx allowed = session_registry d ctx allowed"
proof (cases n)
  case (Suc m)
  then show ?thesis using assms
    by (auto simp: nested_registry.simps(2) session_registry_def buildRuntimeRegistry_def Let_def load_append
        map_of_register intro!: clone_cong)
qed simp

lemma refusal_none:
  assumes "delegate_refusal d factory a = None"
  shows "names (dg_AllowedTools a) \<noteq> []"
    and "x \<in> {''user_request_input'', ''report_finalize'', ''task_delegate''} \<Longrightarrow> x \<notin> set (names (dg_AllowedTools a))"
proof -
  have "names (dg_AllowedTools a) \<noteq> []" "disallowedDelegateTools (names (dg_AllowedTools a)) = []"
    using assms by (auto simp: delegate_refusal_def Let_def split: if_splits option.splits)
  then show "names (dg_AllowedTools a) \<noteq> []"
    "x \<in> {''user_request_input'', ''report_finalize'', ''task_delegate''} \<Longrightarrow> x \<notin> set (names (dg_AllowedTools a))"
    by (auto simp: disallowedDelegateTools_def filter_empty_conv trim_eval)
qed

lemma refusal_cong:
  assumes "\<And>al. al \<noteq> [] \<Longrightarrow> ''task_delegate'' \<notin> set al \<Longrightarrow> f al = g al"
  shows "delegate_refusal d f a = delegate_refusal d g a"
proof (cases "names (dg_AllowedTools a) = [] \<or> disallowedDelegateTools (names (dg_AllowedTools a)) \<noteq> []")
  case True
  then show ?thesis by (auto simp: delegate_refusal_def Let_def)
next
  case False
  then have "''task_delegate'' \<notin> set (names (dg_AllowedTools a))"
    by (auto simp: disallowedDelegateTools_def filter_empty_conv trim_eval)
  with False show ?thesis using assms by (simp add: delegate_refusal_def Let_def)
qed

lemma delegate_same_factory:
  assumes "\<And>al. al \<noteq> [] \<Longrightarrow> ''task_delegate'' \<notin> set al \<Longrightarrow> f al = g al"
  shows "DelegateTask_Execute d dl (Some f) None args w = DelegateTask_Execute d dl (Some g) None args w"
proof (cases "dl_args dl args")
  case (Inl e)
  then show ?thesis by (simp add: DelegateTask_Execute_def)
next
  case (Inr a)
  have r: "delegate_refusal d f a = delegate_refusal d g a" using assms by (rule refusal_cong)
  show ?thesis
  proof (cases "delegate_refusal d g a")
    case None
    have "f (names (dg_AllowedTools a)) = g (names (dg_AllowedTools a))"
      using assms refusal_none [OF None] by blast
    then show ?thesis using Inr r None by (simp add: DelegateTask_Execute_def)
  next
    case (Some ans)
    then show ?thesis using Inr r by (simp add: DelegateTask_Execute_def)
  qed
qed

section \<open>What a sub-agent keeps\<close>

abbreviation child_w :: "child_state \<Rightarrow> tool_world" where
  "child_w s \<equiv> rs_world (ch_run s)"

fun child_end :: "child_outcome \<Rightarrow> child_state" where
  "child_end (ChildEnds ans s) = s"
| "child_end (ChildGoes s) = s"

lemma child_frames [simp]:
  "child_w (childEmit i ev s) = child_w s" "child_w (trace_add k t s) = child_w s"
  "child_w (child_remember item s) = child_w s" "child_w (persist p i ops s) = child_w s"
  "child_w (child_answered cd resp s) = child_w s"
  by (simp_all add: childEmit_def trace_add_def child_remember_def persist_def child_answered_def emit_def
      Let_def)

text \<open>
  The interface of the sub-agent's loop: a property of the tool state that its environment keeps
  and that a change of a goal's status keeps holds when the sub-agent ends.
\<close>

locale child_world = kept_world env I for env :: "tool_world engine_env" and I +
  assumes goal_keeps: "I w \<Longrightarrow> tw_Goals w = Some gs \<Longrightarrow>
    I (w\<lparr>tw_Goals := Some (fst (UpdateGoalStatus now gs gid st res))\<rparr>)"
begin

lemma set_goal_keeps: "I (child_w s) \<Longrightarrow> I (child_w (set_goal d i gid st res always s))"
  using goal_keeps by (auto simp: set_goal_def Let_def split_beta split: option.split)

lemma child_call_keeps: "I (child_w s) \<Longrightarrow> I (child_w (child_call d env i c s))"
proof -
  assume s: "I (child_w s)"
  let ?s2 = "childEmit i ((tool_call_event c)\<lparr>ev_run_id := i\<rparr>)
    (trace_add ''tool_call'' (tc_Name c @ ''('' @ clipText (tc_Arguments c) 120 @ '')'') s)"
  obtain res err r where t: "retryableToolExec env (tc_Name c) (tc_Arguments c) (ch_run ?s2) = ((res, err), r)"
    by (metis surj_pair)
  have "I (rs_world r)"
    using retry_keeps [OF _ t [unfolded retryableToolExec_def]] s by simp
  then show ?thesis using t by (simp add: child_call_def Let_def split: option.split)
qed

lemma child_calls_keep: "I (child_w s) \<Longrightarrow> I (child_w (child_calls d env i cs s))"
  unfolding child_calls_def by (induction cs arbitrary: s) (simp_all add: child_call_keeps)

lemma child_choice_keeps: "I (child_w s) \<Longrightarrow> I (child_w (child_end (child_choice d env p i a choice s)))"
  by (simp add: child_choice_def Let_def child_calls_keep)

lemma child_turn_keeps:
  assumes "I (child_w s)"
  shows "I (child_w (child_end (child_turn d env p i a s)))"
proof -
  obtain dn r where pl: "poll env (ch_run s) = (dn, r)" by fastforce
  have 0: "I (rs_world r)" using poll_keeps [OF assms pl] .
  obtain ans w where l: "env_llm env (rs_world r) (ch_bundle s) True = (ans, w)" by fastforce
  have 1: "I w" using llm_keeps [OF 0 l] .
  show ?thesis using pl l 0 1
    by (auto simp: child_turn_def Let_def set_goal_keeps child_choice_keeps split: sum.split list.split)
qed

lemma child_loop_keeps: "I (child_w s) \<Longrightarrow> I (child_w (snd (child_loop d env p i a n s)))"
proof (induction n arbitrary: s)
  case (Suc n)
  show ?case
  proof (cases "child_turn d env p i a s")
    case (ChildEnds ans s')
    then show ?thesis using child_turn_keeps [OF Suc.prems, of d p i a] by simp
  next
    case (ChildGoes s')
    then show ?thesis using child_turn_keeps [OF Suc.prems, of d p i a] Suc.IH [of s'] by simp
  qed
qed (simp add: Let_def)

end

lemma run_child_keeps:
  assumes "child_world (prepareRegistryRuntimeTools reg i (dl_env dl (GetToolSpecs reg))) I" "I w"
  shows "I (child_w (snd (run_child d dl reg p i a w)))"
  using child_world.child_loop_keeps [OF assms(1) child_world.set_goal_keeps [OF assms(1)]] assms(2)
  by (simp add: run_child_def Let_def)

text \<open>The tool state's invariants.\<close>

lemma goal_update_inv:
  "world_inv w \<Longrightarrow> tw_Goals w = Some gs \<Longrightarrow>
     world_inv (w\<lparr>tw_Goals := Some (fst (UpdateGoalStatus now gs gid st res))\<rparr>)"
  by (auto simp: world_inv_def map_id_update intro: update_goal_inv)

interpretation session_child: child_world
  "prepareRegistryRuntimeTools (session_registry d ctx allowed) i env"
  "\<lambda>w. fresh_ids d \<and> still env \<longrightarrow> world_inv w" for d ctx allowed i env
proof unfold_locales
  fix w n a out w'
  assume w: "fresh_ids d \<and> still env \<longrightarrow> world_inv w"
    and call: "env_tool (prepareRegistryRuntimeTools (session_registry d ctx allowed) i env) w n a = (out, w')"
  show "fresh_ids d \<and> still env \<longrightarrow> world_inv w'"
  proof
    assume fs: "fresh_ids d \<and> still env"
    obtain res err evs w2 where
      "Registry_Execute (session_registry d ctx allowed) n a w = Some ((res, err, evs), w2)" "world_inv w2"
      using registry_call_ok w fs by blast
    with call show "world_inv w'" by (simp add: prepareRegistryRuntimeTools_def)
  qed
qed (auto simp: prepareRegistryRuntimeTools_def still_def goal_update_inv, (metis snd_conv)+)

text \<open>A sub-agent without \<open>report_finalize\<close> delivers nothing.\<close>

lemma call_no_delivery:
  assumes "Registry_Execute (session_registry d ctx allowed) name args w = Some (out, w')"
    and "allowed \<noteq> []" "''report_finalize'' \<notin> set allowed" "delivered (tw_Report w')"
  shows "delivered (tw_Report w)"
proof (cases "map_of (session_registry d ctx allowed) name")
  case None
  then show ?thesis using assms by (simp add: Registry_Execute_def Registry_Get_def)
next
  case (Some t)
  then have e: "tl_Execute t args w = Some (out, w')"
    using assms(1) by (simp add: Registry_Execute_def Registry_Get_def)
  have "name \<in> set allowed"
    using Some assms(2) clone_lookup [OF registry_ok_load [OF registry_ok_new], of "session_builders d" ctx allowed name]
    by (auto simp: session_registry_def buildRuntimeRegistry_def Let_def split: if_splits)
  then have "tl_Name t \<noteq> ''report_finalize''" using session_registry_names [OF Some] assms(3) by metis
  with session_tool_report [OF session_registry_range [OF Some] e] assms(4) no_delivery_by_edits
  show ?thesis by metis
qed

interpretation undelivered_child: child_world
  "prepareRegistryRuntimeTools (session_registry d ctx allowed) i env"
  "\<lambda>w. allowed \<noteq> [] \<and> ''report_finalize'' \<notin> set allowed \<and> still env \<longrightarrow> \<not> delivered (tw_Report w)"
  for d ctx allowed i env
proof unfold_locales
  fix w n a out w'
  assume w: "allowed \<noteq> [] \<and> ''report_finalize'' \<notin> set allowed \<and> still env \<longrightarrow> \<not> delivered (tw_Report w)"
    and call: "env_tool (prepareRegistryRuntimeTools (session_registry d ctx allowed) i env) w n a = (out, w')"
  show "allowed \<noteq> [] \<and> ''report_finalize'' \<notin> set allowed \<and> still env \<longrightarrow> \<not> delivered (tw_Report w')"
  proof (cases "Registry_Execute (session_registry d ctx allowed) n a w")
    case None
    then show ?thesis using w call by (simp add: prepareRegistryRuntimeTools_def)
  next
    case (Some r)
    then show ?thesis using w call call_no_delivery [of d ctx allowed n a w]
      by (cases r) (auto simp: prepareRegistryRuntimeTools_def split: prod.splits)
  qed
qed (auto simp: prepareRegistryRuntimeTools_def still_def, (metis snd_conv)+)

section \<open>Events of a sub-agent\<close>

lemma child_run_frames [simp]:
  "ch_run (trace_add k t s) = ch_run s" "ch_run (child_remember item s) = ch_run s"
  "ch_run (persist p i ops s) = ch_run s" "ch_run (child_answered cd resp s) = ch_run s"
  by (simp_all add: trace_add_def child_remember_def persist_def child_answered_def Let_def)

text \<open>
  The interface of the sub-agent's event stream: an event without a run id or with the child's
  own, and every event of a tool, satisfies \<open>P\<close> once it is stamped.
\<close>

locale child_events = tool_events env P for env :: "tool_world engine_env" and P +
  fixes i :: string
  assumes stamped: "ev_run_id ev = [] \<or> ev_run_id ev = i \<Longrightarrow> P (stamp i ev)"
begin

abbreviation child_ok :: "child_state \<Rightarrow> bool" where
  "child_ok s \<equiv> list_all P (rs_events (ch_run s))"

lemma childEmit_ok: "child_ok s \<Longrightarrow> ev_run_id ev = [] \<or> ev_run_id ev = i \<Longrightarrow> child_ok (childEmit i ev s)"
  by (simp add: childEmit_def emit_def stamped)

lemma set_goal_ok: "child_ok s \<Longrightarrow> child_ok (set_goal d i gid st res always s)"
  by (auto simp: set_goal_def Let_def split_beta mk_event_def intro!: childEmit_ok split: option.split)

lemma child_call_ok:
  assumes s: "child_ok s"
  shows "child_ok (child_call d env i c s)"
proof -
  let ?s2 = "childEmit i ((tool_call_event c)\<lparr>ev_run_id := i\<rparr>)
    (trace_add ''tool_call'' (tc_Name c @ ''('' @ clipText (tc_Arguments c) 120 @ '')'') s)"
  obtain res err r where t: "retryableToolExec env (tc_Name c) (tc_Arguments c) (ch_run ?s2) = ((res, err), r)"
    by (metis surj_pair)
  have "child_ok ?s2" using s by (simp add: childEmit_ok)
  then have "list_all P (rs_events r)"
    using retry_emits [OF _ t [unfolded retryableToolExec_def]] by blast
  then show ?thesis using t by (simp add: child_call_def Let_def childEmit_ok split: option.split)
qed

lemma child_calls_ok: "child_ok s \<Longrightarrow> child_ok (child_calls d env i cs s)"
  unfolding child_calls_def by (induction cs arbitrary: s) (simp_all add: child_call_ok)

lemma child_turn_ok:
  assumes s: "child_ok s"
  shows "child_ok (child_end (child_turn d env p i a s))"
proof -
  obtain dn r where pl: "poll env (ch_run s) = (dn, r)" by fastforce
  have 0: "list_all P (rs_events r)" using pl s by (auto simp: poll_def split: prod.splits)
  obtain ans w where l: "env_llm env (rs_world r) (ch_bundle s) True = (ans, w)" by fastforce
  have "child_ok (child_end (child_choice d env p i a choice s2))" if "child_ok s2" for choice s2
    using that by (simp add: child_choice_def Let_def childEmit_ok child_calls_ok)
  with pl l 0 show ?thesis
    by (auto simp: child_turn_def Let_def set_goal_ok split: sum.split list.split)
qed

lemma child_loop_ok: "child_ok s \<Longrightarrow> child_ok (snd (child_loop d env p i a n s))"
proof (induction n arbitrary: s)
  case (Suc n)
  show ?case
  proof (cases "child_turn d env p i a s")
    case (ChildEnds ans s')
    then show ?thesis using child_turn_ok [OF Suc.prems, of d p a] by simp
  next
    case (ChildGoes s')
    then show ?thesis using child_turn_ok [OF Suc.prems, of d p a] Suc.IH [of s'] by simp
  qed
qed (simp add: Let_def)

end

lemma run_child_events:
  assumes "child_events (prepareRegistryRuntimeTools reg i (dl_env dl (GetToolSpecs reg))) P i"
  shows "list_all P (rs_events (ch_run (snd (run_child d dl reg p i a w))))"
  unfolding run_child_def Let_def
  by (intro child_events.child_loop_ok [OF assms] child_events.set_goal_ok [OF assms]) simp

lemma stamped_quiet: "trim_space i \<noteq> [] \<Longrightarrow> \<not> terminal (stamp i ev)"
  by (auto simp: stamp_def terminal_def)

interpretation quiet_child: child_events "prepareRegistryRuntimeTools reg i env"
  "\<lambda>ev. trim_space i \<noteq> [] \<longrightarrow> \<not> terminal ev" i for reg i env
  by unfold_locales
    (auto simp: prepareRegistryRuntimeTools_def list_all_iff stamped_quiet split: option.splits prod.splits)

lemma run_child_quiet:
  assumes "trim_space i \<noteq> []"
  shows "quiet (ch_run (snd (run_child d dl reg p i a w)))"
  using run_child_events [OF quiet_child.child_events_axioms, where d = d and p = p and a = a and w = w] assms
  by (auto simp: quiet_def list_all_iff)

text \<open>An event of the loop itself, or of a run that is not \<open>r\<close>.\<close>

definition foreign :: "string \<Rightarrow> ws_event \<Rightarrow> bool" where
  "foreign r ev \<longleftrightarrow> ev_run_id ev = []
     \<or> (trim_space (ev_run_id ev) \<noteq> [] \<and> trim_space (ev_run_id ev) \<noteq> trim_space r)"

lemma foreign_mk [simp]: "foreign r (mk_event t d)"
  by (simp add: foreign_def mk_event_def)

lemma foreign_stamp:
  "trim_space i \<noteq> [] \<Longrightarrow> trim_space i \<noteq> trim_space r \<Longrightarrow> foreign r ev \<or> ev_run_id ev = i \<Longrightarrow> foreign r (stamp i ev)"
  by (auto simp: foreign_def stamp_def)

lemma session_tool_foreign:
  assumes "t \<in> set (session_tools d)" "tl_Execute t args w = Some ((res, err, evs), w')"
  shows "list_all (foreign r) evs"
proof -
  have mem: "SaveMemory_Execute mem em a = (m', evs, x) \<Longrightarrow> list_all (foreign r) evs" for mem em a m' evs x
    by (auto simp: SaveMemory_Execute_def Let_def split: option.splits sum.splits if_splits prod.splits)
  have goal: "ManageSubgoals_Execute now u em mgr a = Some (mgr', evs, x) \<Longrightarrow> list_all (foreign r) evs"
    for now u em mgr a mgr' evs x
    by (auto simp: ManageSubgoals_Execute_def close_goal_def emitUpdate_def
        split: option.splits sum.splits if_splits prod.splits)
  show ?thesis using assms mem goal
    by (auto simp: session_tools_def SaveMemoryTool_def InspectMemoryTool_def AskUserTool_def
        InspectGoalsTool_def ManageSubgoalsTool_def CreateChartTool_def ManageReportBlocksTool_def
        ConfigureReportTool_def FinalizeReportTool_def mk_tool_def split: prod.splits dest!: answer_events)
qed

lemma registry_foreign:
  assumes "Registry_Execute (session_registry d ctx allowed) name args w = Some ((res, err, evs), w')"
  shows "list_all (foreign r) evs"
  using assms
  by (rule registry_call_cases) (auto dest: session_tool_foreign [OF _ sym])

interpretation foreign_child: child_events "prepareRegistryRuntimeTools (session_registry d ctx allowed) i env"
  "\<lambda>ev. trim_space i \<noteq> [] \<and> trim_space i \<noteq> trim_space r \<longrightarrow> foreign r ev" i for d ctx allowed i env r
proof unfold_locales
  fix w n a res err evs w'
  assume call: "env_tool (prepareRegistryRuntimeTools (session_registry d ctx allowed) i env) w n a = ((res, err, evs), w')"
  show "list_all (\<lambda>ev. trim_space i \<noteq> [] \<and> trim_space i \<noteq> trim_space r \<longrightarrow> foreign r ev) evs"
  proof (cases "Registry_Execute (session_registry d ctx allowed) n a w")
    case None
    then show ?thesis using call by (simp add: prepareRegistryRuntimeTools_def)
  next
    case (Some x)
    obtain res0 err0 evs0 w0 where x: "x = ((res0, err0, evs0), w0)" by (metis surj_pair)
    then have "list_all (foreign r) evs0" using registry_foreign Some by blast
    moreover have "evs = map (stamp i) evs0"
      using call Some x by (simp add: prepareRegistryRuntimeTools_def)
    ultimately show ?thesis by (auto simp: list_all_iff intro: foreign_stamp)
  qed
qed (auto simp: foreign_def stamp_def)

section \<open>The tool as a whole\<close>

lemma refusal_no_error: "delegate_refusal d f a = Some ans \<Longrightarrow> snd ans = None"
  by (auto simp: delegate_refusal_def failure_def Let_def split: if_splits option.splits)

lemma delegate_cases:
  assumes "DelegateTask_Execute d dl (Some f) None args w = (((res, err, evs), w'), ops)"
  obtains (refused) "evs = []" "w' = w" "ops = []" "err = None"
  | (ran) a i ans s where "dl_args dl args = Inr a" "delegate_refusal d f a = None"
      "run_child d dl (f (names (dg_AllowedTools a))) (dl_persistence dl \<noteq> None) i a w = (ans, s)"
      "evs = rs_events (ch_run s)" "w' = child_w s" "ops = ch_persist s" "res = fst ans" "err = snd ans"
      "dl_persistence dl = None \<and> i = [] \<or> (\<exists>start r. dl_persistence dl = Some start \<and> start r w = Inr i)"
proof (cases "dl_args dl args")
  case (Inl e)
  then show thesis using assms refused by (simp add: DelegateTask_Execute_def failure_def)
next
  case (Inr a)
  show thesis
  proof (cases "delegate_refusal d f a")
    case (Some ans)
    then show thesis using assms refused Inr refusal_no_error [OF Some]
      by (simp add: DelegateTask_Execute_def)
  next
    case None
    let ?r = "\<lparr>cr_ParentRunID = dl_parent_run dl, cr_RoleName = dg_RoleName a, cr_InputMessage = dg_TaskInstruction a,
      cr_GoalID = dg_GoalID a, cr_AllowedTools = dg_AllowedTools a\<rparr>"
    let ?st = "case dl_persistence dl of None \<Rightarrow> Inr [] | Some start \<Rightarrow> start ?r w"
    show thesis
    proof (cases ?st)
      case (Inl e)
      then show thesis using assms refused Inr None
        by (simp add: DelegateTask_Execute_def Let_def failure_def)
    next
      case i: (Inr i)
      obtain ans s where c: "run_child d dl (f (names (dg_AllowedTools a))) (dl_persistence dl \<noteq> None) i a w = (ans, s)"
        by fastforce
      have "dl_persistence dl = None \<and> i = [] \<or> (\<exists>start r. dl_persistence dl = Some start \<and> start r w = Inr i)"
        using i by (cases "dl_persistence dl") auto
      with ran [OF Inr None c] show thesis using assms Inr None i c
        by (simp add: DelegateTask_Execute_def Let_def)
    qed
  qed
qed

text \<open>Persistence whose child runs have an id, as the WebSocket handler's \<open>d_<uuid>\<close>.\<close>

definition persisted :: "delegate_deps \<Rightarrow> bool" where
  "persisted dl \<longleftrightarrow> (\<exists>start. dl_persistence dl = Some start \<and> (\<forall>r w i. start r w = Inr i \<longrightarrow> trim_space i \<noteq> []))"

definition still_child :: "delegate_deps \<Rightarrow> bool" where
  "still_child dl \<longleftrightarrow> (\<forall>specs. still (dl_env dl specs))"

lemma delegate_keeps_inv:
  assumes "DelegateTask_Execute d dl (Some (session_registry d ctx)) None args w = ((out, w'), ops)"
    and "fresh_ids d" "still_child dl" "world_inv w"
  shows "world_inv w'"
proof -
  obtain res err evs where o: "out = (res, err, evs)" by (metis surj_pair)
  from assms(1) [unfolded o] show ?thesis
  proof (cases rule: delegate_cases)
    case (ran a i ans s)
    have "world_inv (child_w (snd (run_child d dl (session_registry d ctx (names (dg_AllowedTools a)))
        (dl_persistence dl \<noteq> None) i a w)))"
      by (rule run_child_keeps [OF session_child.child_world_axioms, THEN mp])
        (use assms(2-4) in \<open>simp_all add: still_child_def\<close>)
    then show ?thesis using ran by simp
  qed (use assms(4) in simp)
qed

lemma delegate_no_delivery:
  assumes "DelegateTask_Execute d dl (Some (session_registry d ctx)) None args w = ((out, w'), ops)"
    and "still_child dl" "delivered (tw_Report w')"
  shows "delivered (tw_Report w)"
proof (rule ccontr)
  assume nd: "\<not> delivered (tw_Report w)"
  obtain res err evs where o: "out = (res, err, evs)" by (metis surj_pair)
  from assms(1) [unfolded o] show False
  proof (cases rule: delegate_cases)
    case (ran a i ans s)
    let ?al = "names (dg_AllowedTools a)"
    have al: "?al \<noteq> []" "''report_finalize'' \<notin> set ?al" using refusal_none [OF ran(2)] by simp_all
    have "\<not> delivered (tw_Report (child_w (snd (run_child d dl (session_registry d ctx ?al)
        (dl_persistence dl \<noteq> None) i a w))))"
      by (rule run_child_keeps [OF undelivered_child.child_world_axioms, THEN mp])
        (use nd al assms(2) in \<open>simp_all add: still_child_def\<close>)
    then show ?thesis using ran assms(3) by simp
  qed (use nd assms(3) in simp)
qed

lemma delegate_quiet:
  assumes "DelegateTask_Execute d dl (Some f) None args w = (((res, err, evs), w'), ops)" "persisted dl"
  shows "list_all (\<lambda>ev. \<not> terminal ev) evs"
  using assms(1)
proof (cases rule: delegate_cases)
  case (ran a i ans s)
  then have "trim_space i \<noteq> []" using assms(2) by (auto simp: persisted_def)
  from run_child_quiet [OF this, of d dl "f (names (dg_AllowedTools a))" "dl_persistence dl \<noteq> None" a w] ran
  show ?thesis by (simp add: quiet_def)
qed simp

subsection \<open>Calls of the registry with delegation\<close>

lemma nested_lookup:
  "map_of (nested_registry d dl (Suc n) ctx allowed) name =
     (if name = ''task_delegate''
      then if allowed = [] \<or> name \<in> set allowed
           then Some (DelegateTaskTool d dl (Some (nested_registry d dl n ctx)) None) else None
      else map_of (session_registry d ctx allowed) name)"
proof -
  let ?b = "\<lambda>c. Some (DelegateTaskTool d dl (Some (nested_registry d dl n ctx)) None)"
  have ok: "registry_ok (LoadGlobalTools (session_builders d @ [?b]) ctx NewRegistry)"
    "registry_ok (LoadGlobalTools (session_builders d) ctx NewRegistry)"
    by (intro registry_ok_load registry_ok_new)+
  from clone_lookup [OF ok(1), of allowed name] clone_lookup [OF ok(2), of allowed name]
  show ?thesis
    by (auto simp: nested_registry.simps(2) session_registry_def buildRuntimeRegistry_def Let_def load_append
        map_of_register)
qed

lemma nested_factory:
  "DelegateTask_Execute d dl (Some (nested_registry d dl n ctx)) None args w
   = DelegateTask_Execute d dl (Some (session_registry d ctx)) None args w"
  by (rule delegate_same_factory) (rule nested_is_session)

lemma nested_execute:
  "Registry_Execute (nested_registry d dl (Suc n) ctx allowed) name args w =
     (if name = ''task_delegate'' \<and> (allowed = [] \<or> name \<in> set allowed)
      then Some (fst (DelegateTask_Execute d dl (Some (session_registry d ctx)) None args w))
      else Registry_Execute (session_registry d ctx allowed) name args w)"
proof (cases "name = ''task_delegate''")
  case False
  then show ?thesis by (simp add: Registry_Execute_def Registry_Get_def nested_lookup)
next
  case True
  have "map_of (session_registry d ctx allowed) ''task_delegate'' = None"
  proof (rule ccontr)
    assume "map_of (session_registry d ctx allowed) ''task_delegate'' \<noteq> None"
    then obtain t where t: "map_of (session_registry d ctx allowed) ''task_delegate'' = Some t" by blast
    from session_registry_range [OF t] session_registry_names [OF t] show False
      by (auto simp: session_tools_def SaveMemoryTool_def InspectMemoryTool_def AskUserTool_def
          InspectGoalsTool_def ManageSubgoalsTool_def CreateChartTool_def ManageReportBlocksTool_def
          ConfigureReportTool_def FinalizeReportTool_def mk_tool_def)
  qed
  with True show ?thesis
    by (simp add: Registry_Execute_def Registry_Get_def nested_lookup nested_factory)
      (simp add: DelegateTaskTool_def mk_tool_def nested_factory)
qed

lemma nested_call:
  assumes "Registry_Execute (nested_registry d dl n ctx allowed) name args w = out"
  obtains (plain) "Registry_Execute (session_registry d ctx allowed) name args w = out"
  | (delegate) "out = Some (fst (DelegateTask_Execute d dl (Some (session_registry d ctx)) None args w))"
  using assms by (cases n) (auto simp: nested_execute split: if_splits)

text \<open>The engine's environment with this registry.\<close>

definition nested_env ::
  "tool_deps \<Rightarrow> delegate_deps \<Rightarrow> nat \<Rightarrow> tool_world \<Rightarrow> string list \<Rightarrow> tool_world engine_env \<Rightarrow> tool_world engine_env" where
  "nested_env d dl n ctx allowed env =
     env\<lparr>env_tool := \<lambda>w nm a.
       case Registry_Execute (nested_registry d dl n ctx allowed) nm a w of
         Some r \<Rightarrow> r | None \<Rightarrow> (([], None, []), w)\<rparr>"

lemma nested_call_inv:
  assumes "Registry_Execute (nested_registry d dl n ctx allowed) name args w = out"
    and "fresh_ids d" "still_child dl" "world_inv w"
  shows "\<exists>r w'. out = Some (r, w') \<and> world_inv w'"
  using assms(1)
proof (cases rule: nested_call)
  case plain
  then show ?thesis using registry_call_ok [OF assms(2,4), of ctx allowed name args] by metis
next
  case delegate
  obtain r w' ops where e: "DelegateTask_Execute d dl (Some (session_registry d ctx)) None args w = ((r, w'), ops)"
    by (metis surj_pair)
  from delegate_keeps_inv [OF e assms(2-4)] e delegate show ?thesis by (cases r) simp
qed

lemma nested_quiet:
  assumes "persisted dl"
  shows "quiet_tools (nested_env d dl n ctx allowed env)"
proof unfold_locales
  fix w nm a res err evs w'
  assume call: "env_tool (nested_env d dl n ctx allowed env) w nm a = ((res, err, evs), w')"
  show "list_all (\<lambda>ev. \<not> terminal ev) evs"
  proof (cases "Registry_Execute (nested_registry d dl n ctx allowed) nm a w")
    case None
    then show ?thesis using call by (simp add: nested_env_def)
  next
    case (Some r)
    then have r: "Registry_Execute (nested_registry d dl n ctx allowed) nm a w = Some ((res, err, evs), w')"
      using call by (simp add: nested_env_def)
    then show ?thesis
    proof (cases rule: nested_call)
      case plain
      then show ?thesis by (rule registry_events)
    next
      case delegate
      then obtain ops where
        "DelegateTask_Execute d dl (Some (session_registry d ctx)) None a w = (((res, err, evs), w'), ops)"
        by (metis option.inject prod.collapse)
      then show ?thesis using assms by (rule delegate_quiet)
    qed
  qed
qed

text \<open>The ids of child runs differ from a given run id.\<close>

definition child_ids :: "delegate_deps \<Rightarrow> string \<Rightarrow> bool" where
  "child_ids dl r \<longleftrightarrow> (\<exists>start. dl_persistence dl = Some start
     \<and> (\<forall>q w i. start q w = Inr i \<longrightarrow> trim_space i \<noteq> [] \<and> trim_space i \<noteq> trim_space r))"

lemma delegate_foreign:
  assumes "DelegateTask_Execute d dl (Some (session_registry d ctx)) None args w = (((res, err, evs), w'), ops)"
    "child_ids dl r"
  shows "list_all (foreign r) evs"
  using assms(1)
proof (cases rule: delegate_cases)
  case (ran a i ans s)
  have "trim_space i \<noteq> []" "trim_space i \<noteq> trim_space r" using assms(2) ran(9) by (auto simp: child_ids_def)
  moreover have "list_all (\<lambda>ev. trim_space i \<noteq> [] \<and> trim_space i \<noteq> trim_space r \<longrightarrow> foreign r ev)
    (rs_events (ch_run (snd (run_child d dl (session_registry d ctx (names (dg_AllowedTools a)))
       (dl_persistence dl \<noteq> None) i a w))))"
    by (rule run_child_events [OF foreign_child.child_events_axioms])
  ultimately show ?thesis using ran(3,4) by (simp add: list_all_iff)
qed simp

interpretation nested_events: event_source "nested_env d dl n ctx allowed env"
  "\<lambda>ev. child_ids dl r \<longrightarrow> foreign r ev" for d dl n ctx allowed env r
proof unfold_locales
  fix w nm a res err evs w'
  assume call: "env_tool (nested_env d dl n ctx allowed env) w nm a = ((res, err, evs), w')"
  show "list_all (\<lambda>ev. child_ids dl r \<longrightarrow> foreign r ev) evs"
  proof (cases "Registry_Execute (nested_registry d dl n ctx allowed) nm a w")
    case None
    then show ?thesis using call by (simp add: nested_env_def)
  next
    case (Some x)
    then have x: "Registry_Execute (nested_registry d dl n ctx allowed) nm a w = Some ((res, err, evs), w')"
      using call by (simp add: nested_env_def)
    then have "child_ids dl r \<Longrightarrow> list_all (foreign r) evs"
    proof (cases rule: nested_call)
      case plain
      then show ?thesis by (rule registry_foreign)
    next
      case delegate
      then obtain ops where
        "DelegateTask_Execute d dl (Some (session_registry d ctx)) None a w = (((res, err, evs), w'), ops)"
        by (metis option.inject prod.collapse)
      then show "child_ids dl r \<Longrightarrow> ?thesis" by (rule delegate_foreign)
    qed
    then show ?thesis by (auto simp: list_all_iff)
  qed
qed simp

interpretation nested_kept: kept_world "nested_env d dl n ctx allowed env"
  "\<lambda>w. fresh_ids d \<and> still env \<and> still_child dl \<longrightarrow> world_inv w" for d dl n ctx allowed env
proof unfold_locales
  fix w nm a out w'
  assume w: "fresh_ids d \<and> still env \<and> still_child dl \<longrightarrow> world_inv w"
    and call: "env_tool (nested_env d dl n ctx allowed env) w nm a = (out, w')"
  show "fresh_ids d \<and> still env \<and> still_child dl \<longrightarrow> world_inv w'"
    using nested_call_inv [OF refl, of d dl w n ctx allowed nm a] w call by (auto simp: nested_env_def)
qed (auto simp: nested_env_def still_def, (metis snd_conv)+)

section \<open>The record of a child run\<close>

fun is_status :: "persist_op \<Rightarrow> bool" where
  "is_status (UpdateChildRunStatus i status msg) = True"
| "is_status (UpdateChildRunSummary i summary) = False"
| "is_status (UpdateChildRunTokens i p c) = False"

text \<open>The final status in the record agrees with what the parent is told.\<close>

definition agrees :: "tool_deps \<Rightarrow> string \<Rightarrow> delegate_args \<Rightarrow> go_answer \<Rightarrow> string \<Rightarrow> bool" where
  "agrees d i a ans status \<longleftrightarrow>
     (status = ''completed'' \<and> (\<exists>summary trace. ans = (td_marshal d (delegateToolSuccess i (dg_RoleName a)
        (dg_TaskInstruction a) (dg_AllowedTools a) (dg_GoalID a) summary trace), None)))
     \<or> (status = ''failed'' \<and> (\<exists>code message. ans = failure d i a code message child_failed))
     \<or> (status = ''cancelled'' \<and> fst ans = [] \<and> snd ans \<noteq> None)"

definition closes :: "tool_deps \<Rightarrow> string \<Rightarrow> delegate_args \<Rightarrow> go_answer \<Rightarrow> persist_op list \<Rightarrow> bool" where
  "closes d i a ans ops \<longleftrightarrow>
     (\<exists>pre status msg post. ops = pre @ UpdateChildRunStatus i status msg # post
        \<and> list_all (\<lambda>op. \<not> is_status op) (pre @ post) \<and> agrees d i a ans status)"

lemma persist_frames [simp]:
  "ch_persist (childEmit i ev s) = ch_persist s" "ch_persist (trace_add k t s) = ch_persist s"
  "ch_persist (child_remember item s) = ch_persist s" "ch_persist (child_answered cd resp s) = ch_persist s"
  by (simp_all add: childEmit_def trace_add_def child_remember_def child_answered_def Let_def)

lemma persist_set_goal [simp]: "ch_persist (set_goal d i gid st res always s) = ch_persist s"
  by (simp add: set_goal_def Let_def split_beta split: option.split)

lemma persist_call [simp]: "ch_persist (child_call d env i c s) = ch_persist s"
  by (simp add: child_call_def Let_def split_beta split: option.split)

lemma persist_calls [simp]: "ch_persist (child_calls d env i cs s) = ch_persist s"
  unfolding child_calls_def by (induction cs arbitrary: s) simp_all

lemma persist_ops: "i \<noteq> [] \<Longrightarrow> ch_persist (persist True i ops s) = ch_persist s @ ops"
  by (simp add: persist_def)

lemma closes_simple:
  "agrees d i a ans status \<Longrightarrow> closes d i a ans [UpdateChildRunStatus i status msg]"
  "agrees d i a ans status \<Longrightarrow> closes d i a ans [UpdateChildRunStatus i status msg, tokens_op i s]"
  "agrees d i a ans status \<Longrightarrow>
     closes d i a ans [UpdateChildRunSummary i t, UpdateChildRunStatus i status msg, tokens_op i s]"
  unfolding closes_def
  by (rule exI [of _ "[]"], fastforce,
      rule exI [of _ "[]"], fastforce simp: tokens_op_def,
      rule exI [of _ "[UpdateChildRunSummary i t]"], fastforce simp: tokens_op_def)

lemma agrees_simps [simp]:
  "agrees d i a (failure d i a code message child_failed) ''failed''"
  "agrees d i a ([], Some e) ''cancelled''"
  "agrees d i a (td_marshal d (delegateToolSuccess i (dg_RoleName a) (dg_TaskInstruction a) (dg_AllowedTools a)
     (dg_GoalID a) summary trace), None) ''completed''"
  by (auto simp: agrees_def)

fun recorded :: "tool_deps \<Rightarrow> string \<Rightarrow> delegate_args \<Rightarrow> persist_op list \<Rightarrow> child_outcome \<Rightarrow> bool" where
  "recorded d i a ps (ChildGoes s) = (ch_persist s = ps)"
| "recorded d i a ps (ChildEnds ans s) = (\<exists>ops. ch_persist s = ps @ ops \<and> closes d i a ans ops)"

lemma child_choice_record:
  "i \<noteq> [] \<Longrightarrow> ch_persist s = ps \<Longrightarrow> recorded d i a ps (child_choice d env True i a choice s)"
  by (simp add: child_choice_def Let_def persist_ops closes_simple)

lemma child_turn_record:
  assumes "i \<noteq> []"
  shows "recorded d i a (ch_persist s) (child_turn d env True i a s)"
proof -
  obtain dn r where pl: "poll env (ch_run s) = (dn, r)" by fastforce
  obtain ans w where l: "env_llm env (rs_world r) (ch_bundle s) True = (ans, w)" by fastforce
  show ?thesis using pl l assms
    by (simp add: child_turn_def Let_def persist_ops closes_simple child_choice_record split: sum.split list.split)
qed

lemma child_loop_record:
  assumes "i \<noteq> []"
  shows "\<exists>ops. ch_persist (snd (child_loop d env True i a n s)) = ch_persist s @ ops
    \<and> closes d i a (fst (child_loop d env True i a n s)) ops"
proof (induction n arbitrary: s)
  case 0
  then show ?case using assms by (simp add: Let_def persist_ops closes_simple)
next
  case (Suc n)
  show ?case
  proof (cases "child_turn d env True i a s")
    case (ChildEnds ans s')
    then show ?thesis using child_turn_record [OF assms, of d a s env] by simp
  next
    case (ChildGoes s')
    then show ?thesis using child_turn_record [OF assms, of d a s env] Suc.IH [of s'] by simp
  qed
qed

section \<open>Properties\<close>

text \<open>
  Delegation does not nest: whatever depth the registry is unrolled to, a call behaves as with
  one level of delegation, because a sub-agent can never be given \<open>task_delegate\<close>.
\<close>

theorem delegation_never_nests:
  "Registry_Execute (nested_registry d dl (Suc n) ctx allowed) name args w
   = Registry_Execute (nested_registry d dl 1 ctx allowed) name args w"
  unfolding One_nat_def by (simp add: nested_execute)

text \<open>
  C36. A sub-agent stays within its tools: once its arguments are accepted, a call of a tool that is
  not on its list, and of \<open>user_request_input\<close>, \<open>report_finalize\<close> or \<open>task_delegate\<close> in any case, is
  refused by its registry and changes nothing.
\<close>

theorem delegate_stays_within_tools:
  assumes "delegate_refusal d (buildDelegateRegistry (Some (buildRuntimeRegistry builders ctx)) None) a = None"
    and "name \<notin> set (names (dg_AllowedTools a))
      \<or> name \<in> {''user_request_input'', ''report_finalize'', ''task_delegate''}"
  shows "Registry_Execute (buildDelegateRegistry (Some (buildRuntimeRegistry builders ctx)) None
      (names (dg_AllowedTools a))) name args w
    = Some (([], Some (''tool '' @ [CHR 0x27] @ name @ [CHR 0x27] @ '' not registered''), []), w)"
proof -
  have "name \<notin> set (names (dg_AllowedTools a))" "names (dg_AllowedTools a) \<noteq> []"
    using assms refusal_none [OF assms(1)] by blast+
  then show ?thesis
    using clone_lookup [OF registry_ok_load [OF registry_ok_new], of builders ctx "names (dg_AllowedTools a)" name]
    by (simp add: Registry_Execute_def Registry_Get_def buildRuntimeRegistry_def Let_def)
qed

definition sample_task :: delegate_args where
  "sample_task = \<lparr>dg_RoleName = ''reader'', dg_PolicyAppendix = [], dg_TaskInstruction = ''look'',
     dg_AllowedTools = Some [''report_manage_blocks''], dg_GoalID = []\<rparr>"

lemma load_has:
  "b \<in> set bs \<Longrightarrow> b ctx = Some t \<Longrightarrow> map_of (LoadGlobalTools bs ctx r) (tl_Name t) \<noteq> None"
  by (induction bs rule: rev_induct) (auto simp: load_append map_of_register split: option.split)

lemma sample_task_accepted: "delegate_refusal sample_deps (session_registry sample_deps sample_world) sample_task = None"
proof -
  have "validatePolicyAppendix [] = None" "disallowedDelegateTools [''report_manage_blocks''] = []"
    by (simp_all add: validatePolicyAppendix_def disallowedDelegateTools_def trim_eval)
  moreover have "ListTools (session_registry sample_deps sample_world [''report_manage_blocks'']) \<noteq> []"
  proof -
    let ?b = "\<lambda>ctx :: tool_world. Some (ManageReportBlocksTool sample_deps)"
    have "?b \<in> set (session_builders sample_deps)" by (simp add: session_builders_def)
    from load_has [OF this refl, of sample_world NewRegistry]
    have "map_of (session_registry sample_deps sample_world [''report_manage_blocks'']) ''report_manage_blocks'' \<noteq> None"
      by (simp add: session_registry_def buildRuntimeRegistry_def Let_def
          clone_lookup [OF registry_ok_load [OF registry_ok_new]] ManageReportBlocksTool_def mk_tool_def)
    then show ?thesis by (auto simp: ListTools_def)
  qed
  ultimately show ?thesis
    by (simp add: delegate_refusal_def sample_task_def names_def trim_eval)
qed

theorem delegate_stays_within_tools_witness:
  "Registry_Execute (buildDelegateRegistry
      (Some (buildRuntimeRegistry (session_builders sample_deps) sample_world)) None [''report_manage_blocks''])
      ''report_finalize'' [] sample_world
    = Some (([], Some (''tool '' @ [CHR 0x27] @ ''report_finalize'' @ [CHR 0x27] @ '' not registered''), []), sample_world)"
  using delegate_stays_within_tools [of sample_deps "session_builders sample_deps" sample_world sample_task
      "''report_finalize''" "[]" sample_world] sample_task_accepted
  by (simp add: session_registry_def [abs_def] sample_task_def names_def)

text \<open>
  C37. Every child run that was started is closed exactly once in the persistent record, as
  completed, failed or cancelled, and the parent is told the same: a success answer for a
  completed run, a failure answer for a failed one, an error for a cancelled one.
\<close>

theorem child_run_closed_once:
  assumes "childRunID \<noteq> []" "run_child d dl subReg True childRunID a w = (ans, s)"
  shows "\<exists>pre status msg post. ch_persist s = pre @ UpdateChildRunStatus childRunID status msg # post
    \<and> list_all (\<lambda>op. \<not> is_status op) (pre @ post) \<and> agrees d childRunID a ans status"
proof -
  let ?env = "prepareRegistryRuntimeTools subReg childRunID (dl_env dl (GetToolSpecs subReg))"
  have "\<exists>s0. run_child d dl subReg True childRunID a w = child_loop d ?env True childRunID a maxWorkerIterations s0
      \<and> ch_persist s0 = []"
    unfolding run_child_def Let_def by (rule exI, rule conjI, rule refl, simp)
  then obtain s0 where s0:
    "run_child d dl subReg True childRunID a w = child_loop d ?env True childRunID a maxWorkerIterations s0"
    "ch_persist s0 = []" by blast
  have l: "child_loop d ?env True childRunID a maxWorkerIterations s0 = (ans, s)" using s0(1) assms(2) by simp
  from child_loop_record [OF assms(1), of d ?env a maxWorkerIterations s0] s0(2)
  show ?thesis unfolding l closes_def by simp
qed

text \<open>A sub-agent whose model gives a final answer at once, and one whose model never answers.\<close>

definition quick_child :: "llm_choice list \<Rightarrow> delegate_deps" where
  "quick_child choices =
     \<lparr>dl_args = \<lambda>s. Inr sample_task, dl_policy = [], dl_parent_run = ''r_1'',
      dl_persistence = Some (\<lambda>r w. Inr ''d_1''),
      dl_env = \<lambda>specs. \<lparr>env_llm = \<lambda>w b k. (Inr \<lparr>lr_Choices = choices, lr_PromptTokens = 10, lr_CompletionTokens = 1\<rparr>, w),
        env_tool = \<lambda>w n a. (([], None, []), w), env_done = \<lambda>w. (False, w), env_sleep = \<lambda>w n. (False, w),
        env_ctx_error = \<lambda>w. [], env_elapsed = \<lambda>w. 0, env_vars = None, env_ask = \<lambda>a. Inl [], env_quote = \<lambda>a. a,
        env_codec = sample_codec\<rparr>\<rparr>"

theorem child_run_closed_once_witness:
  "\<exists>ans s pre status msg post. run_child sample_deps (quick_child []) NewRegistry True ''d_1'' sample_task sample_world
       = (ans, s) \<and> ch_persist s = pre @ UpdateChildRunStatus ''d_1'' status msg # post"
proof -
  obtain ans s where r: "run_child sample_deps (quick_child []) NewRegistry True ''d_1'' sample_task sample_world = (ans, s)"
    by fastforce
  from child_run_closed_once [OF _ r] r show ?thesis by blast
qed

lemma silent_turn:
  assumes "poll env (ch_run s) = (False, ch_run s)"
    and "\<And>w b k. env_llm env w b k = (Inr \<lparr>lr_Choices = [], lr_PromptTokens = p, lr_CompletionTokens = c\<rparr>, w)"
  shows "\<exists>s'. child_turn d env present r a s
      = ChildEnds (failure d r a ''delegate_no_response'' ''delegated agent returned no response'' child_failed) s'
    \<and> child_w s' = child_w s"
  using assms by (simp add: child_turn_def Let_def)

text \<open>
  A goal is set to running when its task starts. If the model gives no choice, the task fails
  but the goal stays running.
\<close>

lemma silent_child_leaves_goal_running:
  fixes g :: goal_rec
  assumes "sg_ID g = ''goal_1''"
  defines "w \<equiv> sample_world\<lparr>tw_Goals := Some [g]\<rparr>"
    and "a \<equiv> sample_task\<lparr>dg_GoalID := ''goal_1''\<rparr>"
  shows "fst (run_child sample_deps (quick_child []) reg True ''d_1'' a w)
        = failure sample_deps ''d_1'' a ''delegate_no_response'' ''delegated agent returned no response'' child_failed
    \<and> (\<exists>g'. tw_Goals (child_w (snd (run_child sample_deps (quick_child []) reg True ''d_1'' a w))) = Some [g']
        \<and> sg_ID g' = ''goal_1'' \<and> sg_Status g' = StatusRunning)"
proof -
  let ?env = "prepareRegistryRuntimeTools reg ''d_1'' (dl_env (quick_child []) (GetToolSpecs reg))"
  have goal: "\<exists>g'. tw_Goals (child_w (set_goal sample_deps ''d_1'' ''goal_1'' StatusRunning [] False s)) = Some [g']
      \<and> sg_ID g' = ''goal_1'' \<and> sg_Status g' = StatusRunning" if "child_w s = w" for s
    using that assms(1)
    by (simp add: set_goal_def w_def UpdateGoalStatus_def set_status_def childEmit_def Let_def)
  have env: "poll ?env (ch_run s) = (False, ch_run s)"
    "env_llm ?env u b k = (Inr \<lparr>lr_Choices = [], lr_PromptTokens = 10, lr_CompletionTokens = 1\<rparr>, u)" for s u b k
    by (simp_all add: poll_def prepareRegistryRuntimeTools_def quick_child_def)
  have m: "maxWorkerIterations = Suc 24" "dg_GoalID a = ''goal_1''" by (simp_all add: maxWorkerIterations_def a_def)
  have "\<exists>s. run_child sample_deps (quick_child []) reg True ''d_1'' a w = child_loop sample_deps ?env True ''d_1'' a
      (Suc 24) (set_goal sample_deps ''d_1'' ''goal_1'' StatusRunning [] False s) \<and> child_w s = w"
    unfolding run_child_def Let_def m by (intro exI conjI, rule refl) simp
  then obtain s where s: "run_child sample_deps (quick_child []) reg True ''d_1'' a w = child_loop sample_deps ?env True
      ''d_1'' a (Suc 24) (set_goal sample_deps ''d_1'' ''goal_1'' StatusRunning [] False s)" "child_w s = w" by blast
  let ?s = "set_goal sample_deps ''d_1'' ''goal_1'' StatusRunning [] False s"
  obtain s' where r: "child_turn sample_deps ?env True ''d_1'' a ?s = ChildEnds (failure sample_deps ''d_1'' a
      ''delegate_no_response'' ''delegated agent returned no response'' child_failed) s'" "child_w s' = child_w ?s"
    using silent_turn [OF env] by blast
  show ?thesis unfolding s(1) child_loop.simps r(1) child_outcome.case fst_conv snd_conv r(2)
    using goal [OF s(2)] by simp
qed

text \<open>
  Without persistence the child run has no id, and its completion reaches the parent's client as
  an event that ends the parent's run.
\<close>

lemma unpersisted_child_ends_parent:
  "\<exists>ev \<in> set (rs_events (ch_run (snd (run_child sample_deps
      (quick_child [\<lparr>lc_Message = \<lparr>lm_Role = ''assistant'', lm_Content = ''done'', lm_ReasoningContent = [],
         lm_ToolCalls = []\<rparr>, lc_FinishReason = ''stop''\<rparr>])
      reg False [] sample_task sample_world)))). terminal ev"
  by (simp add: run_child_def maxWorkerIterations_def eval_nat_numeral child_turn_def poll_def quick_child_def
      prepareRegistryRuntimeTools_def set_goal_def sample_task_def child_choice_def sample_world_def
      childEmit_def emit_def persist_def child_answered_def Let_def stamp_def terminal_def mk_event_def
      LLMFinishReasonStop_def trace_add_def trim_eval)

end
