(* ===== verification/Ws_Handler.thy ===== *)
theory Ws_Handler
  imports Run_Restore Delegate_Agent
begin

text \<open>
  The WebSocket handler (\<open>WSHandler\<close> of \<open>server/handler/ws.go\<close>) and what it calls to restore a
  session: connecting, and the messages of a client (user message, stop, reset). The connection
  is its session with what was sent to the client, handed to the message store and stored of
  runs and session; the goroutines that run the engine are recorded as they are launched. Read
  and write errors of the socket, pings and logging are left out.
\<close>

section \<open>Restoring a session\<close>

definition renderLiveSessionRuntimeReport ::
  "hook_deps \<Rightarrow> (report_snapshot \<Rightarrow> string option) \<Rightarrow> session \<Rightarrow> report_snapshot option \<times> string" where
  "renderLiveSessionRuntimeReport h render sess =
     (let rs = se_ReportState sess
      in if Blocks rs = [] \<and> Charts rs = [] then (None, [])
         else let snap = buildReportSnapshotLocked (hd_sources h) (Some rs)
              in (Some snap, case render snap of Some html \<Rightarrow> html | None \<Rightarrow> []))"

definition live_state :: "hook_deps \<Rightarrow> (report_snapshot \<Rightarrow> string option) \<Rightarrow> session \<Rightarrow> restored" where
  "live_state h render sess =
     (let (snap, html) = renderLiveSessionRuntimeReport h render sess
      in \<lparr>rt_memory = fst (RuntimeState sess),
          rt_goals = (case snd (RuntimeState sess) of Some g \<Rightarrow> g | None \<Rightarrow> []),
          rt_snapshot = snap, rt_html = html, rt_edit = Some (CurrentEditStateData sess), rt_pending = []\<rparr>)"

definition getSessionRuntimeState ::
  "hook_deps \<Rightarrow> restore_codec \<Rightarrow> (report_snapshot \<Rightarrow> string option) \<Rightarrow> nat \<Rightarrow> manager \<Rightarrow> run_table \<Rightarrow>
   message_table \<Rightarrow> string \<Rightarrow> string \<Rightarrow> string \<Rightarrow> restored option" where
  "getSessionRuntimeState h jc render n mgr runs msgs workspaceID userID sessionID =
     (case Peek mgr sessionID workspaceID userID of
        Inr (Some sess) \<Rightarrow> Some (live_state h render sess)
      | _ \<Rightarrow> loadSessionRuntimeStateFromPersistence jc render n runs msgs sessionID)"

definition sessionExists :: "session_repo option \<Rightarrow> string \<Rightarrow> bool result" where
  "sessionExists repo sessionID =
     (case repo of
        None \<Rightarrow> Inr False
      | Some get \<Rightarrow>
          if trim_space sessionID = [] then Inr False
          else (case get sessionID of Inr _ \<Rightarrow> Inr True | Inl NoRows \<Rightarrow> Inr False | Inl (RepoFailure e) \<Rightarrow> Inl e))"

definition shouldHydrateSessionFromPersistence :: "manager \<Rightarrow> string \<Rightarrow> string \<Rightarrow> string \<Rightarrow> bool result" where
  "shouldHydrateSessionFromPersistence mgr workspaceID userID sessionID =
     (if trim_space sessionID = [] then Inr False
      else (case Peek mgr sessionID workspaceID userID of
              Inl e \<Rightarrow> Inl e
            | Inr (Some _) \<Rightarrow> Inr False
            | Inr None \<Rightarrow> sessionExists (mg_repo mgr) sessionID))"

definition hydrateSessionFromPersistence ::
  "int \<Rightarrow> (string \<Rightarrow> evidence_ref list option) \<Rightarrow> restored \<Rightarrow> session \<Rightarrow> session" where
  "hydrateSessionFromPersistence now parse_sources st sess =
     (let s1 = LoadRuntimeState now (case rt_memory st of Some m \<Rightarrow> m | None \<Rightarrow> []) (rt_goals st) sess;
          s2 = Session_LoadReportSnapshot parse_sources (rt_snapshot st) s1
      in case rt_edit st of
           Some e \<Rightarrow> if ed_Active e \<and> ed_EditContext e \<noteq> None then ConfigureEditState (ed_EditContext e) s2
                     else ClearEditState s2
         | None \<Rightarrow> ClearEditState s2)"

text \<open>
  The loader of the report a message refers to. \<open>report\<close> gives the stored snapshot of a run's
  report, \<open>parse\<close> decodes it, and \<open>current\<close> is the runtime state of the session.
\<close>

definition handlerReportSnapshotLoader ::
  "run_table \<Rightarrow> (string \<Rightarrow> string option) \<Rightarrow> (string \<Rightarrow> report_snapshot result) \<Rightarrow> restored \<Rightarrow> snapshot_loader" where
  "handlerReportSnapshotLoader runs report parse current sessionID workspaceID userID runID =
     (if trim_space runID = [] then Inr None
      else (case sql_Run_GetByID runs runID of
              Inl _ \<Rightarrow> Inl ''failed to read target task: sql: no rows in result set''
            | Inr run \<Rightarrow>
                if an_SessionID run \<noteq> sessionID \<or> an_WorkspaceID run \<noteq> workspaceID \<or> an_UserID run \<noteq> userID
                then Inl ''target task does not belong to current session''
                else (case report runID of
                        Some js \<Rightarrow>
                          (case parse js of
                             Inl e \<Rightarrow> Inl (''failed to parse report snapshot: '' @ e)
                           | Inr snap \<Rightarrow> Inr (Some snap))
                      | None \<Rightarrow>
                          (case rt_snapshot current of
                             Some snap \<Rightarrow> Inr (Some snap)
                           | None \<Rightarrow> Inl ''target task has not generated an editable report yet''))))"

section \<open>Connecting\<close>

text \<open>
  The first part of \<open>WSHandler\<close>: the session of the connection, whether its state was restored, the
  stored runs, and the manager; \<open>None\<close> closes the connection. \<open>restore\<close> is the state derived from
  the stored messages, given the stored runs.
\<close>

definition ws_connect ::
  "int \<Rightarrow> string \<Rightarrow> (string \<Rightarrow> string \<Rightarrow> string \<Rightarrow> session result) \<Rightarrow> string option \<Rightarrow>
   (string \<Rightarrow> evidence_ref list option) \<Rightarrow> (run_table \<Rightarrow> string \<Rightarrow> restored option) \<Rightarrow> nat \<Rightarrow>
   string \<Rightarrow> string \<Rightarrow> string \<Rightarrow> run_table \<Rightarrow> manager \<Rightarrow> (session \<times> bool \<times> run_table \<times> manager) option" where
  "ws_connect now uuid mk create_err parse_sources restore n query workspaceID userID runs mgr =
     (let sessionID = trim_space query
      in case (if sessionID \<noteq> [] then shouldHydrateSessionFromPersistence mgr workspaceID userID sessionID
               else Inr False) of
           Inl _ \<Rightarrow> None
         | Inr hydrate \<Rightarrow>
             (case GetOrCreate now uuid mk create_err mgr sessionID workspaceID userID of
                (Inl _, _, _) \<Rightarrow> None
              | (Inr (sess, _), _, mgr1) \<Rightarrow>
                  if \<not> hydrate then Some (sess, False, runs, mgr1)
                  else Option.bind (recoverStaleSessionRuns n (IsSessionLive mgr1 (se_ID sess)) (se_ID sess) now runs)
                         (\<lambda>runs1. map_option (\<lambda>st.
                            let sess1 = hydrateSessionFromPersistence now parse_sources st sess
                            in (sess1, True, runs1, put_session (se_ID sess) sess1 mgr1))
                            (restore runs1 (se_ID sess)))))"

section \<open>Messages of the client\<close>

record ws_deps =
  wd_now :: int
  wd_uuid :: string
  wd_cancel :: nat
  wd_sources :: "string \<Rightarrow> evidence_ref list option"
  wd_loader :: snapshot_loader
  wd_codec :: codec
  wd_edit_json :: "edit_state_data \<Rightarrow> json"
  wd_session_row :: "string \<Rightarrow> bool"
  wd_file_row :: "string \<Rightarrow> bool"
  wd_title :: "string option"
  wd_reset_db :: "string option"
  wd_reset_json :: json

text \<open>
  A launched engine is recorded with its run, the input and the extra context blocks; \<open>wc_last_run\<close>
  and \<open>wc_titles\<close> are the writes to the session's record.
\<close>

record ws_conn =
  wc_session :: session
  wc_user :: string
  wc_runs :: run_table
  wc_sent :: "ws_event list"
  wc_saved :: "(string \<times> ws_event) list"
  wc_launched :: "(string \<times> string \<times> runtime_context_block list) list"
  wc_last_run :: "string list"
  wc_titles :: "string list"

datatype client_message =
    ClientUser "user_message option"
  | ClientStop string
  | ClientReset
  | ClientOther

definition ws_send :: "string \<Rightarrow> ws_event \<Rightarrow> ws_conn \<Rightarrow> ws_conn" where
  "ws_send runID ev c =
     c\<lparr>wc_sent := wc_sent c @ [if runID \<noteq> [] \<and> ev_run_id ev = [] then ev\<lparr>ev_run_id := runID\<rparr> else ev]\<rparr>"

definition ws_save :: "string \<Rightarrow> ws_event \<Rightarrow> ws_conn \<Rightarrow> ws_conn" where
  "ws_save runID ev c = c\<lparr>wc_saved := wc_saved c @ [(runID, ev)]\<rparr>"

definition ws_error :: "string \<Rightarrow> string \<Rightarrow> ws_conn \<Rightarrow> ws_conn" where
  "ws_error runID msg c = ws_send runID (mk_event EventError (error_data msg)) c"

definition deriveSessionTitle :: "string \<Rightarrow> string" where
  "deriveSessionTitle input =
     (let title = trim_space input
      in if title = [] then ''Untitled Analysis''
         else let t = join '' '' (str_fields (replace_byte (CHR 0x0A) (CHR '' '') title))
              in if length (runes t) > 28 then of_runes (take 28 (runes t)) @ ''...'' else t)"

definition turnContextRuntimeBlock :: "turn_context option \<Rightarrow> runtime_context_block option" where
  "turnContextRuntimeBlock t =
     (case t of
        None \<Rightarrow> None
      | Some tc \<Rightarrow>
          if trim_space (tc_report_target_run_id tc) = [] then None
          else Some \<lparr>rc_Name = ''current_turn_target'', rc_Role = ''user'',
                 rc_Content = join [CHR 0x0A]
                   ([''ReportTargetRunID: '' @ trim_space (tc_report_target_run_id tc)] @
                    (if trim_space (tc_report_title tc) \<noteq> []
                     then [''ReportTitle: '' @ trim_space (tc_report_title tc)] else []))\<rparr>)"

definition resolvePreparedUserMessage :: "user_message \<Rightarrow> user_message \<times> runtime_context_block list" where
  "resolvePreparedUserMessage m =
     (if um_edit_context m \<noteq> None then (m, [])
      else (m, case turnContextRuntimeBlock (um_turn_context m) of Some b \<Rightarrow> [b] | None \<Rightarrow> []))"

definition buildRunUserContent :: "user_message \<Rightarrow> string" where
  "buildRunUserContent m = trim_space (um_content m)"

definition user_event :: "user_message \<Rightarrow> ws_event" where
  "user_event m = mk_event ''user'' (JObj [(''content'', JStr (um_content m))])"

text \<open>The answer to a waiting run.\<close>

definition ws_resume :: "ws_deps \<Rightarrow> string \<Rightarrow> user_message \<Rightarrow> ws_conn \<Rightarrow> ws_conn" where
  "ws_resume d runID m c =
     (let s = wc_session c
      in case ProvideAskUserResult (wd_codec d) (se_Engine s) (um_content m) of
           (Some err, _) \<Rightarrow> ws_error runID err c
         | (None, engine) \<Rightarrow>
             let c1 = ws_save runID (user_event m) (c\<lparr>wc_session := s\<lparr>se_Engine := engine\<rparr>\<rparr>);
                 c2 = c1\<lparr>wc_runs := sql_Run_UpdateStatus runID RunStatusRunning None (wd_now d) (wc_runs c1)\<rparr>;
                 c3 = c2\<lparr>wc_session := snd (UpdateCancelFunc runID (Some (wd_cancel d)) (wc_session c2))\<rparr>
             in c3\<lparr>wc_launched := wc_launched c3 @ [(runID, [], [])]\<rparr>)"

definition root_run :: "ws_deps \<Rightarrow> string \<Rightarrow> user_message \<Rightarrow> ws_conn \<Rightarrow> analysis_run" where
  "root_run d runID m c =
     \<lparr>an_ID = runID, an_SessionID = se_ID (wc_session c), an_WorkspaceID = se_WorkspaceID (wc_session c),
      an_UserID = wc_user c, an_ParentRunID = None, an_RunKind = RunKindRoot, an_DelegateRole = [],
      an_GoalID = None, an_Status = RunStatusRunning, an_InputMessage = trim_space (um_content m),
      an_Summary = [], an_ErrorMessage = None, an_ReportFileID = None, an_StartedAt = Some (wd_now d),
      an_FinishedAt = None, an_CreatedAt = wd_now d, an_UpdatedAt = wd_now d\<rparr>"

text \<open>What follows once the row of a new run is stored.\<close>

definition ws_launch :: "ws_deps \<Rightarrow> string \<Rightarrow> user_message \<Rightarrow> runtime_context_block list \<Rightarrow> ws_conn \<Rightarrow> ws_conn" where
  "ws_launch d runID m extra c =
     (let c1 = ws_save runID (user_event m) c;
          c2 = c1\<lparr>wc_last_run := wc_last_run c1 @ [runID],
                  wc_titles := wc_titles c1 @
                    (case wd_title d of
                       Some t \<Rightarrow> if t = [] \<or> t = ''Untitled Analysis''
                                 then [deriveSessionTitle (trim_space (um_content m))] else []
                     | None \<Rightarrow> [])\<rparr>;
          c3 = ws_send runID (mk_event EventRunStarted (JObj [(''runId'', JStr runID)])) c2;
          edit = mk_event EventStateReportEditUpdated (wd_edit_json d (CurrentEditStateData (wc_session c3)));
          c4 = ws_save runID edit (ws_send runID edit c3)
      in c4\<lparr>wc_launched := wc_launched c4 @ [(runID, buildRunUserContent m, extra)]\<rparr>)"

definition ws_new_run :: "ws_deps \<Rightarrow> user_message \<Rightarrow> ws_conn \<Rightarrow> ws_conn" where
  "ws_new_run d m c =
     (let (prepared, extra) = resolvePreparedUserMessage m
      in case PrepareUserRun (wd_sources d) (Some (wd_loader d)) prepared (wc_session c) of
           (Some err, s) \<Rightarrow> ws_error [] err (c\<lparr>wc_session := s\<rparr>)
         | (None, s) \<Rightarrow>
             (case StartRun (wd_now d) (wd_uuid d) (wd_cancel d) s of
                (Inl err, s1) \<Rightarrow> ws_error [] err (c\<lparr>wc_session := s1\<rparr>)
              | (Inr runID, s1) \<Rightarrow>
                  (case sql_Run_Create (wd_session_row d) (wd_file_row d) (root_run d runID m (c\<lparr>wc_session := s1\<rparr>))
                          (wc_runs c) of
                     (Some _, runs) \<Rightarrow>
                       ws_error [] ''failed to create task record: constraint failed''
                         (c\<lparr>wc_session := snd (snd (CancelRun (wd_now d) runID s1)), wc_runs := runs\<rparr>)
                   | (None, runs) \<Rightarrow> ws_launch d runID m extra (c\<lparr>wc_session := s1, wc_runs := runs\<rparr>))))"

definition ws_user_message :: "ws_deps \<Rightarrow> user_message option \<Rightarrow> ws_conn \<Rightarrow> ws_conn" where
  "ws_user_message d msg c =
     (case msg of
        None \<Rightarrow> ws_error [] ''failed to parse user message'' c
      | Some m \<Rightarrow>
          (case ConsumeWaitingRun (wd_now d) (wc_session c) of
             (runID, s) \<Rightarrow>
               if runID \<noteq> [] then ws_resume d runID m (c\<lparr>wc_session := s\<rparr>)
               else ws_new_run d m (c\<lparr>wc_session := s\<rparr>)))"

definition ws_handle :: "ws_deps \<Rightarrow> client_message \<Rightarrow> ws_conn \<Rightarrow> ws_conn" where
  "ws_handle d msg c =
     (case msg of
        ClientUser m \<Rightarrow> ws_user_message d m c
      | ClientStop runID \<Rightarrow>
          (case CancelRun (wd_now d) runID (wc_session c) of
             (True, _, s) \<Rightarrow> c\<lparr>wc_session := s\<rparr>
           | (False, _, s) \<Rightarrow> ws_error [] ''no running task to stop'' (c\<lparr>wc_session := s\<rparr>))
      | ClientReset \<Rightarrow>
          (case Session_Reset (wd_now d) (wd_reset_db d) (wc_session c) of
             (Some err, s) \<Rightarrow> ws_error [] err (c\<lparr>wc_session := s\<rparr>)
           | (None, s) \<Rightarrow> ws_send [] (mk_event ''session_reset'' (wd_reset_json d)) (c\<lparr>wc_session := s\<rparr>))
      | ClientOther \<Rightarrow> c)"

section \<open>Which messages launch an engine\<close>

lemma ws_send_simps [simp]:
  "wc_session (ws_send i ev c) = wc_session c" "wc_runs (ws_send i ev c) = wc_runs c"
  "wc_launched (ws_send i ev c) = wc_launched c" "wc_saved (ws_send i ev c) = wc_saved c"
  "wc_session (ws_save i ev c) = wc_session c" "wc_runs (ws_save i ev c) = wc_runs c"
  "wc_launched (ws_save i ev c) = wc_launched c" "wc_sent (ws_save i ev c) = wc_sent c"
  "wc_session (ws_error i m c) = wc_session c" "wc_runs (ws_error i m c) = wc_runs c"
  "wc_launched (ws_error i m c) = wc_launched c" "wc_saved (ws_error i m c) = wc_saved c"
  by (simp_all add: ws_send_def ws_save_def ws_error_def)

lemma ws_launch_simps [simp]:
  "wc_session (ws_launch d i m x c) = wc_session c" "wc_runs (ws_launch d i m x c) = wc_runs c"
  "wc_launched (ws_launch d i m x c) = wc_launched c @ [(i, buildRunUserContent m, x)]"
  by (simp_all add: ws_launch_def Let_def)

text \<open>A run occupies the session and does not wait for the user.\<close>

definition occupied :: "session \<Rightarrow> bool" where
  "occupied s \<longleftrightarrow> se_ActiveRun s \<noteq> None \<and> \<not> waiting s"

lemma configure_run [simp]: "se_ActiveRun (ConfigureEditState e s) = se_ActiveRun s"
  by (simp add: ConfigureEditState_def Let_def split: option.split)

lemma load_snapshot_run [simp]: "se_ActiveRun (Session_LoadReportSnapshot ps n s) = se_ActiveRun s"
  by (simp add: Session_LoadReportSnapshot_def Let_def split: option.split)

lemma prepare_run_active: "se_ActiveRun (snd (PrepareUserRun ps l m s)) = se_ActiveRun s"
  by (simp add: PrepareUserRun_def Let_def split: option.split sum.split)

lemma waiting_cong: "se_ActiveRun s' = se_ActiveRun s \<Longrightarrow> waiting s' = waiting s"
  by (simp add: waiting_def)

lemma consume_not_waiting: "\<not> waiting s \<Longrightarrow> ConsumeWaitingRun now s = ([], s)"
  by (simp add: ConsumeWaitingRun_def)

lemma start_run_busy: "se_ActiveRun s \<noteq> None \<Longrightarrow> \<exists>err. StartRun now u cn s = (Inl err, s)"
  by (simp add: StartRun_def)

lemma cancel_run_occupied: "occupied s \<Longrightarrow> occupied (snd (snd (CancelRun now i s)))"
  by (auto simp: occupied_def CancelRun_def waiting_def set_run_status_def StatusWaiting_def StatusCancelling_def
      split: option.splits)

lemma occupied_user_message:
  assumes "occupied (wc_session c)"
  shows "wc_launched (ws_user_message d m c) = wc_launched c \<and> wc_runs (ws_user_message d m c) = wc_runs c
    \<and> se_ActiveRun (wc_session (ws_user_message d m c)) = se_ActiveRun (wc_session c)"
proof (cases m)
  case (Some um)
  obtain e s where prep: "PrepareUserRun (wd_sources d) (Some (wd_loader d)) (fst (resolvePreparedUserMessage um)) (wc_session c) = (e, s)"
    by fastforce
  have same: "se_ActiveRun s = se_ActiveRun (wc_session c)" using prepare_run_active prep by (metis snd_conv)
  then obtain err where "StartRun (wd_now d) (wd_uuid d) (wd_cancel d) s = (Inl err, s)"
    using start_run_busy assms by (metis occupied_def)
  then show ?thesis
    using Some assms prep same
    by (auto simp: ws_user_message_def consume_not_waiting occupied_def ws_new_run_def split_def Let_def
        split: option.splits)
qed (simp add: ws_user_message_def)

lemma occupied_handle:
  assumes "occupied (wc_session c)"
  shows "wc_launched (ws_handle d m c) = wc_launched c \<and> wc_runs (ws_handle d m c) = wc_runs c
    \<and> occupied (wc_session (ws_handle d m c))
    \<and> map_option ar_RunID (se_ActiveRun (wc_session (ws_handle d m c))) = map_option ar_RunID (se_ActiveRun (wc_session c))"
proof -
  have run: "map_option ar_RunID (se_ActiveRun (snd (snd (CancelRun now i s)))) = map_option ar_RunID (se_ActiveRun s)"
    for now i s by (simp add: CancelRun_def set_run_status_def split: option.split)
  show ?thesis
  proof (cases m)
    case (ClientUser x)
    then show ?thesis
      using occupied_user_message [OF assms, of d x] assms
        waiting_cong [of "wc_session (ws_user_message d x c)" "wc_session c"]
      by (simp add: ws_handle_def occupied_def)
  next
    case (ClientStop i)
    then show ?thesis
      using cancel_run_occupied [OF assms, of "wd_now d" i] run [of "wd_now d" i "wc_session c"]
      by (auto simp: ws_handle_def split: prod.splits bool.splits)
  next
    case ClientReset
    have "se_ActiveRun (snd (Session_Reset (wd_now d) db s)) = se_ActiveRun (snd (snd (CancelRun (wd_now d) [] s)))" for db s
      by (simp add: Session_Reset_def split_def Let_def)
    then have "occupied (snd (Session_Reset (wd_now d) (wd_reset_db d) (wc_session c)))
        \<and> map_option ar_RunID (se_ActiveRun (snd (Session_Reset (wd_now d) (wd_reset_db d) (wc_session c))))
          = map_option ar_RunID (se_ActiveRun (wc_session c))"
      using cancel_run_occupied [OF assms, of "wd_now d" "[]"] run waiting_cong
      unfolding occupied_def by metis
    then show ?thesis using ClientReset by (auto simp: ws_handle_def split: prod.splits option.splits)
  qed (use assms in \<open>simp_all add: ws_handle_def\<close>)
qed

text \<open>A sequence of messages, each handled in its own environment.\<close>

definition ws_handle_all :: "(ws_deps \<times> client_message) list \<Rightarrow> ws_conn \<Rightarrow> ws_conn" where
  "ws_handle_all ms c = fold (\<lambda>(d, m). ws_handle d m) ms c"

lemma occupied_handle_all:
  "occupied (wc_session c) \<Longrightarrow>
     wc_launched (ws_handle_all ms c) = wc_launched c \<and> wc_runs (ws_handle_all ms c) = wc_runs c
     \<and> occupied (wc_session (ws_handle_all ms c))
     \<and> map_option ar_RunID (se_ActiveRun (wc_session (ws_handle_all ms c))) = map_option ar_RunID (se_ActiveRun (wc_session c))"
  by (induction ms arbitrary: c) (simp_all add: ws_handle_all_def occupied_handle split_def)

text \<open>
  C6. While a run executes, no message of the client launches a second engine: whatever is sent, in
  any order, the stored runs and the id of the active run stay as they are.
\<close>

theorem one_engine_per_session:
  assumes "se_ActiveRun (wc_session c) = Some r" "ar_Status r \<noteq> StatusWaiting"
  shows "wc_launched (ws_handle_all ms c) = wc_launched c \<and> wc_runs (ws_handle_all ms c) = wc_runs c
    \<and> map_option ar_RunID (se_ActiveRun (wc_session (ws_handle_all ms c))) = Some (ar_RunID r)"
  using occupied_handle_all [of c ms] assms by (simp add: occupied_def waiting_def)

definition sample_ws_conn :: ws_conn where
  "sample_ws_conn = \<lparr>wc_session = sample_running, wc_user = ''u_1'', wc_runs = [], wc_sent = [], wc_saved = [],
     wc_launched = [], wc_last_run = [], wc_titles = []\<rparr>"

definition sample_ws_deps :: ws_deps where
  "sample_ws_deps = \<lparr>wd_now = 9, wd_uuid = ''12345678'', wd_cancel = 1, wd_sources = (\<lambda>_. None),
     wd_loader = (\<lambda>_ _ _ _. Inr None), wd_codec = sample_codec, wd_edit_json = (\<lambda>_. JNull),
     wd_session_row = (\<lambda>_. True), wd_file_row = (\<lambda>_. False), wd_title = None, wd_reset_db = None,
     wd_reset_json = JNull\<rparr>"

theorem one_engine_per_session_witness:
  "wc_launched (ws_handle_all [(sample_ws_deps, ClientReset), (sample_ws_deps, ClientStop [])] sample_ws_conn) = []
   \<and> map_option ar_RunID (se_ActiveRun (wc_session (ws_handle_all
       [(sample_ws_deps, ClientReset), (sample_ws_deps, ClientStop [])] sample_ws_conn))) = Some ''r_1''"
  using one_engine_per_session [of sample_ws_conn "\<lparr>ar_RunID = ''r_1'', ar_Status = ''running'', ar_Cancel = Some 0,
      ar_StartedAt = 5\<rparr>" "[(sample_ws_deps, ClientReset), (sample_ws_deps, ClientStop [])]"]
  by (simp add: sample_ws_conn_def sample_running_def StatusWaiting_def)

lemma find_created:
  assumes "sql_Run_Create sr fr run t = (None, t')"
  shows "find (\<lambda>r. an_ID r = an_ID run) t' = Some run"
proof -
  have "t' = t @ [run]" "an_ID run \<notin> an_ID ` set t"
    using assms by (auto simp: sql_Run_Create_def split: if_splits)
  then show ?thesis using find_id_None [of "an_ID run" t] by (simp add: find_append)
qed

lemma new_run_launch:
  assumes "\<not> waiting (wc_session c)"
  shows "wc_launched (ws_new_run d m c) = wc_launched c \<or>
    (\<exists>runID input extra. wc_launched (ws_new_run d m c) = wc_launched c @ [(runID, input, extra)]
       \<and> se_ActiveRun (wc_session c) = None
       \<and> se_ActiveRun (wc_session (ws_new_run d m c)) = Some \<lparr>ar_RunID = runID, ar_Status = StatusRunning,
            ar_Cancel = Some (wd_cancel d), ar_StartedAt = wd_now d\<rparr>
       \<and> run_status (wc_runs (ws_new_run d m c)) runID = Some RunStatusRunning)"
proof -
  obtain p x where px: "resolvePreparedUserMessage m = (p, x)" by fastforce
  obtain e s where prep: "PrepareUserRun (wd_sources d) (Some (wd_loader d)) p (wc_session c) = (e, s)" by fastforce
  have same: "se_ActiveRun s = se_ActiveRun (wc_session c)" using prepare_run_active prep by (metis snd_conv)
  let ?id = "''r_'' @ take 8 (wd_uuid d)"
  let ?s1 = "s\<lparr>se_ActiveRun := Some \<lparr>ar_RunID = ?id, ar_Status = StatusRunning, ar_Cancel = Some (wd_cancel d),
                 ar_StartedAt = wd_now d\<rparr>, se_LastSeenAt := wd_now d\<rparr>"
  let ?row = "root_run d ?id m (c\<lparr>wc_session := ?s1\<rparr>)"
  have "find (\<lambda>r. an_ID r = ?id) t = Some ?row"
    if "sql_Run_Create (wd_session_row d) (wd_file_row d) ?row (wc_runs c) = (None, t)" for t
    using find_created [OF that] by (simp add: root_run_def)
  then have "run_status t ?id = Some RunStatusRunning"
    if "sql_Run_Create (wd_session_row d) (wd_file_row d) ?row (wc_runs c) = (None, t)" for t
    using that by (simp add: run_status_def root_run_def)
  then show ?thesis
    using prep same
    by (cases "se_ActiveRun (wc_session c)")
       (auto simp: ws_new_run_def px StartRun_def Let_def split: option.splits prod.splits)
qed

lemma resume_launch:
  assumes "waiting (wc_session c)" "ConsumeWaitingRun now (wc_session c) = (i, s)"
    "i \<in> an_ID ` set (wc_runs c)"
  shows "wc_launched (ws_resume d i m (c\<lparr>wc_session := s\<rparr>)) = wc_launched c \<or>
    (\<exists>r. wc_launched (ws_resume d i m (c\<lparr>wc_session := s\<rparr>)) = wc_launched c @ [(i, [], [])]
       \<and> se_ActiveRun (wc_session c) = Some r \<and> i = ar_RunID r
       \<and> se_ActiveRun (wc_session (ws_resume d i m (c\<lparr>wc_session := s\<rparr>))) =
           Some (r\<lparr>ar_Status := StatusRunning, ar_Cancel := Some (wd_cancel d)\<rparr>)
       \<and> run_status (wc_runs (ws_resume d i m (c\<lparr>wc_session := s\<rparr>))) i = Some RunStatusRunning)"
proof -
  obtain r where r: "se_ActiveRun (wc_session c) = Some r" "i = ar_RunID r"
      "se_ActiveRun s = Some (r\<lparr>ar_Status := StatusRunning\<rparr>)"
    using assms(1,2) by (auto simp: waiting_def ConsumeWaitingRun_def set_run_status_def split: option.splits)
  have "run_status (sql_Run_UpdateStatus i RunStatusRunning None t (wc_runs c)) i = Some RunStatusRunning" for t
    using assms(3) find_id_None [of i "wc_runs c"]
    by (cases "find (\<lambda>r. an_ID r = i) (wc_runs c)") (simp_all add: run_status_def find_sql_status)
  then show ?thesis
    using r by (auto simp: ws_resume_def UpdateCancelFunc_def is_active_def Let_def split: option.splits prod.splits)
qed

text \<open>
  A message launches at most one engine; it is launched for the session's active run, which is
  marked running in the session and in the store. The run is new and no run was active before, or
  it is the run that waited for the user.
\<close>

theorem engine_launched_for_active_run:
  assumes "waiting (wc_session c) \<longrightarrow> fst (GetWaitingRunID (wc_session c)) \<in> an_ID ` set (wc_runs c) - {[]}"
    and "c' = ws_handle d msg c"
  shows "wc_launched c' = wc_launched c \<or>
    (\<exists>runID input extra r. wc_launched c' = wc_launched c @ [(runID, input, extra)]
       \<and> se_ActiveRun (wc_session c') = Some r \<and> ar_RunID r = runID \<and> ar_Status r = StatusRunning
       \<and> ar_Cancel r = Some (wd_cancel d) \<and> run_status (wc_runs c') runID = Some RunStatusRunning
       \<and> (case se_ActiveRun (wc_session c) of
             None \<Rightarrow> True | Some r0 \<Rightarrow> waiting (wc_session c) \<and> ar_RunID r0 = runID))"
proof (cases "\<exists>m. msg = ClientUser (Some m)")
  case False
  then show ?thesis
    using assms(2) by (cases msg) (auto simp: ws_handle_def ws_user_message_def split: prod.splits bool.splits option.splits)
next
  case True
  then obtain m where m: "msg = ClientUser (Some m)" by blast
  obtain i s where cs: "ConsumeWaitingRun (wd_now d) (wc_session c) = (i, s)" by fastforce
  show ?thesis
  proof (cases "waiting (wc_session c)")
    case True
    have i: "i \<noteq> []" "i \<in> an_ID ` set (wc_runs c)"
      using assms(1) True cs by (auto simp: GetWaitingRunID_def ConsumeWaitingRun_def)
    then have "c' = ws_resume d i m (c\<lparr>wc_session := s\<rparr>)"
      using assms(2) by (simp add: m ws_handle_def ws_user_message_def cs)
    then show ?thesis using resume_launch [OF True cs i(2), of d m] True by auto
  next
    case False
    then have "c' = ws_new_run d m c"
      using assms(2) by (simp add: m ws_handle_def ws_user_message_def consume_not_waiting)
    then show ?thesis using new_run_launch [OF False, of d m] by auto
  qed
qed

theorem engine_launched_for_active_run_witness:
  "\<exists>c'. c' = ws_handle sample_ws_deps (ClientStop []) sample_ws_conn \<and>
    (wc_launched c' = wc_launched sample_ws_conn \<or>
    (\<exists>runID input extra r. wc_launched c' = wc_launched sample_ws_conn @ [(runID, input, extra)]
       \<and> se_ActiveRun (wc_session c') = Some r \<and> ar_RunID r = runID \<and> ar_Status r = StatusRunning
       \<and> ar_Cancel r = Some (wd_cancel sample_ws_deps) \<and> run_status (wc_runs c') runID = Some RunStatusRunning
       \<and> (case se_ActiveRun (wc_session sample_ws_conn) of
             None \<Rightarrow> True | Some r0 \<Rightarrow> waiting (wc_session sample_ws_conn) \<and> ar_RunID r0 = runID)))"
  using engine_launched_for_active_run [of sample_ws_conn "ws_handle sample_ws_deps (ClientStop []) sample_ws_conn"
      sample_ws_deps "ClientStop []"]
  by (simp add: sample_ws_conn_def sample_running_def waiting_def StatusWaiting_def)

section \<open>Sessions that can no longer run\<close>

text \<open>
  Stopping or resetting while a run waits for the user: its engine has returned, so no event will
  ever finish the run, but the run stays active and is no longer waiting. From then on every
  message of the client is refused.
\<close>

lemma stop_while_waiting_blocks:
  assumes "waiting (wc_session c)" "ar_Cancel (the (se_ActiveRun (wc_session c))) \<noteq> None" "msg \<in> {ClientStop [], ClientReset}"
  shows "wc_launched (ws_handle_all ms (ws_handle d msg c)) = wc_launched c
    \<and> se_ActiveRun (wc_session (ws_handle_all ms (ws_handle d msg c))) \<noteq> None"
proof -
  obtain r cn where r: "se_ActiveRun (wc_session c) = Some r" "ar_Cancel r = Some cn"
    using assms(1,2) by (auto simp: waiting_def split: option.splits)
  then have "occupied (wc_session (ws_handle d msg c))" "wc_launched (ws_handle d msg c) = wc_launched c"
    using assms(3)
    by (auto simp: ws_handle_def CancelRun_def Session_Reset_def set_run_status_def occupied_def waiting_def
        StatusWaiting_def StatusCancelling_def Let_def split: option.splits)
  then show ?thesis using occupied_handle_all [of "ws_handle d msg c" ms] by (simp add: occupied_def)
qed

text \<open>An answer the engine does not accept leaves the run running without an engine.\<close>

lemma refused_answer_blocks:
  assumes "waiting (wc_session c)" "fst (GetWaitingRunID (wc_session c)) \<noteq> []"
    "fst (ProvideAskUserResult (wd_codec d) (se_Engine (wc_session c)) (um_content m)) \<noteq> None"
  shows "wc_launched (ws_handle_all ms (ws_handle d (ClientUser (Some m)) c)) = wc_launched c
    \<and> wc_runs (ws_handle_all ms (ws_handle d (ClientUser (Some m)) c)) = wc_runs c
    \<and> se_ActiveRun (wc_session (ws_handle_all ms (ws_handle d (ClientUser (Some m)) c))) \<noteq> None"
proof -
  obtain r where r: "se_ActiveRun (wc_session c) = Some r" "ar_RunID r \<noteq> []"
    using assms(1,2) by (auto simp: waiting_def GetWaitingRunID_def split: option.splits)
  then have "occupied (wc_session (ws_handle d (ClientUser (Some m)) c))"
      "wc_launched (ws_handle d (ClientUser (Some m)) c) = wc_launched c"
      "wc_runs (ws_handle d (ClientUser (Some m)) c) = wc_runs c"
    using assms(1,3)
    by (auto simp: ws_handle_def ws_user_message_def ws_resume_def ConsumeWaitingRun_def set_run_status_def
        occupied_def waiting_def StatusWaiting_def Subgoals.StatusRunning_def Let_def split: prod.splits option.splits)
  then show ?thesis using occupied_handle_all [of "ws_handle d (ClientUser (Some m)) c" ms] by (simp add: occupied_def)
qed

text \<open>When the row of a new run cannot be stored, the run is cancelled but never finished.\<close>

lemma unrecorded_run_blocks:
  assumes "se_ActiveRun (wc_session c) = None" "target_run m = []" "\<not> wd_session_row d (se_ID (wc_session c))"
  shows "wc_launched (ws_handle_all ms (ws_handle d (ClientUser (Some m)) c)) = wc_launched c
    \<and> se_ActiveRun (wc_session (ws_handle_all ms (ws_handle d (ClientUser (Some m)) c))) \<noteq> None"
proof -
  have id: "se_ID (ConfigureEditState e s) = se_ID s" for e s
    by (simp add: ConfigureEditState_def Let_def split: option.split)
  have "target_run (fst (resolvePreparedUserMessage m)) = []" using assms(2) by (simp add: resolvePreparedUserMessage_def)
  then have prep: "PrepareUserRun (wd_sources d) l (fst (resolvePreparedUserMessage m)) s =
      (None, ConfigureEditState (um_edit_context (fst (resolvePreparedUserMessage m))) s)" for l s
    by (simp add: PrepareUserRun_def Session_LoadReportSnapshot_def Let_def)
  have "occupied (wc_session (ws_handle d (ClientUser (Some m)) c))
      \<and> wc_launched (ws_handle d (ClientUser (Some m)) c) = wc_launched c"
    using assms(1,3)
    by (simp add: ws_handle_def ws_user_message_def ConsumeWaitingRun_def waiting_def ws_new_run_def split_def prep
        StartRun_def sql_Run_Create_def root_run_def id CancelRun_def set_run_status_def occupied_def
        StatusWaiting_def StatusCancelling_def Let_def)
  then show ?thesis using occupied_handle_all [of "ws_handle d (ClientUser (Some m)) c" ms] by (simp add: occupied_def)
qed

text \<open>
  A message sent while a run executes is refused, but the edit scope of the running run is
  replaced by that of the message before it is refused: without a scope in the message the run
  goes on unrestricted.
\<close>

lemma refused_message_drops_scope:
  assumes "occupied (wc_session c)" "target_run m = []" "um_edit_context m = None"
  shows "CurrentEditContext (wc_session (ws_handle d (ClientUser (Some m)) c)) = None
    \<and> se_ActiveRun (wc_session (ws_handle d (ClientUser (Some m)) c)) = se_ActiveRun (wc_session c)
    \<and> wc_launched (ws_handle d (ClientUser (Some m)) c) = wc_launched c"
proof -
  have p: "fst (resolvePreparedUserMessage m) = m" by (simp add: resolvePreparedUserMessage_def)
  have prep: "PrepareUserRun (wd_sources d) l m s = (None, ConfigureEditState None s)" for l s
    using assms(2,3) by (simp add: PrepareUserRun_def Session_LoadReportSnapshot_def Let_def)
  obtain err where "StartRun (wd_now d) (wd_uuid d) (wd_cancel d) (ConfigureEditState None (wc_session c))
      = (Inl err, ConfigureEditState None (wc_session c))"
    using start_run_busy [of "ConfigureEditState None (wc_session c)"] assms(1) configure_run
    unfolding occupied_def by metis
  then show ?thesis
    using assms(1)
    by (simp add: ws_handle_def ws_user_message_def consume_not_waiting occupied_def ws_new_run_def split_def p prep
        configured_context)
qed

section \<open>Connecting and restoring\<close>

lemma get_or_create_live:
  assumes "GetOrCreate now uuid mk cerr mgr sid ws us = (Inr (sess, b), w, mgr')" "sid \<noteq> []"
  shows "IsSessionLive mgr' sid"
  using assms
  by (auto simp: GetOrCreate_def open_session_def put_session_def IsSessionLive_def Let_def
      split: option.splits if_splits sum.splits repo_error.splits)

text \<open>
  Connecting never recovers stale runs: the session is registered before the recovery asks
  whether it is live, so the stored runs stay as they are.
\<close>

lemma ws_connect_never_recovers:
  assumes "ws_connect now uuid mk cerr ps restore n query ws us runs mgr = Some (sess, b, runs', mgr')"
    and "\<And>i w u s. mk i w u = Inr s \<Longrightarrow> se_ID s = i"
  shows "runs' = runs"
proof (cases "trim_space query = []")
  case True
  then show ?thesis using assms(1) by (auto simp: ws_connect_def Let_def split: prod.splits sum.splits)
next
  case False
  have "recoverStaleSessionRuns n (IsSessionLive mgr1 (se_ID s0)) (se_ID s0) now runs = Some runs"
    if "GetOrCreate now uuid mk cerr mgr (trim_space query) ws us = (Inr (s0, b0), w0, mgr1)"
      "mg_sessions mgr (trim_space query) = None" for s0 b0 w0 mgr1
  proof -
    have "se_ID s0 = trim_space query"
      using that False assms(2)
      by (auto simp: GetOrCreate_def open_session_def Let_def split: option.splits if_splits sum.splits repo_error.splits)
    then show ?thesis using get_or_create_live [OF that(1) False] by (simp add: recoverStaleSessionRuns_def)
  qed
  then show ?thesis
    using assms(1) False
    by (auto simp: ws_connect_def shouldHydrateSessionFromPersistence_def Peek_def Let_def
        split: prod.splits sum.splits option.splits if_splits)
qed

lemma hydrated_memory:
  assumes "se_Memory sess = Some m0" "rt_memory st = Some fs"
  shows "se_Memory (hydrateSessionFromPersistence now ps st sess) = Some (ReplaceSnapshot m0 fs)"
  using assms
  by (simp add: hydrateSessionFromPersistence_def LoadRuntimeState_def Session_LoadReportSnapshot_def
      ConfigureEditState_def ClearEditState_def Let_def split: option.split)

lemma stored_events_run: "\<forall>msg \<in> set (stored_events jc ids w s r k evs). rm_RunID msg = r"
  by (induction evs arbitrary: k) (auto simp: saveEventToDBSync_def Let_def)

lemma stored_events_time:
  "map rm_CreatedAt (stored_events jc ids w s r k evs) = map int [k..<k + length evs]"
proof (induction evs arbitrary: k)
  case (Cons ev evs)
  have "rm_CreatedAt (saveEventToDBSync jc i t w s r ev) = t" for i t by (simp add: saveEventToDBSync_def Let_def)
  then show ?case using Cons by (simp add: upt_rec)
qed simp

lemma stored_events_listed:
  assumes "length evs \<le> 5000"
  shows "sql_Message_ListByRun (stored_events jc ids w s r k evs) r = stored_events jc ids w s r k evs"
    "sortRunMessages (stored_events jc ids w s r k evs) = stored_events jc ids w s r k evs"
proof -
  let ?ms = "stored_events jc ids w s r k evs"
  have "length ?ms = length evs" using arg_cong [OF stored_events_time, of length] by simp
  moreover have "sorted (map rm_CreatedAt ?ms)"
    unfolding stored_events_time by (simp add: sorted_wrt_map)
  ultimately show "sql_Message_ListByRun ?ms r = ?ms" "sortRunMessages ?ms = ?ms"
    using assms stored_events_run [of jc ids w s r k evs]
    by (simp_all add: sql_Message_ListByRun_def sortRunMessages_def sort_key_id_if_sorted)
qed

lemma single_run_messages:
  assumes "an_ID run = r" "an_SessionID run = sid" "an_ParentRunID run = None" "trim_space r \<noteq> []" "trim_space sid \<noteq> []"
    "length evs \<le> 5000"
  shows "collectSessionMessages 3 [run] (stored_events jc ids w s r 0 evs) sid = Some (stored_events jc ids w s r 0 evs)"
proof -
  have kids: "sql_Run_ListByParent [run] p = []" for p using assms(3) by (simp add: sql_Run_ListByParent_def)
  have "collectRunTreeMessages 3 [run] (stored_events jc ids w s r 0 evs) r = Some (stored_events jc ids w s r 0 evs)"
    using assms(4) stored_events_listed [OF assms(6)]
    by (simp add: collectRunTreeMessages_def kids numeral_3_eq_3)
  then show ?thesis
    using assms(1-3,5) stored_events_listed(2) [OF assms(6)]
    by (simp add: collectSessionMessages_def sql_Run_ListBySession_def)
qed



text \<open>
  The report a message refers to is only ever loaded from a run of the same session, workspace and
  user: preparing the turn succeeds with another run's report only if that run is stored for them,
  and otherwise the report of the session is not touched.
\<close>

theorem report_target_owned:
  assumes "PrepareUserRun ps (Some (handlerReportSnapshotLoader runs report parse current)) m s = (err, s')"
  shows "(err = None \<and> target_run m \<noteq> [] \<and>
      (\<exists>run. sql_Run_GetByID runs (target_run m) = Inr run \<and> an_SessionID run = se_ID s
         \<and> an_WorkspaceID run = se_WorkspaceID s \<and> an_UserID run = se_UserID s))
    \<or> se_ReportState s' = se_ReportState s"
proof -
  have conf: "se_ReportState (ConfigureEditState e x) = se_ReportState x" for e x
    by (simp add: ConfigureEditState_def Let_def split: option.split)
  have trim: "trim_space (target_run m) = target_run m"
    by (simp add: target_run_def Let_def split: option.split)
  show ?thesis
    using assms trim
    by (auto simp: PrepareUserRun_def handlerReportSnapshotLoader_def Session_LoadReportSnapshot_def conf Let_def
        split: if_splits sum.splits option.splits)
qed

definition sample_target_message :: user_message where
  "sample_target_message = \<lparr>um_content = ''edit'', um_edit_context = None,
     um_turn_context = Some \<lparr>tc_report_target_run_id = ''r_9'', tc_report_title = []\<rparr>\<rparr>"

theorem report_target_owned_witness:
  "se_ReportState (snd (PrepareUserRun (\<lambda>_. None) (Some (handlerReportSnapshotLoader sample_runs (\<lambda>_. Some []) (\<lambda>_. Inl ''bad'')
      nothing_restored)) sample_target_message sample_session0)) = se_ReportState sample_session0"
  using report_target_owned [OF prod.collapse [symmetric], of "\<lambda>_. None" sample_runs "\<lambda>_. Some []" "\<lambda>_. Inl ''bad''"
      nothing_restored sample_target_message sample_session0]
  by (auto simp: sql_Run_GetByID_def sample_runs_def sample_run_def sample_target_message_def target_run_def trim_eval)

end
