(* ===== verification/Auth.thy ===== *)
theory Auth
  imports Go_Utf8
begin

text \<open>
  Identity and access: tokens (\<open>server/auth/token.go\<close>), the authentication middleware
  (\<open>server/auth/identity.go\<close>), login with its rate limit and the change of workspace
  (\<open>server/handler/auth.go\<close>), and the users and workspaces they look up (\<open>UserRepository\<close> and
  \<open>WorkspaceRepository\<close> of \<open>server/repository/sqlite/store.go\<close>). The keyed hash, the password hash
  and the JSON form of the claims are parameters; the clock counts seconds.
\<close>

section \<open>Base64 without padding, in the URL alphabet\<close>

definition b64_char :: "nat \<Rightarrow> char" where
  "b64_char n =
     (if n < 26 then char_of (65 + n) else if n < 52 then char_of (71 + n)
      else if n < 62 then char_of (n - 4) else if n = 62 then CHR ''-'' else CHR ''_'')"

definition b64_value :: "char \<Rightarrow> nat option" where
  "b64_value c =
     (let n = of_char c :: nat
      in if 65 \<le> n \<and> n \<le> 90 then Some (n - 65) else if 97 \<le> n \<and> n \<le> 122 then Some (n - 71)
         else if 48 \<le> n \<and> n \<le> 57 then Some (n + 4) else if c = CHR ''-'' then Some 62
         else if c = CHR ''_'' then Some 63 else None)"

fun b64_encode :: "string \<Rightarrow> string" where
  "b64_encode (a # b # c # r) =
     (let x = of_char a :: nat; y = of_char b :: nat; z = of_char c :: nat
      in b64_char (x div 4) # b64_char ((x mod 4) * 16 + y div 16) # b64_char ((y mod 16) * 4 + z div 64)
         # b64_char (z mod 64) # b64_encode r)"
| "b64_encode [a, b] =
     (let x = of_char a :: nat; y = of_char b :: nat
      in [b64_char (x div 4), b64_char ((x mod 4) * 16 + y div 16), b64_char ((y mod 16) * 4)])"
| "b64_encode [a] = (let x = of_char a :: nat in [b64_char (x div 4), b64_char ((x mod 4) * 16)])"
| "b64_encode [] = []"

fun b64_values :: "string \<Rightarrow> nat list option" where
  "b64_values [] = Some []"
| "b64_values (c # s) =
     (case b64_value c of
        None \<Rightarrow> None
      | Some n \<Rightarrow> map_option (\<lambda>ns. n # ns) (b64_values s))"

fun b64_bytes :: "nat list \<Rightarrow> string option" where
  "b64_bytes (w # x # y # z # r) =
     map_option (\<lambda>bs. char_of (w * 4 + x div 16) # char_of ((x mod 16) * 16 + y div 4)
                      # char_of ((y mod 4) * 64 + z) # bs) (b64_bytes r)"
| "b64_bytes [w, x, y] = Some [char_of (w * 4 + x div 16), char_of ((x mod 16) * 16 + y div 4)]"
| "b64_bytes [w, x] = Some [char_of (w * 4 + x div 16)]"
| "b64_bytes [w] = None"
| "b64_bytes [] = Some []"

text \<open>Line breaks are skipped by the decoder of the library.\<close>

definition b64_decode :: "string \<Rightarrow> string option" where
  "b64_decode s = Option.bind (b64_values (filter (\<lambda>c. c \<noteq> CHR 0x0A \<and> c \<noteq> CHR 0x0D) s)) b64_bytes"

section \<open>Tokens\<close>

record identity =
  id_UserID :: string
  id_UserName :: string
  id_UserEmail :: string
  id_WorkspaceID :: string
  id_Workspace :: string

record claims = identity +
  cl_IssuedAt :: int
  cl_ExpiresAt :: int

record token_codec =
  tk_mac :: "string \<Rightarrow> string \<Rightarrow> string"
  tk_marshal :: "claims \<Rightarrow> string"
  tk_unmarshal :: "string \<Rightarrow> claims result"

definition mk_claims :: "identity \<Rightarrow> int \<Rightarrow> int \<Rightarrow> claims" where
  "mk_claims i iat ex = identity.extend i \<lparr>cl_IssuedAt = iat, cl_ExpiresAt = ex\<rparr>"

definition Sign :: "token_codec \<Rightarrow> string \<Rightarrow> int \<Rightarrow> identity \<Rightarrow> int \<Rightarrow> string" where
  "Sign tk secret now i ttl =
     (let encodedPayload = b64_encode (tk_marshal tk (mk_claims i now (now + ttl)))
      in encodedPayload @ ''.'' @ b64_encode (tk_mac tk secret encodedPayload))"

definition Parse :: "token_codec \<Rightarrow> string \<Rightarrow> int \<Rightarrow> string \<Rightarrow> identity result" where
  "Parse tk secret now token =
     (case split_on (CHR ''.'') token of
        [p, sig] \<Rightarrow>
          if b64_encode (tk_mac tk secret p) \<noteq> sig then Inl ''invalid token signature''
          else (case b64_decode p of
                  None \<Rightarrow> Inl ''token parse failed: illegal base64 data''
                | Some payload \<Rightarrow>
                    (case tk_unmarshal tk payload of
                       Inl err \<Rightarrow> Inl (''token claims parse failed: '' @ err)
                     | Inr c \<Rightarrow> if cl_ExpiresAt c < now then Inl ''token expired''
                                else Inr (identity.truncate c)))
      | _ \<Rightarrow> Inl ''invalid token format'')"

section \<open>The middleware\<close>

record auth_request =
  rq_Authorization :: string
  rq_Token :: string
  rq_Protocol :: string

fun protocol_token :: "string list \<Rightarrow> string" where
  "protocol_token [] = []"
| "protocol_token (p # ps) =
     (if prefix ''token-'' (trim_space p) then trim_prefix (trim_space p) ''token-'' else protocol_token ps)"

definition request_token :: "auth_request \<Rightarrow> string" where
  "request_token r =
     (let h = trim_space (rq_Authorization r);
          t1 = (if prefix ''bearer '' (to_lower h) then trim_space (drop 7 h) else []);
          t2 = (if t1 = [] then trim_space (rq_Token r) else t1)
      in if t2 = [] \<and> rq_Protocol r \<noteq> [] then protocol_token (split_on (CHR '','') (rq_Protocol r)) else t2)"

definition Middleware :: "token_codec \<Rightarrow> string option \<Rightarrow> int \<Rightarrow> auth_request \<Rightarrow> identity result" where
  "Middleware tk secret now r =
     (let token = request_token r
      in if token = [] then Inl ''not authenticated''
         else (case secret of None \<Rightarrow> Inl ''not authenticated'' | Some s \<Rightarrow> Parse tk s now token))"

section \<open>Users and workspaces\<close>

record user =
  us_ID :: string
  us_Email :: string
  us_PasswordHash :: string
  us_Name :: string

record workspace =
  ws_ID :: string
  ws_Name :: string
  ws_CreatedAt :: int

record directory =
  dr_users :: "user list"
  dr_workspaces :: "workspace list"
  dr_members :: "(string \<times> string) list"

definition GetByEmail :: "directory \<Rightarrow> string \<Rightarrow> user option" where
  "GetByEmail d email = find (\<lambda>u. us_Email u = email) (dr_users d)"

definition ListByUser :: "directory \<Rightarrow> string \<Rightarrow> workspace list" where
  "ListByUser d userID =
     sort_key ws_CreatedAt (concat (map (\<lambda>w. map (\<lambda>_. w) (filter (\<lambda>m. m = (ws_ID w, userID)) (dr_members d)))
                                      (dr_workspaces d)))"

definition IsMember :: "directory \<Rightarrow> string \<Rightarrow> string \<Rightarrow> bool" where
  "IsMember d workspaceID userID \<longleftrightarrow> (workspaceID, userID) \<in> set (dr_members d)"

definition Workspace_GetByID :: "directory \<Rightarrow> string \<Rightarrow> workspace option" where
  "Workspace_GetByID d workspaceID = find (\<lambda>w. ws_ID w = workspaceID) (dr_workspaces d)"

section \<open>Login\<close>

definition loginRateLimit :: nat where "loginRateLimit = 5"
definition loginRateWindow :: int where "loginRateWindow = 300"

type_synonym attempts = "string \<Rightarrow> int list"

definition recent :: "int \<Rightarrow> int list \<Rightarrow> int list" where
  "recent now ts = filter (\<lambda>t. t > now - loginRateWindow) ts"

definition checkLoginRate :: "int \<Rightarrow> string \<Rightarrow> attempts \<Rightarrow> bool \<times> attempts" where
  "checkLoginRate now email st =
     (let valid = recent now (st email) in (length valid < loginRateLimit, st(email := valid)))"

definition recordLoginAttempt :: "int \<Rightarrow> string \<Rightarrow> attempts \<Rightarrow> attempts" where
  "recordLoginAttempt now email st = st(email := st email @ [now])"

text \<open>An entry that is deleted from the Go map reads as the empty list.\<close>

definition cleanupLoginAttempts :: "int \<Rightarrow> attempts \<Rightarrow> attempts" where
  "cleanupLoginAttempts now st = (\<lambda>email. recent now (st email))"

record login_request =
  lq_Email :: string
  lq_Password :: string
  lq_WorkspaceID :: string

datatype login_outcome =
    LoginBadRequest string
  | LoginTooMany
  | LoginUnauthorized
  | LoginForbidden
  | LoginInternal
  | LoginOk string identity

definition selectWorkspace :: "workspace list \<Rightarrow> string \<Rightarrow> workspace result" where
  "selectWorkspace wss workspaceID =
     (if workspaceID \<noteq> []
      then (case find (\<lambda>w. ws_ID w = workspaceID) wss of
              Some w \<Rightarrow> Inr w
            | None \<Rightarrow> Inl ''specified workspace does not exist or not authorized'')
      else Inr (hd wss))"

definition identity_of :: "user \<Rightarrow> workspace \<Rightarrow> identity" where
  "identity_of u w = \<lparr>id_UserID = us_ID u, id_UserName = us_Name u, id_UserEmail = us_Email u,
     id_WorkspaceID = ws_ID w, id_Workspace = ws_Name w\<rparr>"

definition week :: int where "week = 7 * 24 * 3600"

definition login_email :: "login_request \<Rightarrow> string" where
  "login_email r = trim_space (to_lower (lq_Email r))"

text \<open>
  The request, or \<open>None\<close> when it does not decode; the clock is read when the rate is checked
  (\<open>now1\<close>) and when a failure is recorded or the token is signed (\<open>now2\<close>).
\<close>

definition LoginHandler ::
  "token_codec \<Rightarrow> string \<Rightarrow> (string \<Rightarrow> string \<Rightarrow> bool) \<Rightarrow> directory \<Rightarrow> int \<Rightarrow> int \<Rightarrow> login_request option \<Rightarrow>
   attempts \<Rightarrow> login_outcome \<times> attempts" where
  "LoginHandler tk secret verify d now1 now2 req st =
     (case req of
        None \<Rightarrow> (LoginBadRequest ''invalid request format'', st)
      | Some r \<Rightarrow>
          if login_email r = [] \<or> lq_Password r = []
          then (LoginBadRequest ''email and password cannot be empty'', st)
          else
            (case checkLoginRate now1 (login_email r) st of
               (False, st1) \<Rightarrow> (LoginTooMany, st1)
             | (True, st1) \<Rightarrow>
                 (case GetByEmail d (login_email r) of
                    None \<Rightarrow> (LoginUnauthorized, recordLoginAttempt now2 (login_email r) st1)
                  | Some u \<Rightarrow>
                      if \<not> verify (lq_Password r) (us_PasswordHash u)
                      then (LoginUnauthorized, recordLoginAttempt now2 (login_email r) st1)
                      else if ListByUser d (us_ID u) = [] then (LoginInternal, st1)
                      else (case selectWorkspace (ListByUser d (us_ID u)) (lq_WorkspaceID r) of
                              Inl err \<Rightarrow> (LoginBadRequest err, st1)
                            | Inr w \<Rightarrow>
                                (LoginOk (Sign tk secret now2 (identity_of u w) week) (identity_of u w), st1)))))"

text \<open>The change of workspace of an authenticated user.\<close>

definition SwitchWorkspaceHandler ::
  "token_codec \<Rightarrow> string \<Rightarrow> directory \<Rightarrow> int \<Rightarrow> identity \<Rightarrow> string option \<Rightarrow> login_outcome" where
  "SwitchWorkspaceHandler tk secret d now i req =
     (case req of
        None \<Rightarrow> LoginBadRequest ''invalid request format''
      | Some wid \<Rightarrow>
          if trim_space wid = [] then LoginBadRequest ''workspaceId cannot be empty''
          else if \<not> IsMember d wid (id_UserID i) then LoginForbidden
          else (case Workspace_GetByID d wid of
                  None \<Rightarrow> LoginInternal
                | Some w \<Rightarrow>
                    let i' = i\<lparr>id_WorkspaceID := ws_ID w, id_Workspace := ws_Name w\<rparr>
                    in LoginOk (Sign tk secret now i' week) i'))"

section \<open>Lemmas\<close>

lemma b64_value_char: "n < 64 \<Longrightarrow> b64_value (b64_char n) = Some n"
  by (cases "n < 26"; cases "n < 52"; cases "n < 62"; cases "n = 62")
     (auto simp: b64_value_def b64_char_def Let_def)

lemma b64_value_plain: "b64_value (CHR ''.'') = None" "b64_value (CHR 0x0A) = None" "b64_value (CHR 0x0D) = None"
  by (simp_all add: b64_value_def)

lemma b64_char_plain: "n < 64 \<Longrightarrow> b64_char n \<noteq> CHR ''.'' \<and> b64_char n \<noteq> CHR 0x0A \<and> b64_char n \<noteq> CHR 0x0D"
  using b64_value_char [of n] b64_value_plain by (metis option.distinct(1))

fun b64_sextets :: "string \<Rightarrow> nat list" where
  "b64_sextets (a # b # c # r) =
     (let x = of_char a :: nat; y = of_char b :: nat; z = of_char c :: nat
      in [x div 4, (x mod 4) * 16 + y div 16, (y mod 16) * 4 + z div 64, z mod 64] @ b64_sextets r)"
| "b64_sextets [a, b] =
     (let x = of_char a :: nat; y = of_char b :: nat in [x div 4, (x mod 4) * 16 + y div 16, (y mod 16) * 4])"
| "b64_sextets [a] = (let x = of_char a :: nat in [x div 4, (x mod 4) * 16])"
| "b64_sextets [] = []"

lemma sextets_less: "\<forall>n \<in> set (b64_sextets s). n < 64"
proof (induction s rule: b64_sextets.induct)
  case (1 a b c r)
  have "of_char a div 4 < (64 :: nat)" "(of_char a mod 4) * 16 + of_char b div 16 < (64 :: nat)"
    "(of_char b mod 16) * 4 + of_char c div 64 < (64 :: nat)" "of_char c mod 64 < (64 :: nat)"
    using byte_lt [of a] byte_lt [of b] byte_lt [of c] by linarith+
  then show ?case using 1 by (simp add: Let_def)
next
  case (2 a b)
  have "of_char a div 4 < (64 :: nat)" "(of_char a mod 4) * 16 + of_char b div 16 < (64 :: nat)"
    "(of_char b mod 16) * 4 < (64 :: nat)"
    using byte_lt [of a] byte_lt [of b] by linarith+
  then show ?case by (simp add: Let_def)
next
  case (3 a)
  have "of_char a div 4 < (64 :: nat)" "(of_char a mod 4) * 16 < (64 :: nat)"
    using byte_lt [of a] by linarith+
  then show ?case by (simp add: Let_def)
qed simp

lemma b64_encode_sextets: "b64_encode s = map b64_char (b64_sextets s)"
  by (induction s rule: b64_sextets.induct) (simp_all add: Let_def)

lemma b64_values_chars: "\<forall>n \<in> set ns. n < 64 \<Longrightarrow> b64_values (map b64_char ns) = Some ns"
  by (induction ns) (simp_all add: b64_value_char)

lemma byte_parts:
  "byte c div 16 div 16 = 0" "byte c div 64 div 4 = 0" "byte c div 16 mod 16 = byte c div 16"
  "byte c div 64 mod 4 = byte c div 64"
proof -
  have "byte c div 16 < 16" "byte c div 64 < 4" using byte_lt [of c] by linarith+
  then show "byte c div 16 div 16 = 0" "byte c div 64 div 4 = 0" "byte c div 16 mod 16 = byte c div 16"
    "byte c div 64 mod 4 = byte c div 64" by simp_all
qed

lemma b64_bytes_sextets: "b64_bytes (b64_sextets s) = Some s"
  by (induction s rule: b64_sextets.induct) (simp_all add: Let_def byte_parts)

lemma b64_roundtrip: "b64_decode (b64_encode s) = Some s"
proof -
  have "filter (\<lambda>c. c \<noteq> CHR 0x0A \<and> c \<noteq> CHR 0x0D) (map b64_char ns) = map b64_char ns"
    if "\<forall>n \<in> set ns. n < 64" for ns
    using that by (induction ns) (simp_all add: b64_char_plain)
  then show ?thesis
    using sextets_less [of s]
    by (simp add: b64_decode_def b64_encode_sextets b64_values_chars b64_bytes_sextets)
qed

lemma b64_no_dot: "CHR ''.'' \<notin> set (b64_encode s)"
proof
  assume "CHR ''.'' \<in> set (b64_encode s)"
  then obtain n where "n \<in> set (b64_sextets s)" "b64_char n = CHR ''.''"
    by (auto simp: b64_encode_sextets)
  then show False using sextets_less [of s] b64_char_plain [of n] by auto
qed

lemma split_on_parts: "split_on d t = ws \<Longrightarrow> \<forall>w \<in> set ws. d \<notin> set w"
  by (induction t arbitrary: ws) (auto split: if_splits list.splits)

lemma split_on_two:
  "split_on d t = [p, q] \<longleftrightarrow> t = p @ d # q \<and> d \<notin> set p \<and> d \<notin> set q"
  using join_split_on [of d t] split_on_parts [of d t "[p, q]"]
  by (auto simp: split_on_append split_on_plain)

section \<open>Properties of tokens\<close>

lemma parse_two:
  "Parse tk secret now token = Inr i \<longleftrightarrow>
     (\<exists>p payload c. token = p @ ''.'' @ b64_encode (tk_mac tk secret p) \<and> CHR ''.'' \<notin> set p
        \<and> b64_decode p = Some payload \<and> tk_unmarshal tk payload = Inr c \<and> now \<le> cl_ExpiresAt c
        \<and> i = identity.truncate c)"
proof -
  have "Parse tk secret now token = Inr i \<longleftrightarrow>
      (\<exists>p sig. split_on (CHR ''.'') token = [p, sig] \<and> b64_encode (tk_mac tk secret p) = sig
        \<and> (\<exists>payload c. b64_decode p = Some payload \<and> tk_unmarshal tk payload = Inr c \<and> now \<le> cl_ExpiresAt c
             \<and> i = identity.truncate c))"
    by (auto simp: Parse_def not_less split: list.splits option.splits sum.splits if_splits)
  then show ?thesis using b64_no_dot by (auto simp: split_on_two)
qed

text \<open>
  C32. A token is accepted exactly when it is a payload with the server's keyed hash of it, the payload
  decodes to claims and they have not expired; the identity is the one of the claims.
\<close>

theorem token_accepted_iff_signed:
  "Parse tk secret now token = Inr i \<longleftrightarrow>
     (\<exists>p payload c. token = p @ ''.'' @ b64_encode (tk_mac tk secret p) \<and> CHR ''.'' \<notin> set p
        \<and> b64_decode p = Some payload \<and> tk_unmarshal tk payload = Inr c \<and> now \<le> cl_ExpiresAt c
        \<and> i = identity.truncate c)"
  by (rule parse_two)

lemma sign_parse:
  assumes "tk_unmarshal tk (tk_marshal tk (mk_claims i now (now + ttl))) = Inr (mk_claims i now (now + ttl))"
  shows "Parse tk secret later (Sign tk secret now i ttl) =
    (if later \<le> now + ttl then Inr i else Inl ''token expired'')"
proof -
  let ?p = "b64_encode (tk_marshal tk (mk_claims i now (now + ttl)))"
  have "split_on (CHR ''.'') (Sign tk secret now i ttl) = [?p, b64_encode (tk_mac tk secret ?p)]"
    using b64_no_dot by (simp add: Sign_def Let_def split_on_two)
  moreover have "identity.truncate (mk_claims i now (now + ttl)) = i"
    by (simp add: mk_claims_def identity.defs claims.defs)
  moreover have "cl_ExpiresAt (mk_claims i now (now + ttl)) = now + ttl"
    by (simp add: mk_claims_def identity.defs claims.defs)
  ultimately show ?thesis using assms by (simp add: Parse_def b64_roundtrip)
qed

text \<open>
  A token that the server signed names the same identity until it expires, and is refused from
  then on.
\<close>

theorem token_roundtrip:
  assumes "tk_unmarshal tk (tk_marshal tk (mk_claims i now (now + ttl))) = Inr (mk_claims i now (now + ttl))"
  shows "Parse tk secret later (Sign tk secret now i ttl) =
    (if later \<le> now + ttl then Inr i else Inl ''token expired'')"
  using assms by (rule sign_parse)

definition sample_identity :: identity where
  "sample_identity = \<lparr>id_UserID = ''u_1'', id_UserName = ''A'', id_UserEmail = ''a@b'', id_WorkspaceID = ''w_1'',
     id_Workspace = ''W''\<rparr>"

definition sample_token_codec :: token_codec where
  "sample_token_codec = \<lparr>tk_mac = (\<lambda>k p. k @ rev p), tk_marshal = (\<lambda>c. ''claims''),
     tk_unmarshal = (\<lambda>s. if s = ''claims'' then Inr (mk_claims sample_identity 100 160) else Inl ''bad'')\<rparr>"

theorem token_roundtrip_witness:
  "Parse sample_token_codec ''key'' 160 (Sign sample_token_codec ''key'' 100 sample_identity 60) = Inr sample_identity
   \<and> Parse sample_token_codec ''key'' 161 (Sign sample_token_codec ''key'' 100 sample_identity 60) = Inl ''token expired''"
  using token_roundtrip [of sample_token_codec sample_identity 100 60 "''key''" 160]
    token_roundtrip [of sample_token_codec sample_identity 100 60 "''key''" 161]
  by (simp add: sample_token_codec_def)

section \<open>Properties of login\<close>

lemma ascii_plain: "33 \<le> byte c \<Longrightarrow> byte c < 127 \<Longrightarrow> plain_head c \<and> plain_last c"
  by (auto simp: plain_head_def plain_last_def ws_seqs_def)

lemma b64_char_ascii: "n < 64 \<Longrightarrow> 33 \<le> byte (b64_char n) \<and> byte (b64_char n) < 127"
  by (cases "n < 26"; cases "n < 52"; cases "n < 62"; cases "n = 62") (auto simp: b64_char_def)

lemma token_ascii: "c \<in> set (Sign tk secret now i ttl) \<Longrightarrow> 33 \<le> byte c \<and> byte c < 127"
  using sextets_less b64_char_ascii by (auto simp: Sign_def Let_def b64_encode_sextets)

lemma trim_token:
  "trim_space (Sign tk secret now i ttl) = Sign tk secret now i ttl"
  "trim_space (''Bearer '' @ Sign tk secret now i ttl) = ''Bearer '' @ Sign tk secret now i ttl"
proof -
  let ?t = "Sign tk secret now i ttl"
  have ne: "?t \<noteq> []" by (simp add: Sign_def Let_def)
  have ends: "plain_head (hd ?t)" "plain_last (last ?t)"
    using token_ascii ne ascii_plain by (metis hd_in_set, metis last_in_set)
  show "trim_space ?t = ?t" using ne ends by (rule trim_space_plain)
  have "plain_head (CHR ''B'')" by (simp add: ascii_plain)
  then show "trim_space (''Bearer '' @ ?t) = ''Bearer '' @ ?t"
    using ne ends(2) by (intro trim_space_plain) simp_all
qed

lemma lower_bearer: "prefix ''bearer '' (to_lower (''Bearer '' @ t))"
proof -
  have "map lower_char ''Bearer '' = ''bearer ''" by code_simp
  then show ?thesis by (simp only: to_lower_def map_append prefixI)
qed

lemma sign_nonempty [simp]: "Sign tk secret now i ttl \<noteq> []"
  by (simp add: Sign_def Let_def)

lemma bearer_token:
  "request_token \<lparr>rq_Authorization = ''Bearer '' @ Sign tk secret now i ttl, rq_Token = q, rq_Protocol = pr\<rparr> =
     Sign tk secret now i ttl"
proof -
  have "drop 7 (''Bearer '' @ t) = t" for t :: string by simp
  then show ?thesis
    using trim_token [of tk secret now i ttl] lower_bearer [of "Sign tk secret now i ttl"]
    by (simp only: request_token_def Let_def auth_request.select_convs) simp
qed

lemma selected_workspace:
  "selectWorkspace wss w = Inr x \<Longrightarrow> wss \<noteq> [] \<Longrightarrow> x \<in> set wss"
  by (auto simp: selectWorkspace_def find_Some_iff split: if_splits option.splits)

lemma listed_workspace_member: "w \<in> set (ListByUser d u) \<Longrightarrow> IsMember d (ws_ID w) u \<and> w \<in> set (dr_workspaces d)"
  by (auto simp: ListByUser_def IsMember_def)

text \<open>
  A login that succeeds verified the password of a user with that e-mail address and names a
  workspace of which the user is a member; presented as a bearer token, the token it returns is
  accepted by the middleware as exactly this identity for a week.
\<close>

theorem login_grants_member_access:
  assumes "LoginHandler tk secret verify d now1 now2 (Some r) st = (LoginOk token i, st')"
    and codec: "tk_unmarshal tk (tk_marshal tk (mk_claims i now2 (now2 + week))) = Inr (mk_claims i now2 (now2 + week))"
  shows "\<exists>u \<in> set (dr_users d). us_Email u = login_email r \<and> verify (lq_Password r) (us_PasswordHash u)
    \<and> id_UserID i = us_ID u \<and> IsMember d (id_WorkspaceID i) (us_ID u)
    \<and> (lq_WorkspaceID r \<noteq> [] \<longrightarrow> id_WorkspaceID i = lq_WorkspaceID r)
    \<and> (\<forall>later. Middleware tk (Some secret) later
          \<lparr>rq_Authorization = ''Bearer '' @ token, rq_Token = q, rq_Protocol = pr\<rparr> =
          (if later \<le> now2 + week then Inr i else Inl ''token expired''))"
proof -
  obtain u w where uw: "GetByEmail d (login_email r) = Some u" "verify (lq_Password r) (us_PasswordHash u)"
      "ListByUser d (us_ID u) \<noteq> []" "selectWorkspace (ListByUser d (us_ID u)) (lq_WorkspaceID r) = Inr w"
      "i = identity_of u w" "token = Sign tk secret now2 i week"
    using assms(1) by (auto simp: LoginHandler_def split: if_splits prod.splits bool.splits option.splits sum.splits)
  have u: "u \<in> set (dr_users d)" "us_Email u = login_email r"
    using uw(1) by (auto simp: GetByEmail_def find_Some_iff)
  have "IsMember d (ws_ID w) (us_ID u)" using selected_workspace [OF uw(4,3)] listed_workspace_member by blast
  moreover have "lq_WorkspaceID r \<noteq> [] \<longrightarrow> ws_ID w = lq_WorkspaceID r"
    using uw(4) by (auto simp: selectWorkspace_def find_Some_iff split: option.splits)
  moreover have "Middleware tk (Some secret) later
      \<lparr>rq_Authorization = ''Bearer '' @ token, rq_Token = q, rq_Protocol = pr\<rparr> =
      (if later \<le> now2 + week then Inr i else Inl ''token expired'')" for later
    unfolding Middleware_def uw(6) bearer_token Let_def
    using sign_parse [of tk i now2 week secret later] codec by simp
  ultimately show ?thesis using u uw(2,5) by (intro bexI [of _ u]) (simp_all add: identity_of_def)
qed

definition sample_directory :: directory where
  "sample_directory = \<lparr>dr_users = [\<lparr>us_ID = ''u_1'', us_Email = ''a@b'', us_PasswordHash = ''h'', us_Name = ''A''\<rparr>],
     dr_workspaces = [\<lparr>ws_ID = ''w_1'', ws_Name = ''W'', ws_CreatedAt = 0\<rparr>], dr_members = [(''w_1'', ''u_1'')]\<rparr>"

definition sample_login :: login_request where
  "sample_login = \<lparr>lq_Email = ''A@b'', lq_Password = ''p'', lq_WorkspaceID = []\<rparr>"

definition sample_login_codec :: token_codec where
  "sample_login_codec = sample_token_codec\<lparr>tk_unmarshal := (\<lambda>s. Inr (mk_claims sample_identity 100 (100 + week)))\<rparr>"

lemma sample_login_email: "login_email sample_login = ''a@b''"
  by code_simp

lemma sample_login_ok:
  "LoginHandler sample_login_codec ''k'' (\<lambda>p h. p = ''p'') sample_directory 100 100 (Some sample_login) (\<lambda>_. []) =
     (LoginOk (Sign sample_login_codec ''k'' 100 sample_identity week) sample_identity, (\<lambda>_. []))"
  by (simp add: LoginHandler_def sample_login_email checkLoginRate_def recent_def loginRateLimit_def GetByEmail_def
      ListByUser_def selectWorkspace_def identity_of_def fun_upd_idem)
     (simp add: sample_login_def sample_directory_def sample_identity_def ListByUser_def selectWorkspace_def identity_of_def)

theorem login_grants_member_access_witness:
  "IsMember sample_directory (id_WorkspaceID sample_identity) (id_UserID sample_identity)
   \<and> Middleware sample_login_codec (Some ''k'') 100 \<lparr>rq_Authorization = ''Bearer '' @
       Sign sample_login_codec ''k'' 100 sample_identity week, rq_Token = [], rq_Protocol = []\<rparr> = Inr sample_identity"
proof -
  have codec: "tk_unmarshal sample_login_codec (tk_marshal sample_login_codec (mk_claims sample_identity 100 (100 + week)))
      = Inr (mk_claims sample_identity 100 (100 + week))"
    by (simp add: sample_login_codec_def)
  from login_grants_member_access [OF sample_login_ok codec, of "[]" "[]"] show ?thesis
    by (auto simp: week_def)
qed

text \<open>
  Logins and the periodic cleanup in the order they happen; what is logged of a login is its
  address, when it ended and how.
\<close>

datatype login_op = TryLogin int int "login_request option" | CleanLogins int

fun op_times :: "login_op \<Rightarrow> int list" where
  "op_times (TryLogin a b r) = [a, b]"
| "op_times (CleanLogins a) = [a]"

fun login_ops ::
  "token_codec \<Rightarrow> string \<Rightarrow> (string \<Rightarrow> string \<Rightarrow> bool) \<Rightarrow> directory \<Rightarrow> login_op list \<Rightarrow> attempts \<Rightarrow>
     (string \<times> int \<times> login_outcome) list" where
  "login_ops tk secret verify d [] st = []"
| "login_ops tk secret verify d (CleanLogins now # ops) st =
     login_ops tk secret verify d ops (cleanupLoginAttempts now st)"
| "login_ops tk secret verify d (TryLogin now1 now2 r # ops) st =
     (case LoginHandler tk secret verify d now1 now2 r st of
        (out, st') \<Rightarrow> ((case r of Some q \<Rightarrow> login_email q | None \<Rightarrow> []), now2, out) # login_ops tk secret verify d ops st')"

definition failures :: "string \<Rightarrow> (string \<times> int \<times> login_outcome) list \<Rightarrow> int list" where
  "failures e entries = map (\<lambda>x. fst (snd x)) (filter (\<lambda>x. fst x = e \<and> snd (snd x) = LoginUnauthorized) entries)"

definition in_window :: "int \<Rightarrow> int list \<Rightarrow> nat" where
  "in_window t ts = length (filter (\<lambda>x. t - loginRateWindow < x \<and> x \<le> t) ts)"

lemma failures_Cons: "failures e (x # xs) = failures e [x] @ failures e xs"
  by (simp add: failures_def)

lemma recent_recent: "a \<le> b \<Longrightarrow> recent b (recent a ts) = recent b ts"
  unfolding recent_def by (induction ts) auto

lemma recent_append: "recent now (xs @ ys) = recent now xs @ recent now ys"
  by (simp add: recent_def)

text \<open>The stored attempts agree with the failures so far as far as they still count.\<close>

definition tracked :: "int \<Rightarrow> int list \<Rightarrow> int list \<Rightarrow> bool" where
  "tracked now fs ts \<longleftrightarrow> recent now fs = recent now ts \<and> (\<forall>t. in_window t fs \<le> loginRateLimit)"

lemma tracked_later: "tracked now fs ts \<Longrightarrow> now \<le> later \<Longrightarrow> tracked later fs (recent later ts)"
  unfolding tracked_def using recent_recent [of now later fs] recent_recent [of now later ts] recent_recent [of later later ts]
  by simp

lemma tracked_failure:
  assumes "tracked now fs ts" "now \<le> now1" "now1 \<le> now2" "length (recent now1 ts) < loginRateLimit"
  shows "tracked now2 (fs @ [now2]) (recent now1 ts @ [now2])"
proof -
  have same: "recent now1 fs = recent now1 ts"
    using assms(1,2) recent_recent [of now now1 fs] recent_recent [of now now1 ts] by (simp add: tracked_def)
  have "recent now2 (fs @ [now2]) = recent now2 (recent now1 ts @ [now2])"
    using same recent_recent [OF assms(3), of fs] recent_recent [OF assms(3), of ts] by (simp add: recent_append)
  moreover have "in_window t (fs @ [now2]) \<le> loginRateLimit" for t
  proof (cases "t < now2")
    case True
    then show ?thesis using assms(1) by (simp add: in_window_def tracked_def)
  next
    case False
    have "in_window t fs \<le> length (recent now1 fs)"
      unfolding in_window_def recent_def using False assms(3)
      by (induction fs) auto
    then show ?thesis using assms(4) same by (simp add: in_window_def)
  qed
  ultimately show ?thesis by (simp add: tracked_def)
qed

lemma login_tracked:
  assumes "LoginHandler tk secret verify d now1 now2 r st = (out, st')" "tracked now fs (st e)" "now \<le> now1" "now1 \<le> now2"
  shows "tracked now2 (fs @ failures e [((case r of Some q \<Rightarrow> login_email q | None \<Rightarrow> []), now2, out)]) (st' e)"
proof -
  have keep: "tracked now2 fs (st e)"
    using tracked_later [OF assms(2)] assms(3,4) recent_recent [of now2 now2 "st e"] by (simp add: tracked_def)
  have rec: "tracked now2 fs (recent now1 (st e))"
    using keep recent_recent [OF assms(4), of "st e"] by (simp add: tracked_def)
  show ?thesis
    using assms keep rec tracked_failure [OF assms(2-4)]
    by (auto simp: LoginHandler_def checkLoginRate_def recordLoginAttempt_def failures_def Let_def
        split: option.splits if_splits sum.splits prod.splits bool.splits)
qed

lemma login_ops_tracked:
  "sorted (now # concat (map op_times ops)) \<Longrightarrow> tracked now fs (st e) \<Longrightarrow>
     in_window t (fs @ failures e (login_ops tk secret verify d ops st)) \<le> loginRateLimit"
proof (induction ops arbitrary: now fs st)
  case Nil
  then show ?case by (simp add: tracked_def failures_def)
next
  case (Cons op ops)
  show ?case
  proof (cases op)
    case (CleanLogins a)
    have "tracked a fs (cleanupLoginAttempts a st e)"
      using tracked_later [OF Cons.prems(2), of a] Cons.prems(1) CleanLogins by (simp add: cleanupLoginAttempts_def)
    then show ?thesis using Cons.IH [of a fs "cleanupLoginAttempts a st"] Cons.prems(1) CleanLogins by simp
  next
    case (TryLogin a b r)
    obtain out st' where out: "LoginHandler tk secret verify d a b r st = (out, st')" by fastforce
    have ord: "now \<le> a" "a \<le> b" "sorted (b # concat (map op_times ops))" using Cons.prems(1) TryLogin by auto
    show ?thesis
      using Cons.IH [of b _ st', OF ord(3) login_tracked [OF out Cons.prems(2) ord(1,2)]]
      by (simp add: TryLogin out failures_Cons [of _ _ "login_ops tk secret verify d ops st'"])
  qed
qed



end
