(* ===== verification/Sql_Guard.thy ===== *)
theory Sql_Guard
  imports Report_Scope
begin

text \<open>
  The read-only guard for SQL written by the model (\<open>server/data/schema.go\<close>) and the identifier
  checks of the import (\<open>server/data/ingester.go\<close>). The two byte scanners of the guard are
  compared with one lexer of SQL text.
\<close>

section \<open>The scanners of the guard\<close>

definition nl :: char where "nl = CHR 0x0A"
definition sq :: char where "sq = CHR 0x27"
definition dq :: char where "dq = CHR 0x22"

text \<open>The four flags of the loops; at most one of them is set.\<close>

datatype lex_mode = InCode | InQuote char | InLineComment | InBlockComment

definition starts :: "char \<Rightarrow> string \<Rightarrow> bool" where
  "starts c s \<longleftrightarrow> s \<noteq> [] \<and> hd s = c"

fun multiple_from :: "lex_mode \<Rightarrow> string \<Rightarrow> bool" where
  "multiple_from m [] = False"
| "multiple_from InLineComment (c # s) = multiple_from (if c = nl then InCode else InLineComment) s"
| "multiple_from InBlockComment (c # s) =
     (if c = CHR ''*'' \<and> starts (CHR ''/'') s then multiple_from InCode (tl s)
      else multiple_from InBlockComment s)"
| "multiple_from (InQuote q) (c # s) =
     (if c = q
      then if starts q s then multiple_from (InQuote q) (tl s) else multiple_from InCode s
      else multiple_from (InQuote q) s)"
| "multiple_from InCode (c # s) =
     (if c = CHR ''-'' \<and> starts (CHR ''-'') s then multiple_from InLineComment (tl s)
      else if c = CHR ''/'' \<and> starts (CHR ''*'') s then multiple_from InBlockComment (tl s)
      else if c = sq then multiple_from (InQuote sq) s
      else if c = dq then multiple_from (InQuote dq) s
      else if c = CHR '';'' then True
      else multiple_from InCode s)"

definition hasMultipleStatements :: "string \<Rightarrow> bool" where
  "hasMultipleStatements query = multiple_from InCode query"

fun strip_from :: "lex_mode \<Rightarrow> string \<Rightarrow> string" where
  "strip_from m [] = []"
| "strip_from InLineComment (c # s) =
     (if c = nl then CHR '' '' # strip_from InCode s else strip_from InLineComment s)"
| "strip_from InBlockComment (c # s) =
     (if c = CHR ''*'' \<and> starts (CHR ''/'') s then CHR '' '' # strip_from InCode (tl s)
      else strip_from InBlockComment s)"
| "strip_from (InQuote q) (c # s) =
     (if c = q
      then if starts q s then strip_from (InQuote q) (tl s) else CHR '' '' # strip_from InCode s
      else strip_from (InQuote q) s)"
| "strip_from InCode (c # s) =
     (if c = CHR ''-'' \<and> starts (CHR ''-'') s then strip_from InLineComment (tl s)
      else if c = CHR ''/'' \<and> starts (CHR ''*'') s then strip_from InBlockComment (tl s)
      else if c = sq then CHR '' '' # strip_from (InQuote sq) s
      else if c = dq then CHR '' '' # strip_from (InQuote dq) s
      else c # strip_from InCode s)"

definition stripSQLStringsAndComments :: "string \<Rightarrow> string" where
  "stripSQLStringsAndComments query = strip_from InCode query"

text \<open>
  \<open>forbiddenSQLKeywordPattern\<close>: a keyword with a word boundary on both sides. \<open>prev\<close> tells
  whether the byte before the rest is a word character.
\<close>

definition forbidden_keywords :: "string list" where
  "forbidden_keywords =
     [''INSERT'', ''UPDATE'', ''DELETE'', ''ALTER'', ''DROP'', ''CREATE'', ''ATTACH'', ''DETACH'',
      ''REINDEX'', ''VACUUM'', ''PRAGMA'', ''REPLACE'', ''MERGE'', ''UPSERT'', ''TRUNCATE'']"

definition word_starts :: "string \<Rightarrow> bool" where
  "word_starts s \<longleftrightarrow> s \<noteq> [] \<and> word_char (hd s)"

fun forbidden_from :: "bool \<Rightarrow> string \<Rightarrow> bool" where
  "forbidden_from prev [] = False"
| "forbidden_from prev (c # s) =
     ((\<not> prev \<and> list_ex (\<lambda>k. prefix k (c # s) \<and> \<not> word_starts (drop (length k) (c # s))) forbidden_keywords)
      \<or> forbidden_from (word_char c) s)"

definition forbidden_match :: "string \<Rightarrow> bool" where
  "forbidden_match s = forbidden_from False s"

definition normalizeReadOnlyQuery :: "string \<Rightarrow> string result" where
  "normalizeReadOnlyQuery query =
     (let trimmed = trim_space query
      in if trimmed = [] then Inl ''SQL cannot be empty''
         else
           let t = trim_space (trim_suffix trimmed '';'')
           in if t = [] then Inl ''SQL cannot be empty''
              else if hasMultipleStatements t then Inl ''only single SQL statement allowed''
              else
                let upper = to_upper (trim_space (stripSQLStringsAndComments t))
                in if \<not> has_prefix upper ''SELECT'' \<and> \<not> has_prefix upper ''WITH''
                   then Inl ''only read-only SELECT / WITH queries allowed''
                   else if forbidden_match upper
                   then Inl ''non-read-only SQL keyword detected, only read-only queries allowed''
                   else Inr t)"

section \<open>A lexer of SQL text\<close>

text \<open>
  A string, a quoted identifier and a comment are one piece each, with the mark whether the text
  ends before they are closed; everything else is code, one piece per byte.
\<close>

datatype sql_piece = Code char | Quoted char string bool | LineComment string bool | BlockComment string bool

fun read_quoted :: "char \<Rightarrow> string \<Rightarrow> string \<times> string option" where
  "read_quoted q [] = ([], None)"
| "read_quoted q [c] = (if c = q then ([], Some []) else ([c], None))"
| "read_quoted q (c # d # s) =
     (if c \<noteq> q then apfst ((#) c) (read_quoted q (d # s))
      else if d = q then apfst ((#) q) (read_quoted q s)
      else ([], Some (d # s)))"

fun read_line :: "string \<Rightarrow> string \<times> string option" where
  "read_line [] = ([], None)"
| "read_line (c # s) = (if c = nl then ([], Some s) else apfst ((#) c) (read_line s))"

fun read_block :: "string \<Rightarrow> string \<times> string option" where
  "read_block [] = ([], None)"
| "read_block (c # s) =
     (if c = CHR ''*'' \<and> starts (CHR ''/'') s then ([], Some (tl s)) else apfst ((#) c) (read_block s))"

lemma read_quoted_shorter: "snd (read_quoted q s) = Some r \<Longrightarrow> length r < length s"
  by (induction q s rule: read_quoted.induct) (auto split: if_splits)

lemma read_line_shorter: "snd (read_line s) = Some r \<Longrightarrow> length r < length s"
  by (induction s) (auto split: if_splits)

lemma read_block_shorter: "snd (read_block s) = Some r \<Longrightarrow> length r < length s"
proof (induction s)
  case (Cons c s)
  then show ?case by (cases s) (auto simp: starts_def split: if_splits)
qed simp

lemma read_shorter:
  "(b, Some r) = read_quoted q s \<Longrightarrow> length r < length s"
  "(b, Some r) = read_line s \<Longrightarrow> length r < length s"
  "(b, Some r) = read_block s \<Longrightarrow> length r < length s"
  by (metis read_quoted_shorter read_line_shorter read_block_shorter snd_conv)+

function sql_pieces :: "string \<Rightarrow> sql_piece list" where
  "sql_pieces [] = []"
| "sql_pieces (c # s) =
     (if c = CHR ''-'' \<and> starts (CHR ''-'') s
      then (case read_line (tl s) of
              (b, None) \<Rightarrow> [LineComment b False]
            | (b, Some r) \<Rightarrow> LineComment b True # sql_pieces r)
      else if c = CHR ''/'' \<and> starts (CHR ''*'') s
      then (case read_block (tl s) of
              (b, None) \<Rightarrow> [BlockComment b False]
            | (b, Some r) \<Rightarrow> BlockComment b True # sql_pieces r)
      else if c = sq \<or> c = dq
      then (case read_quoted c s of
              (b, None) \<Rightarrow> [Quoted c b False]
            | (b, Some r) \<Rightarrow> Quoted c b True # sql_pieces r)
      else Code c # sql_pieces s)"
  by pat_completeness auto
termination
  by (relation "measure length")
    (auto dest!: read_shorter simp: starts_def)

declare sql_pieces.simps(2) [simp del]

text \<open>What the scanner leaves of a piece: blanks where it starts and ends.\<close>

fun piece_text :: "sql_piece \<Rightarrow> string" where
  "piece_text (Code c) = [c]"
| "piece_text (Quoted q b fin) = (if fin then ''  '' else '' '')"
| "piece_text (LineComment b fin) = (if fin then '' '' else [])"
| "piece_text (BlockComment b fin) = (if fin then '' '' else [])"

lemma multiple_quote:
  "multiple_from (InQuote q) s = (case snd (read_quoted q s) of None \<Rightarrow> False | Some r \<Rightarrow> multiple_from InCode r)"
  by (induction q s rule: read_quoted.induct) (auto simp: starts_def)

lemma multiple_line:
  "multiple_from InLineComment s = (case snd (read_line s) of None \<Rightarrow> False | Some r \<Rightarrow> multiple_from InCode r)"
  by (induction s) auto

lemma multiple_block:
  "multiple_from InBlockComment s = (case snd (read_block s) of None \<Rightarrow> False | Some r \<Rightarrow> multiple_from InCode r)"
  by (induction s) auto

lemma strip_quote:
  "strip_from (InQuote q) s = (case snd (read_quoted q s) of None \<Rightarrow> [] | Some r \<Rightarrow> CHR '' '' # strip_from InCode r)"
  by (induction q s rule: read_quoted.induct) (auto simp: starts_def)

lemma strip_line:
  "strip_from InLineComment s = (case snd (read_line s) of None \<Rightarrow> [] | Some r \<Rightarrow> CHR '' '' # strip_from InCode r)"
  by (induction s) auto

lemma strip_block:
  "strip_from InBlockComment s = (case snd (read_block s) of None \<Rightarrow> [] | Some r \<Rightarrow> CHR '' '' # strip_from InCode r)"
  by (induction s) auto

lemma multiple_pieces: "multiple_from InCode s \<longleftrightarrow> Code (CHR '';'') \<in> set (sql_pieces s)"
proof (induction s rule: sql_pieces.induct)
  case (2 c s)
  consider (line) "c = CHR ''-''" "starts (CHR ''-'') s" | (block) "c = CHR ''/''" "starts (CHR ''*'') s"
    | (quote) "c = sq \<or> c = dq" "\<not> (c = CHR ''-'' \<and> starts (CHR ''-'') s)" "\<not> (c = CHR ''/'' \<and> starts (CHR ''*'') s)"
    | (code) "c \<noteq> sq" "c \<noteq> dq" "\<not> (c = CHR ''-'' \<and> starts (CHR ''-'') s)" "\<not> (c = CHR ''/'' \<and> starts (CHR ''*'') s)"
    by blast
  then show ?case
  proof cases
    case line
    obtain b o1 where r: "read_line (tl s) = (b, o1)" by fastforce
    show ?thesis using line 2(1) [OF _ r [symmetric]] r by (cases o1) (simp_all add: sql_pieces.simps(2) multiple_line)
  next
    case block
    obtain b o1 where r: "read_block (tl s) = (b, o1)" by fastforce
    show ?thesis using block 2(2) [OF _ _ r [symmetric]] r by (cases o1) (simp_all add: sql_pieces.simps(2) multiple_block)
  next
    case quote
    obtain b o1 where r: "read_quoted c s = (b, o1)" by fastforce
    show ?thesis using quote 2(3) [OF _ _ _ r [symmetric]] r
      by (cases o1; cases "c = sq") (simp_all add: sql_pieces.simps(2) multiple_quote sq_def dq_def)
  next
    case code
    with 2(4) show ?thesis
      by (cases "c = CHR ''-''"; cases "c = CHR ''/''") (simp_all add: sql_pieces.simps(2))
  qed
qed simp

lemma strip_pieces: "strip_from InCode s = concat (map piece_text (sql_pieces s))"
proof (induction s rule: sql_pieces.induct)
  case (2 c s)
  consider (line) "c = CHR ''-''" "starts (CHR ''-'') s" | (block) "c = CHR ''/''" "starts (CHR ''*'') s"
    | (quote) "c = sq \<or> c = dq" "\<not> (c = CHR ''-'' \<and> starts (CHR ''-'') s)" "\<not> (c = CHR ''/'' \<and> starts (CHR ''*'') s)"
    | (code) "c \<noteq> sq" "c \<noteq> dq" "\<not> (c = CHR ''-'' \<and> starts (CHR ''-'') s)" "\<not> (c = CHR ''/'' \<and> starts (CHR ''*'') s)"
    by blast
  then show ?case
  proof cases
    case line
    obtain b o1 where r: "read_line (tl s) = (b, o1)" by fastforce
    show ?thesis using line 2(1) [OF _ r [symmetric]] r by (cases o1) (simp_all add: sql_pieces.simps(2) strip_line)
  next
    case block
    obtain b o1 where r: "read_block (tl s) = (b, o1)" by fastforce
    show ?thesis using block 2(2) [OF _ _ r [symmetric]] r by (cases o1) (simp_all add: sql_pieces.simps(2) strip_block)
  next
    case quote
    obtain b o1 where r: "read_quoted c s = (b, o1)" by fastforce
    show ?thesis using quote 2(3) [OF _ _ _ r [symmetric]] r
      by (cases o1; cases "c = sq") (simp_all add: sql_pieces.simps(2) strip_quote sq_def dq_def)
  next
    case code
    with 2(4) show ?thesis
      by (cases "c = CHR ''-''"; cases "c = CHR ''/''") (simp_all add: sql_pieces.simps(2))
  qed
qed simp

text \<open>The maximal runs of word characters of a text.\<close>

function sql_words :: "string \<Rightarrow> string list" where
  "sql_words s =
     (let t = dropWhile (\<lambda>c. \<not> word_char c) s
      in if t = [] then [] else takeWhile word_char t # sql_words (dropWhile word_char t))"
  by pat_completeness auto
termination
proof (relation "measure length", goal_cases)
  case (2 s t)
  then have "t \<noteq> []" "word_char (hd t)" using hd_dropWhile [of "\<lambda>c. \<not> word_char c" s] by auto
  then have "length (dropWhile word_char t) < length t"
    by (cases t) (auto intro: le_imp_less_Suc length_dropWhile_le)
  then show ?case using 2(1) length_dropWhile_le [of _ s] by (metis in_measure order_less_le_trans)
qed simp

declare sql_words.simps [simp del]

lemma sql_words_skip: "\<not> word_char c \<Longrightarrow> sql_words (c # s) = sql_words s"
  by (simp add: sql_words.simps [of "c # s"] sql_words.simps [of s])

lemma sql_words_word:
  "word_char c \<Longrightarrow> sql_words (c # s) = takeWhile word_char (c # s) # sql_words (dropWhile word_char s)"
  by (simp add: sql_words.simps [of "c # s"])

lemma keyword_at:
  "list_all word_char k \<Longrightarrow>
     prefix k s \<and> \<not> word_starts (drop (length k) s) \<longleftrightarrow> k = takeWhile word_char s"
proof (induction s arbitrary: k)
  case Nil
  then show ?case by (auto simp: word_starts_def)
next
  case (Cons c s)
  then show ?case by (cases k) (auto simp: word_starts_def)
qed

lemma forbidden_words: "list_all (\<lambda>k. k \<noteq> [] \<and> list_all word_char k) forbidden_keywords"
  by (simp add: forbidden_keywords_def word_char_def is_digit_def)

lemma forbidden_from_words:
  "forbidden_from prev s \<longleftrightarrow>
     (\<exists>w \<in> set (sql_words (if prev then dropWhile word_char s else s)). w \<in> set forbidden_keywords)"
proof (induction s arbitrary: prev)
  case Nil
  then show ?case by (simp add: sql_words.simps)
next
  case (Cons c s)
  have at: "list_ex (\<lambda>k. prefix k (c # s) \<and> \<not> word_starts (drop (length k) (c # s))) forbidden_keywords
      \<longleftrightarrow> takeWhile word_char (c # s) \<in> set forbidden_keywords"
    using forbidden_words keyword_at by (auto simp: list_ex_iff list_all_iff)
  have ne: "[] \<notin> set forbidden_keywords" by (simp add: forbidden_keywords_def)
  show ?case
  proof (cases "word_char c")
    case True
    then show ?thesis using at Cons by (auto simp: sql_words_word)
  next
    case False
    then show ?thesis using at ne Cons by (auto simp: sql_words_skip)
  qed
qed

section \<open>Identifiers\<close>

text \<open>
  \<open>invalidSQLIdent\<close> matches one code point outside \<open>[a-zA-Z0-9_]\<close>; replacing its matches writes one
  underscore per such code point.
\<close>

definition invalidSQLIdent :: "rune \<Rightarrow> bool" where
  "invalidSQLIdent r \<longleftrightarrow> \<not> (r < 128 \<and> word_char (char_of r))"

definition replaceInvalid :: "string \<Rightarrow> string" where
  "replaceInvalid name = map (\<lambda>r. if invalidSQLIdent r then CHR ''_'' else char_of r) (runes name)"

definition ValidateSQLIdent :: "string \<Rightarrow> string option" where
  "ValidateSQLIdent name =
     (if name = [] then Some ''empty SQL identifier''
      else if length name > 128 then Some (''SQL identifier too long: '' @ take 20 name)
      else if list_ex invalidSQLIdent (runes name)
      then Some (''invalid characters in SQL identifier: '' @ name)
      else None)"

definition guard_digit :: "string \<Rightarrow> string \<Rightarrow> string" where
  "guard_digit p name = (if name \<noteq> [] \<and> is_digit (hd name) then p @ name else name)"

definition sanitizeTableName :: "string \<Rightarrow> string" where
  "sanitizeTableName name =
     (let n = trim_space name
      in guard_digit ''t_'' (to_lower (replaceInvalid (if n = [] then ''table'' else n))))"

definition sanitizeColumnName :: "string \<Rightarrow> string" where
  "sanitizeColumnName name =
     (let n = trim_space name
      in guard_digit ''c_'' (to_lower (replaceInvalid (if n = [] then ''unnamed'' else n))))"

definition sanitizeSampleTableName :: "string \<Rightarrow> string" where
  "sanitizeSampleTableName tableName = take 50 (replaceInvalid (to_lower tableName))"

lemma word_char_ascii: "word_char c \<Longrightarrow> byte c < 128"
  by (auto simp: word_char_def is_digit_def)

lemma word_char_lower: "word_char c \<Longrightarrow> word_char (lower_char c)"
  by (auto simp: word_char_def lower_char_def is_digit_def)

lemma replaceInvalid_words: "list_all word_char (replaceInvalid name)"
  by (auto simp: replaceInvalid_def list_all_iff invalidSQLIdent_def word_char_def)

lemma runes_nonempty: "s \<noteq> [] \<Longrightarrow> runes s \<noteq> []"
  by (cases s) (simp_all add: runes.simps(2))

lemma words_valid:
  assumes "list_all word_char s" "s \<noteq> []" "length s \<le> 128"
  shows "ValidateSQLIdent s = None"
proof -
  have "ascii s" using assms(1) word_char_ascii by (auto simp: ascii_def list_all_iff)
  then have "runes s = map of_char s" using ascii_runes by blast
  then have "\<not> list_ex invalidSQLIdent (runes s)"
    using assms(1) word_char_ascii by (auto simp: list_ex_iff list_all_iff invalidSQLIdent_def)
  with assms show ?thesis by (simp add: ValidateSQLIdent_def)
qed

lemma sanitize_words:
  assumes "n \<noteq> []" "list_all word_char p" "p \<noteq> []" "\<not> is_digit (hd p)"
  shows "list_all word_char (guard_digit p (to_lower (replaceInvalid n)))
    \<and> guard_digit p (to_lower (replaceInvalid n)) \<noteq> []
    \<and> \<not> is_digit (hd (guard_digit p (to_lower (replaceInvalid n))))
    \<and> length (guard_digit p (to_lower (replaceInvalid n))) \<le> length p + length (runes n)"
proof -
  let ?m = "to_lower (replaceInvalid n)"
  have "list_all word_char ?m"
    using replaceInvalid_words [of n] word_char_lower by (auto simp: to_lower_def list_all_iff)
  moreover have "?m \<noteq> []" using runes_nonempty [OF assms(1)] by (simp add: to_lower_def replaceInvalid_def)
  moreover have "length ?m = length (runes n)" by (simp add: to_lower_def replaceInvalid_def)
  ultimately show ?thesis using assms by (auto simp: guard_digit_def)
qed

section \<open>Running a query\<close>

definition queryRowLimit :: nat where "queryRowLimit = 200"

definition queryProbeRows :: nat where "queryProbeRows = queryRowLimit + 1"

definition errorsIsDeadline :: "string \<Rightarrow> bool" where
  "errorsIsDeadline e \<longleftrightarrow> contains (to_lower e) ''deadline exceeded'' \<or> contains (to_lower e) ''interrupted''"

text \<open>
  The database connection as a parameter: the error of \<open>db.Conn\<close>, the error of switching to
  read-only mode, and the answer to a query: an error, or the rows (\<open>None\<close> for a row that cannot
  be scanned) with the error that ended the iteration. \<open>expired\<close> tells whether the deadline of the
  context has passed at the end.
\<close>

record 'r sql_conn =
  cn_Conn :: "string option"
  cn_ReadOnly :: "string option"
  cn_Query :: "string \<Rightarrow> string + ('r option list \<times> string option)"
  cn_expired :: bool

definition wrapped_query :: "string \<Rightarrow> string" where
  "wrapped_query q = ''SELECT * FROM ('' @ q @ '') AS _oda_query LIMIT '' @ itoa (int queryProbeRows)"

text \<open>The rows are read until the probe limit is reached.\<close>

fun collect_rows :: "nat \<Rightarrow> 'r list \<Rightarrow> 'r option list \<Rightarrow> 'r list option" where
  "collect_rows limit acc [] = Some acc"
| "collect_rows limit acc (None # rows) = collect_rows limit acc rows"
| "collect_rows limit acc (Some r # rows) =
     (if length (acc @ [r]) \<ge> limit then None else collect_rows limit (acc @ [r]) rows)"

definition read_rows :: "'r sql_conn \<Rightarrow> nat \<Rightarrow> 'r option list \<Rightarrow> string option \<Rightarrow> 'r list result" where
  "read_rows conn timeout rows rowsErr =
     (case collect_rows queryProbeRows [] rows of
        None \<Rightarrow> Inl (''query result exceeds '' @ itoa (int queryRowLimit) @ '' row limit'')
      | Some rs \<Rightarrow>
          (case rowsErr of
             None \<Rightarrow> Inr rs
           | Some e \<Rightarrow>
               if errorsIsDeadline e \<or> cn_expired conn
               then Inl (''SQL query timeout (>'' @ itoa (int timeout) @ ''s)'')
               else Inl (''failed to read SQL results: '' @ e)))"

text \<open>The answer, and the statements sent to the connection in their order. The timeout is in seconds.\<close>

definition ExecuteQueryWithTimeout ::
  "'r sql_conn \<Rightarrow> string \<Rightarrow> nat \<Rightarrow> 'r list result \<times> string list" where
  "ExecuteQueryWithTimeout conn query timeout =
     (case normalizeReadOnlyQuery query of
        Inl e \<Rightarrow> (Inl e, [])
      | Inr normalized \<Rightarrow>
          let t = (if timeout = 0 then 5 else timeout);
              on = ''PRAGMA query_only = ON''; off = ''PRAGMA query_only = OFF''
          in (case cn_Conn conn of
                Some e \<Rightarrow> (Inl (''failed to get database connection: '' @ e), [])
              | None \<Rightarrow>
                  (case cn_ReadOnly conn of
                     Some e \<Rightarrow> (Inl (''failed to enable read-only query mode: '' @ e), [on, off])
                   | None \<Rightarrow>
                       (case cn_Query conn (wrapped_query normalized) of
                          Inl e \<Rightarrow> (Inl (''SQL execution failed: '' @ e), [on, wrapped_query normalized, off])
                        | Inr (rows, rowsErr) \<Rightarrow>
                            (read_rows conn t rows rowsErr, [on, wrapped_query normalized, off])))))"

definition ExecuteQuery :: "'r sql_conn \<Rightarrow> string \<Rightarrow> 'r list result \<times> string list" where
  "ExecuteQuery conn query = ExecuteQueryWithTimeout conn query 0"

lemma collect_rows_bound: "collect_rows limit acc rows = Some rs \<Longrightarrow> length acc < limit \<Longrightarrow> length rs < limit"
  by (induction limit acc rows rule: collect_rows.induct) (auto split: if_splits)

lemma collect_rows_all:
  "collect_rows limit acc rows = Some rs \<Longrightarrow> rs = acc @ map the (filter (\<lambda>r. r \<noteq> None) rows)"
  by (induction limit acc rows rule: collect_rows.induct) (auto split: if_splits)

section \<open>Tables a query mentions\<close>

definition isSQLKeyword :: "string \<Rightarrow> bool" where
  "isSQLKeyword s \<longleftrightarrow> to_upper s \<in>
     set [''SELECT'', ''WHERE'', ''GROUP'', ''ORDER'', ''HAVING'', ''LIMIT'', ''OFFSET'', ''AS'', ''ON'',
          ''AND'', ''OR'', ''NOT'', ''IN'', ''IS'', ''NULL'', ''LEFT'', ''RIGHT'', ''INNER'', ''OUTER'',
          ''CROSS'', ''FULL'', ''UNION'', ''INTERSECT'', ''EXCEPT'', ''WITH'']"

text \<open>
  The loop over code points with their byte offset; it stops at a delimiter or past offset 63.
  A code point is written back encoded, so an invalid byte becomes U+FFFD.
\<close>

function read_ident :: "nat \<Rightarrow> string \<Rightarrow> string" where
  "read_ident i [] = []"
| "read_ident i (c # s) =
     (if c \<in> {CHR '' '', CHR 0x09, CHR 0x0A, CHR '','', CHR '')'', CHR ''('', CHR '';''} \<or> i > 63 then []
      else
        let (r, n) = decode_rune (c # s)
        in encode_rune r @ read_ident (i + n) (drop n (c # s)))"
  by pat_completeness auto
termination
proof (relation "measure (\<lambda>(i, s). length s)", goal_cases)
  case (2 i c s p r n)
  then have "n = snd (decode_rune (c # s))" by (metis snd_conv)
  then show ?case using decode_rune_width [of "c # s"] by simp
qed simp

declare read_ident.simps(2) [simp del]

definition readUnquotedIdent :: "string \<Rightarrow> string" where
  "readUnquotedIdent s = read_ident 0 s"

text \<open>The table named after a keyword.\<close>

definition table_after :: "string \<Rightarrow> string list" where
  "table_after rest =
     (if rest = [] then []
      else if hd rest = dq \<or> hd rest = CHR ''`''
      then (case index_of (tl rest) [hd rest] of
              Some e \<Rightarrow> if e > 0 then [take e (tl rest)] else []
            | None \<Rightarrow> [])
      else
        let name = readUnquotedIdent rest
        in if name \<noteq> [] \<and> \<not> isSQLKeyword name then [name] else [])"

text \<open>
  One keyword: the offsets found in the upper-cased text are used in the original text; \<open>None\<close>
  when an offset lies beyond its end (a run-time panic of the slice expression). The keywords
  are \<open>FROM\<close> and \<open>JOIN\<close>, never empty.
\<close>

function tables_after :: "string \<Rightarrow> string \<Rightarrow> string \<Rightarrow> string list option" where
  "tables_after keyword remaining orig =
     (case index_of remaining keyword of
        None \<Rightarrow> Some []
      | Some i \<Rightarrow>
          if keyword = [] \<or> i + length keyword > length orig then None
          else
            map_option ((@) (table_after (trim_space (drop (i + length keyword) orig))))
              (tables_after keyword (drop (i + length keyword) remaining) (drop (i + length keyword) orig)))"
  by pat_completeness auto
termination
  by (relation "measure (\<lambda>(k, r, orig). length orig)")
    (auto simp: length_greater_0_conv [symmetric] simp del: length_greater_0_conv)

declare tables_after.simps [simp del]

definition extractTableReferencesFromQuery :: "string \<Rightarrow> string \<Rightarrow> string list option" where
  "extractTableReferencesFromQuery upper original =
     (case tables_after ''FROM'' upper original of
        None \<Rightarrow> None
      | Some a \<Rightarrow> map_option (\<lambda>b. a @ b) (tables_after ''JOIN'' upper original))"

lemma tables_after_total: "keyword \<noteq> [] \<Longrightarrow> length r = length orig \<Longrightarrow> \<exists>ts. tables_after keyword r orig = Some ts"
proof (induction keyword r orig rule: tables_after.induct)
  case (1 keyword r orig)
  show ?case
  proof (cases "index_of r keyword")
    case (Some i)
    have "i + length keyword \<le> length orig"
      using index_of_Some [OF Some] prefix_length_le [of keyword "drop i r"] 1(3) by auto
    with Some 1 show ?thesis by (subst tables_after.simps) auto
  qed (subst tables_after.simps, simp)
qed

section \<open>Properties\<close>

text \<open>
  C40. The two scanners of the guard agree with the lexer: a query has several statements exactly if
  a semicolon occurs as code, outside strings, quoted identifiers and comments; and the text
  that the guard inspects is the code in its order, with blanks in place of everything else.
\<close>

theorem sql_scanners_follow_lexer:
  "(hasMultipleStatements q \<longleftrightarrow> Code (CHR '';'') \<in> set (sql_pieces q))
   \<and> stripSQLStringsAndComments q = concat (map piece_text (sql_pieces q))"
  by (simp add: hasMultipleStatements_def stripSQLStringsAndComments_def multiple_pieces strip_pieces)



text \<open>
  SQLite also quotes identifiers with backticks, which the scanners read as code. A quote inside
  such an identifier opens a string for the guard only, so a second, writing statement passes
  as the content of a string.
\<close>

definition hidden_statement :: string where
  "hidden_statement = ''SELECT 1 AS `'' @ [sq] @ ''`) AS x; DROP TABLE t; --'' @ [sq]"

lemma backtick_hides_statement: "normalizeReadOnlyQuery hidden_statement = Inr hidden_statement"
  unfolding hidden_statement_def by code_simp

text \<open>
  Sanitized table and column names consist of word characters, are not empty and do not start
  with a digit, so they pass the identifier check whenever the name has at most 126 code points.
\<close>

theorem sanitized_names_valid:
  assumes "length (runes (trim_space name)) \<le> 126"
  shows "ValidateSQLIdent (sanitizeTableName name) = None \<and> ValidateSQLIdent (sanitizeColumnName name) = None
    \<and> \<not> is_digit (hd (sanitizeTableName name)) \<and> \<not> is_digit (hd (sanitizeColumnName name))"
proof -
  define n1 where "n1 = (if trim_space name = [] then ''table'' else trim_space name)"
  define n2 where "n2 = (if trim_space name = [] then ''unnamed'' else trim_space name)"
  have l: "n1 \<noteq> []" "n2 \<noteq> []" "length (runes n1) \<le> 126" "length (runes n2) \<le> 126"
  proof -
    have "length (runes ''table'') \<le> 126" "length (runes ''unnamed'') \<le> 126" by code_simp+
    with assms show "n1 \<noteq> []" "n2 \<noteq> []" "length (runes n1) \<le> 126" "length (runes n2) \<le> 126"
      by (auto simp: n1_def n2_def)
  qed
  have p: "list_all word_char ''t_''" "list_all word_char ''c_''" "\<not> is_digit (hd ''t_'')" "\<not> is_digit (hd ''c_'')"
    by (simp_all add: word_char_def is_digit_def)
  have "sanitizeTableName name = guard_digit ''t_'' (to_lower (replaceInvalid n1))"
    "sanitizeColumnName name = guard_digit ''c_'' (to_lower (replaceInvalid n2))"
    by (simp_all add: sanitizeTableName_def sanitizeColumnName_def Let_def n1_def n2_def)
  with sanitize_words [OF l(1) p(1) _ p(3)] sanitize_words [OF l(2) p(2) _ p(4)] l(3,4) show ?thesis
    by (simp add: words_valid)
qed

theorem sanitized_names_valid_witness:
  "length (runes (trim_space ''2024 Sales'')) \<le> 126 \<and> ValidateSQLIdent (sanitizeTableName ''2024 Sales'') = None"
proof -
  have "length (runes (trim_space ''2024 Sales'')) \<le> 126" by code_simp
  with sanitized_names_valid show ?thesis by blast
qed


definition sample_conn :: "nat sql_conn" where
  "sample_conn = \<lparr>cn_Conn = None, cn_ReadOnly = None, cn_Query = \<lambda>q. Inr ([Some 7, None, Some 8], None),
     cn_expired = False\<rparr>"


text \<open>
  The table search uses offsets of the upper-cased query in the original. It is safe when
  upper-casing keeps the length; a query with a letter whose capital takes more bytes (U+0250,
  capital U+2C6F) before a final keyword makes the slice expression panic.
\<close>

lemma table_search_same_length:
  "length upper = length original \<Longrightarrow> \<exists>ts. extractTableReferencesFromQuery upper original = Some ts"
  using tables_after_total [of "''FROM''" upper original] tables_after_total [of "''JOIN''" upper original]
  by (auto simp: extractTableReferencesFromQuery_def)

lemma table_search_panics:
  "extractTableReferencesFromQuery ([CHR 0xE2, CHR 0xB1, CHR 0xAF] @ '' FROM'')
     ([CHR 0xC9, CHR 0x90] @ '' FROM'') = None"
  by code_simp

end
