(* ===== verification/File_Service.thy ===== *)
theory File_Service
  imports Auth Run_Store Sql_Guard
begin

text \<open>
  Stored files: the local object storage (\<open>server/storage/local/storage.go\<close>), the keys of objects
  (\<open>server/service/object_keys.go\<close>), the file, report and session-file tables
  (\<open>server/repository/sqlite/store.go\<close>) and the file service over them
  (\<open>server/service/file_service.go\<close>). A path is a byte string of a Unix system, the file system a
  map from paths to contents; failures of the disk are not modelled.
\<close>

section \<open>Paths\<close>

text \<open>
  \<open>filepath.Clean\<close> over the elements of a path: empty and dot elements go, a double dot takes
  the element before it; \<open>acc\<close> holds the elements so far in reverse.
\<close>

fun clean_elems :: "bool \<Rightarrow> string list \<Rightarrow> string list \<Rightarrow> string list" where
  "clean_elems rooted acc [] = rev acc"
| "clean_elems rooted acc (e # es) =
     (if e = [] \<or> e = ''.'' then clean_elems rooted acc es
      else if e = ''..''
      then (case acc of
              [] \<Rightarrow> if rooted then clean_elems rooted [] es else clean_elems rooted [''..''] es
            | a # as \<Rightarrow> if a = ''..'' then clean_elems rooted (''..'' # acc) es else clean_elems rooted as es)
      else clean_elems rooted (e # acc) es)"

definition rooted :: "string \<Rightarrow> bool" where
  "rooted p \<longleftrightarrow> p \<noteq> [] \<and> hd p = CHR ''/''"

definition path_elems :: "string \<Rightarrow> string list" where
  "path_elems p = clean_elems (rooted p) [] (split_on (CHR ''/'') p)"

definition of_elems :: "bool \<Rightarrow> string list \<Rightarrow> string" where
  "of_elems r es = (if r then CHR ''/'' # join ''/'' es else if es = [] then ''.'' else join ''/'' es)"

definition Clean :: "string \<Rightarrow> string" where
  "Clean p = of_elems (rooted p) (path_elems p)"

definition Join2 :: "string \<Rightarrow> string \<Rightarrow> string" where
  "Join2 a b = (if a = [] then if b = [] then [] else Clean b
                else if b = [] then Clean a else Clean (a @ ''/'' @ b))"

definition path_base :: "string \<Rightarrow> string" where
  "path_base p =
     (if p = [] then ''.''
      else let q = rev (dropWhile (\<lambda>c. c = CHR ''/'') (rev p)); b = last (split_on (CHR ''/'') q)
           in if b = [] then ''/'' else b)"

definition path_ext :: "string \<Rightarrow> string" where
  "path_ext p =
     (let b = last (split_on (CHR ''/'') p); parts = split_on (CHR ''.'') b
      in if length parts < 2 then [] else CHR ''.'' # last parts)"

section \<open>Local object storage\<close>

type_synonym file_system = "string \<rightharpoonup> string"

definition resolvePath :: "string \<Rightarrow> string \<Rightarrow> string result" where
  "resolvePath rootDir key =
     (let cleanKey = Clean key
      in if contains cleanKey ''..'' then Inl (''illegal storage path (contains ..): '' @ key)
         else let fullPath = Join2 rootDir cleanKey
              in if \<not> prefix rootDir fullPath then Inl (''path traversal detected: '' @ key) else Inr fullPath)"

text \<open>The stored object is its key and size; the checksum is that of the body.\<close>

definition Storage_Put :: "string \<Rightarrow> string \<Rightarrow> string \<Rightarrow> file_system \<Rightarrow> string result \<times> file_system" where
  "Storage_Put rootDir key body fs =
     (case resolvePath rootDir key of
        Inl err \<Rightarrow> (Inl err, fs)
      | Inr p \<Rightarrow> (Inr key, fs(p \<mapsto> body)))"

definition Storage_Get :: "string \<Rightarrow> string \<Rightarrow> file_system \<Rightarrow> string result" where
  "Storage_Get rootDir key fs =
     (case resolvePath rootDir key of
        Inl err \<Rightarrow> Inl err
      | Inr p \<Rightarrow> (case fs p of Some b \<Rightarrow> Inr b | None \<Rightarrow> Inl (''failed to open object: '' @ p)))"

definition Storage_Delete :: "string \<Rightarrow> string \<Rightarrow> file_system \<Rightarrow> string option \<times> file_system" where
  "Storage_Delete rootDir key fs =
     (case resolvePath rootDir key of Inl err \<Rightarrow> (Some err, fs) | Inr p \<Rightarrow> (None, fs(p := None)))"

definition Storage_Exists :: "string \<Rightarrow> string \<Rightarrow> file_system \<Rightarrow> bool result" where
  "Storage_Exists rootDir key fs =
     (case resolvePath rootDir key of Inl err \<Rightarrow> Inl err | Inr p \<Rightarrow> Inr (fs p \<noteq> None))"

section \<open>Keys and names\<close>

definition SourceFileKey :: "string \<Rightarrow> string \<Rightarrow> string \<Rightarrow> string" where
  "SourceFileKey workspaceID fileID fileName =
     ''workspaces/'' @ workspaceID @ ''/files/'' @ fileID @ ''/source/'' @ path_base fileName"

definition ReportHTMLKey :: "string \<Rightarrow> string \<Rightarrow> string" where
  "ReportHTMLKey workspaceID runID = ''workspaces/'' @ workspaceID @ ''/runs/'' @ runID @ ''/report/report.html''"

definition ArtifactKey :: "string \<Rightarrow> string \<Rightarrow> string \<Rightarrow> string" where
  "ArtifactKey workspaceID runID name =
     ''workspaces/'' @ workspaceID @ ''/runs/'' @ runID @ ''/artifacts/'' @ path_base name"

definition safe_char :: "char \<Rightarrow> bool" where
  "safe_char c \<longleftrightarrow>
     (let n = of_char c :: nat
      in 97 \<le> n \<and> n \<le> 122 \<or> 65 \<le> n \<and> n \<le> 90 \<or> 48 \<le> n \<and> n \<le> 57 \<or> c = CHR ''_'' \<or> c = CHR ''.'' \<or> c = CHR ''-'')"

definition sanitizeFilename :: "string \<Rightarrow> string" where
  "sanitizeFilename name =
     (let b = path_base (trim_space name)
      in if b = [] \<or> b = ''.'' \<or> b = ''..'' \<or> \<not> list_all safe_char b then ''upload.bin'' else b)"

section \<open>Tables\<close>

record stored_file =
  fl_ID :: string
  fl_WorkspaceID :: string
  fl_UploadedBy :: string
  fl_DisplayName :: string
  fl_Purpose :: string
  fl_ContentType :: string
  fl_SizeBytes :: int
  fl_StorageKey :: string
  fl_Status :: string
  fl_Visibility :: string
  fl_CreatedAt :: int

record report_row =
  rp_ID :: string
  rp_RunID :: string
  rp_WorkspaceID :: string
  rp_Title :: string
  rp_Author :: string
  rp_HTMLStorageKey :: string
  rp_SnapshotJSON :: string
  rp_CreatedAt :: int

record file_tables =
  ft_files :: "stored_file list"
  ft_session_files :: "(string \<times> string \<times> int) list"
  ft_reports :: "report_row list"

definition File_Create :: "stored_file \<Rightarrow> file_tables \<Rightarrow> db_error option \<times> file_tables" where
  "File_Create f t =
     (if fl_ID f \<in> fl_ID ` set (ft_files t) then (Some ConstraintFailed, t)
      else (None, t\<lparr>ft_files := ft_files t @ [f]\<rparr>))"

text \<open>Deleting a file deletes its rows of the session-file table.\<close>

definition File_Delete :: "string \<Rightarrow> file_tables \<Rightarrow> file_tables" where
  "File_Delete i t =
     t\<lparr>ft_files := filter (\<lambda>f. fl_ID f \<noteq> i) (ft_files t),
       ft_session_files := filter (\<lambda>x. fst (snd x) \<noteq> i) (ft_session_files t)\<rparr>"

definition File_GetByID :: "file_tables \<Rightarrow> string \<Rightarrow> stored_file option" where
  "File_GetByID t i = find (\<lambda>f. fl_ID f = i) (ft_files t)"

definition File_ListBySession :: "file_tables \<Rightarrow> string \<Rightarrow> stored_file list" where
  "File_ListBySession t sid =
     concat (map (\<lambda>x. filter (\<lambda>f. fl_ID f = fst (snd x)) (ft_files t))
       (sort_key (\<lambda>x. snd (snd x)) (filter (\<lambda>x. fst x = sid) (ft_session_files t))))"

text \<open>One row per file; the rows before a failing one stay.\<close>

fun AttachFilesToSession ::
  "(string \<Rightarrow> bool) \<Rightarrow> int \<Rightarrow> string \<Rightarrow> string list \<Rightarrow> file_tables \<Rightarrow> db_error option \<times> file_tables" where
  "AttachFilesToSession session_row now sid [] t = (None, t)"
| "AttachFilesToSession session_row now sid (i # is) t =
     (if \<not> session_row sid \<or> i \<notin> fl_ID ` set (ft_files t)
         \<or> (\<exists>x \<in> set (ft_session_files t). fst x = sid \<and> fst (snd x) = i)
      then (Some ConstraintFailed, t)
      else AttachFilesToSession session_row now sid is
             (t\<lparr>ft_session_files := ft_session_files t @ [(sid, i, now)]\<rparr>))"

definition Report_Create :: "(string \<Rightarrow> bool) \<Rightarrow> report_row \<Rightarrow> file_tables \<Rightarrow> db_error option \<times> file_tables" where
  "Report_Create run_row r t =
     (if rp_ID r \<in> rp_ID ` set (ft_reports t) \<or> rp_RunID r \<in> rp_RunID ` set (ft_reports t) \<or> \<not> run_row (rp_RunID r)
      then (Some ConstraintFailed, t) else (None, t\<lparr>ft_reports := ft_reports t @ [r]\<rparr>))"

definition Report_GetByRunID :: "file_tables \<Rightarrow> string \<Rightarrow> report_row option" where
  "Report_GetByRunID t runID = find (\<lambda>r. rp_RunID r = runID) (ft_reports t)"

definition Report_Delete :: "string \<Rightarrow> file_tables \<Rightarrow> file_tables" where
  "Report_Delete i t = t\<lparr>ft_reports := filter (\<lambda>r. rp_ID r \<noteq> i) (ft_reports t)\<rparr>"

section \<open>The file service\<close>

record file_state =
  fv_fs :: file_system
  fv_tables :: file_tables

record file_env =
  fe_root :: string
  fe_temp :: string
  fe_now :: int
  fe_uuid :: string
  fe_directory :: directory
  fe_session_row :: "string \<Rightarrow> bool"
  fe_run_row :: "string \<Rightarrow> bool"

record upload_input =
  ui_UserID :: string
  ui_WorkspaceID :: string
  ui_SessionID :: string
  ui_FileName :: string
  ui_ContentType :: string
  ui_Body :: string

definition FilePurposeSource :: string where "FilePurposeSource = ''source''"
definition FilePurposeReport :: string where "FilePurposeReport = ''report''"
definition FileStatusUploaded :: string where "FileStatusUploaded = ''uploaded''"
definition FileStatusReady :: string where "FileStatusReady = ''ready''"
definition FileVisibilityPrivate :: string where "FileVisibilityPrivate = ''private''"

definition no_access :: string where "no_access = ''user not authorized to access workspace''"
definition db_failed :: string where "db_failed = ''constraint failed''"

definition Upload :: "file_env \<Rightarrow> upload_input \<Rightarrow> file_state \<Rightarrow> stored_file result \<times> file_state" where
  "Upload env inp st =
     (if \<not> IsMember (fe_directory env) (ui_WorkspaceID inp) (ui_UserID inp) then (Inl no_access, st)
      else
        let fileID = ''f_'' @ take 8 (fe_uuid env);
            key = SourceFileKey (ui_WorkspaceID inp) fileID (sanitizeFilename (ui_FileName inp))
        in case Storage_Put (fe_root env) key (ui_Body inp) (fv_fs st) of
             (Inl err, _) \<Rightarrow> (Inl err, st)
           | (Inr k, fs) \<Rightarrow>
               let file = \<lparr>fl_ID = fileID, fl_WorkspaceID = ui_WorkspaceID inp, fl_UploadedBy = ui_UserID inp,
                           fl_DisplayName = ui_FileName inp, fl_Purpose = FilePurposeSource,
                           fl_ContentType = ui_ContentType inp, fl_SizeBytes = int (length (ui_Body inp)),
                           fl_StorageKey = k, fl_Status = FileStatusUploaded, fl_Visibility = FileVisibilityPrivate,
                           fl_CreatedAt = fe_now env\<rparr>
               in case File_Create file (fv_tables st) of
                    (Some _, t) \<Rightarrow>
                      (Inl db_failed, \<lparr>fv_fs = snd (Storage_Delete (fe_root env) k fs), fv_tables = t\<rparr>)
                  | (None, t) \<Rightarrow>
                      (case AttachFilesToSession (fe_session_row env) (fe_now env) (ui_SessionID inp) [fileID] t of
                         (Some _, t1) \<Rightarrow>
                           (Inl db_failed, \<lparr>fv_fs = snd (Storage_Delete (fe_root env) k fs),
                                            fv_tables = File_Delete fileID t1\<rparr>)
                       | (None, t1) \<Rightarrow> (Inr file, \<lparr>fv_fs = fs, fv_tables = t1\<rparr>)))"

definition GetSessionFiles :: "file_state \<Rightarrow> string \<Rightarrow> stored_file list" where
  "GetSessionFiles st sid = File_ListBySession (fv_tables st) sid"

definition MaterializeToTemp ::
  "file_env \<Rightarrow> string \<Rightarrow> string \<Rightarrow> string \<Rightarrow> file_state \<Rightarrow> (string \<times> stored_file) result \<times> file_state" where
  "MaterializeToTemp env sessionID workspaceID fileID st =
     (case File_GetByID (fv_tables st) fileID of
        None \<Rightarrow> (Inl ''sql: no rows in result set'', st)
      | Some file \<Rightarrow>
          if fl_WorkspaceID file \<noteq> workspaceID then (Inl ''file does not belong to current workspace'', st)
          else if \<not> list_ex (\<lambda>sf. fl_ID sf = fileID) (GetSessionFiles st sessionID)
          then (Inl ''security block: cannot access file not mounted in current session'', st)
          else (case Storage_Get (fe_root env) (fl_StorageKey file) (fv_fs st) of
                  Inl err \<Rightarrow> (Inl err, st)
                | Inr body \<Rightarrow>
                    let tempPath = Join2 (fe_temp env) (fl_ID file @ ''-'' @ sanitizeFilename (fl_DisplayName file))
                    in (Inr (tempPath, file), st\<lparr>fv_fs := (fv_fs st)(tempPath \<mapsto> body)\<rparr>)))"

record report_input =
  ri_UserID :: string
  ri_WorkspaceID :: string
  ri_RunID :: string
  ri_Title :: string
  ri_Author :: string
  ri_HTML :: string
  ri_SnapshotTitle :: string
  ri_SnapshotAuthor :: string

definition report_display_name :: "string \<Rightarrow> string \<Rightarrow> string" where
  "report_display_name title runID =
     (let n0 = sanitizeFilename (trim_space title);
          n = (if n0 = [] \<or> n0 = ''upload.bin'' then ''report-'' @ runID else n0)
      in if path_ext n \<noteq> ''.html'' then n @ ''.html'' else n)"

text \<open>\<open>snapshot_json\<close> is the encoded snapshot of the report, if it can be encoded.\<close>

definition SaveReportHTML ::
  "file_env \<Rightarrow> string option \<Rightarrow> report_input \<Rightarrow> file_state \<Rightarrow> stored_file result \<times> file_state" where
  "SaveReportHTML env snapshot_json inp st =
     (if \<not> IsMember (fe_directory env) (ri_WorkspaceID inp) (ri_UserID inp) then (Inl no_access, st)
      else
        let fileID = ''rep_'' @ ri_RunID inp;
            key = ReportHTMLKey (ri_WorkspaceID inp) (ri_RunID inp)
        in case Storage_Put (fe_root env) key (ri_HTML inp) (fv_fs st) of
             (Inl err, _) \<Rightarrow> (Inl err, st)
           | (Inr k, fs) \<Rightarrow>
               let file = \<lparr>fl_ID = fileID, fl_WorkspaceID = ri_WorkspaceID inp, fl_UploadedBy = ri_UserID inp,
                           fl_DisplayName = report_display_name (ri_Title inp) (ri_RunID inp),
                           fl_Purpose = FilePurposeReport, fl_ContentType = ''text/html; charset=utf-8'',
                           fl_SizeBytes = int (length (ri_HTML inp)), fl_StorageKey = k,
                           fl_Status = FileStatusReady, fl_Visibility = FileVisibilityPrivate,
                           fl_CreatedAt = fe_now env\<rparr>
               in case File_Create file (fv_tables st) of
                    (Some _, t) \<Rightarrow> (Inl db_failed, \<lparr>fv_fs = fs, fv_tables = t\<rparr>)
                  | (None, t) \<Rightarrow>
                      (case snapshot_json of
                         None \<Rightarrow> (Inl ''failed to serialize report snapshot'', \<lparr>fv_fs = fs, fv_tables = t\<rparr>)
                       | Some js \<Rightarrow>
                           let title = trim_space (ri_SnapshotTitle inp); author = trim_space (ri_SnapshotAuthor inp);
                               row = \<lparr>rp_ID = ''report_'' @ ri_RunID inp, rp_RunID = ri_RunID inp,
                                      rp_WorkspaceID = ri_WorkspaceID inp,
                                      rp_Title = (if title = [] then trim_space (ri_Title inp) else title),
                                      rp_Author = (if author = [] then trim_space (ri_Author inp) else author),
                                      rp_HTMLStorageKey = k, rp_SnapshotJSON = js, rp_CreatedAt = fe_now env\<rparr>
                           in (case Report_Create (fe_run_row env) row t of
                                 (Some _, t1) \<Rightarrow>
                                   (Inl (''failed to save report metadata: '' @ db_failed),
                                    \<lparr>fv_fs = snd (Storage_Delete (fe_root env) k fs), fv_tables = File_Delete fileID t1\<rparr>)
                               | (None, t1) \<Rightarrow> (Inr file, \<lparr>fv_fs = fs, fv_tables = t1\<rparr>))))"

definition DeleteReportFile :: "file_env \<Rightarrow> string \<Rightarrow> string \<Rightarrow> file_state \<Rightarrow> file_state" where
  "DeleteReportFile env fileID runID st =
     (let st1 = (case Report_GetByRunID (fv_tables st) runID of
                   None \<Rightarrow> st
                 | Some r \<Rightarrow> \<lparr>fv_fs = snd (Storage_Delete (fe_root env) (rp_HTMLStorageKey r) (fv_fs st)),
                             fv_tables = Report_Delete (rp_ID r) (fv_tables st)\<rparr>)
      in case File_GetByID (fv_tables st1) fileID of
           None \<Rightarrow> st1
         | Some f \<Rightarrow> st1\<lparr>fv_tables := File_Delete (fl_ID f) (fv_tables st1)\<rparr>)"

definition OpenForDownload ::
  "file_env \<Rightarrow> string \<Rightarrow> string \<Rightarrow> string \<Rightarrow> file_state \<Rightarrow> (string \<times> stored_file) result" where
  "OpenForDownload env userID workspaceID fileID st =
     (if \<not> IsMember (fe_directory env) workspaceID userID then Inl no_access
      else (case File_GetByID (fv_tables st) fileID of
              None \<Rightarrow> Inl ''sql: no rows in result set''
            | Some file \<Rightarrow>
                if fl_WorkspaceID file \<noteq> workspaceID then Inl ''file does not belong to current workspace''
                else (case Storage_Get (fe_root env) (fl_StorageKey file) (fv_fs st) of
                        Inl err \<Rightarrow> Inl err | Inr body \<Rightarrow> Inr (body, file))))"

definition OpenStoredObject :: "file_env \<Rightarrow> string \<Rightarrow> string \<Rightarrow> string \<Rightarrow> file_state \<Rightarrow> string result" where
  "OpenStoredObject env userID workspaceID storageKey st =
     (if \<not> IsMember (fe_directory env) workspaceID userID then Inl no_access
      else Storage_Get (fe_root env) storageKey (fv_fs st))"

section \<open>Paths stay below the root\<close>

lemma split_on_no_sep: "w \<in> set (split_on d s) \<Longrightarrow> d \<notin> set w"
  using split_on_parts [of d s "split_on d s"] by blast

lemma split_on_append_sep: "split_on d (a @ d # b) = split_on d a @ split_on d b"
proof (induction a)
  case (Cons c a)
  obtain w ws where "split_on d a = w # ws" by (metis neq_Nil_conv split_on_nonempty)
  with Cons show ?case by simp
qed simp

text \<open>Elements of a cleaned path: real names, or, at the front of a relative path, double dots.\<close>

definition real_elem :: "string \<Rightarrow> bool" where
  "real_elem e \<longleftrightarrow> e \<noteq> [] \<and> e \<noteq> ''.'' \<and> e \<noteq> ''..'' \<and> CHR ''/'' \<notin> set e"

lemma clean_elems_real: "\<forall>e \<in> set es. real_elem e \<Longrightarrow> clean_elems r acc es = rev acc @ es"
  by (induction es arbitrary: acc) (auto simp: real_elem_def)

lemma clean_elems_append_real:
  "\<forall>e \<in> set es. real_elem e \<Longrightarrow> clean_elems r acc (es @ fs) = clean_elems r (rev es @ acc) fs"
  by (induction es arbitrary: acc) (auto simp: real_elem_def)

lemma clean_elems_step:
  "e = [] \<or> e = ''.'' \<Longrightarrow> clean_elems r acc (e # es) = clean_elems r acc es"
  "real_elem e \<Longrightarrow> clean_elems r acc (e # es) = clean_elems r (e # acc) es"
  "clean_elems r acc (''..'' # es) =
     (case acc of
        [] \<Rightarrow> if r then clean_elems r [] es else clean_elems r [''..''] es
      | a # as \<Rightarrow> if a = ''..'' then clean_elems r (''..'' # acc) es else clean_elems r as es)"
  by (auto simp: real_elem_def)

lemma not_real_dots [simp]: "\<not> real_elem ''..''"
  by (simp add: real_elem_def)

lemma clean_elems_no_dots:
  assumes "\<forall>e \<in> set es. CHR ''/'' \<notin> set e" "\<forall>e \<in> set acc. real_elem e \<or> e = ''..'' \<and> \<not> r"
  shows "\<forall>e \<in> set (clean_elems r acc es). real_elem e \<or> e = ''..'' \<and> \<not> r"
  using assms
proof (induction es arbitrary: acc)
  case (Cons e es)
  consider "e = [] \<or> e = ''.''" | "e = ''..''" | "real_elem e"
    using Cons.prems(1) unfolding real_elem_def by auto
  then show ?case
  proof cases
    case 1
    then show ?thesis using Cons clean_elems_step(1) by simp
  next
    case 2
    show ?thesis
    proof (cases acc)
      case Nil
      then show ?thesis using Cons.IH [of "[]"] Cons.IH [of "[''..'']"] Cons.prems 2
        by (simp only: clean_elems_step) (cases r; simp)
    next
      case acc: (Cons a as)
      show ?thesis
      proof (cases "a = ''..''")
        case True
        then have "clean_elems r acc (e # es) = clean_elems r (''..'' # acc) es"
          unfolding 2 by (subst clean_elems_step(3)) (simp add: acc)
        moreover have "\<not> r" using Cons.prems(2) True acc by auto
        moreover have "\<forall>x \<in> set (''..'' # acc). real_elem x \<or> x = ''..'' \<and> \<not> r"
          using Cons.prems(2) calculation(2) by simp
        ultimately show ?thesis using Cons.IH [of "''..'' # acc"] Cons.prems(1) by simp
      next
        case False
        then have "clean_elems r acc (e # es) = clean_elems r as es"
          unfolding 2 by (subst clean_elems_step(3)) (simp add: acc)
        then show ?thesis using Cons.IH [of as] Cons.prems acc by simp
      qed
    qed
  next
    case 3
    then show ?thesis using Cons.IH [of "e # acc"] Cons.prems clean_elems_step(2) by simp
  qed
qed simp

lemma path_elems_kinds: "\<forall>e \<in> set (path_elems p). real_elem e \<or> e = ''..'' \<and> \<not> rooted p"
  unfolding path_elems_def by (rule clean_elems_no_dots) (auto dest: split_on_no_sep)

text \<open>A key without double dots in its cleaned form has real names only.\<close>

lemma sublist_mid: "sublist s w \<Longrightarrow> sublist s (a @ w @ b)"
  unfolding sublist_def by (metis append.assoc)

lemma contains_join: "w \<in> set ws \<Longrightarrow> contains w s \<Longrightarrow> contains (join sep ws) s"
  unfolding contains_sublist
proof (induction sep ws rule: join.induct)
  case (3 sep x v ws)
  show ?case
  proof (cases "w = x")
    case True
    then show ?thesis using sublist_mid [OF "3.prems"(2), of "[]"] by simp
  next
    case False
    then have "sublist s (join sep (v # ws))" using 3 by simp
    from sublist_mid [OF this, of "x @ sep" "[]"] show ?thesis by simp
  qed
qed auto

lemma no_dots_real:
  assumes "\<not> contains (Clean key) ''..''"
  shows "\<forall>e \<in> set (path_elems key). real_elem e"
proof
  fix e assume e: "e \<in> set (path_elems key)"
  have "contains (Clean key) ''..''" if "e = ''..''"
  proof -
    have "contains (join ''/'' (path_elems key)) ''..''"
      using contains_join [OF e, of "''..''"] that by (simp add: contains_sublist)
    then show ?thesis
      using e unfolding Clean_def of_elems_def contains_sublist
      by (auto intro: sublist_Cons_right [THEN iffD2])
  qed
  then show "real_elem e" using path_elems_kinds e assms by blast
qed

definition abs_root :: "string \<Rightarrow> bool" where
  "abs_root p \<longleftrightarrow> rooted p \<and> Clean p = p"

lemma rooted_slash: "rooted p \<Longrightarrow> \<exists>q. p = CHR ''/'' # q"
  by (cases p) (auto simp: rooted_def)

lemma root_elems:
  assumes "abs_root p"
  shows "p = CHR ''/'' # join ''/'' (path_elems p)" "\<forall>e \<in> set (path_elems p). real_elem e"
  using assms path_elems_kinds by (auto simp: abs_root_def Clean_def of_elems_def)

lemma split_root:
  assumes "abs_root p"
  shows "clean_elems True [] (split_on (CHR ''/'') p @ fs) = clean_elems True (rev (path_elems p)) fs"
proof -
  let ?es = "path_elems p"
  have "split_on (CHR ''/'') p = [] # split_on (CHR ''/'') (join ''/'' ?es)"
    by (subst root_elems(1) [OF assms]) simp
  moreover have "split_on (CHR ''/'') (join ''/'' ?es) = (if ?es = [] then [[]] else ?es)"
    using root_elems(2) [OF assms] split_on_join [of ?es "CHR ''/''"] by (simp add: real_elem_def)
  ultimately show ?thesis
    using root_elems(2) [OF assms] clean_elems_append_real [of ?es True "[]" fs] by simp
qed

lemma split_clean_key:
  assumes "\<forall>e \<in> set (path_elems key). real_elem e"
  shows "clean_elems True acc (split_on (CHR ''/'') (Clean key)) = rev acc @ path_elems key"
proof -
  let ?es = "path_elems key"
  have "split_on (CHR ''/'') (join ''/'' ?es) = (if ?es = [] then [[]] else ?es)"
    using assms split_on_join [of ?es "CHR ''/''"] by (simp add: real_elem_def)
  then show ?thesis
    using clean_elems_real [OF assms, of True acc] by (cases "?es = []") (auto simp: Clean_def of_elems_def)
qed

lemma join_root_key:
  assumes "abs_root rt" "\<forall>e \<in> set (path_elems key). real_elem e"
  shows "Join2 rt (Clean key) = CHR ''/'' # join ''/'' (path_elems rt @ path_elems key)"
proof -
  have ne: "rt \<noteq> []" "Clean key \<noteq> []"
    using assms(1) rooted_slash
    by (auto simp: abs_root_def Clean_def of_elems_def) (metis assms(2) join.simps(2) list.exhaust neq_Nil_conv real_elem_def join.simps(3) append_is_Nil_conv list.set_intros(1))
  have r: "rooted (rt @ ''/'' @ Clean key)" using assms(1) rooted_slash [of rt] by (auto simp: abs_root_def rooted_def)
  have "path_elems (rt @ ''/'' @ Clean key) = path_elems rt @ path_elems key"
    using r split_root [OF assms(1)] split_clean_key [OF assms(2), of "rev (path_elems rt)"]
    by (simp add: path_elems_def [of "rt @ _"] split_on_append_sep)
  then show ?thesis using ne r by (simp add: Join2_def Clean_def [of "rt @ _"] of_elems_def)
qed

lemma join_append: "xs \<noteq> [] \<Longrightarrow> ys \<noteq> [] \<Longrightarrow> join sep (xs @ ys) = join sep xs @ sep @ join sep ys"
proof (induction sep xs rule: join.induct)
  case (2 sep w)
  then show ?case by (cases ys) auto
qed auto

lemma resolve_path_eq:
  assumes "abs_root rt"
  shows "resolvePath rt key =
    (if contains (Clean key) ''..'' then Inl (''illegal storage path (contains ..): '' @ key)
     else Inr (CHR ''/'' # join ''/'' (path_elems rt @ path_elems key)))"
proof (cases "contains (Clean key) ''..''")
  case False
  have p: "Join2 rt (Clean key) = CHR ''/'' # join ''/'' (path_elems rt @ path_elems key)"
    using join_root_key [OF assms no_dots_real [OF False]] .
  have "prefix (join ''/'' xs) (join ''/'' (xs @ ys))" for xs ys :: "string list"
    by (cases "xs = []"; cases "ys = []") (simp_all add: join_append prefix_def)
  then have "prefix rt (CHR ''/'' # join ''/'' (path_elems rt @ path_elems key))"
    by (subst root_elems(1) [OF assms]) simp
  then show ?thesis using False p by (simp add: resolvePath_def Let_def)
qed (simp add: resolvePath_def Let_def)

lemma elems_of_real:
  assumes "\<forall>e \<in> set es. real_elem e"
  shows "path_elems (CHR ''/'' # join ''/'' es) = es"
proof -
  have "split_on (CHR ''/'') (join ''/'' es) = (if es = [] then [[]] else es)"
    using assms split_on_join [of es "CHR ''/''"] by (simp add: real_elem_def)
  then show ?thesis
    using clean_elems_real [OF assms, of True "[]"] by (auto simp: path_elems_def rooted_def)
qed

lemma abs_root_of_real: "\<forall>e \<in> set es. real_elem e \<Longrightarrow> abs_root (CHR ''/'' # join ''/'' es)"
  using elems_of_real [of es] by (simp add: abs_root_def rooted_def Clean_def of_elems_def)

text \<open>
  C34. A key never leads out of the storage: the path of an accepted key is the root followed by real
  names, so it lies below the root, and no accepted key is caught by the second check.
\<close>

theorem storage_path_below_root:
  assumes "abs_root rt" "resolvePath rt key = Inr p"
  shows "abs_root p \<and> (\<exists>es. path_elems p = path_elems rt @ es \<and> (\<forall>e \<in> set es. real_elem e))
    \<and> p = CHR ''/'' # join ''/'' (path_elems rt @ path_elems key)"
proof -
  have nd: "\<not> contains (Clean key) ''..''" and p: "p = CHR ''/'' # join ''/'' (path_elems rt @ path_elems key)"
    using assms(2) resolve_path_eq [OF assms(1), of key] by (auto split: if_splits)
  have "\<forall>e \<in> set (path_elems rt @ path_elems key). real_elem e"
    using no_dots_real [OF nd] root_elems(2) [OF assms(1)] by auto
  from elems_of_real [OF this] abs_root_of_real [OF this] no_dots_real [OF nd] show ?thesis by (auto simp: p)
qed

theorem storage_path_below_root_witness:
  "abs_root (''/srv'') \<and> resolvePath ''/srv'' ''a//./b'' = Inr ''/srv/a/b'' \<and> path_elems ''/srv/a/b'' = [''srv'', ''a'', ''b'']"
proof -
  have r: "abs_root ''/srv''" by code_simp
  have k: "resolvePath ''/srv'' ''a//./b'' = Inr ''/srv/a/b''" by code_simp
  obtain es where "path_elems ''/srv/a/b'' = path_elems ''/srv'' @ es"
    using storage_path_below_root [OF r k] by blast
  then show ?thesis using r k by code_simp
qed

section \<open>Uploads\<close>

lemma put_get:
  assumes "Storage_Put rt key body fs = (Inr k, fs')"
  shows "Storage_Get rt k fs' = Inr body" "k = key"
  using assms by (auto simp: Storage_Put_def Storage_Get_def split: sum.splits)

lemma attached_one:
  assumes "AttachFilesToSession sr now sid [i] t = (None, t')"
  shows "t' = t\<lparr>ft_session_files := ft_session_files t @ [(sid, i, now)]\<rparr>"
  using assms by (auto split: if_splits)

lemma upload_state:
  assumes "Upload env inp st = (Inr f, st')"
  shows "Storage_Get (fe_root env) (fl_StorageKey f) (fv_fs st') = Inr (ui_Body inp)"
    "fl_ID f \<notin> fl_ID ` set (ft_files (fv_tables st))"
    "ft_files (fv_tables st') = ft_files (fv_tables st) @ [f]"
    "ft_session_files (fv_tables st') = ft_session_files (fv_tables st) @ [(ui_SessionID inp, fl_ID f, fe_now env)]"
    "fl_WorkspaceID f = ui_WorkspaceID inp" "fl_DisplayName f = ui_FileName inp"
    "IsMember (fe_directory env) (ui_WorkspaceID inp) (ui_UserID inp)"
  using assms
  by (auto simp: Upload_def File_Create_def Let_def put_get
      split: if_splits prod.splits sum.splits option.splits dest!: attached_one dest: put_get)

lemma find_last: "P x \<Longrightarrow> \<forall>y \<in> set xs. \<not> P y \<Longrightarrow> find P (xs @ [x]) = Some x"
  by (induction xs) auto

text \<open>
  C35. An upload can be read back: every member of the workspace downloads exactly the uploaded bytes
  under the new file's id, and the session it was uploaded to can materialise it.
\<close>

theorem upload_roundtrip:
  assumes "Upload env inp st = (Inr f, st')" "IsMember (fe_directory env) (ui_WorkspaceID inp) reader"
  shows "OpenForDownload env reader (ui_WorkspaceID inp) (fl_ID f) st' = Inr (ui_Body inp, f)
    \<and> (\<exists>path st''. MaterializeToTemp env (ui_SessionID inp) (ui_WorkspaceID inp) (fl_ID f) st' = (Inr (path, f), st'')
         \<and> fv_fs st'' path = Some (ui_Body inp))"
proof -
  note up = upload_state [OF assms(1)]
  have get: "File_GetByID (fv_tables st') (fl_ID f) = Some f"
    using find_last [of "\<lambda>x. fl_ID x = fl_ID f" f "ft_files (fv_tables st)"] up(2,3)
    by (simp add: File_GetByID_def image_iff) metis
  have "(ui_SessionID inp, fl_ID f, fe_now env) \<in> set (ft_session_files (fv_tables st'))" "f \<in> set (ft_files (fv_tables st'))"
    using up(3,4) by simp_all
  then have "list_ex (\<lambda>sf. fl_ID sf = fl_ID f) (GetSessionFiles st' (ui_SessionID inp))"
    by (fastforce simp: list_ex_iff GetSessionFiles_def File_ListBySession_def)
  then show ?thesis
    using get up assms(2) by (simp add: OpenForDownload_def MaterializeToTemp_def Let_def)
qed

definition sample_file_env :: file_env where
  "sample_file_env = \<lparr>fe_root = ''/srv'', fe_temp = ''/tmp'', fe_now = 5, fe_uuid = ''12345678-'',
     fe_directory = sample_directory, fe_session_row = (\<lambda>_. True), fe_run_row = (\<lambda>_. True)\<rparr>"

definition sample_upload :: upload_input where
  "sample_upload = \<lparr>ui_UserID = ''u_1'', ui_WorkspaceID = ''w_1'', ui_SessionID = ''s_1'', ui_FileName = ''a.csv'',
     ui_ContentType = ''text/csv'', ui_Body = ''x''\<rparr>"

definition empty_files :: file_state where
  "empty_files = \<lparr>fv_fs = Map.empty, fv_tables = \<lparr>ft_files = [], ft_session_files = [], ft_reports = []\<rparr>\<rparr>"

lemma sample_upload_ok:
  "\<exists>f st'. Upload sample_file_env sample_upload empty_files = (Inr f, st') \<and> fl_ID f = ''f_12345678''"
proof -
  have member: "IsMember (fe_directory sample_file_env) (ui_WorkspaceID sample_upload) (ui_UserID sample_upload)"
    by code_simp
  have path: "resolvePath (fe_root sample_file_env) (SourceFileKey (ui_WorkspaceID sample_upload) ''f_12345678''
      (sanitizeFilename (ui_FileName sample_upload))) = Inr ''/srv/workspaces/w_1/files/f_12345678/source/a.csv''"
    by code_simp
  have uuid: "''f_'' @ take 8 (fe_uuid sample_file_env) = ''f_12345678''" by (simp add: sample_file_env_def)
  show ?thesis
    using member path
    by (simp add: Upload_def Storage_Put_def uuid [simplified] File_Create_def empty_files_def sample_file_env_def Let_def)
qed

theorem upload_roundtrip_witness:
  "\<exists>f st'. Upload sample_file_env sample_upload empty_files = (Inr f, st')
    \<and> OpenForDownload sample_file_env ''u_1'' ''w_1'' ''f_12345678'' st' = Inr (''x'', f)"
proof -
  obtain f st' where up: "Upload sample_file_env sample_upload empty_files = (Inr f, st')" "fl_ID f = ''f_12345678''"
    using sample_upload_ok by blast
  have "IsMember (fe_directory sample_file_env) (ui_WorkspaceID sample_upload) ''u_1''" by code_simp
  from upload_roundtrip [OF up(1) this] up show ?thesis by (auto simp: sample_upload_def)
qed

text \<open>A failed upload leaves the tables as they were.\<close>

lemma failed_upload_tables:
  assumes "Upload env inp st = (Inl err, st')" "\<forall>x \<in> set (ft_session_files (fv_tables st)). fst (snd x) \<in> fl_ID ` set (ft_files (fv_tables st))"
  shows "fv_tables st' = fv_tables st"
proof -
  have "File_Delete i (t\<lparr>ft_files := ft_files t @ [f]\<rparr>) = t"
    if "fl_ID f = i" "i \<notin> fl_ID ` set (ft_files t)" "t = fv_tables st" for i f t
  proof -
    have "filter (\<lambda>g. fl_ID g \<noteq> i) (ft_files t) = ft_files t" using that(2) by (intro filter_True) auto
    moreover have "filter (\<lambda>x. fst (snd x) \<noteq> i) (ft_session_files t) = ft_session_files t"
      using that assms(2) by (intro filter_True) auto
    ultimately show ?thesis using that(1) by (cases t) (simp add: File_Delete_def)
  qed
  then show ?thesis
    using assms(1) by (auto simp: Upload_def File_Create_def Let_def split: if_splits prod.splits sum.splits option.splits)
qed

section \<open>Importing an upload\<close>

text \<open>
  The choice of the importer by the extension of the materialised file (\<open>ImportFileRaw\<close> of
  \<open>server/data/ingester.go\<close>); the importers are those
  of the theory \<open>Ingestion\<close>.
\<close>

definition ImportFileRaw ::
  "(string \<Rightarrow> string \<Rightarrow> 'd \<Rightarrow> 'n result \<times> 'd) \<Rightarrow> (string \<Rightarrow> string \<Rightarrow> 'd \<Rightarrow> 'n result \<times> 'd) \<Rightarrow> string \<Rightarrow> 'd \<Rightarrow>
     string \<times> 'n result \<times> 'd" where
  "ImportFileRaw importCSV importExcel filePath db =
     (let ext = to_lower (path_ext filePath);
          tableName = sanitizeTableName (trim_suffix (path_base filePath) ext)
      in (tableName,
          if ext = ''.csv'' then importCSV filePath tableName db
          else if ext = ''.xlsx'' \<or> ext = ''.xls'' then importExcel filePath tableName db
          else (Inl (''unsupported file format: '' @ ext), db)))"

lemma real_path: "real_elem x \<Longrightarrow> Clean x = x \<and> path_elems x = [x]"
proof -
  assume x: "real_elem x"
  have r: "\<not> rooted x" using x by (cases x) (auto simp: real_elem_def rooted_def)
  have "split_on (CHR ''/'') x = [x]" using x by (simp add: split_on_plain real_elem_def)
  then have "path_elems x = [x]" using r clean_elems_real [of "[x]" False "[]"] x by (simp add: path_elems_def)
  then show ?thesis using r by (simp add: Clean_def of_elems_def)
qed

lemma join_real:
  assumes "abs_root t" "real_elem x"
  shows "Join2 t x = CHR ''/'' # join ''/'' (path_elems t @ [x])"
  using join_root_key [OF assms(1), of x] real_path [OF assms(2)] assms(2) by simp

lemma last_elem:
  assumes "\<forall>e \<in> set es. real_elem e" "es \<noteq> []"
  shows "last (split_on (CHR ''/'') (CHR ''/'' # join ''/'' es)) = last es"
  using split_on_join [OF _ assms(2), of "CHR ''/''"] assms by (simp add: real_elem_def)

lemma split_dot_last: "d \<notin> set s \<Longrightarrow> last (split_on d (a @ d # s)) = s \<and> length (split_on d (a @ d # s)) \<ge> 2"
  using split_on_append_sep [of d a s]
  by (simp add: split_on_plain) (metis One_nat_def Suc_leI length_greater_0_conv split_on_nonempty)

text \<open>
  A file whose name has a character outside letters, digits, underscore, dot and dash (a space,
  or any letter of another script) is materialised as \<open>upload.bin\<close>, and its import is refused
  whatever its contents are.
\<close>

lemma unsafe_name_not_imported:
  assumes "MaterializeToTemp env sid ws i st = (Inr (path, f), st')" "sanitizeFilename (fl_DisplayName f) = ''upload.bin''"
    "abs_root (fe_temp env)" "CHR ''/'' \<notin> set (fl_ID f)"
  shows "snd (ImportFileRaw importCSV importExcel path db) = (Inl ''unsupported file format: .bin'', db)"
proof -
  let ?x = "fl_ID f @ ''-'' @ ''upload.bin''"
  have x: "real_elem ?x" using assms(4) by (auto simp: real_elem_def)
  have "path = Join2 (fe_temp env) ?x"
    using assms(1,2) by (auto simp: MaterializeToTemp_def Let_def split: option.splits sum.splits if_splits)
  then have p: "path = CHR ''/'' # join ''/'' (path_elems (fe_temp env) @ [?x])" using join_real [OF assms(3) x] by simp
  have "last (split_on (CHR ''/'') path) = ?x"
    using last_elem [of "path_elems (fe_temp env) @ [?x]"] root_elems(2) [OF assms(3)] x unfolding p by simp
  moreover have "last (split_on (CHR ''.'') ?x) = ''bin'' \<and> length (split_on (CHR ''.'') ?x) \<ge> 2"
    using split_dot_last [of "CHR ''.''" "''bin''" "fl_ID f @ ''-upload''"] by simp
  ultimately have "path_ext path = ''.bin''" by (simp add: path_ext_def Let_def)
  moreover have "to_lower ''.bin'' = ''.bin''" by code_simp
  ultimately show ?thesis by (simp add: ImportFileRaw_def Let_def)
qed

lemma spaced_name_unsafe: "sanitizeFilename ''my data.csv'' = ''upload.bin''"
  by code_simp

text \<open>A name with two dots in a row passes the check of names but not that of storage keys.\<close>

lemma dotted_name_refused:
  "sanitizeFilename ''a..csv'' = ''a..csv''"
  "resolvePath ''/srv'' (SourceFileKey ''w_1'' ''f_1'' ''a..csv'') =
     Inl (''illegal storage path (contains ..): '' @ SourceFileKey ''w_1'' ''f_1'' ''a..csv'')"
  by code_simp+

text \<open>
  Saving a report a second time for the same run fails, but the stored page has already been
  replaced, so page and recorded snapshot disagree.
\<close>

lemma second_save_replaces_page:
  assumes "SaveReportHTML env js inp st = (Inr f, st1)" "SaveReportHTML env js' (inp\<lparr>ri_HTML := html\<rparr>) st1 = (r, st2)"
  shows "r = Inl db_failed \<and> fv_tables st2 = fv_tables st1
    \<and> Storage_Get (fe_root env) (fl_StorageKey f) (fv_fs st2) = Inr html"
proof -
  have f: "f \<in> set (ft_files (fv_tables st1))" "fl_ID f = ''rep_'' @ ri_RunID inp"
      "fl_StorageKey f = ReportHTMLKey (ri_WorkspaceID inp) (ri_RunID inp)"
      "IsMember (fe_directory env) (ri_WorkspaceID inp) (ri_UserID inp)"
      "\<exists>p. resolvePath (fe_root env) (ReportHTMLKey (ri_WorkspaceID inp) (ri_RunID inp)) = Inr p"
    using assms(1)
    by (auto simp: SaveReportHTML_def Storage_Put_def File_Create_def Report_Create_def Let_def
        split: if_splits prod.splits sum.splits option.splits)
  then have "''rep_'' @ ri_RunID inp \<in> fl_ID ` set (ft_files (fv_tables st1))" by (metis image_eqI)
  then show ?thesis
    using assms(2) f(3-)
    by (auto simp: SaveReportHTML_def Storage_Put_def Storage_Get_def File_Create_def Let_def)
qed

end
