(* ===== verification/Csv_Reader.thy ===== *)
theory Csv_Reader
  imports Go_Prelude
begin

text \<open>
  The reader of the Go package \<open>encoding/csv\<close> with its default settings, as the importer of
  \<open>server/data/ingester.go\<close> uses it: comma separated, quotes doubled inside quoted fields, empty
  lines skipped, \<open>CR LF\<close> read as \<open>LF\<close>. The first record fixes the number of fields; a record with
  another number of fields, or with a misplaced quote, is an error.
\<close>

abbreviation dquote :: char where "dquote \<equiv> CHR 0x22"
abbreviation comma :: char where "comma \<equiv> CHR 0x2C"
abbreviation newline :: char where "newline \<equiv> CHR 0x0A"
abbreviation creturn :: char where "creturn \<equiv> CHR 0x0D"

section \<open>Lines\<close>

fun raw_lines :: "string \<Rightarrow> string list" where
  "raw_lines [] = []"
| "raw_lines (c # s) =
     (if c = newline then [newline] # raw_lines s
      else (case raw_lines s of [] \<Rightarrow> [[c]] | l # ls \<Rightarrow> (c # l) # ls))"

text \<open>A carriage return is dropped before the line feed and at the end of the file.\<close>

definition norm_line :: "string \<Rightarrow> string" where
  "norm_line l =
     (if suffix [creturn, newline] l then butlast (butlast l) @ [newline]
      else if suffix [creturn] l then butlast l else l)"

definition read_lines :: "string \<Rightarrow> string list" where
  "read_lines s = map norm_line (raw_lines s)"

definition drop_newline :: "string \<Rightarrow> string" where
  "drop_newline l = (if suffix [newline] l then butlast l else l)"

section \<open>Records\<close>

datatype csv_error = ErrBareQuote | ErrQuote | ErrFieldCount

type_synonym csv_step = "csv_error option \<times> string list \<times> string list"

fun cut_at :: "char \<Rightarrow> string \<Rightarrow> (string \<times> string) option" where
  "cut_at d [] = None"
| "cut_at d (c # s) = (if c = d then Some ([], s) else map_option (map_prod (Cons c) id) (cut_at d s))"

lemma cut_at_Some: "cut_at d s = Some (a, b) \<longleftrightarrow> s = a @ d # b \<and> d \<notin> set a"
proof (induction s arbitrary: a)
  case (Cons c s)
  then show ?case by (cases a) auto
qed simp

lemma cut_at_None: "cut_at d s = None \<longleftrightarrow> d \<notin> set s"
  by (induction s) auto

lemma cut_at_length [dest]: "cut_at d s = Some (a, b) \<Longrightarrow> length b < length s"
  by (auto simp: cut_at_Some)

text \<open>
  \<open>csv_fields\<close> reads the fields of a record from the rest of its line, \<open>csv_quoted\<close> goes on inside a
  quoted field, which may span lines. Both return the error, the fields and the lines left.
\<close>

function csv_fields :: "string \<Rightarrow> string list \<Rightarrow> string list \<Rightarrow> csv_step"
  and csv_quoted :: "string \<Rightarrow> string list \<Rightarrow> string list \<Rightarrow> string \<Rightarrow> csv_step" where
  "csv_fields line rest acc =
     (if line \<noteq> [] \<and> hd line = dquote then csv_quoted (tl line) rest acc []
      else (case cut_at comma line of
              Some (field, line') \<Rightarrow>
                if dquote \<in> set field then (Some ErrBareQuote, acc, rest)
                else csv_fields line' rest (acc @ [field])
            | None \<Rightarrow>
                if dquote \<in> set (drop_newline line) then (Some ErrBareQuote, acc, rest)
                else (None, acc @ [drop_newline line], rest)))"
| "csv_quoted line rest acc buf =
     (case cut_at dquote line of
        Some (before, line') \<Rightarrow>
          if line' \<noteq> [] \<and> hd line' = dquote then csv_quoted (tl line') rest acc (buf @ before @ [dquote])
          else if line' \<noteq> [] \<and> hd line' = comma then csv_fields (tl line') rest (acc @ [buf @ before])
          else if line' = [] \<or> line' = [newline] then (None, acc @ [buf @ before], rest)
          else (Some ErrQuote, acc, rest)
      | None \<Rightarrow>
          if line = [] then (Some ErrQuote, acc, rest)
          else (case rest of
                  [] \<Rightarrow> csv_quoted [] [] acc (buf @ line)
                | l # ls \<Rightarrow> csv_quoted l ls acc (buf @ line)))"
  by pat_completeness auto
termination
  by (relation "measure (\<lambda>x. case x of
        Inl (line, rest, _) \<Rightarrow> 2 * (length line + sum_list (map (Suc \<circ> length) rest)) + 1
      | Inr (line, rest, _) \<Rightarrow> 2 * (length line + sum_list (map (Suc \<circ> length) rest)) + 2)")
     (auto simp: neq_Nil_conv dest!: cut_at_length)

declare csv_fields.simps [simp del] csv_quoted.simps [simp del]

lemma csv_rest_le:
  "csv_fields line rest acc = (e, fs, rest') \<Longrightarrow> length rest' \<le> length rest"
  "csv_quoted line rest acc buf = (e, fs, rest') \<Longrightarrow> length rest' \<le> length rest"
proof (induction line rest acc and line rest acc buf arbitrary: e fs rest' and e fs rest'
    rule: csv_fields_csv_quoted.induct)
  case (1 line rest acc)
  show ?case
    using "1.prems" "1.IH" by (subst (asm) (1) csv_fields.simps) (auto split: if_splits option.splits)
next
  case (2 line rest acc buf)
  show ?case
    using "2.prems" "2.IH" by (subst (asm) (1) csv_quoted.simps) (fastforce split: if_splits option.splits list.splits)
qed

text \<open>One \<open>Read\<close>: empty lines are skipped; \<open>None\<close> is the end of the file.\<close>

definition empty_line :: "string \<Rightarrow> bool" where
  "empty_line l \<longleftrightarrow> l = [] \<or> l = [newline]"

definition csv_read :: "string list \<Rightarrow> csv_step option" where
  "csv_read ls = (case dropWhile empty_line ls of [] \<Rightarrow> None | l # rest \<Rightarrow> Some (csv_fields l rest []))"

lemma csv_read_shrinks: "csv_read ls = Some (e, fs, rest) \<Longrightarrow> length rest < length ls"
  using length_dropWhile_le [of empty_line ls] csv_rest_le(1)
  by (fastforce simp: csv_read_def split: list.splits)

function csv_records :: "string list \<Rightarrow> (csv_error + string list) list" where
  "csv_records ls =
     (case csv_read ls of
        None \<Rightarrow> []
      | Some (e, fs, rest) \<Rightarrow> (case e of None \<Rightarrow> Inr fs | Some err \<Rightarrow> Inl err) # csv_records rest)"
  by pat_completeness auto
termination
  by (relation "measure length") (auto dest: csv_read_shrinks)

declare csv_records.simps [simp del]

text \<open>The results of reading a file to its end, with the number of fields checked.\<close>

definition check_fields :: "nat \<Rightarrow> csv_error + string list \<Rightarrow> csv_error + string list" where
  "check_fields n r = (case r of Inr fs \<Rightarrow> if length fs = n then Inr fs else Inl ErrFieldCount | Inl e \<Rightarrow> Inl e)"

definition csv_file :: "string \<Rightarrow> (csv_error + string list) list" where
  "csv_file s =
     (case csv_records (read_lines s) of
        [] \<Rightarrow> []
      | r # rs \<Rightarrow> (case r of Inr hs \<Rightarrow> r # map (check_fields (length hs)) rs | Inl _ \<Rightarrow> r # rs))"

section \<open>Files with every field quoted\<close>

fun csv_escape :: "string \<Rightarrow> string" where
  "csv_escape [] = []"
| "csv_escape (c # s) = (if c = dquote then [dquote, dquote] else [c]) @ csv_escape s"

definition csv_quote :: "string \<Rightarrow> string" where
  "csv_quote f = dquote # csv_escape f @ [dquote]"

fun csv_line :: "string list \<Rightarrow> string" where
  "csv_line [] = [newline]"
| "csv_line [f] = csv_quote f @ [newline]"
| "csv_line (f # fs) = csv_quote f @ comma # csv_line fs"

definition csv_text :: "string list list \<Rightarrow> string" where
  "csv_text rs = concat (map csv_line rs)"

lemma raw_lines_nonempty [simp]: "raw_lines s = [] \<longleftrightarrow> s = []"
  by (induction s) (auto split: list.splits)

lemma raw_lines_step:
  "raw_lines (newline # s) = [newline] # raw_lines s"
  "c \<noteq> newline \<Longrightarrow> s \<noteq> [] \<Longrightarrow> raw_lines (c # s) = (c # hd (raw_lines s)) # tl (raw_lines s)"
  by (auto split: list.splits)

declare raw_lines.simps(2) [simp del]

lemma read_lines_plain: "creturn \<notin> set s \<Longrightarrow> read_lines s = raw_lines s"
proof (induction s)
  case (Cons c s)
  then have "\<forall>l \<in> set (raw_lines (c # s)). creturn \<notin> set l"
  proof -
    have "concat (raw_lines t) = t" for t
      by (induction t) (auto simp: raw_lines.simps(2) split: list.splits)
    then have "set (c # s) = (\<Union>l \<in> set (raw_lines (c # s)). set l)" by (metis set_concat)
    with Cons.prems show ?thesis by blast
  qed
  then show ?case
    by (fastforce simp: read_lines_def norm_line_def suffix_def intro!: map_idI)
qed (simp add: read_lines_def)

text \<open>Inside a quoted field the reader takes the next character over, across the end of a line.\<close>

lemma quoted_char:
  assumes "c \<noteq> dquote" "s \<noteq> []"
  shows "csv_quoted (hd (raw_lines (c # s))) (tl (raw_lines (c # s))) acc buf
    = csv_quoted (hd (raw_lines s)) (tl (raw_lines s)) acc (buf @ [c])"
proof (cases "c = newline")
  case True
  then show ?thesis
    using assms by (subst csv_quoted.simps) (auto simp: raw_lines_step split: list.splits)
next
  case False
  let ?l = "hd (raw_lines s)" and ?r = "tl (raw_lines s)"
  have l: "?l \<noteq> []"
    using assms(2) by (cases s) (auto simp: raw_lines.simps(2) split: list.splits)
  have "csv_quoted (c # ?l) ?r acc buf = csv_quoted ?l ?r acc (buf @ [c])"
    using l assms(1)
    by (subst (1 2) csv_quoted.simps) (auto split: option.splits list.splits)
  then show ?thesis using False assms(2) by (simp add: raw_lines_step)
qed

lemma quoted_escape:
  "csv_quoted (hd (raw_lines (csv_escape f @ dquote # u))) (tl (raw_lines (csv_escape f @ dquote # u))) acc buf
    = csv_quoted (hd (raw_lines (dquote # u))) (tl (raw_lines (dquote # u))) acc (buf @ f)"
proof (induction f arbitrary: buf)
  case (Cons c f)
  let ?s = "csv_escape f @ dquote # u"
  show ?case
  proof (cases "c = dquote")
    case False
    then show ?thesis using Cons.IH quoted_char [of c ?s acc buf] by simp
  next
    case True
    have "csv_quoted (dquote # dquote # hd (raw_lines ?s)) (tl (raw_lines ?s)) acc buf
        = csv_quoted (hd (raw_lines ?s)) (tl (raw_lines ?s)) acc (buf @ [dquote])"
      by (subst csv_quoted.simps) simp
    then show ?thesis using Cons.IH True by (simp add: raw_lines_step)
  qed
qed simp

lemma fields_line:
  "fs \<noteq> [] \<Longrightarrow> csv_fields (hd (raw_lines (csv_line fs @ v))) (tl (raw_lines (csv_line fs @ v))) acc
     = (None, acc @ fs, raw_lines v)"
proof (induction fs arbitrary: acc rule: csv_line.induct)
  case (2 f)
  let ?s = "csv_escape f @ dquote # newline # v"
  have "csv_fields (hd (raw_lines (dquote # ?s))) (tl (raw_lines (dquote # ?s))) acc
      = csv_quoted (hd (raw_lines ?s)) (tl (raw_lines ?s)) acc []"
    by (subst csv_fields.simps) (simp add: raw_lines_step)
  also have "\<dots> = csv_quoted [dquote, newline] (raw_lines v) acc f"
    by (simp only: quoted_escape) (simp add: raw_lines_step)
  also have "\<dots> = (None, acc @ [f], raw_lines v)"
    by (subst csv_quoted.simps) simp
  finally show ?case by (simp add: csv_quote_def)
next
  case (3 f g fs)
  let ?v = "csv_line (g # fs) @ v"
  have v: "?v \<noteq> []" by (cases fs) (simp_all add: csv_quote_def)
  let ?s = "csv_escape f @ dquote # comma # ?v"
  have "csv_fields (hd (raw_lines (dquote # ?s))) (tl (raw_lines (dquote # ?s))) acc
      = csv_quoted (hd (raw_lines ?s)) (tl (raw_lines ?s)) acc []"
    by (subst csv_fields.simps) (simp add: raw_lines_step)
  also have "\<dots> = csv_quoted (dquote # comma # hd (raw_lines ?v)) (tl (raw_lines ?v)) acc f"
    using v by (simp only: quoted_escape) (simp add: raw_lines_step)
  also have "\<dots> = csv_fields (hd (raw_lines ?v)) (tl (raw_lines ?v)) (acc @ [f])"
    by (subst csv_quoted.simps) simp
  also have "\<dots> = (None, acc @ f # g # fs, raw_lines v)" using "3.IH" [of "acc @ [f]"] by simp
  finally show ?case by (simp add: csv_quote_def)
qed simp

lemma csv_line_head: "fs \<noteq> [] \<Longrightarrow> \<exists>t. csv_line fs = dquote # t"
  by (cases fs rule: csv_line.cases) (auto simp: csv_quote_def)

lemma csv_text_records: "[] \<notin> set rs \<Longrightarrow> csv_records (raw_lines (csv_text rs)) = map Inr rs"
proof (induction rs)
  case Nil
  show ?case by (subst csv_records.simps) (simp add: csv_text_def csv_read_def)
next
  case (Cons fs rs)
  obtain t where t: "csv_line fs = dquote # t" using csv_line_head Cons.prems by force
  let ?L = "raw_lines (csv_line fs @ csv_text rs)"
  have L: "?L = hd ?L # tl ?L" "\<not> empty_line (hd ?L)"
    by (auto simp: t empty_line_def raw_lines.simps(2) split: list.splits)
  have "csv_read ?L = Some (csv_fields (hd ?L) (tl ?L) [])"
    unfolding csv_read_def by (subst L(1)) (simp add: L(2))
  then have "csv_read ?L = Some (None, fs, raw_lines (csv_text rs))"
    using Cons.prems fields_line [of fs "csv_text rs" "[]"] by (metis append_Nil list.set_intros(1))
  then show ?case
    using Cons by (subst csv_records.simps) (simp add: csv_text_def)
qed

text \<open>A quoted file without carriage returns is read back as it was written.\<close>

lemma csv_roundtrip:
  assumes "creturn \<notin> set (csv_text (hs # rs))" "hs \<noteq> []" "\<forall>r \<in> set rs. length r = length hs"
  shows "csv_file (csv_text (hs # rs)) = Inr hs # map Inr rs"
proof -
  have "[] \<notin> set (hs # rs)" using assms(2,3) by auto
  moreover have "map (check_fields (length hs)) (map Inr rs) = map Inr rs"
    using assms(3) by (simp add: check_fields_def)
  ultimately show ?thesis
    by (simp add: csv_file_def read_lines_plain [OF assms(1)] csv_text_records del: map_map)
qed

lemma no_creturn_text:
  "(\<forall>fs \<in> set rs. \<forall>f \<in> set fs. creturn \<notin> set f) \<Longrightarrow> creturn \<notin> set (csv_text rs)"
proof -
  have e: "creturn \<notin> set f \<Longrightarrow> creturn \<notin> set (csv_escape f)" for f by (induction f) auto
  have "(\<forall>f \<in> set fs. creturn \<notin> set f) \<Longrightarrow> creturn \<notin> set (csv_line fs)" for fs
    by (induction fs rule: csv_line.induct) (auto simp: csv_quote_def e)
  then show "(\<forall>fs \<in> set rs. \<forall>f \<in> set fs. creturn \<notin> set f) \<Longrightarrow> ?thesis"
    by (auto simp: csv_text_def)
qed

end
