(* ===== verification/Ingestion.thy ===== *)
theory Ingestion
  imports File_Service Csv_Reader
begin

text \<open>
  Importing a file into the analysis database of a session (\<open>server/data/ingester.go\<close>): the names and
  types of the columns, the table that is created, the batches of inserted rows, for CSV and Excel
  files. A table of the database holds the values bound to the insert statements. The conversion of
  text to float64 (\<open>strconv.ParseFloat\<close>), the Excel package and the acceptance of a row by the
  database are parameters.
\<close>

section \<open>Values and types\<close>

datatype ColumnType = TypeText | TypeInteger | TypeReal

definition SQLType :: "ColumnType \<Rightarrow> string" where
  "SQLType t = (case t of TypeInteger \<Rightarrow> ''INTEGER'' | TypeReal \<Rightarrow> ''REAL'' | TypeText \<Rightarrow> ''TEXT'')"

datatype 'f cell = CellNull | CellInt int | CellReal 'f | CellText string

definition blank_value :: "string \<Rightarrow> bool" where
  "blank_value v \<longleftrightarrow> v \<in> {'''', ''-'', ''N/A'', ''null'', ''NULL''}"

definition infer_cell ::
  "(string \<Rightarrow> 'f option) \<Rightarrow> string \<Rightarrow> ColumnType \<times> bool \<Rightarrow> ColumnType \<times> bool" where
  "infer_cell pf raw st =
     (let val = trim_space raw
      in if blank_value val then st
         else ((case fst st of
                  TypeInteger \<Rightarrow>
                    if parse_int64 val \<noteq> None then TypeInteger
                    else if pf val \<noteq> None then TypeReal else TypeText
                | TypeReal \<Rightarrow> if pf val \<noteq> None then TypeReal else TypeText
                | TypeText \<Rightarrow> TypeText), True))"

fun infer_row ::
  "(string \<Rightarrow> 'f option) \<Rightarrow> string list \<Rightarrow> (ColumnType \<times> bool) list \<Rightarrow> (ColumnType \<times> bool) list" where
  "infer_row pf (c # cs) (st # sts) = infer_cell pf c st # infer_row pf cs sts"
| "infer_row pf cs sts = sts"

definition inferColumnTypes :: "(string \<Rightarrow> 'f option) \<Rightarrow> string list list \<Rightarrow> nat \<Rightarrow> ColumnType list" where
  "inferColumnTypes pf rows colCount =
     map (\<lambda>(t, seen). if seen then t else TypeText)
       (fold (infer_row pf) (take 100 rows) (replicate colCount (TypeInteger, False)))"

definition bind_cell :: "(string \<Rightarrow> 'f option) \<Rightarrow> ColumnType \<Rightarrow> string \<Rightarrow> 'f cell" where
  "bind_cell pf t raw =
     (let val = trim_space raw
      in if val = [] then CellNull
         else (case t of
                 TypeInteger \<Rightarrow> (case parse_int64 val of Some v \<Rightarrow> CellInt v | None \<Rightarrow> CellText val)
               | TypeReal \<Rightarrow> (case pf val of Some v \<Rightarrow> CellReal v | None \<Rightarrow> CellText val)
               | TypeText \<Rightarrow> CellText val))"

definition bind_row :: "(string \<Rightarrow> 'f option) \<Rightarrow> string list \<Rightarrow> ColumnType list \<Rightarrow> string list \<Rightarrow> 'f cell list" where
  "bind_row pf columns types row =
     map (\<lambda>i. if i \<ge> length row then CellNull
              else bind_cell pf (if i < length types then types ! i else TypeText) (row ! i))
       [0..<length columns]"

section \<open>The analysis database\<close>

text \<open>
  The rows of the metadata table \<open>_oda_table_metadata\<close>, which is created on first use; the indexes
  are listed with their names, tables and columns.
\<close>

record 'f db_table =
  tb_Columns :: "(string \<times> string) list"
  tb_Rows :: "'f cell list list"

record meta_row =
  mr_Schema :: "string option"
  mr_Semantic :: "string option"
  mr_Relations :: "string option"
  mr_SchemaReady :: bool
  mr_SemanticReady :: bool
  mr_RelationsVerified :: bool

record 'f ing_db =
  db_Tables :: "string \<rightharpoonup> 'f db_table"
  db_Meta :: "(string \<times> meta_row) list option"
  db_Indexes :: "(string \<times> string \<times> string) list"

definition drop_table :: "string \<Rightarrow> 'f ing_db \<Rightarrow> 'f ing_db" where
  "drop_table name db =
     db\<lparr>db_Tables := (db_Tables db)(name := None),
        db_Indexes := filter (\<lambda>(_, t, _). t \<noteq> name) (db_Indexes db)\<rparr>"

text \<open>SQLite refuses a table without columns, with two equal column names, with more than 2000
  columns, or with a reserved name.\<close>

definition create_table :: "string \<Rightarrow> (string \<times> string) list \<Rightarrow> 'f ing_db \<Rightarrow> string option \<times> 'f ing_db" where
  "create_table name defs db =
     (if defs = [] then (Some ''syntax error'', db)
      else if prefix ''sqlite_'' name then (Some (''object name reserved for internal use: '' @ name), db)
      else if length defs > 2000 then (Some (''too many columns on '' @ name), db)
      else if \<not> distinct (map fst defs) then (Some ''duplicate column name'', db)
      else if db_Tables db name \<noteq> None then (Some (''table '' @ name @ '' already exists''), db)
      else (None, db\<lparr>db_Tables := (db_Tables db)(name \<mapsto> \<lparr>tb_Columns = defs, tb_Rows = []\<rparr>)\<rparr>))"

definition first_error :: "('a \<Rightarrow> string option) \<Rightarrow> 'a list \<Rightarrow> string option" where
  "first_error f xs = (case find (\<lambda>x. f x \<noteq> None) xs of Some x \<Rightarrow> f x | None \<Rightarrow> None)"

definition valid_idents :: "string \<Rightarrow> string list \<Rightarrow> string option" where
  "valid_idents tableName columns =
     (case ValidateSQLIdent tableName of
        Some e \<Rightarrow> Some (''invalid table name: '' @ e)
      | None \<Rightarrow> map_option (\<lambda>e. ''invalid column name: '' @ e) (first_error ValidateSQLIdent columns))"

definition createTableTyped ::
  "string \<Rightarrow> string list \<Rightarrow> ColumnType list \<Rightarrow> 'f ing_db \<Rightarrow> string option \<times> 'f ing_db" where
  "createTableTyped tableName columns types db =
     (case valid_idents tableName columns of
        Some e \<Rightarrow> (Some e, db)
      | None \<Rightarrow>
          let defs = map (\<lambda>i. (columns ! i, if i < length types then SQLType (types ! i) else ''TEXT'')) [0..<length columns]
          in case create_table tableName defs (drop_table tableName db) of
               (Some e, db1) \<Rightarrow> (Some (''failed to create table: '' @ e), db1)
             | (None, db1) \<Rightarrow> (None, db1))"

text \<open>The row that an insert naming \<open>columns\<close> stores; columns it does not name are NULL.\<close>

definition stored_row :: "(string \<times> string) list \<Rightarrow> string list \<Rightarrow> 'f cell list \<Rightarrow> 'f cell list" where
  "stored_row defs columns vals =
     map (\<lambda>(c, _). case map_of (zip columns vals) c of Some v \<Rightarrow> v | None \<Rightarrow> CellNull) defs"

definition has_columns :: "string list \<Rightarrow> 'f db_table \<Rightarrow> bool" where
  "has_columns columns t \<longleftrightarrow> set columns \<subseteq> fst ` set (tb_Columns t)"

lemma has_columns_rows [simp]: "has_columns cols (tb\<lparr>tb_Rows := rows\<rparr>) = has_columns cols tb"
  by (simp add: has_columns_def)

record 'f ing_deps =
  in_float :: "string \<Rightarrow> 'f option"
  in_exec :: "'f cell list \<Rightarrow> string option"
  in_files :: file_system
  in_excel :: "string \<Rightarrow> string list option list result"

definition insertBatchTyped ::
  "'f ing_deps \<Rightarrow> string \<Rightarrow> string list \<Rightarrow> ColumnType list \<Rightarrow> string list list \<Rightarrow> 'f ing_db \<Rightarrow> string option \<times> 'f ing_db" where
  "insertBatchTyped d tableName columns types rows db =
     (if rows = [] then (None, db)
      else (case valid_idents tableName columns of
              Some e \<Rightarrow> (Some e, db)
            | None \<Rightarrow>
                (case db_Tables db tableName of
                   None \<Rightarrow> (Some (''no such table: '' @ tableName), db)
                 | Some t \<Rightarrow>
                     if \<not> has_columns columns t then (Some ''no such column'', db)
                     else
                       let vals = map (bind_row (in_float d) columns types) rows
                       in case first_error (in_exec d) vals of
                            Some e \<Rightarrow> (Some e, db)
                          | None \<Rightarrow>
                              (None, db\<lparr>db_Tables := (db_Tables db)(tableName \<mapsto>
                                 t\<lparr>tb_Rows := tb_Rows t @ map (stored_row (tb_Columns t) columns) vals\<rparr>)\<rparr>))))"

section \<open>Import\<close>

fun dedupe_headers :: "string list \<Rightarrow> (string \<Rightarrow> nat) \<Rightarrow> string list" where
  "dedupe_headers [] seen = []"
| "dedupe_headers (h # hs) seen =
     (let base = sanitizeColumnName h;
          finalName = (if seen base > 0 then base @ ''_'' @ itoa (int (seen base)) else base)
      in finalName # dedupe_headers hs (seen(base := seen base + 1)))"

definition sanitizedHeaders :: "string list \<Rightarrow> string list" where
  "sanitizedHeaders headers = dedupe_headers headers (\<lambda>_. 0)"

fun oks :: "('e + 'a) list \<Rightarrow> 'a list" where
  "oks [] = []"
| "oks (Inr x # rs) = x # oks rs"
| "oks (Inl e # rs) = oks rs"

text \<open>
  The loop over the rows behind the sample: rows that could not be read are skipped, a batch is
  written when it has \<open>batchSize\<close> rows and at the end. \<open>over\<close> is the limit on the number of rows.
\<close>

definition batchSize :: nat where "batchSize = 5000"

fun import_loop ::
  "(nat \<Rightarrow> string option) \<Rightarrow> (string list list \<Rightarrow> 'd \<Rightarrow> string option \<times> 'd) \<Rightarrow> ('e + string list) list \<Rightarrow> string list list \<Rightarrow> nat
     \<Rightarrow> 'd \<Rightarrow> nat result \<times> 'd" where
  "import_loop over ins [] batch rowCount db =
     (if batch = [] then (Inr rowCount, db)
      else (case ins batch db of
              (Some e, db1) \<Rightarrow> (Inl e, db1)
            | (None, db1) \<Rightarrow> (Inr (rowCount + length batch), db1)))"
| "import_loop over ins (r # rs) batch rowCount db =
     (case over (rowCount + length batch) of
        Some e \<Rightarrow> (Inl e, db)
      | None \<Rightarrow>
          (case r of
             Inl _ \<Rightarrow> import_loop over ins rs batch rowCount db
           | Inr row \<Rightarrow>
               let b = batch @ [row]
               in if length b \<ge> batchSize
                  then (case ins b db of
                          (Some e, db1) \<Rightarrow> (Inl e, db1)
                        | (None, db1) \<Rightarrow> import_loop over ins rs [] (rowCount + length b) db1)
                  else import_loop over ins rs b rowCount db))"

text \<open>What both importers do once the sample is read; a failure drops the new table.\<close>

definition import_rows ::
  "(nat \<Rightarrow> string option) \<Rightarrow> 'f ing_deps \<Rightarrow> string \<Rightarrow> string list \<Rightarrow> string list list \<Rightarrow> ('e + string list) list \<Rightarrow>
     'f ing_db \<Rightarrow> (nat \<times> nat) result \<times> 'f ing_db" where
  "import_rows over d tableName headers sampleRows rest db =
     (let cols = sanitizedHeaders headers;
          colTypes = inferColumnTypes (in_float d) sampleRows (length headers)
      in case createTableTyped tableName cols colTypes db of
           (Some e, db1) \<Rightarrow> (Inl e, db1)
         | (None, db1) \<Rightarrow>
             (case insertBatchTyped d tableName cols colTypes sampleRows db1 of
                (Some e, db2) \<Rightarrow> (Inl e, drop_table tableName db2)
              | (None, db2) \<Rightarrow>
                  (case import_loop over (insertBatchTyped d tableName cols colTypes) rest [] (length sampleRows) db2 of
                     (Inl e, db3) \<Rightarrow> (Inl e, drop_table tableName db3)
                   | (Inr n, db3) \<Rightarrow> (Inr (n, length headers), db3))))"

definition importCSV ::
  "'f ing_deps \<Rightarrow> string \<Rightarrow> string \<Rightarrow> 'f ing_db \<Rightarrow> (nat \<times> nat) result \<times> 'f ing_db" where
  "importCSV d filePath tableName db =
     (case in_files d filePath of
        None \<Rightarrow> (Inl (''failed to open CSV file: '' @ filePath), db)
      | Some bytes \<Rightarrow>
          (case csv_file bytes of
             [] \<Rightarrow> (Inl ''failed to read CSV headers: EOF'', db)
           | Inl _ # _ \<Rightarrow> (Inl ''failed to read CSV headers: parse error'', db)
           | Inr headers # recs \<Rightarrow>
               import_rows (\<lambda>_. None) d tableName headers (oks (take 500 recs)) (drop 500 recs) db))"

definition maxExcelRows :: nat where "maxExcelRows = 100000"

definition excel_over :: "nat \<Rightarrow> string option" where
  "excel_over n =
     (if n \<ge> maxExcelRows
      then Some (''Excel row count exceeds '' @ itoa (int maxExcelRows)
                 @ '' limit; for large datasets, convert to CSV before uploading'') else None)"

definition pad_row :: "nat \<Rightarrow> string list \<Rightarrow> string list" where
  "pad_row n row = take n row @ replicate (n - length row) []"

definition excel_row :: "nat \<Rightarrow> string list option \<Rightarrow> unit + string list" where
  "excel_row n r = (case r of None \<Rightarrow> Inl () | Some row \<Rightarrow> Inr (pad_row n row))"

definition importExcel ::
  "'f ing_deps \<Rightarrow> string \<Rightarrow> string \<Rightarrow> 'f ing_db \<Rightarrow> (nat \<times> nat) result \<times> 'f ing_db" where
  "importExcel d filePath tableName db =
     (case in_excel d filePath of
        Inl e \<Rightarrow> (Inl (''failed to open Excel file: '' @ e), db)
      | Inr [] \<Rightarrow> (Inl ''Excel file is empty'', db)
      | Inr (None # _) \<Rightarrow> (Inl ''failed to read Excel headers'', db)
      | Inr (Some headers # rows) \<Rightarrow>
          if headers = [] then (Inl ''Excel file has no headers'', db)
          else
            let recs = map (excel_row (length headers)) rows;
                sampleRows = oks (take 500 recs)
            in if sampleRows = [] then (Inl ''Excel data area is empty'', db)
               else import_rows excel_over d tableName headers sampleRows (drop 500 recs) db)"

section \<open>Batches\<close>

text \<open>
  Somewhere to put rows, batch by batch: a batch is added as a whole or not at all, and two batches
  in a row are as good as one.
\<close>

locale batch_sink =
  fixes put :: "string list list \<Rightarrow> 'd \<Rightarrow> string option \<times> 'd"
  assumes put_none: "put [] db = (None, db)"
    and put_error: "put a db = (Some e, db') \<Longrightarrow> db' = db"
    and put_append: "put a db = (None, db1) \<Longrightarrow> put (a @ b) db = put b db1 \<or> (\<exists>e. put (a @ b) db = (Some e, db) \<and> put b db1 = (Some e, db1))"
    and put_split: "put (a @ b) db = (None, db2) \<Longrightarrow> \<exists>db1. put a db = (None, db1)"
begin

lemma put_both: "put a db = (None, db1) \<Longrightarrow> put b db1 = (None, db2) \<Longrightarrow> put (a @ b) db = (None, db2)"
  using put_append [of a db db1 b] by auto

lemma put_rest: "put (a @ b) db = (None, db2) \<Longrightarrow> put a db = (None, db1) \<Longrightarrow> put b db1 = (None, db2)"
  using put_append [of a db db1 b] by auto

lemma loop_ok:
  "import_loop over put recs batch n db = (Inr m, db') \<Longrightarrow>
     put (batch @ oks recs) db = (None, db') \<and> m = n + length batch + length (oks recs)"
proof (induction recs arbitrary: batch n db)
  case Nil
  then show ?case by (auto simp: put_none split: if_splits option.splits prod.splits)
next
  case (Cons r recs)
  show ?case
  proof (cases r)
    case (Inl e)
    then show ?thesis using Cons by (auto split: option.splits)
  next
    case (Inr row)
    consider (full) db1 where "put (batch @ [row]) db = (None, db1)"
        "import_loop over put recs [] (n + length (batch @ [row])) db1 = (Inr m, db')"
      | (small) "import_loop over put recs (batch @ [row]) n db = (Inr m, db')"
      using Cons.prems Inr by (auto simp: Let_def split: option.splits if_splits prod.splits)
    then show ?thesis
    proof cases
      case full
      with Cons.IH [OF full(2)] Inr show ?thesis using put_both [OF full(1)] by auto
    next
      case small
      with Cons.IH [OF small] Inr show ?thesis by auto
    qed
  qed
qed

lemma loop_error:
  "import_loop over put recs batch n db = (Inl e, db') \<Longrightarrow> \<exists>a. put a db = (None, db')"
proof (induction recs arbitrary: batch n db)
  case Nil
  then show ?case
    by (auto split: if_splits option.splits prod.splits dest!: put_error intro!: exI [of _ "[]"] put_none)
next
  case (Cons r recs)
  show ?case
  proof (cases "over (n + length batch)")
    case (Some x)
    then show ?thesis using Cons.prems put_none [of db] by auto
  next
    case none: None
    show ?thesis
    proof (cases r)
      case (Inl e)
      then show ?thesis using Cons none by auto
    next
      case (Inr row)
      consider (full) db1 where "put (batch @ [row]) db = (None, db1)"
          "import_loop over put recs [] (n + length (batch @ [row])) db1 = (Inl e, db')"
        | (failed) "put (batch @ [row]) db = (Some e, db')"
        | (small) "import_loop over put recs (batch @ [row]) n db = (Inl e, db')"
        using Cons.prems Inr none by (auto simp: Let_def split: option.splits if_splits prod.splits)
      then show ?thesis
      proof cases
        case full
        with Cons.IH [OF full(2)] show ?thesis using put_both [OF full(1)] by blast
      next
        case failed
        then show ?thesis using put_error put_none by blast
      next
        case small
        then show ?thesis using Cons.IH by blast
      qed
    qed
  qed
qed

lemma loop_complete:
  assumes "put (batch @ oks recs) db = (None, db')" "\<forall>k. over k = None"
  shows "import_loop over put recs batch n db = (Inr (n + length batch + length (oks recs)), db')"
  using assms(1)
proof (induction recs arbitrary: batch n db)
  case Nil
  then show ?case using put_none [of db] by auto
next
  case (Cons r recs)
  show ?case
  proof (cases r)
    case (Inl e)
    then show ?thesis using Cons assms(2) by auto
  next
    case (Inr row)
    have all: "put ((batch @ [row]) @ oks recs) db = (None, db')" using Cons.prems Inr by simp
    then obtain db1 where db1: "put (batch @ [row]) db = (None, db1)" using put_split by blast
    have "put ([] @ oks recs) db1 = (None, db')" using put_rest [OF all db1] by simp
    from Cons.IH [OF this, of "n + length (batch @ [row])"] Cons.IH [OF all, of n] db1 Inr assms(2)
    show ?thesis by (auto simp: Let_def)
  qed
qed

end

lemma first_error_append:
  "first_error f (xs @ ys) = (case first_error f xs of None \<Rightarrow> first_error f ys | Some e \<Rightarrow> Some e)"
  by (induction xs) (auto simp: first_error_def split: option.splits)

lemma first_error_None: "first_error f xs = None \<longleftrightarrow> (\<forall>x \<in> set xs. f x = None)"
  by (induction xs) (auto simp: first_error_def)

lemma insert_ok:
  assumes "insertBatchTyped d t cols types rows db = (None, db')" "rows \<noteq> []"
  obtains tb where "db_Tables db t = Some tb" "valid_idents t cols = None" "has_columns cols tb"
    "first_error (in_exec d) (map (bind_row (in_float d) cols types) rows) = None"
    "db' = db\<lparr>db_Tables := (db_Tables db)(t \<mapsto> tb\<lparr>tb_Rows := tb_Rows tb
             @ map (stored_row (tb_Columns tb) cols \<circ> bind_row (in_float d) cols types) rows\<rparr>)\<rparr>"
  using assms by (auto simp: insertBatchTyped_def Let_def split: option.splits if_splits)

lemma insert_error: "insertBatchTyped d t cols types rows db = (Some e, db') \<Longrightarrow> db' = db"
  by (auto simp: insertBatchTyped_def Let_def split: option.splits if_splits)

interpretation typed_rows: batch_sink "insertBatchTyped d tableName cols types" for d tableName cols types
proof
  fix a b :: "string list list" and db db1 db2 db' :: "'a ing_db" and e
  let ?ins = "insertBatchTyped d tableName cols types"
  show "?ins [] db = (None, db)" by (simp add: insertBatchTyped_def)
  show "?ins a db = (Some e, db') \<Longrightarrow> db' = db" by (rule insert_error)
  show "?ins a db = (None, db1) \<Longrightarrow>
      ?ins (a @ b) db = ?ins b db1 \<or> (\<exists>e. ?ins (a @ b) db = (Some e, db) \<and> ?ins b db1 = (Some e, db1))"
    by (cases "a = []"; cases "b = []")
      (auto simp: insertBatchTyped_def Let_def first_error_append split: option.splits if_splits)
  show "?ins (a @ b) db = (None, db2) \<Longrightarrow> \<exists>db1. ?ins a db = (None, db1)"
    by (cases "a = []")
      (auto simp: insertBatchTyped_def Let_def first_error_append split: option.splits if_splits)
qed

section \<open>Inference of types\<close>

lemma length_infer_row [simp]: "length (infer_row pf row sts) = length sts"
  by (induction pf row sts rule: infer_row.induct) simp_all

lemma nth_infer_row:
  "i < length sts \<Longrightarrow> infer_row pf row sts ! i = (if i < length row then infer_cell pf (row ! i) (sts ! i) else sts ! i)"
  by (induction pf row sts arbitrary: i rule: infer_row.induct) (auto simp: nth_Cons split: nat.splits)

lemma length_infer_rows [simp]: "length (fold (infer_row pf) rows sts) = length sts"
  by (induction rows arbitrary: sts) simp_all

lemma length_inferColumnTypes [simp]: "length (inferColumnTypes pf rows n) = n"
  by (simp add: inferColumnTypes_def)

text \<open>The values of a column that count, and the type they call for.\<close>

definition column_values :: "string list list \<Rightarrow> nat \<Rightarrow> string list" where
  "column_values rows i =
     filter (\<lambda>v. \<not> blank_value v) (map (\<lambda>row. trim_space (row ! i)) (filter (\<lambda>row. i < length row) rows))"

definition type_of_values :: "(string \<Rightarrow> 'f option) \<Rightarrow> string list \<Rightarrow> ColumnType" where
  "type_of_values pf vals =
     (if vals = [] then TypeText
      else if list_all (\<lambda>v. parse_int64 v \<noteq> None) vals then TypeInteger
      else if list_all (\<lambda>v. pf v \<noteq> None) vals then TypeReal
      else TypeText)"

definition type_state :: "(string \<Rightarrow> 'f option) \<Rightarrow> string list \<Rightarrow> ColumnType \<times> bool" where
  "type_state pf vals = (if vals = [] then TypeInteger else type_of_values pf vals, vals \<noteq> [])"

lemma infer_cell_state:
  assumes "\<forall>v. parse_int64 v \<noteq> None \<longrightarrow> pf v \<noteq> None"
  shows "infer_cell pf raw (type_state pf vals)
    = type_state pf (vals @ (if blank_value (trim_space raw) then [] else [trim_space raw]))"
proof -
  have "list_all (\<lambda>v. parse_int64 v \<noteq> None) vals \<Longrightarrow> list_all (\<lambda>v. pf v \<noteq> None) vals"
    using assms by (auto simp: list_all_iff)
  moreover have "parse_int64 (trim_space raw) \<noteq> None \<Longrightarrow> pf (trim_space raw) \<noteq> None" using assms by blast
  ultimately show ?thesis
    by (cases "vals = []") (auto simp: infer_cell_def type_state_def type_of_values_def Let_def simp del: not_None_eq)
qed

lemma infer_rows_state:
  assumes "\<forall>v. parse_int64 v \<noteq> None \<longrightarrow> pf v \<noteq> None" "i < length sts" "sts ! i = type_state pf vals"
  shows "fold (infer_row pf) rows sts ! i = type_state pf (vals @ column_values rows i)"
  using assms(2,3)
proof (induction rows arbitrary: sts vals)
  case (Cons row rows)
  show ?case
  proof (cases "i < length row")
    case True
    then have "infer_row pf row sts ! i
        = type_state pf (vals @ (if blank_value (trim_space (row ! i)) then [] else [trim_space (row ! i)]))"
      using infer_cell_state [OF assms(1)] Cons.prems by (simp add: nth_infer_row)
    from Cons.IH [OF _ this] Cons.prems(1) True show ?thesis by (simp add: column_values_def)
  next
    case False
    then have "infer_row pf row sts ! i = type_state pf vals" using Cons.prems by (simp add: nth_infer_row)
    from Cons.IH [OF _ this] Cons.prems(1) False show ?thesis by (simp add: column_values_def)
  qed
qed (simp add: column_values_def)

text \<open>
  The type of a column is decided by the values of the first hundred rows alone, whatever their
  order: integer if all of them are integers, else real if all are numbers, else text.
\<close>

theorem column_types_by_values:
  assumes "\<forall>v. parse_int64 v \<noteq> None \<longrightarrow> pf v \<noteq> None"
  shows "inferColumnTypes pf rows n = map (\<lambda>i. type_of_values pf (column_values (take 100 rows) i)) [0..<n]"
proof (rule nth_equalityI)
  fix i assume "i < length (inferColumnTypes pf rows n)"
  then have i: "i < n" by simp
  have "fold (infer_row pf) (take 100 rows) (replicate n (TypeInteger, False)) ! i
      = type_state pf ([] @ column_values (take 100 rows) i)"
    using i by (intro infer_rows_state [OF assms]) (simp_all add: type_state_def)
  with i show "inferColumnTypes pf rows n ! i = map (\<lambda>i. type_of_values pf (column_values (take 100 rows) i)) [0..<n] ! i"
    by (simp add: inferColumnTypes_def type_state_def type_of_values_def)
qed simp

definition sample_rows :: "string list list" where
  "sample_rows = [[''1'', ''2.5'', ''x'', []], ['' -7 '', ''3'', ''4'', ''N/A'']]"

definition sample_float :: "string \<Rightarrow> string option" where
  "sample_float v =
     (if parse_int64 v \<noteq> None then Some v
      else case cut_at (CHR 0x2E) v of
             Some (a, b) \<Rightarrow> if list_all is_digit (a @ b) \<and> a @ b \<noteq> [] then Some v else None
           | None \<Rightarrow> None)"

theorem column_types_by_values_witness:
  "inferColumnTypes sample_float sample_rows 4 = [TypeInteger, TypeReal, TypeText, TypeText]
   \<and> map (\<lambda>i. type_of_values sample_float (column_values (take 100 sample_rows) i)) [0..<4]
      = [TypeInteger, TypeReal, TypeText, TypeText]"
proof -
  have "inferColumnTypes sample_float sample_rows 4
      = map (\<lambda>i. type_of_values sample_float (column_values (take 100 sample_rows) i)) [0..<4]"
    by (rule column_types_by_values) (simp add: sample_float_def)
  moreover have "inferColumnTypes sample_float sample_rows 4 = [TypeInteger, TypeReal, TypeText, TypeText]"
    by code_simp
  ultimately show ?thesis by simp
qed

section \<open>The imported table\<close>

lemma stored_row_names:
  assumes "distinct cols" "length vals = length cols" "length ts = length cols"
  shows "stored_row (zip cols ts) cols vals = vals"
proof (rule nth_equalityI)
  fix i assume "i < length (stored_row (zip cols ts) cols vals)"
  then have i: "i < length cols" using assms by (simp add: stored_row_def)
  then show "stored_row (zip cols ts) cols vals ! i = vals ! i"
    using assms by (simp add: stored_row_def map_of_zip_nth)
qed (use assms in \<open>simp add: stored_row_def\<close>)

lemma length_bind_row [simp]: "length (bind_row pf cols types row) = length cols"
  by (simp add: bind_row_def)

lemma create_ok:
  assumes "createTableTyped t cols types db = (None, db')" "length types = length cols"
  shows "db' = (drop_table t db)\<lparr>db_Tables := (db_Tables db)(t \<mapsto>
            \<lparr>tb_Columns = zip cols (map SQLType types), tb_Rows = []\<rparr>)\<rparr>
    \<and> distinct cols \<and> cols \<noteq> [] \<and> valid_idents t cols = None"
proof -
  have "map (\<lambda>i. (cols ! i, if i < length types then SQLType (types ! i) else ''TEXT'')) [0..<length cols]
      = zip cols (map SQLType types)"
    using assms(2) by (intro nth_equalityI) simp_all
  moreover have "map fst (zip cols (map SQLType types)) = cols" using assms(2) by simp
  ultimately show ?thesis
    using assms
    by (auto simp: createTableTyped_def create_table_def drop_table_def Let_def split: option.splits if_splits prod.splits)
qed

lemma create_error:
  "createTableTyped t cols types db = (Some e, db') \<Longrightarrow> db' = db \<or> db' = drop_table t db"
  by (auto simp: createTableTyped_def create_table_def Let_def split: option.splits if_splits prod.splits)

text \<open>The table that holds the rows of a file.\<close>

definition imported_table ::
  "(string \<Rightarrow> 'f option) \<Rightarrow> string list \<Rightarrow> ColumnType list \<Rightarrow> string list list \<Rightarrow> 'f db_table" where
  "imported_table pf cols types rows =
     \<lparr>tb_Columns = zip cols (map SQLType types), tb_Rows = map (bind_row pf cols types) rows\<rparr>"

definition with_table :: "string \<Rightarrow> 'f db_table \<Rightarrow> 'f ing_db \<Rightarrow> 'f ing_db" where
  "with_table t tb db = (drop_table t db)\<lparr>db_Tables := (db_Tables db)(t \<mapsto> tb)\<rparr>"

lemma drop_with_table [simp]: "drop_table t (with_table t tb db) = drop_table t db"
  by (simp add: with_table_def drop_table_def)

lemma insert_imported:
  assumes "insertBatchTyped d t cols types rows (with_table t (imported_table (in_float d) cols types rows0) db) = (None, db')"
    "distinct cols" "length types = length cols"
  shows "db' = with_table t (imported_table (in_float d) cols types (rows0 @ rows)) db"
proof (cases "rows = []")
  case True
  then show ?thesis using assms(1) by (simp add: insertBatchTyped_def)
next
  case False
  have s: "stored_row (zip cols (map SQLType types)) cols \<circ> bind_row (in_float d) cols types = bind_row (in_float d) cols types"
    using assms(2,3) by (auto simp: stored_row_names)
  have t: "db_Tables (with_table t tb db) t = Some tb" for tb by (simp add: with_table_def)
  from insert_ok [OF assms(1) False] obtain tb where
    "Some (imported_table (in_float d) cols types rows0) = Some tb"
    "db' = (with_table t (imported_table (in_float d) cols types rows0) db)
       \<lparr>db_Tables := (db_Tables (with_table t (imported_table (in_float d) cols types rows0) db))(t \<mapsto> tb\<lparr>tb_Rows := tb_Rows tb
             @ map (stored_row (tb_Columns tb) cols \<circ> bind_row (in_float d) cols types) rows\<rparr>)\<rparr>"
    unfolding t by metis
  then show ?thesis by (auto simp: with_table_def imported_table_def s)
qed

lemma length_dedupe [simp]: "length (dedupe_headers hs seen) = length hs"
  by (induction hs arbitrary: seen) (simp_all add: Let_def)

lemma length_sanitizedHeaders [simp]: "length (sanitizedHeaders hs) = length hs"
  by (simp add: sanitizedHeaders_def)

lemma import_rows_ok:
  assumes "import_rows over d t headers sampleRows rest db = (Inr (n, m), db')"
  shows "db' = with_table t (imported_table (in_float d) (sanitizedHeaders headers)
                 (inferColumnTypes (in_float d) sampleRows (length headers)) (sampleRows @ oks rest)) db
    \<and> n = length (sampleRows @ oks rest) \<and> m = length headers \<and> distinct (sanitizedHeaders headers)"
proof -
  let ?cols = "sanitizedHeaders headers" and ?types = "inferColumnTypes (in_float d) sampleRows (length headers)"
  let ?tb = "\<lambda>rows. with_table t (imported_table (in_float d) ?cols ?types rows) db"
  have l: "length ?types = length ?cols" by simp
  obtain db1 db2 where
    c: "createTableTyped t ?cols ?types db = (None, db1)"
    and i: "insertBatchTyped d t ?cols ?types sampleRows db1 = (None, db2)"
    and r: "import_loop over (insertBatchTyped d t ?cols ?types) rest [] (length sampleRows) db2 = (Inr n, db')"
    and m: "m = length headers"
    using assms by (auto simp: import_rows_def Let_def split: prod.splits option.splits sum.splits)
  have db1: "db1 = ?tb []" and dist: "distinct ?cols"
    using create_ok [OF c l] by (simp_all add: with_table_def imported_table_def)
  have db2: "db2 = ?tb sampleRows" using insert_imported [OF i [unfolded db1] dist l] by simp
  from typed_rows.loop_ok [OF r]
  have "insertBatchTyped d t ?cols ?types (oks rest) (?tb sampleRows) = (None, db')" "n = length sampleRows + length (oks rest)"
    unfolding db2 by simp_all
  with insert_imported [OF this(1) dist l] m dist show ?thesis by simp
qed

lemma import_rows_error:
  assumes "import_rows over d t headers sampleRows rest db = (Inl e, db')"
  shows "db' = db \<or> db' = drop_table t db"
proof -
  let ?cols = "sanitizedHeaders headers" and ?types = "inferColumnTypes (in_float d) sampleRows (length headers)"
  have l: "length ?types = length ?cols" by simp
  show ?thesis
  proof (cases "createTableTyped t ?cols ?types db")
    case (Pair x db1)
    show ?thesis
    proof (cases x)
      case (Some y)
      then show ?thesis using assms Pair create_error [of t ?cols ?types db]
        by (auto simp: import_rows_def Let_def)
    next
      case None
      have db1: "db1 = with_table t (imported_table (in_float d) ?cols ?types []) db" and dist: "distinct ?cols"
        using create_ok [OF Pair [unfolded None] l] by (simp_all add: with_table_def imported_table_def)
      have ins: "drop_table t db3 = drop_table t db" if "insertBatchTyped d t ?cols ?types rows db1 = (None, db3)" for rows db3
        using insert_imported [OF that [unfolded db1] dist l] by simp
      show ?thesis
      proof (cases "insertBatchTyped d t ?cols ?types sampleRows db1")
        case ins1: (Pair y db2)
        show ?thesis
        proof (cases y)
          case (Some z)
          then have "db2 = db1" using ins1 insert_error by blast
          then show ?thesis using assms Pair None ins1 Some db1 by (simp add: import_rows_def Let_def)
        next
          case y: None
          obtain db3 where r: "import_loop over (insertBatchTyped d t ?cols ?types) rest [] (length sampleRows) db2 = (Inl e, db3)"
              "db' = drop_table t db3"
            using assms Pair None ins1 y by (auto simp: import_rows_def Let_def split: prod.splits sum.splits)
          then obtain a where "insertBatchTyped d t ?cols ?types a db2 = (None, db3)"
            using typed_rows.loop_error by blast
          with typed_rows.put_both [OF ins1 [unfolded y]] ins r(2) show ?thesis by metis
        qed
      qed
    qed
  qed
qed

lemma importCSV_cases:
  assumes "importCSV d path t db = (r, db')"
  shows "(\<exists>e. r = Inl e \<and> db' = db) \<or> (\<exists>headers recs. csv_file (the (in_files d path)) = Inr headers # recs
    \<and> import_rows (\<lambda>_. None) d t headers (oks (take 500 recs)) (drop 500 recs) db = (r, db'))"
  using assms by (auto simp: importCSV_def split: option.splits list.splits sum.splits)

lemma importExcel_cases:
  assumes "importExcel d path t db = (r, db')"
  shows "(\<exists>e. r = Inl e \<and> db' = db)
    \<or> (\<exists>headers sampleRows rest. import_rows excel_over d t headers sampleRows (rest :: (unit + string list) list) db = (r, db'))"
  using assms by (auto simp: importExcel_def Let_def split: option.splits list.splits sum.splits if_splits)

definition import_good :: "string \<Rightarrow> (nat \<times> nat) result \<Rightarrow> 'f ing_db \<Rightarrow> 'f ing_db \<Rightarrow> bool" where
  "import_good t r db db' \<longleftrightarrow>
     (case r of
        Inl _ \<Rightarrow> db' = db \<or> db' = drop_table t db
      | Inr (n, m) \<Rightarrow> (\<exists>tb. db' = with_table t tb db \<and> length (tb_Rows tb) = n \<and> length (tb_Columns tb) = m
          \<and> distinct (map fst (tb_Columns tb)) \<and> (\<forall>row \<in> set (tb_Rows tb). length row = m)))"

lemma import_rows_good:
  assumes "import_rows over d t headers sampleRows rest db = (r, db')"
  shows "import_good t r db db'"
proof (cases r)
  case (Inl e)
  with import_rows_error [OF assms [unfolded Inl]] show ?thesis by (simp add: import_good_def)
next
  case (Inr nm)
  obtain n m where nm: "nm = (n, m)" by (cases nm)
  let ?tb = "imported_table (in_float d) (sanitizedHeaders headers)
               (inferColumnTypes (in_float d) sampleRows (length headers)) (sampleRows @ oks rest)"
  note ok = import_rows_ok [OF assms [unfolded Inr nm]]
  have "length (tb_Rows ?tb) = n" "length (tb_Columns ?tb) = m" "distinct (map fst (tb_Columns ?tb))"
    "\<forall>row \<in> set (tb_Rows ?tb). length row = m"
    using ok by (auto simp: imported_table_def)
  with ok show ?thesis unfolding import_good_def Inr nm by auto
qed

text \<open>
  An import is all or nothing. A successful one leaves exactly one new table, which replaces the one
  of its name: the names of its columns are distinct, it has one row per imported record, each as
  wide as the header, and the reported counts are those of the table. A failed one leaves the
  database as it was, or without the table. Every other table is untouched.
\<close>

lemma import_outcome:
  assumes "ImportFileRaw (importCSV d) (importExcel d) path db = (t, r, db')"
  shows "import_good t r db db'"
proof -
  have same: "import_good t (Inl e) db db" for e by (simp add: import_good_def)
  consider "r = Inl (''unsupported file format: '' @ to_lower (path_ext path)) \<and> db' = db"
    | "importCSV d path t db = (r, db')" | "importExcel d path t db = (r, db')"
    using assms by (auto simp: ImportFileRaw_def Let_def split: if_splits)
  then show ?thesis
  proof cases
    case 2
    from importCSV_cases [OF this] show ?thesis using same import_rows_good by blast
  next
    case 3
    from importExcel_cases [OF this] show ?thesis using same import_rows_good by blast
  qed (use same in simp)
qed

text \<open>
  C27. An import is all or nothing. A successful one leaves exactly one new table, which replaces the one
  of its name: the names of its columns are distinct, it has one row per imported record, each as
  wide as the header, and the reported counts are those of the table. A failed one leaves the
  database as it was, or without the table. Every other table is untouched.
\<close>

theorem import_all_or_nothing:
  assumes "ImportFileRaw (importCSV d) (importExcel d) path db = (t, r, db')"
  shows "(case r of
      Inl _ \<Rightarrow> db' = db \<or> db' = drop_table t db
    | Inr (n, m) \<Rightarrow> (\<exists>tb. db' = with_table t tb db \<and> length (tb_Rows tb) = n \<and> length (tb_Columns tb) = m
        \<and> distinct (map fst (tb_Columns tb)) \<and> (\<forall>row \<in> set (tb_Rows tb). length row = m)))
    \<and> (\<forall>t'. t' \<noteq> t \<longrightarrow> db_Tables db' t' = db_Tables db t') \<and> db_Meta db' = db_Meta db"
proof -
  note g = import_outcome [OF assms, unfolded import_good_def]
  have "(\<forall>t'. t' \<noteq> t \<longrightarrow> db_Tables db' t' = db_Tables db t') \<and> db_Meta db' = db_Meta db"
    using g by (auto simp: drop_table_def with_table_def split: sum.splits prod.splits)
  with g show ?thesis by blast
qed

definition sample_ing_deps :: "string ing_deps" where
  "sample_ing_deps =
     \<lparr>in_float = sample_float, in_exec = \<lambda>_. None,
      in_files = [''/tmp/f_1-a.csv'' \<mapsto> csv_text [[''id'', ''Amount''], [''1'', ''2.5''], [''2'', ''x'']]],
      in_excel = \<lambda>_. Inl ''not a zip file''\<rparr>"

definition empty_db :: "'f ing_db" where
  "empty_db = \<lparr>db_Tables = \<lambda>_. None, db_Meta = None, db_Indexes = []\<rparr>"

section \<open>Complete imports\<close>

lemma oks_Inr [simp]: "oks (map Inr xs) = xs"
  by (induction xs) simp_all

lemma insert_complete:
  assumes "valid_idents t cols = None" "distinct cols" "length types = length cols" "\<forall>v. in_exec d v = None"
  shows "insertBatchTyped d t cols types rows (with_table t (imported_table (in_float d) cols types rows0) db)
    = (None, with_table t (imported_table (in_float d) cols types (rows0 @ rows)) db)"
proof -
  let ?db = "with_table t (imported_table (in_float d) cols types rows0) db"
  have "set cols = fst ` set (zip cols (map SQLType types))"
    using assms(3) by (metis length_map list.set_map map_fst_zip)
  then have "has_columns cols (imported_table (in_float d) cols types rows0)"
    by (simp add: has_columns_def imported_table_def)
  moreover have "first_error (in_exec d) vs = None" for vs using assms(4) by (simp add: first_error_None)
  moreover have "db_Tables ?db t = Some (imported_table (in_float d) cols types rows0)" by (simp add: with_table_def)
  ultimately have "\<exists>db'. insertBatchTyped d t cols types rows ?db = (None, db')"
    using assms(1) by (simp add: insertBatchTyped_def Let_def)
  then obtain db' where "insertBatchTyped d t cols types rows ?db = (None, db')" ..
  with insert_imported [OF this assms(2,3)] show ?thesis by simp
qed

lemma create_complete:
  assumes "valid_idents t cols = None" "distinct cols" "length types = length cols" "cols \<noteq> []" "length cols \<le> 2000"
    "\<not> prefix ''sqlite_'' t"
  shows "createTableTyped t cols types db = (None, with_table t (imported_table pf cols types []) db)"
proof -
  have defs: "map (\<lambda>i. (cols ! i, if i < length types then SQLType (types ! i) else ''TEXT'')) [0..<length cols]
      = zip cols (map SQLType types)"
    using assms(3) by (intro nth_equalityI) simp_all
  have "map fst (zip cols (map SQLType types)) = cols" "zip cols (map SQLType types) \<noteq> []"
    using assms(3,4) by (cases cols; cases types; simp)+
  then show ?thesis
    using assms unfolding createTableTyped_def defs Let_def
    by (simp add: create_table_def with_table_def drop_table_def imported_table_def)
qed



theorem import_all_or_nothing_witness:
  "\<exists>db'. ImportFileRaw (importCSV sample_ing_deps) (importExcel sample_ing_deps) ''/tmp/a.xlsx'' empty_db
     = (''a'', Inl ''failed to open Excel file: not a zip file'', db') \<and> db_Meta db' = None"
proof -
  have n: "to_lower (path_ext ''/tmp/a.xlsx'') = ''.xlsx''"
    "sanitizeTableName (trim_suffix (path_base ''/tmp/a.xlsx'') ''.xlsx'') = ''a''" by code_simp+
  have "ImportFileRaw (importCSV sample_ing_deps) (importExcel sample_ing_deps) ''/tmp/a.xlsx'' empty_db
      = (''a'', Inl ''failed to open Excel file: not a zip file'', empty_db)"
    by (simp add: ImportFileRaw_def n Let_def importExcel_def sample_ing_deps_def)
  with import_all_or_nothing [OF this] show ?thesis by (auto simp: empty_db_def)
qed

section \<open>Headers and files that are refused\<close>

text \<open>
  The counter that is appended to a repeated header can make it equal to another header; the table
  is then refused, and with it the file.
\<close>

lemma repeated_names_refused:
  assumes "\<not> distinct (sanitizedHeaders hs)"
  shows "\<exists>e. fst (import_rows over d t hs sampleRows rest db) = Inl e"
proof -
  let ?types = "inferColumnTypes (in_float d) sampleRows (length hs)"
  obtain x db1 where c: "createTableTyped t (sanitizedHeaders hs) ?types db = (x, db1)"
    by (cases "createTableTyped t (sanitizedHeaders hs) ?types db")
  moreover have "x \<noteq> None" using create_ok [of t "sanitizedHeaders hs" ?types db db1] assms c by auto
  ultimately show ?thesis by (auto simp: import_rows_def)
qed

lemma counted_name_collides: "sanitizedHeaders [''a'', ''a_1'', ''a''] = [''a'', ''a_1'', ''a_1'']"
  by code_simp

text \<open>A quoted header behind a byte order mark is a misplaced quote.\<close>

lemma byte_order_mark_refused:
  "csv_file ([CHR 0xEF, CHR 0xBB, CHR 0xBF] @ csv_text [[''id''], [''1'']]) = [Inl ErrBareQuote, Inr [''1'']]"
  by code_simp

text \<open>A record with another number of fields is left out, and the import succeeds without it.\<close>

lemma short_record_dropped:
  "oks (csv_file (''a,b'' @ [newline] @ ''1'' @ [newline] @ ''2,3'' @ [newline])) = [[''a'', ''b''], [''2'', ''3'']]"
  by code_simp

end
