(* ===== verification/Time_Columns.thy ===== *)
theory Time_Columns
  imports Sql_Guard
begin

text \<open>
  Detection of time columns (\<open>server/data/schema.go\<close>): which values of a column are dates, months,
  quarters or years, which grain dominates, and the period the column covers.
\<close>

section \<open>Values\<close>

text \<open>An anchored pattern of single-character classes.\<close>

definition shape :: "(char \<Rightarrow> bool) list \<Rightarrow> string \<Rightarrow> bool" where
  "shape ps s \<longleftrightarrow> length ps = length s \<and> list_all (\<lambda>(p, c). p c) (zip ps s)"

definition digits :: "nat \<Rightarrow> (char \<Rightarrow> bool) list" where
  "digits n = replicate n is_digit"

definition lit :: "char \<Rightarrow> char \<Rightarrow> bool" where
  "lit d c \<longleftrightarrow> c = d"

definition isoDatePattern :: "string \<Rightarrow> bool" where
  "isoDatePattern = shape (digits 4 @ [lit (CHR ''-'')] @ digits 2 @ [lit (CHR ''-'')] @ digits 2)"

definition slashDatePattern :: "string \<Rightarrow> bool" where
  "slashDatePattern = shape (digits 4 @ [lit (CHR ''/'')] @ digits 2 @ [lit (CHR ''/'')] @ digits 2)"

definition compactDatePattern :: "string \<Rightarrow> bool" where
  "compactDatePattern = shape (digits 8)"

definition isoMonthPattern :: "string \<Rightarrow> bool" where
  "isoMonthPattern = shape (digits 4 @ [lit (CHR ''-'')] @ digits 2)"

definition slashMonthPattern :: "string \<Rightarrow> bool" where
  "slashMonthPattern = shape (digits 4 @ [lit (CHR ''/'')] @ digits 2)"

definition compactMonthPattern :: "string \<Rightarrow> bool" where
  "compactMonthPattern = shape (digits 6)"

definition quarter_digit :: "char \<Rightarrow> bool" where
  "quarter_digit c \<longleftrightarrow> 49 \<le> byte c \<and> byte c \<le> 52"

definition quarterPattern :: "string \<Rightarrow> bool" where
  "quarterPattern s \<longleftrightarrow>
     shape (digits 4 @ [lit (CHR ''Q''), quarter_digit]) s
     \<or> shape (digits 4 @ [\<lambda>c. c \<in> set ''-/ '', lit (CHR ''Q''), quarter_digit]) s"

definition yearPattern :: "string \<Rightarrow> bool" where
  "yearPattern = shape (digits 4)"

text \<open>
  \<open>timeColumnNameHintPattern\<close>: a hint word between underscores or the ends of the name. \<open>boundary\<close>
  tells whether the rest follows an underscore or starts the text.
\<close>

definition time_hints :: "string list" where
  "time_hints = [''date'', ''dt'', ''day'', ''week'', ''month'', ''year'', ''quarter'', ''period'', ''ym'',
     ''yyyymm'', ''yyyymmdd'']"

fun hint_from :: "bool \<Rightarrow> string \<Rightarrow> bool" where
  "hint_from boundary [] = False"
| "hint_from boundary (c # s) =
     ((boundary \<and> list_ex (\<lambda>w. prefix w (c # s) \<and> (drop (length w) (c # s) = [] \<or> hd (drop (length w) (c # s)) = CHR ''_''))
                   time_hints)
      \<or> hint_from (c = CHR ''_'') s)"

definition looksLikeTimeColumnName :: "string \<Rightarrow> bool" where
  "looksLikeTimeColumnName columnName =
     hint_from True (replace_byte (CHR ''-'') (CHR ''_'') (replace_byte (CHR '' '') (CHR ''_'')
       (to_lower (trim_space columnName))))"

record normalizedTimeValue =
  tv_grain :: string
  tv_canonical :: string
  tv_sortKey :: string

definition plain_value :: "string \<Rightarrow> string \<Rightarrow> normalizedTimeValue" where
  "plain_value g c = \<lparr>tv_grain = g, tv_canonical = c, tv_sortKey = c\<rparr>"

definition normalizeTimeValue :: "string \<Rightarrow> string \<Rightarrow> normalizedTimeValue option" where
  "normalizeTimeValue columnName raw =
     (let t = trim_space raw; hint = looksLikeTimeColumnName columnName; u = to_upper t
      in if t = [] then None
         else if isoDatePattern t then Some (plain_value ''day'' t)
         else if slashDatePattern t then Some (plain_value ''day'' (replace_byte (CHR ''/'') (CHR ''-'') t))
         else if compactDatePattern t \<and> hint
         then Some (plain_value ''day'' (take 4 t @ ''-'' @ take 2 (drop 4 t) @ ''-'' @ take 2 (drop 6 t)))
         else if isoMonthPattern t then Some (plain_value ''month'' t)
         else if slashMonthPattern t then Some (plain_value ''month'' (replace_byte (CHR ''/'') (CHR ''-'') t))
         else if compactMonthPattern t \<and> hint
         then Some (plain_value ''month'' (take 4 t @ ''-'' @ take 2 (drop 4 t)))
         else if quarterPattern u
         then Some \<lparr>tv_grain = ''quarter'', tv_canonical = take 4 u @ ''-Q'' @ [last u],
                    tv_sortKey = take 4 u @ ''-'' @ [last u]\<rparr>
         else if yearPattern t \<and> hint
         then (if nat_val t < 1900 \<or> nat_val t > 2100 then None else Some (plain_value ''year'' t))
         else None)"

section \<open>Columns\<close>

record timeColumnInfo =
  ti_Name :: string
  ti_ValueKind :: string
  ti_Grain :: string
  ti_CoverageStart :: string
  ti_CoverageEnd :: string
  ti_DistinctPeriodCount :: int
  ti_SamplePeriods :: "string list"
  ti_RollupGrains :: "string list"

definition rollupGrainsForTimeGrain :: "string \<Rightarrow> string list" where
  "rollupGrainsForTimeGrain grain =
     (if grain = ''day'' then [''month'', ''quarter'', ''year'']
      else if grain = ''month'' then [''quarter'', ''year'']
      else if grain = ''quarter'' then [''year'']
      else [])"

definition matched_values :: "string \<Rightarrow> string list \<Rightarrow> normalizedTimeValue list" where
  "matched_values columnName observed =
     map the (filter (\<lambda>v. v \<noteq> None) (map (normalizeTimeValue columnName) observed))"

definition grain_count :: "normalizedTimeValue list \<Rightarrow> string \<Rightarrow> nat" where
  "grain_count matched g = length (filter (\<lambda>v. tv_grain v = g) matched)"

text \<open>The search for the dominant grain, over the keys of \<open>grainCounts\<close> in iteration order.\<close>

definition dominant :: "normalizedTimeValue list \<Rightarrow> string list \<Rightarrow> string \<times> nat" where
  "dominant matched keys =
     foldl (\<lambda>(g, n) k. if grain_count matched k > n then (k, grain_count matched k) else (g, n)) ([], 0) keys"

text \<open>The first occurrence of each canonical value.\<close>

fun first_canonical :: "string list \<Rightarrow> normalizedTimeValue list \<Rightarrow> normalizedTimeValue list" where
  "first_canonical seen [] = []"
| "first_canonical seen (v # vs) =
     (if tv_canonical v \<in> set seen then first_canonical seen vs
      else v # first_canonical (tv_canonical v # seen) vs)"

text \<open>
  The canonical values are distinct, so the comparison function of \<open>sort.Slice\<close> is a strict total
  order on them and the result does not depend on the algorithm; here two stable sorts.
\<close>

definition period_sort :: "normalizedTimeValue list \<Rightarrow> normalizedTimeValue list" where
  "period_sort vs = sort_key tv_sortKey (sort_key tv_canonical vs)"

text \<open>
  The two ratios are compared as fractions: with \<open>n\<close> observed values (200 at most) the float
  quotients and the constants 0.8 and 0.6 compare like \<open>5 * k < 4 * n\<close> and \<open>5 * k < 3 * n\<close>.
\<close>

definition detectTimeColumnInfo ::
  "string list \<Rightarrow> string \<Rightarrow> string list \<Rightarrow> int \<Rightarrow> timeColumnInfo option" where
  "detectTimeColumnInfo keys columnName observed uniqueCount =
     (if observed = [] then None
      else
        let hint = looksLikeTimeColumnName columnName;
            matched = matched_values columnName observed
        in if matched = [] then None
           else
             let (g, k) = dominant matched keys
             in if g = [] then None
                else if \<not> hint \<and> 5 * k < 4 * length observed then None
                else if hint \<and> 5 * k < 3 * length observed then None
                else
                  let filtered = period_sort (first_canonical [] (filter (\<lambda>v. tv_grain v = g) matched))
                  in if filtered = [] then None
                     else Some
                       \<lparr>ti_Name = columnName, ti_ValueKind = g, ti_Grain = g,
                        ti_CoverageStart = tv_canonical (hd filtered),
                        ti_CoverageEnd = tv_canonical (last filtered),
                        ti_DistinctPeriodCount =
                          (if uniqueCount \<le> 0 then int (length filtered) else uniqueCount),
                        ti_SamplePeriods = map tv_canonical (take 5 filtered),
                        ti_RollupGrains = rollupGrainsForTimeGrain g\<rparr>)"

section \<open>Lemmas\<close>

lemma dominant_spec:
  assumes "dominant matched keys = (g, n)"
  shows "(\<forall>k \<in> set keys. grain_count matched k \<le> n) \<and> (g = [] \<and> n = 0 \<or> g \<in> set keys \<and> n = grain_count matched g)"
  using assms
proof (induction keys arbitrary: g n rule: rev_induct)
  case Nil
  then show ?case by (simp add: dominant_def)
next
  case (snoc x xs)
  obtain g0 n0 where d: "dominant matched xs = (g0, n0)" by fastforce
  from snoc.IH [OF d] snoc.prems d show ?case
    by (auto simp: dominant_def split: if_splits)
qed

lemma two_grains: "g1 \<noteq> g2 \<Longrightarrow> grain_count vs g1 + grain_count vs g2 \<le> length vs"
  by (induction vs) (auto simp: grain_count_def)

lemma matched_length: "length (matched_values c obs) \<le> length obs"
  unfolding matched_values_def by (metis length_filter_le length_map)

lemma dominant_unique:
  assumes "set keys1 = set keys2" "dominant vs keys1 = (g1, n1)" "dominant vs keys2 = (g2, n2)"
    and "length vs \<le> len" "0 < len"
  shows "n1 = n2 \<and> (5 * n1 < 3 * len \<or> g1 = g2)"
proof -
  note d1 = dominant_spec [OF assms(2)] and d2 = dominant_spec [OF assms(3)]
  have n: "n1 = n2" using d1 d2 assms(1) by (metis bot_nat_0.extremum_uniqueI order_antisym)
  moreover have "g1 = g2" if "\<not> 5 * n1 < 3 * len"
  proof (rule ccontr)
    assume ne: "g1 \<noteq> g2"
    have "n1 > 0" using that assms(5) by simp
    then have "n1 = grain_count vs g1" "n1 = grain_count vs g2" using d1 d2 n by auto
    then have "2 * n1 \<le> len" using two_grains [OF ne, of vs] assms(4) by simp
    with that assms(5) show False by simp
  qed
  ultimately show ?thesis by blast
qed

lemma set_first_canonical:
  "tv_canonical ` set (first_canonical seen vs) = tv_canonical ` set vs - set seen"
  by (induction seen vs rule: first_canonical.induct) auto

lemma first_canonical_sub: "set (first_canonical seen vs) \<subseteq> set vs"
  by (induction seen vs rule: first_canonical.induct) auto

lemma set_period_sort [simp]: "set (period_sort vs) = set vs"
  by (simp add: period_sort_def)

lemma sorted_period_sort: "sorted (map tv_sortKey (period_sort vs))"
  by (simp add: period_sort_def)

text \<open>For one grain the sort key is a function of the canonical form.\<close>

lemma time_value_shape:
  "normalizeTimeValue c a = Some v \<Longrightarrow>
   (tv_grain v \<noteq> ''quarter'' \<and> tv_sortKey v = tv_canonical v)
   \<or> (tv_grain v = ''quarter''
      \<and> (\<exists>y q. tv_canonical v = y @ ''-Q'' @ [q] \<and> tv_sortKey v = y @ ''-'' @ [q]))"
  unfolding normalizeTimeValue_def Let_def plain_value_def by (auto split: if_splits)

lemma key_of_canonical:
  assumes "normalizeTimeValue c a = Some v" "normalizeTimeValue c b = Some w"
    and "tv_grain v = tv_grain w" "tv_canonical v = tv_canonical w"
  shows "tv_sortKey v = tv_sortKey w"
  using time_value_shape [OF assms(1)] time_value_shape [OF assms(2)] assms(3,4) by auto

lemma detect_cases:
  assumes "detectTimeColumnInfo keys c obs u = Some info"
  obtains g k fs where "dominant (matched_values c obs) keys = (g, k)" "g \<noteq> []"
    "3 * length obs \<le> 5 * k" "fs \<noteq> []"
    "fs = period_sort (first_canonical [] (filter (\<lambda>v. tv_grain v = g) (matched_values c obs)))"
    "ti_Grain info = g" "ti_CoverageStart info = tv_canonical (hd fs)"
    "ti_CoverageEnd info = tv_canonical (last fs)" "ti_SamplePeriods info = map tv_canonical (take 5 fs)"
proof -
  obtain g k where d: "dominant (matched_values c obs) keys = (g, k)" by fastforce
  let ?fs = "period_sort (first_canonical [] (filter (\<lambda>v. tv_grain v = g) (matched_values c obs)))"
  have "g \<noteq> []" "3 * length obs \<le> 5 * k" "?fs \<noteq> []" "ti_Grain info = g"
    "ti_CoverageStart info = tv_canonical (hd ?fs)" "ti_CoverageEnd info = tv_canonical (last ?fs)"
    "ti_SamplePeriods info = map tv_canonical (take 5 ?fs)"
    using assms d by (auto simp: detectTimeColumnInfo_def Let_def split: if_splits)
  with d that show thesis by blast
qed

lemma matched_iff: "v \<in> set (matched_values c obs) \<longleftrightarrow> (\<exists>raw \<in> set obs. normalizeTimeValue c raw = Some v)"
  by (force simp: matched_values_def)

lemma sorted_ends:
  assumes "sorted (map f xs)" "x \<in> set xs"
  shows "f (hd xs) \<le> f x \<and> f x \<le> (f (last xs) :: string)"
  using assms by (induction xs) (auto simp: Ball_def)

section \<open>Properties\<close>

text \<open>
  The profile of a column does not depend on the order in which Go iterates over the grain
  counts: a grain that passes the 60 percent threshold is the only one that can.
\<close>

theorem time_profile_deterministic:
  assumes "set keys1 = set keys2"
  shows "detectTimeColumnInfo keys1 columnName observed uniqueCount
       = detectTimeColumnInfo keys2 columnName observed uniqueCount"
proof (cases "observed = []")
  case True
  then show ?thesis by (simp add: detectTimeColumnInfo_def)
next
  case False
  let ?m = "matched_values columnName observed"
  obtain g1 n1 where d1: "dominant ?m keys1 = (g1, n1)" by fastforce
  obtain g2 n2 where d2: "dominant ?m keys2 = (g2, n2)" by fastforce
  have n: "n1 = n2" and g: "5 * n1 < 3 * length observed \<or> g1 = g2"
    using dominant_unique [OF assms d1 d2 matched_length] False by auto
  from g show ?thesis
  proof
    assume small: "5 * n1 < 3 * length observed"
    have "detectTimeColumnInfo ks columnName observed uniqueCount = None"
      if "dominant ?m ks = (g, n1)" for ks g
      using that small by (auto simp: detectTimeColumnInfo_def Let_def)
    then show ?thesis using d1 d2 n by metis
  next
    assume "g1 = g2"
    then show ?thesis using d1 d2 n by (simp add: detectTimeColumnInfo_def Let_def)
  qed
qed

theorem time_profile_deterministic_witness:
  "detectTimeColumnInfo [''day'', ''month''] ''date'' [''2024-01-02'', ''2024-01-03'', ''2024-01''] 3
   = detectTimeColumnInfo [''month'', ''day''] ''date'' [''2024-01-02'', ''2024-01-03'', ''2024-01''] 3"
  by (rule time_profile_deterministic) auto

text \<open>
  The coverage is right: for a detected time column at least 60 percent of the observed values
  have its grain, and every one of them lies between two observed values whose canonical forms
  are the start and the end of the coverage; at most five sample periods are listed, each the
  canonical form of an observed value.
\<close>

theorem time_profile_covers:
  assumes "detectTimeColumnInfo keys columnName observed uniqueCount = Some info"
  shows "3 * length observed \<le> 5 * grain_count (matched_values columnName observed) (ti_Grain info)
    \<and> (\<exists>s \<in> set (matched_values columnName observed). \<exists>e \<in> set (matched_values columnName observed).
         tv_canonical s = ti_CoverageStart info \<and> tv_canonical e = ti_CoverageEnd info
         \<and> (\<forall>v \<in> set (matched_values columnName observed). tv_grain v = ti_Grain info \<longrightarrow>
              tv_sortKey s \<le> tv_sortKey v \<and> tv_sortKey v \<le> tv_sortKey e))
    \<and> length (ti_SamplePeriods info) \<le> 5
    \<and> set (ti_SamplePeriods info) \<subseteq> tv_canonical ` set (matched_values columnName observed)"
  using assms
proof (cases rule: detect_cases)
  case (1 g k fs)
  let ?m = "matched_values columnName observed"
  let ?vs = "filter (\<lambda>v. tv_grain v = g) ?m"
  have fs: "set fs \<subseteq> set ?vs" "tv_canonical ` set fs = tv_canonical ` set ?vs"
    using first_canonical_sub [of "[]" ?vs] set_first_canonical [of "[]" ?vs] 1(5) by auto
  have ends: "hd fs \<in> set ?m" "last fs \<in> set ?m" 
    using fs(1) hd_in_set [OF 1(4)] last_in_set [OF 1(4)] by auto
  have "tv_sortKey (hd fs) \<le> tv_sortKey v \<and> tv_sortKey v \<le> tv_sortKey (last fs)"
    if v: "v \<in> set ?m" "tv_grain v = g" for v
  proof -
    have "tv_canonical v \<in> tv_canonical ` set fs" using v fs(2) by simp
    then obtain w where w: "w \<in> set fs" "tv_canonical w = tv_canonical v" by force
    then have "tv_grain w = g" "w \<in> set ?m" using fs(1) by auto
    then have "tv_sortKey w = tv_sortKey v"
      using key_of_canonical v w(2) unfolding matched_iff by metis
    then show ?thesis using sorted_ends [of tv_sortKey fs w] w(1) sorted_period_sort 1(5) by simp
  qed
  moreover have "k = grain_count ?m g" using dominant_spec [OF 1(1)] 1(2) by auto
  moreover have "set (take 5 fs) \<subseteq> set ?m" using fs(1) set_take_subset [of 5 fs] by auto
  ultimately show ?thesis using 1 ends by auto
qed

theorem time_profile_covers_witness:
  "\<exists>info. detectTimeColumnInfo [''day''] ''date'' [''2024-01-03'', ''2024/01/02''] 2 = Some info
     \<and> length (ti_SamplePeriods info) \<le> 5"
proof -
  have "detectTimeColumnInfo [''day''] ''date'' [''2024-01-03'', ''2024/01/02''] 2 \<noteq> None" by code_simp
  then obtain info where i: "detectTimeColumnInfo [''day''] ''date'' [''2024-01-03'', ''2024/01/02''] 2 = Some info"
    by blast
  from time_profile_covers [OF i] i show ?thesis by blast
qed

end
