(* ===== verification/Table_Metadata.thy ===== *)
theory Table_Metadata
  imports Ingestion Time_Columns "HOL-Library.AList"
begin

text \<open>
  The metadata of imported tables (\<open>server/data/ingester.go\<close>) and its semantic analysis by the language
  model (\<open>server/data/analyzer.go\<close>). The schema is stored when a table is imported; the analysis runs in
  the background and stores its result only if the schema is still the one it started from. The
  statistics of a schema are those of the parameter \<open>scan\<close>, the model's answer is arbitrary, and
  JSON is a pair of functions for each type.
\<close>

section \<open>Schemas and semantic profiles\<close>

record column_info =
  ci_Name :: string
  ci_Type :: string
  ci_TimeProfile :: "timeColumnInfo option"

record schema_info =
  si_TableName :: string
  si_RowCount :: nat
  si_Columns :: "column_info list"
  si_TimeColumns :: "timeColumnInfo list"

record SemanticColumn =
  sc_Name :: string
  sc_BusinessAlias :: string
  sc_Role :: string
  sc_CalculationLogic :: string
  sc_Warnings :: "string list"

record SemanticRelation =
  sr_TargetTable :: string
  sr_TargetColumn :: string
  sr_SourceColumn :: string
  sr_Reason :: string
  sr_Verified :: bool

record SemanticProfile =
  sp_TableSummary :: string
  sp_Columns :: "SemanticColumn list"
  sp_Relations :: "SemanticRelation list"

text \<open>\<open>ValidateRelationHints\<close>; \<open>targets\<close> gives the schemas of the other tables by lower-case name.\<close>

definition relation_holds ::
  "schema_info \<Rightarrow> string list \<Rightarrow> (string \<rightharpoonup> schema_info) \<Rightarrow> SemanticRelation \<Rightarrow> bool" where
  "relation_holds schema activeTables targets rel \<longleftrightarrow>
     to_lower (sr_SourceColumn rel) \<in> (to_lower \<circ> ci_Name) ` set (si_Columns schema)
     \<and> to_lower (sr_TargetTable rel) \<in> to_lower ` set activeTables
     \<and> (case targets (to_lower (sr_TargetTable rel)) of
          None \<Rightarrow> True
        | Some s \<Rightarrow> list_ex (\<lambda>c. equal_fold (ci_Name c) (sr_TargetColumn rel)) (si_Columns s))"

definition ValidateRelationHints ::
  "SemanticRelation list \<Rightarrow> schema_info \<Rightarrow> string list \<Rightarrow> (string \<rightharpoonup> schema_info) \<Rightarrow> SemanticRelation list" where
  "ValidateRelationHints relations schema activeTables targets =
     map (\<lambda>rel. rel\<lparr>sr_Verified := True\<rparr>) (filter (relation_holds schema activeTables targets) relations)"

record meta_codec =
  mc_schema :: "schema_info \<Rightarrow> string"
  mc_parse_schema :: "string \<Rightarrow> schema_info option"
  mc_profile :: "SemanticProfile \<Rightarrow> string"
  mc_parse_profile :: "string \<Rightarrow> SemanticProfile option"
  mc_relations :: "SemanticRelation list \<Rightarrow> string"
  mc_prompt :: "schema_info \<Rightarrow> string list \<Rightarrow> string"
  mc_object :: "string \<Rightarrow> (string \<times> json) list option"
  mc_text :: "(string \<times> json) list \<Rightarrow> string"

definition strip_fence :: "string \<Rightarrow> string" where
  "strip_fence raw =
     trim_space (trim_suffix (trim_prefix (trim_prefix (trim_space raw) ''```json'') ''```'') ''```'')"

definition AnalyzeTableSemantics ::
  "meta_codec \<Rightarrow> (string \<Rightarrow> string result) \<Rightarrow> schema_info \<Rightarrow> string list \<Rightarrow> SemanticProfile result" where
  "AnalyzeTableSemantics jc chat schema activeTables =
     (case chat (mc_prompt jc schema activeTables) of
        Inl e \<Rightarrow> Inl (''LLM analysis request failed: '' @ e)
      | Inr raw \<Rightarrow>
          (case mc_parse_profile jc (strip_fence raw) of
             None \<Rightarrow> Inl (''failed to parse LLM output JSON; Output '' @ strip_fence raw)
           | Some p \<Rightarrow> Inr p))"

section \<open>The metadata table\<close>

definition ensureMetadataTable :: "'f ing_db \<Rightarrow> 'f ing_db" where
  "ensureMetadataTable db = (case db_Meta db of None \<Rightarrow> db\<lparr>db_Meta := Some []\<rparr> | Some _ \<Rightarrow> db)"

definition meta_rows :: "'f ing_db \<Rightarrow> (string \<times> meta_row) list" where
  "meta_rows db = (case db_Meta db of None \<Rightarrow> [] | Some m \<Rightarrow> m)"

definition DropTable :: "string \<Rightarrow> 'f ing_db option \<Rightarrow> string option \<times> 'f ing_db option" where
  "DropTable tableName st =
     (case st of
        None \<Rightarrow> (None, None)
      | Some db \<Rightarrow>
          (case ValidateSQLIdent tableName of
             Some e \<Rightarrow> (Some e, Some db)
           | None \<Rightarrow>
               let db1 = drop_table tableName db
               in case db_Meta db1 of
                    None \<Rightarrow> (Some (''failed to delete table metadata '' @ tableName @ '': no such table''), Some db1)
                  | Some m \<Rightarrow> (None, Some (db1\<lparr>db_Meta := Some (AList.delete tableName m)\<rparr>))))"

text \<open>
  The extraction of a schema fails when there is no such table; \<open>scan\<close> computes the statistics,
  from a sample of large tables.
\<close>

definition extractSchema ::
  "(bool \<Rightarrow> string \<Rightarrow> 'f db_table \<Rightarrow> schema_info) \<Rightarrow> bool \<Rightarrow> string \<Rightarrow> 'f ing_db \<Rightarrow> schema_info result" where
  "extractSchema scan sampled tableName db =
     (case ValidateSQLIdent tableName of
        Some e \<Rightarrow> Inl (''invalid table name: '' @ e)
      | None \<Rightarrow>
          (case db_Tables db tableName of
             None \<Rightarrow> Inl ''failed to get row count: no such table''
           | Some t \<Rightarrow> Inr (scan sampled tableName t)))"

definition index_column :: "column_info \<Rightarrow> bool" where
  "index_column c \<longleftrightarrow>
     (let n = to_lower (ci_Name c)
      in ci_TimeProfile c \<noteq> None \<or> suffix ''_id'' n \<or> n = ''id'' \<or> suffix ''_key'' n \<or> suffix ''_fk'' n \<or> contains n ''join'')"

definition create_index :: "string \<Rightarrow> column_info \<Rightarrow> 'f ing_db \<Rightarrow> 'f ing_db" where
  "create_index tableName c db =
     (let i = ''idx_'' @ sanitizeTableName tableName @ ''_'' @ sanitizeColumnName (ci_Name c)
      in if i \<in> fst ` set (db_Indexes db) then db
         else db\<lparr>db_Indexes := db_Indexes db @ [(i, tableName, ci_Name c)]\<rparr>)"

text \<open>The row written for a new schema; an older analysis is cleared.\<close>

definition schema_row :: "meta_codec \<Rightarrow> schema_info \<Rightarrow> meta_row" where
  "schema_row jc schema =
     \<lparr>mr_Schema = Some (mc_schema jc schema), mr_Semantic = None, mr_Relations = None,
      mr_SchemaReady = True, mr_SemanticReady = False, mr_RelationsVerified = False\<rparr>"

definition GenerateSchemaMetadata ::
  "meta_codec \<Rightarrow> (bool \<Rightarrow> string \<Rightarrow> 'f db_table \<Rightarrow> schema_info) \<Rightarrow> string \<Rightarrow> 'f ing_db option
     \<Rightarrow> string option \<times> 'f ing_db option" where
  "GenerateSchemaMetadata jc scan tableName st =
     (case st of
        None \<Rightarrow> (Some ''database not initialized'', None)
      | Some db \<Rightarrow>
          (case ValidateSQLIdent tableName of
             Some e \<Rightarrow> (Some (''invalid table name for schema generation: '' @ e), Some db)
           | None \<Rightarrow>
               let rowCount = (case db_Tables db tableName of None \<Rightarrow> 0 | Some t \<Rightarrow> length (tb_Rows t))
               in case extractSchema scan (rowCount > 10000) tableName db of
                    Inl e \<Rightarrow> (Some (''failed to extract schema: '' @ e), Some db)
                  | Inr schema \<Rightarrow>
                      let db1 = ensureMetadataTable db;
                          db2 = db1\<lparr>db_Meta := Some (AList.update tableName (schema_row jc schema) (meta_rows db1))\<rparr>
                      in (None, Some (fold (create_index tableName)
                                       (filter index_column (si_Columns schema)) db2))))"

section \<open>Semantic analysis\<close>

text \<open>
  \<open>EnrichSemanticProfile\<close> up to the call of the model and from its answer on; in between the database
  is in use by others.
\<close>

record enrich_job =
  ej_Table :: string
  ej_SchemaText :: string
  ej_Schema :: schema_info
  ej_Active :: "string list"

definition enrich_begin :: "meta_codec \<Rightarrow> string \<Rightarrow> 'f ing_db \<Rightarrow> enrich_job result" where
  "enrich_begin jc tableName db =
     (case map_of (meta_rows db) tableName of
        None \<Rightarrow> Inl ''failed to read schema: no rows''
      | Some row \<Rightarrow>
          (case mr_Schema row of
             None \<Rightarrow> Inl ''failed to read schema: NULL''
           | Some s \<Rightarrow>
               (case mc_parse_schema jc s of
                  None \<Rightarrow> Inl ''failed to parse schema''
                | Some schema \<Rightarrow>
                    Inr \<lparr>ej_Table = tableName, ej_SchemaText = s, ej_Schema = schema,
                         ej_Active = filter (\<lambda>t. t \<noteq> tableName) (map fst (meta_rows db))\<rparr>)))"

definition target_schemas ::
  "(bool \<Rightarrow> string \<Rightarrow> 'f db_table \<Rightarrow> schema_info) \<Rightarrow> 'f ing_db \<Rightarrow> string list \<Rightarrow> string \<rightharpoonup> schema_info" where
  "target_schemas scan db activeTables =
     fold (\<lambda>t m. case extractSchema scan False t db of Inr s \<Rightarrow> m(to_lower t \<mapsto> s) | Inl _ \<Rightarrow> m) activeTables (\<lambda>_. None)"

definition enrich_finish ::
  "meta_codec \<Rightarrow> (bool \<Rightarrow> string \<Rightarrow> 'f db_table \<Rightarrow> schema_info) \<Rightarrow> enrich_job \<Rightarrow> SemanticProfile \<Rightarrow> 'f ing_db
     \<Rightarrow> string option \<times> 'f ing_db" where
  "enrich_finish jc scan job profile db =
     (let verified = ValidateRelationHints (sp_Relations profile) (ej_Schema job) (ej_Active job)
                       (target_schemas scan db (ej_Active job));
          stale = Some ''semantic analysis discarded: schema changed during LLM call (possibly re-imported)''
      in case map_of (meta_rows db) (ej_Table job) of
           None \<Rightarrow> (stale, db)
         | Some row \<Rightarrow>
             if mr_Schema row \<noteq> Some (ej_SchemaText job) then (stale, db)
             else (None, db\<lparr>db_Meta := Some (AList.update (ej_Table job)
                     (row\<lparr>mr_Semantic := Some (mc_profile jc (profile\<lparr>sp_Relations := verified\<rparr>)),
                          mr_SemanticReady := True,
                          mr_Relations := Some (mc_relations jc verified),
                          mr_RelationsVerified := verified \<noteq> []\<rparr>) (meta_rows db))\<rparr>))"

definition EnrichSemanticProfile ::
  "meta_codec \<Rightarrow> (bool \<Rightarrow> string \<Rightarrow> 'f db_table \<Rightarrow> schema_info) \<Rightarrow> (string \<Rightarrow> string result) \<Rightarrow> string \<Rightarrow>
     ('f ing_db \<Rightarrow> 'f ing_db) \<Rightarrow> 'f ing_db option \<Rightarrow> string option \<times> 'f ing_db option" where
  "EnrichSemanticProfile jc scan chat tableName meanwhile st =
     (case st of
        None \<Rightarrow> (Some ''database not initialized'', None)
      | Some db \<Rightarrow>
          (case enrich_begin jc tableName db of
             Inl e \<Rightarrow> (Some e, Some db)
           | Inr job \<Rightarrow>
               let db1 = ensureMetadataTable db
               in case AnalyzeTableSemantics jc chat (ej_Schema job) (ej_Active job) of
                    Inl e \<Rightarrow> (Some (''LLM semantic analysis failed: '' @ e), Some (meanwhile db1))
                  | Inr p \<Rightarrow>
                      (case enrich_finish jc scan job p (meanwhile db1) of (err, db2) \<Rightarrow> (err, Some db2))))"

text \<open>An import with its metadata; the analysis that it starts is a separate step.\<close>

definition ImportFile ::
  "'f ing_deps \<Rightarrow> meta_codec \<Rightarrow> (bool \<Rightarrow> string \<Rightarrow> 'f db_table \<Rightarrow> schema_info) \<Rightarrow> string \<Rightarrow> 'f ing_db \<Rightarrow>
     string \<times> (nat \<times> nat) result \<times> 'f ing_db" where
  "ImportFile d jc scan path db =
     (case ImportFileRaw (importCSV d) (importExcel d) path db of
        (t, Inl e, db1) \<Rightarrow> (t, Inl e, db1)
      | (t, Inr nm, db1) \<Rightarrow>
          (t, Inr nm, case GenerateSchemaMetadata jc scan t (Some db1) of (_, Some db2) \<Rightarrow> db2 | (_, None) \<Rightarrow> db1))"

section \<open>Reading metadata\<close>

record TableMetadata =
  tm_SchemaJSON :: string
  tm_SemanticJSON :: string
  tm_RelationsJSON :: string
  tm_SchemaReady :: bool
  tm_SemanticReady :: bool
  tm_RelationsVerified :: bool

definition GetFullTableMetadata :: "string \<Rightarrow> 'f ing_db option \<Rightarrow> TableMetadata result" where
  "GetFullTableMetadata tableName st =
     (case st of
        None \<Rightarrow> Inl ''database not initialized''
      | Some db \<Rightarrow>
          (case map_of (meta_rows db) tableName of
             None \<Rightarrow> Inl ''sql: no rows in result set''
           | Some row \<Rightarrow>
               let str = (\<lambda>x. case x of Some s \<Rightarrow> s | None \<Rightarrow> [])
               in Inr \<lparr>tm_SchemaJSON = str (mr_Schema row), tm_SemanticJSON = str (mr_Semantic row),
                       tm_RelationsJSON = str (mr_Relations row), tm_SchemaReady = mr_SchemaReady row,
                       tm_SemanticReady = mr_SemanticReady row, tm_RelationsVerified = mr_RelationsVerified row\<rparr>))"

definition GetMetadataReadiness :: "string \<Rightarrow> 'f ing_db option \<Rightarrow> bool \<times> bool \<times> bool" where
  "GetMetadataReadiness tableName st =
     (case st of
        None \<Rightarrow> (False, False, False)
      | Some db \<Rightarrow>
          (case map_of (meta_rows db) tableName of
             None \<Rightarrow> (False, False, False)
           | Some row \<Rightarrow> (mr_SchemaReady row, mr_SemanticReady row, mr_RelationsVerified row)))"

text \<open>
  The merge of the two JSON objects: a field of the semantic object is added where the schema has none,
  at the top and in the columns of the same name.
\<close>

definition fill_missing :: "(string \<times> json) list \<Rightarrow> (string \<times> json) list \<Rightarrow> (string \<times> json) list" where
  "fill_missing base extra = base @ filter (\<lambda>(k, _). map_of base k = None) extra"

definition column_name :: "json \<Rightarrow> (string \<times> (string \<times> json) list) option" where
  "column_name j =
     (case j of JObj p \<Rightarrow> (case map_of p ''name'' of Some (JStr n) \<Rightarrow> Some (n, p) | _ \<Rightarrow> None) | _ \<Rightarrow> None)"

definition semantic_columns :: "json list \<Rightarrow> string \<rightharpoonup> (string \<times> json) list" where
  "semantic_columns cols = map_of (rev (List.map_filter column_name cols))"

definition merge_column :: "(string \<rightharpoonup> (string \<times> json) list) \<Rightarrow> json \<Rightarrow> json" where
  "merge_column sem j =
     (case column_name j of
        None \<Rightarrow> j
      | Some (n, p) \<Rightarrow> (case sem n of None \<Rightarrow> j | Some q \<Rightarrow> JObj (fill_missing p q)))"

definition merge_columns :: "(string \<times> json) list \<Rightarrow> (string \<times> json) list \<Rightarrow> (string \<times> json) list" where
  "merge_columns schemaMap semanticMap =
     (case (map_of semanticMap ''columns'', map_of schemaMap ''columns'') of
        (Some (JArr sem), Some (JArr cols)) \<Rightarrow>
          map (\<lambda>(k, v). if k = ''columns'' then (k, JArr (map (merge_column (semantic_columns sem)) cols)) else (k, v)) schemaMap
      | _ \<Rightarrow> schemaMap)"

definition merge_metadata :: "(string \<times> json) list \<Rightarrow> (string \<times> json) list \<Rightarrow> (string \<times> json) list" where
  "merge_metadata schemaMap semanticMap =
     fill_missing (merge_columns schemaMap semanticMap) (filter (\<lambda>(k, _). k \<noteq> ''columns'') semanticMap)"

definition GetTableMetadata :: "meta_codec \<Rightarrow> string \<Rightarrow> 'f ing_db option \<Rightarrow> string result" where
  "GetTableMetadata jc tableName st =
     (case st of
        None \<Rightarrow> Inl ''database not initialized''
      | Some db \<Rightarrow>
          (case map_of (meta_rows db) tableName of
             None \<Rightarrow> Inl ''sql: no rows in result set''
           | Some row \<Rightarrow>
               Inr (case (mr_Schema row, mr_Semantic row) of
                      (Some s, sem) \<Rightarrow>
                        if trim_space s = [] then (case sem of Some t \<Rightarrow> t | None \<Rightarrow> [])
                        else (case sem of
                                None \<Rightarrow> s
                              | Some t \<Rightarrow>
                                  if trim_space t = [] then s
                                  else (case (mc_object jc s, mc_object jc t) of
                                          (Some a, Some b) \<Rightarrow> mc_text jc (merge_metadata a b)
                                        | _ \<Rightarrow> s))
                    | (None, Some t) \<Rightarrow> t
                    | (None, None) \<Rightarrow> [])))"

text \<open>
  The tables of a session: \<open>names\<close> are those of \<open>sqlite_master\<close>. In the patterns of \<open>LIKE\<close> the
  underscore stands for any character and letters match in both cases.
\<close>

definition like_hidden :: "string \<Rightarrow> bool" where
  "like_hidden name \<longleftrightarrow>
     (prefix ''sqlite'' (to_lower name) \<and> length name \<ge> 7)
     \<or> (length name \<ge> 5 \<and> take 3 (drop 1 (to_lower name)) = ''oda'')"

definition GetActiveTables :: "string list \<Rightarrow> 'f ing_db option \<Rightarrow> string list" where
  "GetActiveTables names st =
     (case st of
        None \<Rightarrow> []
      | Some db \<Rightarrow>
          let own = remdups (rev (filter (\<lambda>n. \<not> like_hidden n) names))
          in rev own @ filter (\<lambda>n. n \<notin> set own) (map fst (meta_rows db)))"

lemma underscore_hides_table: "GetActiveTables [''soda_sales'', ''orders''] (Some empty_db) = [''orders'']"
  by code_simp

section \<open>The merge keeps the schema\<close>

lemma map_of_fill_missing:
  "map_of (fill_missing base extra) k = (case map_of base k of Some v \<Rightarrow> Some v | None \<Rightarrow> map_of extra k)"
proof -
  have "map_of (filter (\<lambda>(k, _). map_of base k = None) extra) k = (if map_of base k = None then map_of extra k else None)"
    by (induction extra) auto
  then show ?thesis by (auto simp: fill_missing_def map_add_def split: option.splits)
qed

lemma map_of_filter_key: "map_of (filter (\<lambda>(k, _). P k) xs) k = (if P k then map_of xs k else None)"
  by (induction xs) auto

lemma map_of_merge_columns:
  "map_of (merge_columns a b) k =
     (if k = ''columns'' then
        (case (map_of b ''columns'', map_of a ''columns'') of
           (Some (JArr sem), Some (JArr cols)) \<Rightarrow> Some (JArr (map (merge_column (semantic_columns sem)) cols))
         | (_, x) \<Rightarrow> x)
      else map_of a k)"
proof -
  have m: "map_of (map (\<lambda>(k, v). if k = ''columns'' then (k, w) else (k, v)) xs) l
      = (if l = ''columns'' then map_option (\<lambda>_. w) (map_of xs l) else map_of xs l)" for l w and xs :: "(string \<times> json) list"
    by (induction xs) auto
  show ?thesis by (auto simp: merge_columns_def m split: option.splits json.splits)
qed

text \<open>A column with the schema's fields unchanged and any others added.\<close>

definition column_extends :: "json \<Rightarrow> json \<Rightarrow> bool" where
  "column_extends j j' \<longleftrightarrow>
     j' = j \<or> (\<exists>p q. j = JObj p \<and> j' = JObj q \<and> (\<forall>k v. map_of p k = Some v \<longrightarrow> map_of q k = Some v))"

lemma merge_column_extends: "column_extends j (merge_column sem j)"
proof (cases "column_name j")
  case (Some np)
  obtain n p where np: "np = (n, p)" by (cases np)
  then have "j = JObj p" using Some by (auto simp: column_name_def split: json.splits option.splits)
  then show ?thesis
    using Some np by (auto simp: column_extends_def merge_column_def map_of_fill_missing split: option.splits)
qed (simp add: column_extends_def merge_column_def)

lemma merge_keeps_schema:
  "map_of (merge_metadata a b) k =
     (if k = ''columns'' then map_of (merge_columns a b) k
      else case map_of a k of Some v \<Rightarrow> Some v | None \<Rightarrow> map_of b k)"
  by (auto simp: merge_metadata_def map_of_fill_missing map_of_merge_columns map_of_filter_key split: option.splits)

text \<open>
  The merged metadata keeps every field of the stored schema, in the columns too; what the model added
  fills the gaps only.
\<close>

theorem metadata_never_overridden:
  assumes "map_of a k = Some v"
  shows "\<exists>v'. map_of (merge_metadata a b) k = Some v' \<and>
    (v' = v \<or> (\<exists>cols cols'. k = ''columns'' \<and> v = JArr cols \<and> v' = JArr cols' \<and> list_all2 column_extends cols cols'))"
proof (cases "k = ''columns''")
  case True
  have "list_all2 column_extends cols (map (merge_column sem) cols)" for sem cols
    by (simp add: list_all2_conv_all_nth merge_column_extends)
  then show ?thesis
    using assms True by (auto simp: merge_keeps_schema map_of_merge_columns split: option.splits json.splits)
next
  case False
  then show ?thesis using assms by (simp add: merge_keeps_schema)
qed

theorem metadata_never_overridden_witness:
  "map_of (merge_metadata [(''columns'', JArr [JObj [(''name'', JStr ''a'')]]), (''rows'', JInt 1)] [(''rows'', JInt 2)]) ''rows'' = Some (JInt 1)"
proof -
  have "map_of [(''columns'', JArr [JObj [(''name'', JStr ''a'')]]), (''rows'', JInt 1)] ''rows'' = Some (JInt 1)" by simp
  from metadata_never_overridden [OF this, of "[(''rows'', JInt 2)]"] show ?thesis by auto
qed

section \<open>Imports and analyses interleaved\<close>

text \<open>
  The states of the analysis database with the analyses that are waiting for the model. Imports,
  explicit refreshes, removals and any number of analyses interleave; the model may answer anything,
  and as late as it likes.
\<close>

inductive ingested ::
  "'f ing_deps \<Rightarrow> meta_codec \<Rightarrow> (bool \<Rightarrow> string \<Rightarrow> 'f db_table \<Rightarrow> schema_info) \<Rightarrow> 'f ing_db \<Rightarrow> enrich_job list \<Rightarrow> bool"
  for d :: "'f ing_deps" and jc :: meta_codec and scan :: "bool \<Rightarrow> string \<Rightarrow> 'f db_table \<Rightarrow> schema_info" where
  ingested_start: "ingested d jc scan empty_db []"
| ingested_import: "ingested d jc scan (snd (snd (ImportFile d jc scan path db))) jobs"
    if "ingested d jc scan db jobs"
| ingested_raw: "ingested d jc scan (snd (snd (ImportFileRaw (importCSV d) (importExcel d) path db))) jobs"
    if "ingested d jc scan db jobs"
| ingested_generate: "ingested d jc scan db' jobs"
    if "ingested d jc scan db jobs" "GenerateSchemaMetadata jc scan t (Some db) = (e, Some db')"
| ingested_drop: "ingested d jc scan db' jobs"
    if "ingested d jc scan db jobs" "DropTable t (Some db) = (e, Some db')"
| ingested_begin: "ingested d jc scan (ensureMetadataTable db) (job # jobs)"
    if "ingested d jc scan db jobs" "enrich_begin jc t db = Inr job"
| ingested_finish: "ingested d jc scan db' jobs"
    if "ingested d jc scan db jobs" "job \<in> set jobs" "enrich_finish jc scan job profile db = (e, db')"

inductive_cases ingested_cases: "ingested d jc scan db jobs"

text \<open>A stored analysis fits the stored schema.\<close>

definition scanned :: "(bool \<Rightarrow> string \<Rightarrow> 'f db_table \<Rightarrow> schema_info) \<Rightarrow> schema_info set" where
  "scanned scan = {scan b t tb | b t tb. True}"

definition row_fits :: "meta_codec \<Rightarrow> schema_info set \<Rightarrow> meta_row \<Rightarrow> bool" where
  "row_fits jc S row \<longleftrightarrow>
     (\<exists>schema \<in> S. mr_Schema row = Some (mc_schema jc schema) \<and>
        (mr_SemanticReady row \<longrightarrow>
           (\<exists>profile. mr_Semantic row = Some (mc_profile jc profile)
              \<and> mr_Relations row = Some (mc_relations jc (sp_Relations profile))
              \<and> mr_RelationsVerified row = (sp_Relations profile \<noteq> [])
              \<and> (\<forall>rel \<in> set (sp_Relations profile). sr_Verified rel
                   \<and> to_lower (sr_SourceColumn rel) \<in> (to_lower \<circ> ci_Name) ` set (si_Columns schema)))))"

definition fits :: "meta_codec \<Rightarrow> schema_info set \<Rightarrow> (string \<times> meta_row) list \<Rightarrow> bool" where
  "fits jc S m \<longleftrightarrow> (\<forall>x \<in> set m. row_fits jc S (snd x))"

abbreviation rows_fit :: "meta_codec \<Rightarrow> schema_info set \<Rightarrow> 'f ing_db \<Rightarrow> bool" where
  "rows_fit jc S db \<equiv> fits jc S (meta_rows db)"

definition job_fits :: "meta_codec \<Rightarrow> schema_info set \<Rightarrow> enrich_job \<Rightarrow> bool" where
  "job_fits jc S job \<longleftrightarrow> ej_Schema job \<in> S \<and> ej_SchemaText job = mc_schema jc (ej_Schema job)"

lemma meta_rows_ensure [simp]: "meta_rows (ensureMetadataTable db) = meta_rows db"
  by (auto simp: ensureMetadataTable_def meta_rows_def split: option.splits)

lemma meta_rows_update [simp]: "meta_rows (db\<lparr>db_Meta := Some m\<rparr>) = m"
  by (simp add: meta_rows_def)

lemma meta_rows_index [simp]: "meta_rows (fold (create_index t) cs db) = meta_rows db"
proof -
  have "db_Meta (create_index t c db) = db_Meta db" for c and db :: "'a ing_db"
    by (simp add: create_index_def Let_def)
  then have "db_Meta (fold (create_index t) cs db) = db_Meta db" by (induction cs arbitrary: db) simp_all
  then show ?thesis by (simp add: meta_rows_def)
qed

lemma meta_rows_raw: "meta_rows (snd (snd (ImportFileRaw (importCSV d) (importExcel d) path db))) = meta_rows db"
proof -
  obtain t r db' where i: "ImportFileRaw (importCSV d) (importExcel d) path db = (t, r, db')"
    by (cases "ImportFileRaw (importCSV d) (importExcel d) path db")
  then have "db_Meta db' = db_Meta db"
    using import_outcome [OF i]
    by (auto simp: import_good_def drop_table_def with_table_def split: sum.splits)
  with i show ?thesis by (simp add: meta_rows_def)
qed

lemma generate_rows:
  "GenerateSchemaMetadata jc scan t (Some db) = (e, Some db') \<Longrightarrow>
     meta_rows db' = meta_rows db \<or> (\<exists>schema \<in> scanned scan. meta_rows db' = AList.update t (schema_row jc schema) (meta_rows db))"
  by (fastforce simp: GenerateSchemaMetadata_def extractSchema_def scanned_def Let_def split: option.splits sum.splits)

lemma schema_row_fits: "schema \<in> S \<Longrightarrow> row_fits jc S (schema_row jc schema)"
  by (auto simp: row_fits_def schema_row_def)

lemma fits_update: "fits jc S m \<Longrightarrow> row_fits jc S row \<Longrightarrow> fits jc S (AList.update k row m)"
  by (induction m) (auto simp: fits_def)

lemma fits_delete: "fits jc S m \<Longrightarrow> fits jc S (AList.delete k m)"
  by (simp add: fits_def AList.delete_eq)

lemma fits_lookup: "fits jc S m \<Longrightarrow> map_of m k = Some row \<Longrightarrow> row_fits jc S row"
  by (drule map_of_SomeD) (auto simp: fits_def)

lemma generate_fits:
  assumes "rows_fit jc S db" "GenerateSchemaMetadata jc scan t (Some db) = (e, Some db')" "S = scanned scan"
  shows "rows_fit jc S db'"
  using generate_rows [OF assms(2)] assms(1) assms(3) fits_update [OF _ schema_row_fits] by metis

lemma drop_rows:
  "DropTable t (Some db) = (e, Some db') \<Longrightarrow> meta_rows db' = meta_rows db \<or> meta_rows db' = AList.delete t (meta_rows db)"
  by (auto simp: DropTable_def Let_def drop_table_def meta_rows_def split: option.splits)

lemma finish_fits:
  assumes "rows_fit jc S db" "job_fits jc S job" "enrich_finish jc scan job profile db = (e, db')"
    and "\<forall>s \<in> S. mc_parse_schema jc (mc_schema jc s) = Some s"
  shows "rows_fit jc S db'"
proof (cases "\<exists>row. map_of (meta_rows db) (ej_Table job) = Some row \<and> mr_Schema row = Some (ej_SchemaText job)")
  case False
  then show ?thesis using assms(1,3) by (auto simp: enrich_finish_def Let_def split: option.splits)
next
  case True
  then obtain row where row: "map_of (meta_rows db) (ej_Table job) = Some row" "mr_Schema row = Some (ej_SchemaText job)"
    by blast
  let ?rels = "ValidateRelationHints (sp_Relations profile) (ej_Schema job) (ej_Active job)
                 (target_schemas scan db (ej_Active job))"
  have "\<forall>rel \<in> set ?rels. sr_Verified rel
      \<and> to_lower (sr_SourceColumn rel) \<in> (to_lower \<circ> ci_Name) ` set (si_Columns (ej_Schema job))"
    by (auto simp: ValidateRelationHints_def relation_holds_def)
  moreover have "ej_SchemaText job = mc_schema jc (ej_Schema job)" "ej_Schema job \<in> S" using assms(2) by (simp_all add: job_fits_def)
  ultimately have "row_fits jc S (row\<lparr>mr_Semantic := Some (mc_profile jc (profile\<lparr>sp_Relations := ?rels\<rparr>)),
      mr_SemanticReady := True, mr_Relations := Some (mc_relations jc ?rels), mr_RelationsVerified := ?rels \<noteq> []\<rparr>)"
    unfolding row_fits_def using row(2)
    by (intro bexI [of _ "ej_Schema job"] conjI impI exI [of _ "profile\<lparr>sp_Relations := ?rels\<rparr>"]) simp_all
  from fits_update [OF assms(1) this, of "ej_Table job"] assms(3) row show ?thesis
    by (auto simp: enrich_finish_def Let_def)
qed

lemma begin_fits:
  assumes "rows_fit jc S db" "enrich_begin jc t db = Inr job" "\<forall>s \<in> S. mc_parse_schema jc (mc_schema jc s) = Some s"
  shows "job_fits jc S job"
proof -
  obtain row s schema where row: "map_of (meta_rows db) t = Some row" "mr_Schema row = Some s"
      "mc_parse_schema jc s = Some schema" "ej_SchemaText job = s" "ej_Schema job = schema"
    using assms(2) by (auto simp: enrich_begin_def split: option.splits)
  from fits_lookup [OF assms(1) row(1)] have "row_fits jc S row" .
  with row assms(3) show ?thesis by (auto simp: row_fits_def job_fits_def)
qed

lemma import_fits:
  assumes "rows_fit jc S db" "S = scanned scan"
  shows "rows_fit jc S (snd (snd (ImportFile d jc scan path db)))"
proof -
  obtain t r db1 where i: "ImportFileRaw (importCSV d) (importExcel d) path db = (t, r, db1)"
    by (cases "ImportFileRaw (importCSV d) (importExcel d) path db")
  have fit1: "rows_fit jc S db1" using assms(1) meta_rows_raw [of d path db] by (simp add: i)
  show ?thesis
  proof (cases r)
    case (Inr nm)
    obtain e st where g: "GenerateSchemaMetadata jc scan t (Some db1) = (e, st)"
      by (cases "GenerateSchemaMetadata jc scan t (Some db1)")
    show ?thesis
      using generate_fits [OF fit1 _ assms(2), of t e] g fit1
      by (cases st) (simp_all add: ImportFile_def i Inr)
  qed (use fit1 in \<open>simp add: ImportFile_def i\<close>)
qed

lemma ingested_fit:
  assumes "ingested d jc scan db jobs" "S = scanned scan" "\<forall>s \<in> S. mc_parse_schema jc (mc_schema jc s) = Some s"
  shows "rows_fit jc S db \<and> (\<forall>job \<in> set jobs. job_fits jc S job)"
  using assms(1)
proof (induction rule: ingested.induct)
  case ingested_start
  then show ?case by (simp add: fits_def meta_rows_def empty_db_def)
next
  case (ingested_import db jobs path)
  then show ?case using import_fits assms(2) by blast
next
  case (ingested_raw db jobs path)
  then show ?case by (simp add: meta_rows_raw)
next
  case (ingested_generate db jobs t e db')
  then show ?case using generate_fits assms(2) by blast
next
  case (ingested_drop db jobs t e db')
  then show ?case
    using drop_rows [OF ingested_drop.hyps(2)] fits_delete by metis
next
  case (ingested_begin db jobs t job)
  then show ?case using begin_fits assms(3) by auto
next
  case (ingested_finish db jobs job profile e db')
  then show ?case using finish_fits assms(3) by blast
qed

text \<open>
  C29. In every interleaving of imports, removals and analyses, an analysis that is marked ready is
  stored together with a schema that all of its relations were checked against: each is marked
  verified and starts at a column of the schema that is stored now.
\<close>

theorem ready_analysis_fits_schema:
  assumes "ingested d jc scan db jobs" "\<forall>s \<in> scanned scan. mc_parse_schema jc (mc_schema jc s) = Some s"
    and "map_of (meta_rows db) t = Some row" "mr_SemanticReady row"
  shows "\<exists>schema profile. mr_Schema row = Some (mc_schema jc schema) \<and> mr_Semantic row = Some (mc_profile jc profile)
    \<and> mr_Relations row = Some (mc_relations jc (sp_Relations profile))
    \<and> (\<forall>rel \<in> set (sp_Relations profile). sr_Verified rel
         \<and> to_lower (sr_SourceColumn rel) \<in> (to_lower \<circ> ci_Name) ` set (si_Columns schema))"
proof -
  have "row_fits jc (scanned scan) row"
    using ingested_fit [OF assms(1) refl assms(2)] fits_lookup [OF _ assms(3)] by blast
  with assms(4) show ?thesis unfolding row_fits_def by blast
qed

definition sample_schema :: schema_info where
  "sample_schema = \<lparr>si_TableName = ''f_1_a'', si_RowCount = 2,
     si_Columns = [\<lparr>ci_Name = ''id'', ci_Type = ''NUMERIC'', ci_TimeProfile = None\<rparr>], si_TimeColumns = []\<rparr>"

definition sample_profile :: SemanticProfile where
  "sample_profile = \<lparr>sp_TableSummary = ''orders'', sp_Columns = [],
     sp_Relations = [\<lparr>sr_TargetTable = ''b'', sr_TargetColumn = ''id'', sr_SourceColumn = ''nope'', sr_Reason = [], sr_Verified = True\<rparr>]\<rparr>"

definition sample_meta_codec :: meta_codec where
  "sample_meta_codec =
     \<lparr>mc_schema = \<lambda>_. ''schema'', mc_parse_schema = \<lambda>_. Some sample_schema, mc_profile = \<lambda>p. sp_TableSummary p,
      mc_parse_profile = \<lambda>_. Some sample_profile, mc_relations = \<lambda>rs. itoa (int (length rs)), mc_prompt = \<lambda>_ _. [],
      mc_object = \<lambda>_. None, mc_text = \<lambda>_. []\<rparr>"

lemma sample_import:
  "(case ImportFileRaw (importCSV sample_ing_deps) (importExcel sample_ing_deps) ''/tmp/f_1-a.csv'' empty_db of (t, r, _) \<Rightarrow> (t, r))
     = (''f_1_a'', Inr (2, 2))"
  by code_simp

lemma meta_rows_empty [simp]: "meta_rows empty_db = []"
  by (simp add: meta_rows_def empty_db_def)

theorem ready_analysis_fits_schema_witness:
  "\<exists>db jobs row. ingested sample_ing_deps sample_meta_codec (\<lambda>_ _ _. sample_schema) db jobs
     \<and> map_of (meta_rows db) ''f_1_a'' = Some row \<and> mr_SemanticReady row
     \<and> (\<exists>profile. mr_Semantic row = Some (mc_profile sample_meta_codec profile))"
proof -
  let ?t = "''f_1_a''" and ?scan = "\<lambda>_ _ _. sample_schema" and ?jc = sample_meta_codec
  let ?reach = "ingested sample_ing_deps ?jc ?scan"
  obtain db1 where i: "ImportFileRaw (importCSV sample_ing_deps) (importExcel sample_ing_deps) ''/tmp/f_1-a.csv'' empty_db = (?t, Inr (2, 2), db1)"
    using sample_import by (auto split: prod.splits)
  have r1: "?reach db1 []" using ingested_raw [OF ingested_start, of sample_ing_deps ?jc ?scan "''/tmp/f_1-a.csv''"] i by simp
  obtain tb where tb: "db_Tables db1 ?t = Some tb"
    using import_outcome [OF i] by (auto simp: import_good_def with_table_def)
  have m1: "meta_rows db1 = []"
    using meta_rows_raw [of sample_ing_deps "''/tmp/f_1-a.csv''" empty_db] meta_rows_empty by (simp add: i)
  have v: "ValidateSQLIdent ?t = None" by code_simp
  obtain db2 where g: "GenerateSchemaMetadata ?jc ?scan ?t (Some db1) = (None, Some db2)"
      "meta_rows db2 = [(?t, schema_row ?jc sample_schema)]"
    using tb v m1 by (simp add: GenerateSchemaMetadata_def extractSchema_def Let_def)
  have r2: "?reach db2 []" by (rule ingested_generate [OF r1 g(1)])
  let ?job = "\<lparr>ej_Table = ?t, ej_SchemaText = ''schema'', ej_Schema = sample_schema, ej_Active = []\<rparr>"
  have b: "enrich_begin ?jc ?t db2 = Inr ?job"
    by (simp add: enrich_begin_def g(2) schema_row_def sample_meta_codec_def)
  have r3: "?reach (ensureMetadataTable db2) [?job]" by (rule ingested_begin [OF r2 b])
  obtain db4 row where f: "enrich_finish ?jc ?scan ?job sample_profile (ensureMetadataTable db2) = (None, db4)"
      "map_of (meta_rows db4) ?t = Some row" "mr_SemanticReady row"
    by (simp add: enrich_finish_def Let_def g(2) schema_row_def sample_meta_codec_def)
  have r4: "?reach db4 [?job]" by (rule ingested_finish [OF r3 _ f(1)]) simp
  have "\<forall>s \<in> scanned ?scan. mc_parse_schema ?jc (mc_schema ?jc s) = Some s"
    by (auto simp: scanned_def sample_meta_codec_def)
  from ready_analysis_fits_schema [OF r4 this f(2,3)] r4 f(2,3) show ?thesis by blast
qed

end
