(* ===== verification/Source_Service.thy ===== *)
theory Source_Service
  imports Table_Metadata
begin

text \<open>
  Data sources, their snapshots in a session, and the semantic profiles that users confirm
  (\<open>server/service/source_service.go\<close> over the repositories of \<open>server/repository/sqlite\<close> and the
  tables of \<open>server/metadata/store.go\<close>). The column with the JSON text of a profile holds the decoded
  object; the text of an override, which comes from the user, is decoded by a parameter. Failures of
  the database itself are not modelled.
\<close>

section \<open>Tables\<close>

record data_source =
  ds_ID :: string
  ds_WorkspaceID :: string
  ds_Name :: string
  ds_SourceType :: string
  ds_FileID :: "string option"
  ds_CreatedBy :: string
  ds_CreatedAt :: int

record source_snapshot =
  sn_ID :: string
  sn_SessionID :: string
  sn_SourceID :: string
  sn_UpstreamKind :: string
  sn_UpstreamSchema :: string
  sn_UpstreamObject :: string
  sn_AnalysisTableName :: string
  sn_RowCount :: nat
  sn_ColumnCount :: nat
  sn_Status :: string
  sn_ErrorMessage :: "string option"
  sn_SchemaSignature :: string
  sn_ImportedAt :: int
  sn_ProfileMode :: string

record source_binding =
  bd_SessionID :: string
  bd_SourceID :: string
  bd_ActiveSnapshotID :: string
  bd_CreatedAt :: int
  bd_UpdatedAt :: int

type_synonym json_object = "(string \<times> json) list"

record semantic_profile =
  pf_ID :: string
  pf_SessionID :: string
  pf_SourceID :: string
  pf_SnapshotID :: string
  pf_AnalysisTableName :: string
  pf_SchemaSignature :: string
  pf_ProfileStatus :: string
  pf_ProfileJSON :: json_object
  pf_CreatedAt :: int

record semantic_confirmation =
  cf_ID :: string
  cf_ProfileID :: string
  cf_WorkspaceID :: string
  cf_SessionID :: string
  cf_ConfirmedBy :: string
  cf_Scope :: string
  cf_OverridesJSON :: string
  cf_CreatedAt :: int

record source_tables =
  st_sources :: "data_source list"
  st_snapshots :: "source_snapshot list"
  st_bindings :: "source_binding list"
  st_profiles :: "semantic_profile list"
  st_confirmations :: "semantic_confirmation list"

definition SourceTypeFileUpload :: string where "SourceTypeFileUpload = ''file_upload''"
definition SnapshotStatusReady :: string where "SnapshotStatusReady = ''ready''"
definition SnapshotStatusFailed :: string where "SnapshotStatusFailed = ''failed''"
definition ProfileModeExact :: string where "ProfileModeExact = ''exact''"
definition ProfileModeMixed :: string where "ProfileModeMixed = ''mixed''"
definition ProfileModeSampled :: string where "ProfileModeSampled = ''sampled''"
definition ProfileStatusProfiled :: string where "ProfileStatusProfiled = ''profiled''"
definition ProfileStatusConfirmed :: string where "ProfileStatusConfirmed = ''confirmed''"
definition ConfirmationScopeSession :: string where "ConfirmationScopeSession = ''session''"
definition ConfirmationScopeWorkspace :: string where "ConfirmationScopeWorkspace = ''workspace''"

section \<open>Repositories\<close>

text \<open>The foreign keys cascade: sources to snapshots, bindings and profiles, snapshots to profiles,
  profiles to confirmations.\<close>

definition delete_profiles :: "(semantic_profile \<Rightarrow> bool) \<Rightarrow> source_tables \<Rightarrow> source_tables" where
  "delete_profiles P t =
     (let gone = pf_ID ` set (filter P (st_profiles t))
      in t\<lparr>st_profiles := filter (\<lambda>p. \<not> P p) (st_profiles t),
           st_confirmations := filter (\<lambda>c. cf_ProfileID c \<notin> gone) (st_confirmations t)\<rparr>)"

definition delete_snapshots :: "(source_snapshot \<Rightarrow> bool) \<Rightarrow> source_tables \<Rightarrow> source_tables" where
  "delete_snapshots P t =
     (let gone = sn_ID ` set (filter P (st_snapshots t));
          t1 = delete_profiles (\<lambda>p. pf_SnapshotID p \<in> gone) t
      in t1\<lparr>st_snapshots := filter (\<lambda>s. \<not> P s) (st_snapshots t1)\<rparr>)"

definition DataSource_Create :: "data_source \<Rightarrow> source_tables \<Rightarrow> db_error option \<times> source_tables" where
  "DataSource_Create ds t =
     (if ds_ID ds \<in> ds_ID ` set (st_sources t) then (Some ConstraintFailed, t)
      else (None, t\<lparr>st_sources := st_sources t @ [ds]\<rparr>))"

definition DataSource_GetByID :: "source_tables \<Rightarrow> string \<Rightarrow> data_source option" where
  "DataSource_GetByID t i = find (\<lambda>ds. ds_ID ds = i) (st_sources t)"

definition DataSource_GetByFileID :: "source_tables \<Rightarrow> string \<Rightarrow> data_source option" where
  "DataSource_GetByFileID t fileID = find (\<lambda>ds. ds_FileID ds = Some fileID) (st_sources t)"

definition DataSource_Delete :: "string \<Rightarrow> source_tables \<Rightarrow> source_tables" where
  "DataSource_Delete i t =
     (let t1 = delete_profiles (\<lambda>p. pf_SourceID p = i) (delete_snapshots (\<lambda>s. sn_SourceID s = i) t)
      in t1\<lparr>st_sources := filter (\<lambda>ds. ds_ID ds \<noteq> i) (st_sources t1),
            st_bindings := filter (\<lambda>b. bd_SourceID b \<noteq> i) (st_bindings t1)\<rparr>)"

definition Snapshot_Create :: "source_snapshot \<Rightarrow> source_tables \<Rightarrow> db_error option \<times> source_tables" where
  "Snapshot_Create s t =
     (if sn_ID s \<in> sn_ID ` set (st_snapshots t) \<or> sn_SourceID s \<notin> ds_ID ` set (st_sources t)
      then (Some ConstraintFailed, t) else (None, t\<lparr>st_snapshots := st_snapshots t @ [s]\<rparr>))"

definition Snapshot_GetByID :: "source_tables \<Rightarrow> string \<Rightarrow> source_snapshot option" where
  "Snapshot_GetByID t i = find (\<lambda>s. sn_ID s = i) (st_snapshots t)"

definition Snapshot_ListBySource :: "source_tables \<Rightarrow> string \<Rightarrow> source_snapshot list" where
  "Snapshot_ListBySource t sourceID =
     sort_key (\<lambda>s. - sn_ImportedAt s) (filter (\<lambda>s. sn_SourceID s = sourceID) (st_snapshots t))"

definition Snapshot_UpdateStatus :: "string \<Rightarrow> string \<Rightarrow> string option \<Rightarrow> source_tables \<Rightarrow> source_tables" where
  "Snapshot_UpdateStatus i status err t =
     t\<lparr>st_snapshots := map (\<lambda>s. if sn_ID s = i then s\<lparr>sn_Status := status, sn_ErrorMessage := err\<rparr> else s) (st_snapshots t)\<rparr>"

definition Snapshot_Delete :: "string \<Rightarrow> source_tables \<Rightarrow> source_tables" where
  "Snapshot_Delete i t = delete_snapshots (\<lambda>s. sn_ID s = i) t"

definition Binding_Upsert ::
  "(string \<Rightarrow> bool) \<Rightarrow> source_binding \<Rightarrow> source_tables \<Rightarrow> db_error option \<times> source_tables" where
  "Binding_Upsert session_row b t =
     (if \<not> session_row (bd_SessionID b) \<or> bd_SourceID b \<notin> ds_ID ` set (st_sources t) then (Some ConstraintFailed, t)
      else if \<exists>x \<in> set (st_bindings t). bd_SessionID x = bd_SessionID b \<and> bd_SourceID x = bd_SourceID b
      then (None, t\<lparr>st_bindings := map (\<lambda>x. if bd_SessionID x = bd_SessionID b \<and> bd_SourceID x = bd_SourceID b
                then x\<lparr>bd_ActiveSnapshotID := bd_ActiveSnapshotID b, bd_UpdatedAt := bd_UpdatedAt b\<rparr> else x) (st_bindings t)\<rparr>)
      else (None, t\<lparr>st_bindings := st_bindings t @ [b]\<rparr>))"

definition Binding_GetBySession :: "source_tables \<Rightarrow> string \<Rightarrow> source_binding list" where
  "Binding_GetBySession t sid = filter (\<lambda>b. bd_SessionID b = sid) (st_bindings t)"

definition Binding_GetBySessionAndSource :: "source_tables \<Rightarrow> string \<Rightarrow> string \<Rightarrow> source_binding option" where
  "Binding_GetBySessionAndSource t sid src = find (\<lambda>b. bd_SessionID b = sid \<and> bd_SourceID b = src) (st_bindings t)"

definition Binding_Delete :: "string \<Rightarrow> string \<Rightarrow> source_tables \<Rightarrow> source_tables" where
  "Binding_Delete sid src t =
     t\<lparr>st_bindings := filter (\<lambda>b. \<not> (bd_SessionID b = sid \<and> bd_SourceID b = src)) (st_bindings t)\<rparr>"

definition Profile_Create :: "semantic_profile \<Rightarrow> source_tables \<Rightarrow> db_error option \<times> source_tables" where
  "Profile_Create p t =
     (if pf_ID p \<in> pf_ID ` set (st_profiles t) \<or> pf_SourceID p \<notin> ds_ID ` set (st_sources t)
         \<or> pf_SnapshotID p \<notin> sn_ID ` set (st_snapshots t)
      then (Some ConstraintFailed, t) else (None, t\<lparr>st_profiles := st_profiles t @ [p]\<rparr>))"

definition Profile_GetByID :: "source_tables \<Rightarrow> string \<Rightarrow> semantic_profile option" where
  "Profile_GetByID t i = find (\<lambda>p. pf_ID p = i) (st_profiles t)"

definition Profile_ListBySession :: "source_tables \<Rightarrow> string \<Rightarrow> semantic_profile list" where
  "Profile_ListBySession t sid = sort_key pf_CreatedAt (filter (\<lambda>p. pf_SessionID p = sid) (st_profiles t))"

definition Profile_ListBySource :: "source_tables \<Rightarrow> string \<Rightarrow> semantic_profile list" where
  "Profile_ListBySource t src = sort_key (\<lambda>p. - pf_CreatedAt p) (filter (\<lambda>p. pf_SourceID p = src) (st_profiles t))"

definition update_profile :: "string \<Rightarrow> (semantic_profile \<Rightarrow> semantic_profile) \<Rightarrow> source_tables \<Rightarrow> source_tables" where
  "update_profile i f t = t\<lparr>st_profiles := map (\<lambda>p. if pf_ID p = i then f p else p) (st_profiles t)\<rparr>"

definition Profile_UpdateStatus :: "string \<Rightarrow> string \<Rightarrow> source_tables \<Rightarrow> source_tables" where
  "Profile_UpdateStatus i status = update_profile i (\<lambda>p. p\<lparr>pf_ProfileStatus := status\<rparr>)"

definition Profile_UpdateProfileJSON :: "string \<Rightarrow> json_object \<Rightarrow> source_tables \<Rightarrow> source_tables" where
  "Profile_UpdateProfileJSON i js = update_profile i (\<lambda>p. p\<lparr>pf_ProfileJSON := js\<rparr>)"

definition Profile_Delete :: "string \<Rightarrow> source_tables \<Rightarrow> source_tables" where
  "Profile_Delete i t = delete_profiles (\<lambda>p. pf_ID p = i) t"

text \<open>The newest confirmation for the workspace of a source with a profile of this signature.\<close>

definition FindWorkspaceConfirmation :: "source_tables \<Rightarrow> string \<Rightarrow> string \<Rightarrow> semantic_confirmation option" where
  "FindWorkspaceConfirmation t workspaceID signature =
     (let ok = (\<lambda>c. cf_Scope c = ConfirmationScopeWorkspace \<and>
                  (\<exists>p \<in> set (st_profiles t). pf_ID p = cf_ProfileID c \<and> pf_SchemaSignature p = signature
                     \<and> (\<exists>ds \<in> set (st_sources t). ds_ID ds = pf_SourceID p \<and> ds_WorkspaceID ds = workspaceID)))
      in case sort_key (\<lambda>c. - cf_CreatedAt c) (filter ok (st_confirmations t)) of [] \<Rightarrow> None | c # _ \<Rightarrow> Some c)"

definition Confirmation_Create :: "semantic_confirmation \<Rightarrow> source_tables \<Rightarrow> db_error option \<times> source_tables" where
  "Confirmation_Create c t =
     (if cf_ID c \<in> cf_ID ` set (st_confirmations t) \<or> cf_ProfileID c \<notin> pf_ID ` set (st_profiles t)
      then (Some ConstraintFailed, t) else (None, t\<lparr>st_confirmations := st_confirmations t @ [c]\<rparr>))"

definition Confirmation_ListByProfile :: "source_tables \<Rightarrow> string \<Rightarrow> semantic_confirmation list" where
  "Confirmation_ListByProfile t i = sort_key (\<lambda>c. - cf_CreatedAt c) (filter (\<lambda>c. cf_ProfileID c = i) (st_confirmations t))"

definition Confirmation_ListBySession :: "source_tables \<Rightarrow> string \<Rightarrow> semantic_confirmation list" where
  "Confirmation_ListBySession t sid = sort_key (\<lambda>c. - cf_CreatedAt c) (filter (\<lambda>c. cf_SessionID c = sid) (st_confirmations t))"

definition Confirmation_DeleteByProfile :: "string \<Rightarrow> source_tables \<Rightarrow> source_tables" where
  "Confirmation_DeleteByProfile i t =
     t\<lparr>st_confirmations := filter (\<lambda>c. cf_ProfileID c \<noteq> i) (st_confirmations t)\<rparr>"

section \<open>Sources and snapshots\<close>

text \<open>
  From outside: the clock, the random part of new ids, the rows of the session table, and the decoding
  of JSON. \<open>se_facts\<close> tells whether a profile's object decodes into \<open>ProfiledFacts\<close>.
\<close>

record source_env =
  se_now :: int
  se_uuid :: string
  se_session_row :: "string \<Rightarrow> bool"
  se_decode :: "string \<Rightarrow> json option"
  se_facts :: "json_object \<Rightarrow> bool"

definition cleanup_profiles :: "(semantic_profile \<Rightarrow> bool) \<Rightarrow> semantic_profile list \<Rightarrow> source_tables \<Rightarrow> source_tables" where
  "cleanup_profiles P ps t =
     fold (\<lambda>p t. if P p then Profile_Delete (pf_ID p) (Confirmation_DeleteByProfile (pf_ID p) t) else t) ps t"

definition cleanupOldSnapshots :: "string \<Rightarrow> string \<Rightarrow> source_tables \<Rightarrow> source_tables" where
  "cleanupOldSnapshots sessionID sourceID t =
     fold (\<lambda>snap t. if sn_SessionID snap \<noteq> sessionID then t
                    else Snapshot_Delete (sn_ID snap)
                           (cleanup_profiles (\<lambda>p. pf_SnapshotID p = sn_ID snap) (Profile_ListBySource t sourceID) t))
       (Snapshot_ListBySource t sourceID) t"

definition EnsureFileSource ::
  "source_env \<Rightarrow> string \<Rightarrow> string \<Rightarrow> string \<Rightarrow> string \<Rightarrow> source_tables \<Rightarrow> data_source result \<times> source_tables" where
  "EnsureFileSource env workspaceID fileID displayName uploadedBy t =
     (case DataSource_GetByFileID t fileID of
        Some ds \<Rightarrow> (Inr ds, t)
      | None \<Rightarrow>
          let ds = \<lparr>ds_ID = ''ds_'' @ take 12 (se_uuid env), ds_WorkspaceID = workspaceID, ds_Name = displayName,
                    ds_SourceType = SourceTypeFileUpload, ds_FileID = Some fileID, ds_CreatedBy = uploadedBy,
                    ds_CreatedAt = se_now env\<rparr>
          in case DataSource_Create ds t of
               (Some _, t1) \<Rightarrow> (Inl ''failed to create file-backed data source: constraint failed'', t1)
             | (None, t1) \<Rightarrow> (Inr ds, t1))"

text \<open>What a caller knows of an imported table.\<close>

record snapshot_input =
  ni_SessionID :: string
  ni_SourceID :: string
  ni_UpstreamKind :: string
  ni_UpstreamSchema :: string
  ni_UpstreamObject :: string
  ni_TableName :: string
  ni_RowCount :: nat
  ni_ColCount :: nat
  ni_Signature :: string
  ni_ProfileMode :: string

definition new_snapshot :: "source_env \<Rightarrow> snapshot_input \<Rightarrow> source_snapshot" where
  "new_snapshot env inp =
     \<lparr>sn_ID = ''snap_'' @ take 12 (se_uuid env), sn_SessionID = ni_SessionID inp, sn_SourceID = ni_SourceID inp,
      sn_UpstreamKind = ni_UpstreamKind inp, sn_UpstreamSchema = ni_UpstreamSchema inp,
      sn_UpstreamObject = ni_UpstreamObject inp, sn_AnalysisTableName = ni_TableName inp,
      sn_RowCount = ni_RowCount inp, sn_ColumnCount = ni_ColCount inp, sn_Status = SnapshotStatusReady,
      sn_ErrorMessage = None, sn_SchemaSignature = ni_Signature inp, sn_ImportedAt = se_now env,
      sn_ProfileMode = ni_ProfileMode inp\<rparr>"

definition new_binding :: "source_env \<Rightarrow> snapshot_input \<Rightarrow> source_binding" where
  "new_binding env inp =
     \<lparr>bd_SessionID = ni_SessionID inp, bd_SourceID = ni_SourceID inp, bd_ActiveSnapshotID = sn_ID (new_snapshot env inp),
      bd_CreatedAt = se_now env, bd_UpdatedAt = se_now env\<rparr>"

definition CreateSnapshot ::
  "source_env \<Rightarrow> snapshot_input \<Rightarrow> source_tables \<Rightarrow> source_snapshot result \<times> source_tables" where
  "CreateSnapshot env inp t =
     (case Snapshot_Create (new_snapshot env inp) (cleanupOldSnapshots (ni_SessionID inp) (ni_SourceID inp) t) of
        (Some _, t1) \<Rightarrow> (Inl ''failed to create source snapshot: constraint failed'', t1)
      | (None, t1) \<Rightarrow>
          (case Binding_Upsert (se_session_row env) (new_binding env inp) t1 of
             (Some _, t2) \<Rightarrow> (Inl ''failed to create session source binding: constraint failed'', t2)
           | (None, t2) \<Rightarrow> (Inr (new_snapshot env inp), t2)))"

definition GetActiveSnapshotForFile :: "source_tables \<Rightarrow> string \<Rightarrow> string \<Rightarrow> source_snapshot option result" where
  "GetActiveSnapshotForFile t sessionID fileID =
     (case DataSource_GetByFileID t fileID of
        None \<Rightarrow> Inr None
      | Some ds \<Rightarrow>
          (case Binding_GetBySessionAndSource t sessionID (ds_ID ds) of
             None \<Rightarrow> Inr None
           | Some b \<Rightarrow>
               (case Snapshot_GetByID t (bd_ActiveSnapshotID b) of
                  None \<Rightarrow> Inl ''sql: no rows in result set''
                | Some s \<Rightarrow> Inr (Some s))))"

definition RemoveSessionSource :: "string \<Rightarrow> string \<Rightarrow> source_tables \<Rightarrow> string \<times> source_tables" where
  "RemoveSessionSource sessionID sourceID t =
     (case Binding_GetBySessionAndSource t sessionID sourceID of
        None \<Rightarrow> ([], t)
      | Some b \<Rightarrow>
          let tableName = (case Snapshot_GetByID t (bd_ActiveSnapshotID b) of Some s \<Rightarrow> sn_AnalysisTableName s | None \<Rightarrow> []);
              t1 = cleanup_profiles (\<lambda>p. pf_SessionID p = sessionID) (Profile_ListBySource t sourceID) t;
              t2 = fold (\<lambda>snap t. if sn_SessionID snap = sessionID then Snapshot_Delete (sn_ID snap) t else t)
                     (Snapshot_ListBySource t1 sourceID) t1
          in (tableName, Binding_Delete sessionID sourceID t2))"

definition DeleteWorkspaceSource :: "string \<Rightarrow> source_tables \<Rightarrow> (string \<times> string) list \<times> source_tables" where
  "DeleteWorkspaceSource sourceID t =
     (let tables = map (\<lambda>s. (sn_SessionID s, sn_AnalysisTableName s))
                     (filter (\<lambda>s. trim_space (sn_AnalysisTableName s) \<noteq> []) (Snapshot_ListBySource t sourceID));
          t1 = fold (\<lambda>p t. Confirmation_DeleteByProfile (pf_ID p) t) (Profile_ListBySource t sourceID) t
      in (tables, DataSource_Delete sourceID t1))"

definition RecordSnapshotError :: "string \<Rightarrow> string \<Rightarrow> source_tables \<Rightarrow> source_tables" where
  "RecordSnapshotError i err t = Snapshot_UpdateStatus i SnapshotStatusFailed (Some err) t"

section \<open>Bindings\<close>

lemma delete_profiles_frame [simp]:
  "st_sources (delete_profiles P t) = st_sources t" "st_snapshots (delete_profiles P t) = st_snapshots t"
  "st_bindings (delete_profiles P t) = st_bindings t"
  by (simp_all add: delete_profiles_def Let_def)

lemma delete_snapshots_frame [simp]:
  "st_sources (delete_snapshots P t) = st_sources t" "st_bindings (delete_snapshots P t) = st_bindings t"
  "st_snapshots (delete_snapshots P t) = filter (\<lambda>s. \<not> P s) (st_snapshots t)"
  by (simp_all add: delete_snapshots_def Let_def)

lemma confirmation_delete_frame [simp]:
  "st_sources (Confirmation_DeleteByProfile i t) = st_sources t" "st_snapshots (Confirmation_DeleteByProfile i t) = st_snapshots t"
  "st_bindings (Confirmation_DeleteByProfile i t) = st_bindings t"
  by (simp_all add: Confirmation_DeleteByProfile_def)

text \<open>The part of the tables that the bindings depend on.\<close>

definition frame :: "source_tables \<Rightarrow> data_source list \<times> source_snapshot list \<times> source_binding list" where
  "frame t = (st_sources t, st_snapshots t, st_bindings t)"

lemma frame_eqD:
  "frame t' = frame t \<Longrightarrow> st_sources t' = st_sources t \<and> st_snapshots t' = st_snapshots t \<and> st_bindings t' = st_bindings t"
  by (simp add: frame_def)

lemma cleanup_profiles_frame [simp]: "frame (cleanup_profiles P ps t) = frame t"
  unfolding cleanup_profiles_def
  by (induction ps arbitrary: t) (simp_all add: frame_def Profile_Delete_def)

lemma delete_listed_snapshots:
  assumes "\<And>x t. frame (g x t) = frame t"
  shows "frame (fold (\<lambda>x t. if P x then Snapshot_Delete (sn_ID x) (g x t) else t) xs t)
    = (st_sources t, filter (\<lambda>s. \<not> (\<exists>x \<in> set xs. P x \<and> sn_ID s = sn_ID x)) (st_snapshots t), st_bindings t)"
proof (induction xs arbitrary: t)
  case (Cons x xs)
  have f: "frame (Snapshot_Delete (sn_ID x) (g x t))
      = (st_sources t, filter (\<lambda>s. sn_ID s \<noteq> sn_ID x) (st_snapshots t), st_bindings t)"
    using frame_eqD [OF assms [of x t]] by (simp add: Snapshot_Delete_def frame_def)
  show ?case
    using f by (auto simp: Cons.IH) (auto simp: frame_def intro: filter_cong)
qed (simp add: frame_def)

definition of_pair :: "string \<Rightarrow> string \<Rightarrow> source_snapshot \<Rightarrow> bool" where
  "of_pair sid src s \<longleftrightarrow> sn_SessionID s = sid \<and> sn_SourceID s = src"

definition tables_ok :: "(string \<Rightarrow> bool) \<Rightarrow> source_tables \<Rightarrow> bool" where
  "tables_ok session_row t \<longleftrightarrow>
     distinct (map sn_ID (st_snapshots t)) \<and>
     distinct (map (\<lambda>b. (bd_SessionID b, bd_SourceID b)) (st_bindings t)) \<and>
     (\<forall>b \<in> set (st_bindings t). session_row (bd_SessionID b) \<and> bd_SourceID b \<in> ds_ID ` set (st_sources t) \<and>
        (\<exists>s \<in> set (st_snapshots t). sn_ID s = bd_ActiveSnapshotID b \<and> of_pair (bd_SessionID b) (bd_SourceID b) s))"

lemma same_snapshot:
  "distinct (map sn_ID ss) \<Longrightarrow> s \<in> set ss \<Longrightarrow> x \<in> set ss \<Longrightarrow> sn_ID s = sn_ID x \<Longrightarrow> s = x"
  by (metis distinct_map inj_onD)

lemma cleanup_snapshots:
  assumes "distinct (map sn_ID (st_snapshots t))"
  shows "frame (cleanupOldSnapshots sid src t)
    = (st_sources t, filter (\<lambda>s. \<not> of_pair sid src s) (st_snapshots t), st_bindings t)"
proof -
  have "cleanupOldSnapshots sid src t =
      fold (\<lambda>x t. if sn_SessionID x = sid then Snapshot_Delete (sn_ID x)
              (cleanup_profiles (\<lambda>p. pf_SnapshotID p = sn_ID x) (Profile_ListBySource t src) t) else t)
        (Snapshot_ListBySource t src) t"
    unfolding cleanupOldSnapshots_def by (intro fold_cong refl) auto
  then have "frame (cleanupOldSnapshots sid src t) = (st_sources t,
      filter (\<lambda>s. \<not> (\<exists>x \<in> set (Snapshot_ListBySource t src). sn_SessionID x = sid \<and> sn_ID s = sn_ID x)) (st_snapshots t),
      st_bindings t)"
    by (simp add: delete_listed_snapshots)
  moreover have "filter (\<lambda>s. \<not> (\<exists>x \<in> set (Snapshot_ListBySource t src). sn_SessionID x = sid \<and> sn_ID s = sn_ID x)) (st_snapshots t)
      = filter (\<lambda>s. \<not> of_pair sid src s) (st_snapshots t)"
    using same_snapshot [OF assms] by (intro filter_cong refl) (auto simp: Snapshot_ListBySource_def of_pair_def)
  ultimately show ?thesis by simp
qed

lemma remove_snapshots:
  assumes "distinct (map sn_ID (st_snapshots t))" "Binding_GetBySessionAndSource t sid src \<noteq> None"
  shows "frame (snd (RemoveSessionSource sid src t)) = (st_sources t, filter (\<lambda>s. \<not> of_pair sid src s) (st_snapshots t),
    filter (\<lambda>b. \<not> (bd_SessionID b = sid \<and> bd_SourceID b = src)) (st_bindings t))"
proof -
  let ?t1 = "cleanup_profiles (\<lambda>p. pf_SessionID p = sid) (Profile_ListBySource t src) t"
  note t1 = frame_eqD [OF cleanup_profiles_frame, of "\<lambda>p. pf_SessionID p = sid" "Profile_ListBySource t src" t]
  have l: "set (Snapshot_ListBySource ?t1 src) = {s \<in> set (st_snapshots t). sn_SourceID s = src}"
    using t1 by (auto simp: Snapshot_ListBySource_def)
  have "filter (\<lambda>s. \<not> (\<exists>x \<in> set (Snapshot_ListBySource ?t1 src). sn_SessionID x = sid \<and> sn_ID s = sn_ID x)) (st_snapshots t)
      = filter (\<lambda>s. \<not> of_pair sid src s) (st_snapshots t)"
    using same_snapshot [OF assms(1)] unfolding l by (intro filter_cong refl) (auto simp: of_pair_def)
  moreover have "frame (fold (\<lambda>x t. if sn_SessionID x = sid then Snapshot_Delete (sn_ID x) t else t) (Snapshot_ListBySource ?t1 src) ?t1)
      = (st_sources t, filter (\<lambda>s. \<not> (\<exists>x \<in> set (Snapshot_ListBySource ?t1 src). sn_SessionID x = sid \<and> sn_ID s = sn_ID x)) (st_snapshots t),
         st_bindings t)"
    using delete_listed_snapshots [of "\<lambda>x t. t" "\<lambda>x. sn_SessionID x = sid" "Snapshot_ListBySource ?t1 src" ?t1] t1 by simp
  ultimately show ?thesis
    using assms(2) by (auto simp: RemoveSessionSource_def Let_def Binding_Delete_def frame_def)
qed

lemma tables_ok_cong: "frame t' = frame t \<Longrightarrow> tables_ok sr t' = tables_ok sr t"
  using frame_eqD [of t' t] by (simp add: tables_ok_def)

text \<open>Dropping the snapshots and bindings of some pairs of session and source.\<close>

lemma tables_ok_bound: "tables_ok sr t \<Longrightarrow> b \<in> set (st_bindings t) \<Longrightarrow> sr (bd_SessionID b) \<and> bd_SourceID b \<in> ds_ID ` set (st_sources t)"
  by (simp add: tables_ok_def)

lemma tables_ok_drop:
  assumes "tables_ok sr t" "\<forall>b \<in> set (st_bindings t'). bd_SourceID b \<in> ds_ID ` set (st_sources t')"
    and "st_snapshots t' = filter (\<lambda>s. \<not> Q (sn_SessionID s) (sn_SourceID s)) (st_snapshots t)"
    and "st_bindings t' = filter (\<lambda>b. \<not> Q (bd_SessionID b) (bd_SourceID b)) (st_bindings t)"
  shows "tables_ok sr t'"
  unfolding tables_ok_def
proof (intro conjI ballI)
  fix b assume b': "b \<in> set (st_bindings t')"
  then have b: "b \<in> set (st_bindings t)" "\<not> Q (bd_SessionID b) (bd_SourceID b)" using assms(4) by simp_all
  then obtain s where "s \<in> set (st_snapshots t)" "sn_ID s = bd_ActiveSnapshotID b" "of_pair (bd_SessionID b) (bd_SourceID b) s"
    using assms(1) unfolding tables_ok_def by blast
  with b(2) show "\<exists>s \<in> set (st_snapshots t'). sn_ID s = bd_ActiveSnapshotID b \<and> of_pair (bd_SessionID b) (bd_SourceID b) s"
    by (auto simp: assms(3) of_pair_def intro!: bexI [of _ s])
  show "sr (bd_SessionID b)" using tables_ok_bound [OF assms(1) b(1)] by simp
  show "bd_SourceID b \<in> ds_ID ` set (st_sources t')" using assms(2) b' by blast
qed (use assms(1) in \<open>simp_all add: assms(3,4) tables_ok_def distinct_map_filter\<close>)

lemma upsert_frame [simp]:
  "st_sources (snd (Binding_Upsert sr b t)) = st_sources t" "st_snapshots (snd (Binding_Upsert sr b t)) = st_snapshots t"
  by (simp_all add: Binding_Upsert_def)

lemma create_snapshot_ok:
  assumes "tables_ok sr t" "''snap_'' @ take 12 (se_uuid env) \<notin> sn_ID ` set (st_snapshots t)" "se_session_row env = sr"
  shows "tables_ok sr (snd (CreateSnapshot env inp t))
    \<and> (\<forall>s. fst (CreateSnapshot env inp t) = Inr s \<longrightarrow>
          of_pair (ni_SessionID inp) (ni_SourceID inp) s
          \<and> filter (of_pair (ni_SessionID inp) (ni_SourceID inp)) (st_snapshots (snd (CreateSnapshot env inp t))) = [s]
          \<and> (\<exists>b. Binding_GetBySessionAndSource (snd (CreateSnapshot env inp t)) (ni_SessionID inp) (ni_SourceID inp) = Some b
               \<and> bd_ActiveSnapshotID b = sn_ID s))"
proof -
  let ?sid = "ni_SessionID inp" and ?src = "ni_SourceID inp"
  define t0 where "t0 = cleanupOldSnapshots ?sid ?src t"
  have t0: "st_sources t0 = st_sources t" "st_snapshots t0 = filter (\<lambda>s. \<not> of_pair ?sid ?src s) (st_snapshots t)"
      "st_bindings t0 = st_bindings t"
    using cleanup_snapshots [of t ?sid ?src] assms(1) by (auto simp: t0_def frame_def tables_ok_def)
  define snap where "snap = new_snapshot env inp"
  note snap_simps = snap_def new_snapshot_def new_binding_def
  have fresh: "sn_ID snap \<notin> sn_ID ` set (st_snapshots t0)" using assms(2) t0(2) by (auto simp: snap_simps)
  have pair: "of_pair ?sid ?src snap" by (simp add: of_pair_def snap_simps)
  have new: "CreateSnapshot env inp t =
      (case Snapshot_Create snap t0 of
         (Some _, t1) \<Rightarrow> (Inl ''failed to create source snapshot: constraint failed'', t1)
       | (None, t1) \<Rightarrow>
           (case Binding_Upsert sr (new_binding env inp) t1 of
              (Some _, t2) \<Rightarrow> (Inl ''failed to create session source binding: constraint failed'', t2)
            | (None, t2) \<Rightarrow> (Inr snap, t2)))"
    unfolding CreateSnapshot_def t0_def snap_def assms(3) ..
  show ?thesis
  proof (cases "?src \<in> ds_ID ` set (st_sources t) \<and> sr ?sid")
    case False
    then have free: "\<forall>b \<in> set (st_bindings t). \<not> (bd_SessionID b = ?sid \<and> bd_SourceID b = ?src)"
      using tables_ok_bound [OF assms(1)] by metis
    have b0: "st_bindings t = filter (\<lambda>b. \<not> (bd_SessionID b = ?sid \<and> bd_SourceID b = ?src)) (st_bindings t)"
      using free by (metis (mono_tags, lifting) filter_True)
    have ok0: "tables_ok sr t0"
      by (rule tables_ok_drop [OF assms(1), of _ "\<lambda>x y. x = ?sid \<and> y = ?src"]) (use t0 b0 tables_ok_bound [OF assms(1)] in \<open>simp_all add: of_pair_def\<close>)
    have "tables_ok sr (t0\<lparr>st_snapshots := st_snapshots t0 @ [snap]\<rparr>)"
      using ok0 fresh by (auto simp: tables_ok_def)
    then show ?thesis
      using False ok0 fresh t0(1) pair unfolding new
      by (auto simp: Snapshot_Create_def Binding_Upsert_def snap_simps)
  next
    case True
    let ?t1 = "t0\<lparr>st_snapshots := st_snapshots t0 @ [snap]\<rparr>"
    let ?b = "new_binding env inp"
    have c: "Snapshot_Create snap t0 = (None, ?t1)" using True fresh t0(1) by (simp add: Snapshot_Create_def snap_simps)
    define t2 where "t2 = snd (Binding_Upsert sr ?b ?t1)"
    have u: "Binding_Upsert sr ?b ?t1 = (None, t2)"
      using True t0(1) by (auto simp: t2_def Binding_Upsert_def new_binding_def)
    have res: "CreateSnapshot env inp t = (Inr snap, t2)" unfolding new c using u by simp
    have b2: "st_bindings t2 =
        (if \<exists>x \<in> set (st_bindings t). bd_SessionID x = ?sid \<and> bd_SourceID x = ?src
         then map (\<lambda>x. if bd_SessionID x = ?sid \<and> bd_SourceID x = ?src
                       then x\<lparr>bd_ActiveSnapshotID := sn_ID snap, bd_UpdatedAt := se_now env\<rparr> else x) (st_bindings t)
         else st_bindings t @ [?b])"
      using u True t0 by (auto simp: Binding_Upsert_def snap_simps split: if_splits)
    have keys: "distinct (map (\<lambda>b. (bd_SessionID b, bd_SourceID b)) (st_bindings t2))"
    proof (cases "\<exists>x \<in> set (st_bindings t). bd_SessionID x = ?sid \<and> bd_SourceID x = ?src")
      case True
      define F where "F x = (if bd_SessionID x = ?sid \<and> bd_SourceID x = ?src
          then x\<lparr>bd_ActiveSnapshotID := sn_ID snap, bd_UpdatedAt := se_now env\<rparr> else x)" for x :: source_binding
      have "st_bindings t2 = map F (st_bindings t)" using b2 True by (simp add: F_def)
      moreover have "map (\<lambda>b. (bd_SessionID b, bd_SourceID b)) (map F (st_bindings t))
          = map (\<lambda>b. (bd_SessionID b, bd_SourceID b)) (st_bindings t)" by (simp add: F_def)
      ultimately show ?thesis using assms(1) by (simp only: tables_ok_def)
    next
      case False
      then have "st_bindings t2 = st_bindings t @ [?b]" using b2 by simp
      then show ?thesis using assms(1) False by (auto simp: tables_ok_def new_binding_def)
    qed
    have members: "\<forall>b \<in> set (st_bindings t2).
        (bd_SessionID b = ?sid \<and> bd_SourceID b = ?src \<and> bd_ActiveSnapshotID b = sn_ID snap)
        \<or> (b \<in> set (st_bindings t) \<and> \<not> (bd_SessionID b = ?sid \<and> bd_SourceID b = ?src))"
      unfolding b2 by (auto simp: new_binding_def snap_def)
    have s2: "st_sources t2 = st_sources t" "st_snapshots t2 = st_snapshots t0 @ [snap]" using t0(1) by (simp_all add: t2_def)
    have ok: "tables_ok sr t2"
      unfolding tables_ok_def s2
    proof (intro conjI ballI)
      show "distinct (map sn_ID (st_snapshots t0 @ [snap]))"
        using assms(1) fresh by (auto simp: tables_ok_def t0(2) distinct_map_filter)
      show "distinct (map (\<lambda>b. (bd_SessionID b, bd_SourceID b)) (st_bindings t2))" by (rule keys)
    next
      fix b assume b: "b \<in> set (st_bindings t2)"
      show "sr (bd_SessionID b)" using members b True assms(1) by (auto simp: tables_ok_def)
      show "bd_SourceID b \<in> ds_ID ` set (st_sources t)" using members b True assms(1) by (auto simp: tables_ok_def)
      show "\<exists>s \<in> set (st_snapshots t0 @ [snap]). sn_ID s = bd_ActiveSnapshotID b \<and> of_pair (bd_SessionID b) (bd_SourceID b) s"
        using members b pair assms(1) unfolding tables_ok_def t0(2) of_pair_def by fastforce
    qed
    have "\<exists>b. Binding_GetBySessionAndSource t2 ?sid ?src = Some b \<and> bd_ActiveSnapshotID b = sn_ID snap"
    proof -
      have "\<exists>b \<in> set (st_bindings t2). bd_SessionID b = ?sid \<and> bd_SourceID b = ?src"
      proof (cases "\<exists>x \<in> set (st_bindings t). bd_SessionID x = ?sid \<and> bd_SourceID x = ?src")
        case True
        then obtain x where x: "x \<in> set (st_bindings t)" "bd_SessionID x = ?sid" "bd_SourceID x = ?src" by blast
        then have "x\<lparr>bd_ActiveSnapshotID := sn_ID snap, bd_UpdatedAt := se_now env\<rparr> \<in> set (st_bindings t2)"
          using b2 True by (auto simp: image_iff intro!: bexI [of _ x])
        then show ?thesis using x(2,3) by (intro bexI) simp_all
      next
        case False
        then have "st_bindings t2 = st_bindings t @ [?b]" using b2 by simp
        then show ?thesis by (simp add: new_binding_def)
      qed
      then have "Binding_GetBySessionAndSource t2 ?sid ?src \<noteq> None"
        by (auto simp: Binding_GetBySessionAndSource_def find_None_iff)
      then obtain b where "Binding_GetBySessionAndSource t2 ?sid ?src = Some b"
        by blast
      moreover have "b \<in> set (st_bindings t2)" "bd_SessionID b = ?sid" "bd_SourceID b = ?src"
        using calculation by (auto simp: Binding_GetBySessionAndSource_def find_Some_iff)
      ultimately show ?thesis using members by blast
    qed
    moreover have "filter (of_pair ?sid ?src) (st_snapshots t2) = [snap]"
      using pair by (simp add: s2 t0(2))
    ultimately show ?thesis using ok pair by (simp add: res)
  qed
qed

text \<open>The states that uploads, imports and removals lead to; the ids of new snapshots are fresh.\<close>

inductive sourced :: "(string \<Rightarrow> bool) \<Rightarrow> source_tables \<Rightarrow> bool" for session_row :: "string \<Rightarrow> bool" where
  sourced_start: "sourced session_row \<lparr>st_sources = [], st_snapshots = [], st_bindings = [], st_profiles = [], st_confirmations = []\<rparr>"
| sourced_source: "sourced session_row (snd (EnsureFileSource env ws fileID name user t))" if "sourced session_row t"
| sourced_snapshot: "sourced session_row (snd (CreateSnapshot env inp t))"
    if "sourced session_row t" "se_session_row env = session_row"
       "''snap_'' @ take 12 (se_uuid env) \<notin> sn_ID ` set (st_snapshots t)"
| sourced_remove: "sourced session_row (snd (RemoveSessionSource sid src t))" if "sourced session_row t"
| sourced_delete: "sourced session_row (snd (DeleteWorkspaceSource src t))" if "sourced session_row t"
| sourced_failed: "sourced session_row (RecordSnapshotError i err t)" if "sourced session_row t"
| sourced_other: "sourced session_row t'" if "sourced session_row t" "frame t' = frame t"

lemma ensure_ok: "tables_ok sr t \<Longrightarrow> tables_ok sr (snd (EnsureFileSource env ws fileID name user t))"
  by (fastforce simp: EnsureFileSource_def DataSource_Create_def tables_ok_def Let_def split: option.splits)

lemma remove_ok: "tables_ok sr t \<Longrightarrow> tables_ok sr (snd (RemoveSessionSource sid src t))"
proof (cases "Binding_GetBySessionAndSource t sid src = None")
  case False
  assume ok: "tables_ok sr t"
  then have "frame (snd (RemoveSessionSource sid src t)) = (st_sources t, filter (\<lambda>s. \<not> of_pair sid src s) (st_snapshots t),
      filter (\<lambda>b. \<not> (bd_SessionID b = sid \<and> bd_SourceID b = src)) (st_bindings t))"
    using remove_snapshots [OF _ False] by (simp add: tables_ok_def)
  then show ?thesis
    using tables_ok_bound [OF ok]
    by (intro tables_ok_drop [OF ok, of _ "\<lambda>x y. x = sid \<and> y = src"]) (simp_all add: frame_def of_pair_def)
qed (simp add: RemoveSessionSource_def)

lemma delete_source_ok: "tables_ok sr t \<Longrightarrow> tables_ok sr (snd (DeleteWorkspaceSource src t))"
proof -
  assume ok: "tables_ok sr t"
  let ?t1 = "fold (\<lambda>p t. Confirmation_DeleteByProfile (pf_ID p) t) (Profile_ListBySource t src) t"
  have "frame (fold (\<lambda>p t. Confirmation_DeleteByProfile (pf_ID p) t) ps t) = frame t" for ps :: "semantic_profile list" and t
    by (induction ps arbitrary: t) (simp_all add: frame_def)
  note t1 = frame_eqD [OF this]
  have "st_bindings (snd (DeleteWorkspaceSource src t)) = filter (\<lambda>b. bd_SourceID b \<noteq> src) (st_bindings t)"
    "st_snapshots (snd (DeleteWorkspaceSource src t)) = filter (\<lambda>s. sn_SourceID s \<noteq> src) (st_snapshots t)"
    "st_sources (snd (DeleteWorkspaceSource src t)) = filter (\<lambda>ds. ds_ID ds \<noteq> src) (st_sources t)"
    using t1 by (simp_all add: DeleteWorkspaceSource_def DataSource_Delete_def Let_def)
  then show ?thesis
    using tables_ok_bound [OF ok] by (intro tables_ok_drop [OF ok, of _ "\<lambda>x y. y = src"]) auto
qed

lemma failed_ok:
  assumes ok: "tables_ok sr t"
  shows "tables_ok sr (RecordSnapshotError i err t)"
proof -
  define f :: "source_snapshot \<Rightarrow> source_snapshot" where "f s = (if sn_ID s = i then s\<lparr>sn_Status := SnapshotStatusFailed, sn_ErrorMessage := Some err\<rparr> else s)" for s
  have f: "sn_ID (f s) = sn_ID s" "of_pair a b (f s) = of_pair a b s" for s a b by (simp_all add: f_def of_pair_def)
  have r: "RecordSnapshotError i err t = t\<lparr>st_snapshots := map f (st_snapshots t)\<rparr>"
    by (simp add: RecordSnapshotError_def Snapshot_UpdateStatus_def f_def)
  have ids: "map sn_ID (map f (st_snapshots t)) = map sn_ID (st_snapshots t)" by (simp add: f)
  show ?thesis
    unfolding tables_ok_def
  proof (intro conjI ballI)
    show "distinct (map sn_ID (st_snapshots (RecordSnapshotError i err t)))"
      using ok ids by (simp add: r tables_ok_def del: map_map)
    fix b assume "b \<in> set (st_bindings (RecordSnapshotError i err t))"
    then have b: "b \<in> set (st_bindings t)" by (simp add: r)
    then obtain s where "s \<in> set (st_snapshots t)" "sn_ID s = bd_ActiveSnapshotID b" "of_pair (bd_SessionID b) (bd_SourceID b) s"
      using ok unfolding tables_ok_def by blast
    then show "\<exists>s \<in> set (st_snapshots (RecordSnapshotError i err t)).
        sn_ID s = bd_ActiveSnapshotID b \<and> of_pair (bd_SessionID b) (bd_SourceID b) s"
      by (auto simp: r f)
    show "sr (bd_SessionID b)" "bd_SourceID b \<in> ds_ID ` set (st_sources (RecordSnapshotError i err t))"
      using tables_ok_bound [OF ok b] by (simp_all add: r)
  qed (use ok in \<open>simp add: r tables_ok_def\<close>)
qed

lemma sourced_ok: "sourced sr t \<Longrightarrow> tables_ok sr t"
proof (induction rule: sourced.induct)
  case (sourced_snapshot t env inp)
  then show ?case using create_snapshot_ok by blast
next
  case (sourced_other t t')
  then show ?case using tables_ok_cong by blast
qed (auto simp: tables_ok_def [of _ "\<lparr>st_sources = [], st_snapshots = [], st_bindings = [], st_profiles = [], st_confirmations = []\<rparr>"]
      intro: ensure_ok remove_ok delete_source_ok failed_ok)

text \<open>
  C30. The active snapshot of a source in a session always exists and is a snapshot of that source in that
  session; asking for the snapshot of a file never fails.
\<close>

theorem active_snapshot_exists:
  assumes "sourced session_row t"
  shows "\<exists>x. GetActiveSnapshotForFile t sessionID fileID = Inr x \<and>
    (\<forall>s. x = Some s \<longrightarrow> sn_SessionID s = sessionID
       \<and> (\<exists>ds \<in> set (st_sources t). ds_FileID ds = Some fileID \<and> ds_ID ds = sn_SourceID s))"
proof -
  have ok: "tables_ok session_row t" by (rule sourced_ok [OF assms])
  show ?thesis
  proof (cases "DataSource_GetByFileID t fileID")
    case (Some ds)
    then have ds: "ds \<in> set (st_sources t)" "ds_FileID ds = Some fileID"
      by (auto simp: DataSource_GetByFileID_def find_Some_iff)
    show ?thesis
    proof (cases "Binding_GetBySessionAndSource t sessionID (ds_ID ds)")
      case b: (Some b)
      then have "b \<in> set (st_bindings t)" "bd_SessionID b = sessionID" "bd_SourceID b = ds_ID ds"
        by (auto simp: Binding_GetBySessionAndSource_def find_Some_iff)
      then obtain s where s: "s \<in> set (st_snapshots t)" "sn_ID s = bd_ActiveSnapshotID b" "of_pair sessionID (ds_ID ds) s"
        using ok by (auto simp: tables_ok_def)
      obtain s' where s': "Snapshot_GetByID t (bd_ActiveSnapshotID b) = Some s'"
        using s(1,2) by (cases "Snapshot_GetByID t (bd_ActiveSnapshotID b)") (auto simp: Snapshot_GetByID_def find_None_iff)
      then have "s' \<in> set (st_snapshots t)" "sn_ID s' = sn_ID s"
        using s(2) by (auto simp: Snapshot_GetByID_def find_Some_iff)
      then have "s' = s" using same_snapshot ok s(1) by (auto simp: tables_ok_def)
      with Some b s' s(3) ds show ?thesis by (auto simp: GetActiveSnapshotForFile_def of_pair_def)
    qed (use Some in \<open>simp add: GetActiveSnapshotForFile_def\<close>)
  qed (simp add: GetActiveSnapshotForFile_def)
qed

definition source_sample_env :: "string \<Rightarrow> source_env" where
  "source_sample_env u = \<lparr>se_now = 0, se_uuid = u, se_session_row = \<lambda>_. True, se_decode = \<lambda>_. None, se_facts = \<lambda>_. True\<rparr>"

definition no_sources :: source_tables where
  "no_sources = \<lparr>st_sources = [], st_snapshots = [], st_bindings = [], st_profiles = [], st_confirmations = []\<rparr>"

definition sample_snapshot :: snapshot_input where
  "sample_snapshot =
     \<lparr>ni_SessionID = ''s_1'', ni_SourceID = ''ds_a'', ni_UpstreamKind = ''file_upload'', ni_UpstreamSchema = [],
      ni_UpstreamObject = ''a.csv'', ni_TableName = ''f_1_a'', ni_RowCount = 2, ni_ColCount = 2,
      ni_Signature = [], ni_ProfileMode = ProfileModeExact\<rparr>"

definition sample_tables :: source_tables where
  "sample_tables = snd (CreateSnapshot (source_sample_env ''1'') sample_snapshot
     (snd (EnsureFileSource (source_sample_env ''a'') ''w_1'' ''f_1'' ''a.csv'' ''u_1'' no_sources)))"

theorem active_snapshot_exists_witness:
  "\<exists>s. GetActiveSnapshotForFile sample_tables ''s_1'' ''f_1'' = Inr (Some s) \<and> sn_SessionID s = ''s_1''"
proof -
  let ?t = "snd (EnsureFileSource (source_sample_env ''a'') ''w_1'' ''f_1'' ''a.csv'' ''u_1'' no_sources)"
  have "sourced (\<lambda>_. True) ?t" using sourced_source [OF sourced_start] by (simp add: no_sources_def)
  moreover have "''snap_'' @ take 12 (se_uuid (source_sample_env ''1'')) \<notin> sn_ID ` set (st_snapshots ?t)" by code_simp
  ultimately have "sourced (\<lambda>_. True) sample_tables"
    unfolding sample_tables_def by (intro sourced_snapshot) (simp_all add: source_sample_env_def)
  from active_snapshot_exists [OF this, of "''s_1''" "''f_1''"]
  obtain x where x: "GetActiveSnapshotForFile sample_tables ''s_1'' ''f_1'' = Inr x"
      "\<forall>s. x = Some s \<longrightarrow> sn_SessionID s = ''s_1''" by blast
  moreover have "(case GetActiveSnapshotForFile sample_tables ''s_1'' ''f_1'' of Inr y \<Rightarrow> y \<noteq> None | Inl _ \<Rightarrow> False)" by code_simp
  ultimately show ?thesis by auto
qed

end
