(* ===== verification/Profile_Facts.thy ===== *)
theory Profile_Facts
  imports Table_Metadata
begin

text \<open>
  The facts of a semantic profile: what is proposed for the columns of a schema and which proposals
  are ambiguous (\<open>server/service/source_service.go\<close>, \<open>BuildProfileFacts\<close>, with the groups of metrics of
  \<open>server/data/analyzer.go\<close>). Go iterates over the groups in any order; here it is the order in which
  they are first met. The JSON form of the facts is written out, with the schema's as a parameter.
\<close>

section \<open>Groups of metrics\<close>

fun field_runs :: "(char \<Rightarrow> bool) \<Rightarrow> string \<Rightarrow> string \<Rightarrow> string list" where
  "field_runs sep [] acc = (if acc = [] then [] else [acc])"
| "field_runs sep (c # s) acc =
     (if sep c then (if acc = [] then field_runs sep s [] else acc # field_runs sep s [])
      else field_runs sep s (acc @ [c]))"

definition token_char :: "char \<Rightarrow> bool" where
  "token_char c \<longleftrightarrow> (CHR ''a'' \<le> c \<and> c \<le> CHR ''z'') \<or> is_digit c"

definition TokenizeColumnName :: "string \<Rightarrow> string list" where
  "TokenizeColumnName name = field_runs (\<lambda>c. \<not> token_char c) (to_lower (trim_space name)) []"

definition MetricQualifierTokens :: "string list" where
  "MetricQualifierTokens =
     [''actual'', ''adjusted'', ''booked'', ''confirmed'', ''estimated'', ''est'', ''final'', ''forecast'',
      ''gross'', ''net'', ''planned'', ''plan'', ''projected'', ''raw'', ''recognized'', ''target'',
      ''tentative'', ''unconfirmed'']"

definition numeric_type :: "string \<Rightarrow> bool" where
  "numeric_type t \<longleftrightarrow> t \<in> {''NUMERIC'', ''INTEGER'', ''REAL''}"

text \<open>The key of the group of a column: its name without qualifiers.\<close>

definition metric_key :: "column_info \<Rightarrow> string option" where
  "metric_key c =
     (let tokens = TokenizeColumnName (ci_Name c);
          core = filter (\<lambda>t. t \<notin> set MetricQualifierTokens) tokens
      in if \<not> numeric_type (to_upper (trim_space (ci_Type c))) then None
         else if length tokens < 2 then None
         else if length core = length tokens \<or> core = [] then None
         else Some (join ''_'' core))"

fun group_metrics :: "column_info list \<Rightarrow> (string \<times> string list) list \<Rightarrow> (string \<times> string list) list" where
  "group_metrics [] g = g"
| "group_metrics (c # cs) g =
     group_metrics cs
       (case metric_key c of
          None \<Rightarrow> g
        | Some k \<Rightarrow> AList.update k ((case map_of g k of Some ns \<Rightarrow> ns | None \<Rightarrow> []) @ [ci_Name c]) g)"

definition InferAmbiguousMetricGroups :: "column_info list \<Rightarrow> (string \<times> string list) list" where
  "InferAmbiguousMetricGroups columns = filter (\<lambda>(_, names). length names \<ge> 2) (group_metrics columns [])"

section \<open>Candidates\<close>

record SemanticCandidate =
  smc_ColumnName :: string
  smc_BusinessAlias :: string
  smc_Role :: string

record JoinCandidate =
  jc_LeftTable :: string
  jc_LeftColumn :: string
  jc_RightTable :: string
  jc_RightColumn :: string
  jc_Reason :: string

record TimeCandidate =
  tc_ColumnName :: string
  tc_Grain :: string
  tc_CoverageStart :: string
  tc_CoverageEnd :: string

record Ambiguity =
  ab_Kind :: string
  ab_Description :: string
  ab_Candidates :: "string list"

record ProfiledFacts =
  pc_Schema :: schema_info
  pc_ProfileMode :: string
  pc_SnapshotSizeBytes :: nat
  pc_Estimated :: bool
  pc_Semantic :: "SemanticCandidate list"
  pc_Join :: "JoinCandidate list"
  pc_Metric :: "(string \<times> string) list"
  pc_Time :: "TimeCandidate list"
  pc_Unit :: "(string \<times> string) list"
  pc_Ambiguities :: "Ambiguity list"
  pc_Warnings :: "string list"

definition inferColumnRole :: "column_info \<Rightarrow> string" where
  "inferColumnRole c =
     (let name = to_lower (ci_Name c)
      in if ci_TimeProfile c \<noteq> None then ''time''
         else if suffix ''_id'' name \<or> name = ''id'' then ''id''
         else if numeric_type (ci_Type c) then ''metric''
         else ''dimension'')"

definition unitPatterns :: "(string list \<times> string) list" where
  "unitPatterns =
     [([''amount'', ''revenue'', ''sales'', ''price'', ''cost'', ''fee'', ''pay''], ''currency''),
      ([''weight'', ''mass'', ''kg'', ''gram''], ''mass''),
      ([''length'', ''distance'', ''height'', ''width'', ''meter'', ''km''], ''length''),
      ([''percent'', ''rate'', ''ratio'', ''pct''], ''percentage'')]"

definition detected_unit :: "string \<Rightarrow> string option" where
  "detected_unit name =
     map_option snd (find (\<lambda>(words, _). list_ex (\<lambda>w. contains (to_lower name) w) words) unitPatterns)"

definition inferUnitCandidates :: "column_info list \<Rightarrow> (string \<times> string) list" where
  "inferUnitCandidates columns =
     List.map_filter (\<lambda>c. if numeric_type (ci_Type c) then map_option (Pair (ci_Name c)) (detected_unit (ci_Name c)) else None)
       columns"

text \<open>What the model said about a column replaces the alias, and the role unless it is empty.\<close>

definition apply_semantic :: "SemanticColumn list \<Rightarrow> SemanticCandidate \<Rightarrow> SemanticCandidate" where
  "apply_semantic cols sc =
     fold (\<lambda>col x. if smc_ColumnName x \<noteq> sc_Name col then x
                   else x\<lparr>smc_BusinessAlias := sc_BusinessAlias col,
                          smc_Role := (if sc_Role col \<noteq> [] then sc_Role col else smc_Role x)\<rparr>) cols sc"

definition BuildProfileFacts ::
  "schema_info \<Rightarrow> SemanticProfile option \<Rightarrow> string \<Rightarrow> nat \<Rightarrow> ProfiledFacts" where
  "BuildProfileFacts schema profile profileMode snapshotSizeBytes =
     (let columns = si_Columns schema;
          times = si_TimeColumns schema;
          semantic = map (\<lambda>c. \<lparr>smc_ColumnName = ci_Name c, smc_BusinessAlias = [], smc_Role = inferColumnRole c\<rparr>) columns;
          groups = InferAmbiguousMetricGroups columns;
          units = inferUnitCandidates columns;
          estimated = (profileMode \<noteq> ''exact'')
      in \<lparr>pc_Schema = schema, pc_ProfileMode = profileMode, pc_SnapshotSizeBytes = snapshotSizeBytes,
          pc_Estimated = estimated,
          pc_Semantic = (case profile of None \<Rightarrow> semantic | Some p \<Rightarrow> map (apply_semantic (sp_Columns p)) semantic),
          pc_Join = (case profile of
                       None \<Rightarrow> []
                     | Some p \<Rightarrow> map (\<lambda>r. \<lparr>jc_LeftTable = si_TableName schema, jc_LeftColumn = sr_SourceColumn r,
                                        jc_RightTable = sr_TargetTable r, jc_RightColumn = sr_TargetColumn r,
                                        jc_Reason = sr_Reason r\<rparr>) (sp_Relations p)),
          pc_Metric = concat (map (\<lambda>(key, names). map (\<lambda>n. (n, key)) names) groups),
          pc_Time = map (\<lambda>t. \<lparr>tc_ColumnName = ti_Name t, tc_Grain = ti_Grain t, tc_CoverageStart = ti_CoverageStart t,
                             tc_CoverageEnd = ti_CoverageEnd t\<rparr>) times,
          pc_Unit = units,
          pc_Ambiguities =
            (if length times > 1
             then [\<lparr>ab_Kind = ''multiple_time_columns'', ab_Description = ''multiple time column candidates'',
                    ab_Candidates = map ti_Name times\<rparr>] else [])
            @ map (\<lambda>(key, names). \<lparr>ab_Kind = ''ambiguous_metrics'',
                     ab_Description = ''same-semantics numeric column candidates: '' @ key, ab_Candidates = names\<rparr>) groups
            @ (if length units > 1
               then [\<lparr>ab_Kind = ''ambiguous_units'', ab_Description = ''multiple columns with conflicting unit candidates'',
                      ab_Candidates = map (\<lambda>(n, u). n @ ''('' @ u @ '')'') units\<rparr>] else []),
          pc_Warnings =
            (case profile of
               None \<Rightarrow> []
             | Some p \<Rightarrow> concat (map (\<lambda>c. map (\<lambda>w. ''column '' @ sc_Name c @ '': '' @ w) (sc_Warnings c)) (sp_Columns p)))
            @ (if estimated then [''profile is based on sampled data; statistics are estimated, not exact''] else [])\<rparr>)"

section \<open>JSON form\<close>

text \<open>An empty slice that was never allocated is encoded as \<open>null\<close>.\<close>

definition jarr :: "json list \<Rightarrow> json" where
  "jarr xs = (if xs = [] then JNull else JArr xs)"

definition ambiguity_json :: "Ambiguity \<Rightarrow> json" where
  "ambiguity_json a =
     JObj [(''kind'', JStr (ab_Kind a)), (''description'', JStr (ab_Description a)),
           (''candidates'', jarr (map JStr (ab_Candidates a)))]"

definition profile_facts_json :: "(schema_info \<Rightarrow> json) \<Rightarrow> ProfiledFacts \<Rightarrow> (string \<times> json) list" where
  "profile_facts_json sj f =
     (let est = (''estimated'', JBool (pc_Estimated f))
      in [(''schema'', sj (pc_Schema f)),
          (''profile_mode'', JStr (pc_ProfileMode f))]
         @ (if pc_SnapshotSizeBytes f = 0 then [] else [(''snapshot_size_bytes'', JInt (int (pc_SnapshotSizeBytes f)))])
         @ [(''semantic_candidates'', jarr (map (\<lambda>s. JObj [(''column_name'', JStr (smc_ColumnName s)),
               (''business_alias'', JStr (smc_BusinessAlias s)), (''role'', JStr (smc_Role s)), est]) (pc_Semantic f))),
            (''join_candidates'', jarr (map (\<lambda>j. JObj [(''left_table'', JStr (jc_LeftTable j)),
               (''left_column'', JStr (jc_LeftColumn j)), (''right_table'', JStr (jc_RightTable j)),
               (''right_column'', JStr (jc_RightColumn j)), (''reason'', JStr (jc_Reason j)),
               (''estimated'', JBool True)]) (pc_Join f))),
            (''metric_candidates'', jarr (map (\<lambda>(n, k). JObj [(''column_name'', JStr n), (''semantic_key'', JStr k), est])
               (pc_Metric f))),
            (''time_candidates'', jarr (map (\<lambda>t. JObj ([(''column_name'', JStr (tc_ColumnName t)), (''grain'', JStr (tc_Grain t))]
               @ (if tc_CoverageStart t = [] then [] else [(''coverage_start'', JStr (tc_CoverageStart t))])
               @ (if tc_CoverageEnd t = [] then [] else [(''coverage_end'', JStr (tc_CoverageEnd t))]) @ [est])) (pc_Time f))),
            (''unit_candidates'', jarr (map (\<lambda>(n, u). JObj [(''column_name'', JStr n), (''detected_unit'', JStr u),
               (''scale'', JInt 1), est]) (pc_Unit f))),
            (''ambiguities'', jarr (map ambiguity_json (pc_Ambiguities f))),
            (''warnings'', jarr (map JStr (pc_Warnings f)))])"

section \<open>Every ambiguity has its candidates\<close>

lemma update_all:
  "\<forall>x \<in> set g. P (snd x) \<Longrightarrow> P v \<Longrightarrow> \<forall>x \<in> set (AList.update k v g). P (snd x)"
  by (induction g) auto

lemma group_names:
  assumes "\<forall>x \<in> set g. set (snd x) \<subseteq> N" "ci_Name ` set cs \<subseteq> N"
  shows "\<forall>x \<in> set (group_metrics cs g). set (snd x) \<subseteq> N"
  using assms
proof (induction cs g rule: group_metrics.induct)
  case (2 c cs g)
  have "set (case map_of g k of Some ns \<Rightarrow> ns | None \<Rightarrow> []) \<subseteq> N" for k
  proof (cases "map_of g k")
    case (Some ns)
    then show ?thesis using "2.prems"(1) map_of_SomeD [OF Some] by force
  qed simp
  then have "\<forall>x \<in> set (AList.update k ((case map_of g k of Some ns \<Rightarrow> ns | None \<Rightarrow> []) @ [ci_Name c]) g). set (snd x) \<subseteq> N" for k
    using "2.prems" by (intro update_all) auto
  then have "\<forall>x \<in> set (case metric_key c of None \<Rightarrow> g
        | Some k \<Rightarrow> AList.update k ((case map_of g k of Some ns \<Rightarrow> ns | None \<Rightarrow> []) @ [ci_Name c]) g). set (snd x) \<subseteq> N"
    using "2.prems"(1) by (cases "metric_key c") (simp_all only: option.case)
  from "2.IH" [OF this] "2.prems"(2) show ?case by simp
qed simp

lemma groups_of_columns:
  "(k, ns) \<in> set (InferAmbiguousMetricGroups cs) \<Longrightarrow> set ns \<subseteq> ci_Name ` set cs \<and> length ns \<ge> 2"
  using group_names [of "[]" "ci_Name ` set cs" cs] by (force simp: InferAmbiguousMetricGroups_def)

lemma units_of_columns: "(n, u) \<in> set (inferUnitCandidates cs) \<Longrightarrow> n \<in> ci_Name ` set cs"
  by (auto simp: inferUnitCandidates_def List.map_filter_def split: if_splits)

lemma apply_semantic_name [simp]: "smc_ColumnName (apply_semantic cols x) = smc_ColumnName x"
  unfolding apply_semantic_def by (induction cols arbitrary: x) simp_all

text \<open>
  The facts propose exactly one meaning for every column, in the order of the columns; metrics and
  units are proposed for columns of the table only; and every ambiguity that is reported offers at
  least two candidates.
\<close>

lemma profile_facts_cover_columns:
  "map smc_ColumnName (pc_Semantic (BuildProfileFacts schema profile mode bytes)) = map ci_Name (si_Columns schema)
   \<and> fst ` set (pc_Metric (BuildProfileFacts schema profile mode bytes)) \<subseteq> ci_Name ` set (si_Columns schema)
   \<and> fst ` set (pc_Unit (BuildProfileFacts schema profile mode bytes)) \<subseteq> ci_Name ` set (si_Columns schema)
   \<and> (\<forall>a \<in> set (pc_Ambiguities (BuildProfileFacts schema profile mode bytes)). length (ab_Candidates a) \<ge> 2)"
  (is "?sem \<and> ?met \<and> ?unit \<and> ?amb")
proof (intro conjI)
  show ?sem by (simp add: BuildProfileFacts_def Let_def comp_def split: option.splits)
  show ?met using groups_of_columns by (fastforce simp: BuildProfileFacts_def Let_def)
  show ?unit using units_of_columns by (fastforce simp: BuildProfileFacts_def Let_def)
  show ?amb using groups_of_columns by (fastforce simp: BuildProfileFacts_def Let_def split: if_splits)
qed

text \<open>Two columns with the same unit are reported as a conflict of units.\<close>

definition money_columns :: schema_info where
  "money_columns = \<lparr>si_TableName = ''t'', si_RowCount = 1,
     si_Columns = [\<lparr>ci_Name = ''price'', ci_Type = ''NUMERIC'', ci_TimeProfile = None\<rparr>,
                   \<lparr>ci_Name = ''cost'', ci_Type = ''NUMERIC'', ci_TimeProfile = None\<rparr>],
     si_TimeColumns = []\<rparr>"

lemma same_unit_conflicts:
  "map ab_Description (pc_Ambiguities (BuildProfileFacts money_columns None ''exact'' 0))
     = [''multiple columns with conflicting unit candidates'']
   \<and> pc_Unit (BuildProfileFacts money_columns None ''exact'' 0) = [(''price'', ''currency''), (''cost'', ''currency'')]"
  by code_simp

section \<open>Schema signatures\<close>

text \<open>The text that is hashed into the signature of a schema.\<close>

definition signature_text :: "schema_info \<Rightarrow> string" where
  "signature_text schema =
     si_TableName schema @ '':'' @ concat (map (\<lambda>c. ci_Name c @ '':'' @ ci_Type c @ '':'') (si_Columns schema))"

definition ComputeSchemaSignature :: "(string \<Rightarrow> string) \<Rightarrow> schema_info \<Rightarrow> string" where
  "ComputeSchemaSignature hexHash schema = take 16 (hexHash (signature_text schema))"

text \<open>The signature depends on the name of the analysis table, which contains the id of the upload.\<close>

lemma signature_names_table:
  assumes "CHR '':'' \<notin> set (si_TableName s1)" "CHR '':'' \<notin> set (si_TableName s2)" "si_TableName s1 \<noteq> si_TableName s2"
  shows "signature_text s1 \<noteq> signature_text s2"
proof
  assume "signature_text s1 = signature_text s2"
  then have "takeWhile (\<lambda>c. c \<noteq> CHR '':'') (signature_text s1) = takeWhile (\<lambda>c. c \<noteq> CHR '':'') (signature_text s2)" by simp
  moreover have "takeWhile (\<lambda>c. c \<noteq> CHR '':'') (n @ '':'' @ r) = n" if "CHR '':'' \<notin> set n" for n r :: string
    using that by (induction n) auto
  ultimately show False using assms by (simp add: signature_text_def)
qed

end
