(* ===== verification/Source_Profiles.thy ===== *)
theory Source_Profiles
  imports Source_Service Profile_Facts
begin

text \<open>
  Semantic profiles in use (\<open>server/service/source_service.go\<close>): storing the facts of a snapshot,
  confirming a profile with overrides, merging overrides into the stored object, and the overview of
  the sources of a session. Objects are association lists with one entry per key, as Go's maps.
\<close>

section \<open>Merging overrides\<close>

function deepMergeValues :: "json \<Rightarrow> json \<Rightarrow> json"
  and merge_into :: "json_object \<Rightarrow> json_object \<Rightarrow> json_object" where
  "deepMergeValues b v = (case (b, v) of (JObj m, JObj n) \<Rightarrow> JObj (merge_into m n) | _ \<Rightarrow> v)"
| "merge_into m [] = m"
| "merge_into m ((k, v) # n) =
     merge_into (AList.update k (case map_of m k of Some e \<Rightarrow> deepMergeValues e v | None \<Rightarrow> v) m) n"
  by pat_completeness auto
termination
  by (relation "measure (\<lambda>x. case x of Inl (b, v) \<Rightarrow> 2 * size v | Inr (m, n) \<Rightarrow> 2 * size_list (size_prod (\<lambda>_. 0) size) n + 1)")
     (auto split: json.splits)

declare deepMergeValues.simps [simp del]

lemma merge_values_simps [simp]:
  "deepMergeValues (JObj m) (JObj n) = JObj (merge_into m n)"
  "(\<forall>m. b \<noteq> JObj m) \<Longrightarrow> deepMergeValues b v = v"
  "(\<forall>n. v \<noteq> JObj n) \<Longrightarrow> deepMergeValues b v = v"
  by (simp_all add: deepMergeValues.simps split: json.splits)

definition decode_object :: "source_env \<Rightarrow> string \<Rightarrow> json_object option" where
  "decode_object env s =
     (case se_decode env s of Some (JObj m) \<Rightarrow> Some m | Some JNull \<Rightarrow> Some [] | _ \<Rightarrow> None)"

definition deepMergeOverrideIntoProfile :: "source_env \<Rightarrow> json_object \<Rightarrow> string \<Rightarrow> json_object" where
  "deepMergeOverrideIntoProfile env profile overridesJSON =
     (case decode_object env overridesJSON of None \<Rightarrow> profile | Some overrides \<Rightarrow> merge_into profile overrides)"

text \<open>The value at a path of keys.\<close>

fun json_at :: "json \<Rightarrow> string list \<Rightarrow> json option" where
  "json_at j [] = Some j"
| "json_at (JObj m) (k # ks) = Option.bind (map_of m k) (\<lambda>j. json_at j ks)"
| "json_at j (k # ks) = None"

text \<open>A path that the object has nothing to say about.\<close>

fun unmentioned :: "json \<Rightarrow> string list \<Rightarrow> bool" where
  "unmentioned j [] = False"
| "unmentioned (JObj m) (k # ks) = (case map_of m k of None \<Rightarrow> True | Some j \<Rightarrow> unmentioned j ks)"
| "unmentioned j (k # ks) = False"

text \<open>No object has a key twice.\<close>

inductive keyed :: "json \<Rightarrow> bool" where
  keyed_obj: "keyed (JObj m)" if "distinct (map fst m)" "\<forall>(k, j) \<in> set m. keyed j"
| keyed_leaf: "keyed j" if "\<forall>m. j \<noteq> JObj m"

inductive_simps keyed_JObj: "keyed (JObj m)"

lemma map_of_merge_into:
  assumes "distinct (map fst n)"
  shows "map_of (merge_into m n) k =
    (case map_of n k of None \<Rightarrow> map_of m k
     | Some v \<Rightarrow> Some (case map_of m k of Some e \<Rightarrow> deepMergeValues e v | None \<Rightarrow> v))"
  using assms
proof (induction n arbitrary: m)
  case (Cons x n)
  obtain l v where x: "x = (l, v)" by (cases x)
  then have "map_of n l = None" using Cons.prems by (auto simp: map_of_eq_None_iff)
  then show ?case using Cons x by (auto simp: update_conv' split: option.splits)
qed simp

lemma merge_leaf:
  "keyed v \<Longrightarrow> json_at v p = Some x \<Longrightarrow> (\<forall>m. x \<noteq> JObj m) \<Longrightarrow> json_at (deepMergeValues b v) p = Some x"
proof (induction p arbitrary: b v)
  case (Cons k p)
  obtain n where v: "v = JObj n" using Cons.prems(2) by (cases v) auto
  obtain w where w: "map_of n k = Some w" "json_at w p = Some x"
    using Cons.prems(2) v by (auto simp: bind_eq_Some_conv)
  have d: "distinct (map fst n)" "keyed w"
    using Cons.prems(1) v map_of_SomeD [OF w(1)] by (auto simp: keyed_JObj)
  show ?case
  proof (cases "\<exists>m. b = JObj m")
    case True
    then obtain m where b: "b = JObj m" ..
    show ?thesis
      using Cons.IH [OF d(2) w(2) Cons.prems(3)] w by (simp add: b v map_of_merge_into [OF d(1)] split: option.splits)
  next
    case False
    then show ?thesis using Cons.prems(2) by simp
  qed
qed simp

lemma merge_unmentioned:
  "keyed v \<Longrightarrow> unmentioned v p \<Longrightarrow> b = JObj m \<Longrightarrow> json_at (deepMergeValues b v) p = json_at b p"
proof (induction p arbitrary: b v m)
  case (Cons k p)
  obtain n where v: "v = JObj n" using Cons.prems(2) by (cases v) auto
  have d: "distinct (map fst n)" using Cons.prems(1) v by (auto simp: keyed_JObj)
  show ?case
  proof (cases "map_of n k")
    case None
    then show ?thesis using Cons.prems(3) by (simp add: v map_of_merge_into [OF d])
  next
    case (Some w)
    then have w: "keyed w" "unmentioned w p"
      using Cons.prems(1,2) v map_of_SomeD [OF Some] by (auto simp: keyed_JObj)
    show ?thesis
    proof (cases "map_of m k")
      case None
      have "json_at w p = None" using w(2) by (induction w p rule: unmentioned.induct) (auto split: option.splits)
      with None Some Cons.prems(3) show ?thesis by (simp add: v map_of_merge_into [OF d])
    next
      case e: (Some e)
      have "json_at (deepMergeValues e w) p = json_at e p"
      proof (cases "\<exists>m'. e = JObj m'")
        case True
        then show ?thesis using Cons.IH [OF w] by blast
      next
        case False
        have wp: "json_at w p = None" "p \<noteq> []"
          using w(2) by (induction w p rule: unmentioned.induct) (auto split: option.splits)
        then have "json_at e p = None" using False by (cases p; cases e) auto
        with wp False show ?thesis by simp
      qed
      with e Some Cons.prems(3) show ?thesis by (simp add: v map_of_merge_into [OF d])
    qed
  qed
qed simp

text \<open>
  Merging overrides into a profile sets exactly what the overrides mention: every leaf of the
  overrides is found at its path in the result, and every path they do not mention keeps its value.
\<close>

theorem overrides_set_what_they_mention:
  assumes "decode_object env s = Some n" "keyed (JObj n)"
  shows "(\<forall>p x. json_at (JObj n) p = Some x \<longrightarrow> (\<forall>m. x \<noteq> JObj m) \<longrightarrow>
            json_at (JObj (deepMergeOverrideIntoProfile env profile s)) p = Some x)
    \<and> (\<forall>p. unmentioned (JObj n) p \<longrightarrow>
            json_at (JObj (deepMergeOverrideIntoProfile env profile s)) p = json_at (JObj profile) p)"
proof -
  have "JObj (deepMergeOverrideIntoProfile env profile s) = deepMergeValues (JObj profile) (JObj n)"
    using assms(1) by (simp add: deepMergeOverrideIntoProfile_def)
  with merge_leaf [OF assms(2)] merge_unmentioned [OF assms(2) _ refl] show ?thesis by metis
qed

definition override_env :: source_env where
  "override_env = (source_sample_env ''1'')\<lparr>se_decode := \<lambda>s. if s = ''o'' then Some (JObj [(''time'', JObj [(''column'', JStr ''day'')])])
     else if s = ''x'' then Some (JObj [(''note'', JStr ''ok'')])
     else if s = ''old'' then Some (JObj [(''unit'', JStr ''kg'')])
     else if s = ''new'' then Some (JObj [(''unit'', JStr ''t'')]) else None\<rparr>"

theorem overrides_set_what_they_mention_witness:
  "json_at (JObj (deepMergeOverrideIntoProfile override_env
      [(''time'', JObj [(''column'', JStr ''month''), (''grain'', JStr ''day'')])] ''o'')) [''time'', ''grain''] = Some (JStr ''day'')"
proof -
  let ?n = "[(''time'', JObj [(''column'', JStr ''day'')])]"
  let ?p = "[(''time'', JObj [(''column'', JStr ''month''), (''grain'', JStr ''day'')])]"
  have "decode_object override_env ''o'' = Some ?n" by (simp add: override_env_def decode_object_def)
  moreover have "keyed (JObj ?n)" by (simp add: keyed_JObj) (rule keyed_leaf, simp)
  moreover have "unmentioned (JObj ?n) [''time'', ''grain'']" by simp
  ultimately have "json_at (JObj (deepMergeOverrideIntoProfile override_env ?p ''o'')) [''time'', ''grain'']
      = json_at (JObj ?p) [''time'', ''grain'']"
    using overrides_set_what_they_mention [of override_env "''o''" ?n ?p, THEN conjunct2] by blast
  then show ?thesis by simp
qed

section \<open>Confirmations\<close>

definition merge_confirmation :: "source_env \<Rightarrow> semantic_confirmation \<Rightarrow> json_object \<Rightarrow> json_object" where
  "merge_confirmation env c p = deepMergeOverrideIntoProfile env p (cf_OverridesJSON c)"

definition applyConfirmations ::
  "source_env \<Rightarrow> source_tables \<Rightarrow> json_object \<Rightarrow> string \<Rightarrow> string \<Rightarrow> string \<Rightarrow> json_object" where
  "applyConfirmations env t profile workspaceID schemaSignature sessionID =
     (let p1 = (if workspaceID \<noteq> [] \<and> schemaSignature \<noteq> []
                then (case FindWorkspaceConfirmation t workspaceID schemaSignature of
                        None \<Rightarrow> profile | Some c \<Rightarrow> merge_confirmation env c profile)
                else profile)
      in if sessionID = [] then p1
         else fold (\<lambda>c p. if cf_Scope c = ConfirmationScopeSession then merge_confirmation env c p else p)
                (Confirmation_ListBySession t sessionID) p1)"

definition hasKeyInProfile :: "json_object \<Rightarrow> string \<Rightarrow> bool" where
  "hasKeyInProfile profile key =
     (case map_of profile key of
        None \<Rightarrow> False
      | Some (JArr v) \<Rightarrow> v \<noteq> []
      | Some (JObj v) \<Rightarrow> v \<noteq> []
      | Some v \<Rightarrow> v \<noteq> JNull)"

definition resolved_ambiguity :: "json_object \<Rightarrow> json \<Rightarrow> bool" where
  "resolved_ambiguity profile amb =
     (case amb of
        JObj m \<Rightarrow>
          let kind = (case map_of m ''kind'' of Some (JStr s) \<Rightarrow> s | _ \<Rightarrow> [])
          in (hasKeyInProfile profile ''time_candidates'' \<and> kind = ''multiple_time_columns'')
             \<or> (hasKeyInProfile profile ''metric_candidates'' \<and> kind = ''ambiguous_metrics'')
             \<or> (hasKeyInProfile profile ''join_candidates'' \<and> kind = ''ambiguous_join'')
             \<or> (hasKeyInProfile profile ''unit_candidates'' \<and> kind = ''ambiguous_units'')
      | _ \<Rightarrow> False)"

text \<open>The slice of what remains is encoded as \<open>null\<close> when nothing remains.\<close>

definition removeResolvedAmbiguities :: "json_object \<Rightarrow> json_object" where
  "removeResolvedAmbiguities profile =
     (case map_of profile ''ambiguities'' of
        Some (JArr ambs) \<Rightarrow>
          let remaining = filter (\<lambda>a. \<not> resolved_ambiguity profile a) ambs
          in if length remaining < length ambs then AList.update ''ambiguities'' (jarr remaining) profile else profile
      | _ \<Rightarrow> profile)"

definition ambiguity_count :: "source_env \<Rightarrow> json_object \<Rightarrow> nat option" where
  "ambiguity_count env profile =
     (if se_facts env profile
      then Some (case map_of profile ''ambiguities'' of Some (JArr l) \<Rightarrow> length l | _ \<Rightarrow> 0) else None)"

definition CreateSemanticProfile ::
  "source_env \<Rightarrow> string \<Rightarrow> string \<Rightarrow> string \<Rightarrow> string \<Rightarrow> string \<Rightarrow> string \<Rightarrow> json_object \<Rightarrow> source_tables \<Rightarrow>
     semantic_profile result \<times> source_tables" where
  "CreateSemanticProfile env sessionID workspaceID sourceID snapshotID tableName signature facts t =
     (let p = \<lparr>pf_ID = ''sp_'' @ take 12 (se_uuid env), pf_SessionID = sessionID, pf_SourceID = sourceID,
               pf_SnapshotID = snapshotID, pf_AnalysisTableName = tableName, pf_SchemaSignature = signature,
               pf_ProfileStatus = ProfileStatusProfiled, pf_ProfileJSON = facts, pf_CreatedAt = se_now env\<rparr>
      in case Profile_Create p t of
           (Some _, t1) \<Rightarrow> (Inl ''failed to create semantic profile: constraint failed'', t1)
         | (None, t1) \<Rightarrow>
             (case FindWorkspaceConfirmation t1 workspaceID signature of
                None \<Rightarrow> (Inr p, t1)
              | Some _ \<Rightarrow>
                  let merged = applyConfirmations env t1 facts workspaceID signature []
                  in (Inr (p\<lparr>pf_ProfileJSON := merged, pf_ProfileStatus := ProfileStatusConfirmed\<rparr>),
                      Profile_UpdateStatus (pf_ID p) ProfileStatusConfirmed
                        (Profile_UpdateProfileJSON (pf_ID p) merged t1))))"

text \<open>The checks that precede a confirmation, in their order.\<close>

definition confirm_refused :: "source_env \<Rightarrow> string \<Rightarrow> string \<Rightarrow> string \<Rightarrow> string \<Rightarrow> semantic_profile option \<Rightarrow> string option" where
  "confirm_refused env profileID sessionID scope overridesJSON prof =
     (let empty = (\<lambda>n. ''profile has '' @ itoa (int n) @ '' unresolved ambiguities; empty overrides cannot confirm them'')
      in if scope \<noteq> ConfirmationScopeSession \<and> scope \<noteq> ConfirmationScopeWorkspace
         then Some (''invalid confirmation scope: '' @ scope)
         else (case prof of
                 None \<Rightarrow> Some ''failed to get profile: sql: no rows in result set''
               | Some p \<Rightarrow>
                   if sessionID \<noteq> [] \<and> pf_SessionID p \<noteq> sessionID
                   then Some (''profile '' @ profileID @ '' does not belong to session '' @ sessionID)
                   else (case ambiguity_count env (pf_ProfileJSON p) of
                           None \<Rightarrow> Some ''failed to parse profile json''
                         | Some n \<Rightarrow>
                             if n = 0 then None
                             else if trim_space overridesJSON \<in> {[], ''{}'', ''null''} then Some (empty n)
                             else (case decode_object env overridesJSON of
                                     None \<Rightarrow> Some ''invalid overrides_json''
                                   | Some m \<Rightarrow> if m = [] then Some (empty n) else None))))"

definition ConfirmProfile ::
  "source_env \<Rightarrow> string \<Rightarrow> string \<Rightarrow> string \<Rightarrow> string \<Rightarrow> string \<Rightarrow> string \<Rightarrow> source_tables \<Rightarrow>
     semantic_profile result \<times> source_tables" where
  "ConfirmProfile env profileID workspaceID sessionID confirmedBy scope overridesJSON t =
     (case confirm_refused env profileID sessionID scope overridesJSON (Profile_GetByID t profileID) of
        Some e \<Rightarrow> (Inl e, t)
      | None \<Rightarrow>
          let p = the (Profile_GetByID t profileID);
              c = \<lparr>cf_ID = ''sc_'' @ take 12 (se_uuid env), cf_ProfileID = profileID, cf_WorkspaceID = workspaceID,
                   cf_SessionID = sessionID, cf_ConfirmedBy = confirmedBy, cf_Scope = scope,
                   cf_OverridesJSON = overridesJSON, cf_CreatedAt = se_now env\<rparr>
          in case Confirmation_Create c t of
               (Some _, t1) \<Rightarrow> (Inl ''failed to create semantic confirmation: constraint failed'', t1)
             | (None, t1) \<Rightarrow>
                 let merged = removeResolvedAmbiguities
                       (applyConfirmations env t1 (pf_ProfileJSON p) workspaceID (pf_SchemaSignature p) sessionID)
                 in (Inr (p\<lparr>pf_ProfileJSON := merged, pf_ProfileStatus := ProfileStatusConfirmed\<rparr>),
                     Profile_UpdateStatus profileID ProfileStatusConfirmed (Profile_UpdateProfileJSON profileID merged t1)))"

section \<open>Overviews\<close>

record source_summary =
  ss_SourceID :: string
  ss_DisplayName :: string
  ss_ActiveSnapshotID :: string
  ss_AnalysisTableName :: string
  ss_SnapshotStatus :: string
  ss_SemanticStatus :: string
  ss_ProfileID :: string
  ss_AmbiguityCount :: nat
  ss_OverrideCount :: nat
  ss_RowCount :: nat
  ss_LargeDataset :: bool

definition source_summary_of :: "source_env \<Rightarrow> source_tables \<Rightarrow> source_binding \<Rightarrow> data_source \<Rightarrow> source_snapshot \<Rightarrow> source_summary" where
  "source_summary_of env t b ds snap =
     (let ps = Profile_ListBySource t (bd_SourceID b)
      in \<lparr>ss_SourceID = ds_ID ds, ss_DisplayName = ds_Name ds, ss_ActiveSnapshotID = bd_ActiveSnapshotID b,
          ss_AnalysisTableName = sn_AnalysisTableName snap, ss_SnapshotStatus = sn_Status snap,
          ss_SemanticStatus = (case ps of [] \<Rightarrow> ''pending'' | p # _ \<Rightarrow> pf_ProfileStatus p),
          ss_ProfileID = (case ps of [] \<Rightarrow> [] | p # _ \<Rightarrow> pf_ID p),
          ss_AmbiguityCount = (case ps of [] \<Rightarrow> 0
                               | p # _ \<Rightarrow> (case ambiguity_count env (pf_ProfileJSON p) of Some n \<Rightarrow> n | None \<Rightarrow> 0)),
          ss_OverrideCount = (case ps of [] \<Rightarrow> 0 | p # _ \<Rightarrow> length (Confirmation_ListByProfile t (pf_ID p))),
          ss_RowCount = sn_RowCount snap, ss_LargeDataset = (int (sn_RowCount snap) \<ge> 1000000)\<rparr>)"

definition GetSessionSources :: "source_env \<Rightarrow> source_tables \<Rightarrow> string \<Rightarrow> source_summary list \<times> string list" where
  "GetSessionSources env t sessionID =
     (let rows = map (\<lambda>b. case DataSource_GetByID t (bd_SourceID b) of
                    None \<Rightarrow> Inl (''source_id='' @ bd_SourceID b)
                  | Some ds \<Rightarrow>
                      (case Snapshot_GetByID t (bd_ActiveSnapshotID b) of
                         None \<Rightarrow> Inl (''snapshot_id='' @ bd_ActiveSnapshotID b)
                       | Some snap \<Rightarrow> Inr (source_summary_of env t b ds snap)))
                   (Binding_GetBySession t sessionID)
      in (oks rows, List.map_filter (\<lambda>r. case r of Inl e \<Rightarrow> Some e | Inr _ \<Rightarrow> None) rows))"

definition GetSessionProfiles :: "source_tables \<Rightarrow> string \<Rightarrow> (string \<times> string \<times> string \<times> string \<times> string) list" where
  "GetSessionProfiles t sessionID =
     map (\<lambda>p. (pf_ID p, pf_SourceID p, pf_AnalysisTableName p, pf_ProfileStatus p, pf_SchemaSignature p))
       (Profile_ListBySession t sessionID)"

definition GetProfileDetail :: "source_tables \<Rightarrow> string \<Rightarrow> (semantic_profile \<times> semantic_confirmation list) result" where
  "GetProfileDetail t profileID =
     (case Profile_GetByID t profileID of
        None \<Rightarrow> Inl ''sql: no rows in result set''
      | Some p \<Rightarrow> Inr (p, Confirmation_ListByProfile t profileID))"

section \<open>What a confirmation does\<close>

lemma profile_update_frame [simp]:
  "st_sources (update_profile i f t) = st_sources t" "st_snapshots (update_profile i f t) = st_snapshots t"
  "st_bindings (update_profile i f t) = st_bindings t" "st_confirmations (update_profile i f t) = st_confirmations t"
  by (simp_all add: update_profile_def)

lemma confirm_refused_unchanged: "ConfirmProfile env i ws sid by scope ov t = (Inl e, t') \<Longrightarrow> t' = t"
  unfolding ConfirmProfile_def Let_def Confirmation_Create_def by (simp split: option.splits if_splits)

lemma confirm_frame: "frame (snd (ConfirmProfile env i ws sid by scope ov t)) = frame t"
  by (auto simp: ConfirmProfile_def Let_def frame_def Confirmation_Create_def Profile_UpdateStatus_def
      Profile_UpdateProfileJSON_def split: option.splits)

text \<open>
  C31. A confirmation that is refused leaves every table as it was. One that is accepted records who
  confirmed what, marks the profile and no other as confirmed, and leaves the sources, snapshots
  and bindings alone; a profile with open ambiguities was given overrides that are not empty.
\<close>

theorem confirmation_recorded_once:
  assumes "ConfirmProfile env i ws sid by scope ov t = (r, t')"
  shows "case r of
      Inl _ \<Rightarrow> t' = t
    | Inr p \<Rightarrow> pf_ID p = i \<and> pf_ProfileStatus p = ProfileStatusConfirmed
        \<and> (\<exists>c. st_confirmations t' = st_confirmations t @ [c] \<and> cf_ProfileID c = i \<and> cf_ConfirmedBy c = by \<and> cf_Scope c = scope
             \<and> cf_OverridesJSON c = ov)
        \<and> frame t' = frame t
        \<and> st_profiles t' = map (\<lambda>q. if pf_ID q = i
              then q\<lparr>pf_ProfileJSON := pf_ProfileJSON p, pf_ProfileStatus := ProfileStatusConfirmed\<rparr> else q) (st_profiles t)
        \<and> (\<forall>q. Profile_GetByID t i = Some q \<longrightarrow> ambiguity_count env (pf_ProfileJSON q) \<noteq> Some 0 \<longrightarrow>
             (\<exists>m. decode_object env ov = Some m \<and> m \<noteq> []))"
proof (cases r)
  case (Inl e)
  then show ?thesis
    using assms confirm_refused_unchanged by simp
next
  case (Inr p)
  have ok: "confirm_refused env i sid scope ov (Profile_GetByID t i) = None"
    using assms Inr by (auto simp: ConfirmProfile_def split: option.splits)
  obtain q where q: "Profile_GetByID t i = Some q"
    using ok by (cases "Profile_GetByID t i") (auto simp: confirm_refused_def Let_def split: if_splits)
  have qi: "pf_ID q = i" using q by (auto simp: Profile_GetByID_def find_Some_iff)
  have amb: "ambiguity_count env (pf_ProfileJSON q) \<noteq> Some 0 \<longrightarrow> (\<exists>m. decode_object env ov = Some m \<and> m \<noteq> [])"
    using ok q by (auto simp: confirm_refused_def Let_def split: if_splits option.splits)
  define c where "c = \<lparr>cf_ID = ''sc_'' @ take 12 (se_uuid env), cf_ProfileID = i, cf_WorkspaceID = ws,
      cf_SessionID = sid, cf_ConfirmedBy = by, cf_Scope = scope, cf_OverridesJSON = ov, cf_CreatedAt = se_now env\<rparr>"
  define t1 where "t1 = t\<lparr>st_confirmations := st_confirmations t @ [c]\<rparr>"
  define merged where "merged = removeResolvedAmbiguities
      (applyConfirmations env t1 (pf_ProfileJSON q) ws (pf_SchemaSignature q) sid)"
  have created: "Confirmation_Create c t = (None, t1)"
    using assms Inr ok q unfolding c_def t1_def
    by (auto simp: ConfirmProfile_def Let_def Confirmation_Create_def split: if_splits)
  have res: "p = q\<lparr>pf_ProfileJSON := merged, pf_ProfileStatus := ProfileStatusConfirmed\<rparr>"
      "t' = Profile_UpdateStatus i ProfileStatusConfirmed (Profile_UpdateProfileJSON i merged t1)"
    using assms Inr ok q created unfolding c_def by (auto simp: ConfirmProfile_def Let_def merged_def)
  have "st_profiles t' = map (\<lambda>x. if pf_ID x = i
      then x\<lparr>pf_ProfileJSON := merged, pf_ProfileStatus := ProfileStatusConfirmed\<rparr> else x) (st_profiles t)"
    by (simp add: res(2) Profile_UpdateStatus_def Profile_UpdateProfileJSON_def update_profile_def t1_def)
  moreover have "frame t' = frame t" "st_confirmations t' = st_confirmations t @ [c]"
    by (simp_all add: res(2) Profile_UpdateStatus_def Profile_UpdateProfileJSON_def t1_def frame_def)
  ultimately show ?thesis using qi amb q by (simp add: Inr res(1) c_def)
qed


text \<open>A profile with two time columns, to be confirmed.\<close>

definition pending_profile :: "string \<Rightarrow> string \<Rightarrow> semantic_profile" where
  "pending_profile i sid =
     \<lparr>pf_ID = i, pf_SessionID = sid, pf_SourceID = ''ds_a'', pf_SnapshotID = ''snap_1'', pf_AnalysisTableName = ''f_1_a'',
      pf_SchemaSignature = ''sig'', pf_ProfileStatus = ProfileStatusProfiled,
      pf_ProfileJSON = [(''time_candidates'', JArr [JStr ''day'', JStr ''month'']),
                        (''ambiguities'', JArr [JObj [(''kind'', JStr ''multiple_time_columns'')]])],
      pf_CreatedAt = 0\<rparr>"

definition pending_tables :: source_tables where
  "pending_tables = sample_tables\<lparr>st_profiles := [pending_profile ''sp_1'' ''s_1'']\<rparr>"

theorem confirmation_recorded_once_witness:
  "case ConfirmProfile override_env ''sp_1'' ''w_1'' ''s_1'' ''u_1'' ''session'' ''o'' pending_tables of
     (Inr p, t) \<Rightarrow> pf_ProfileStatus p = ProfileStatusConfirmed \<and> length (st_confirmations t) = 1
   | (Inl e, t) \<Rightarrow> False"
proof -
  obtain r t where rt: "ConfirmProfile override_env ''sp_1'' ''w_1'' ''s_1'' ''u_1'' ''session'' ''o'' pending_tables = (r, t)"
    by (cases "ConfirmProfile override_env ''sp_1'' ''w_1'' ''s_1'' ''u_1'' ''session'' ''o'' pending_tables") simp
  have "case fst (ConfirmProfile override_env ''sp_1'' ''w_1'' ''s_1'' ''u_1'' ''session'' ''o'' pending_tables) of
      Inl e \<Rightarrow> False | Inr p \<Rightarrow> True" by code_simp
  then obtain p where p: "r = Inr p" using rt by (cases r) simp_all
  have none: "st_confirmations pending_tables = []" by code_simp
  from confirmation_recorded_once [OF rt] p none have "pf_ProfileStatus p = ProfileStatusConfirmed \<and> length (st_confirmations t) = 1"
    by auto
  then show ?thesis by (simp add: rt p)
qed

text \<open>
  Overrides that say nothing about the time column, here a remark, settle the ambiguity over it: the
  candidates that profiling put into the profile count as a choice.
\<close>

definition remaining_ambiguities :: "semantic_profile result \<times> source_tables \<Rightarrow> json option" where
  "remaining_ambiguities r = (case fst r of Inl _ \<Rightarrow> None | Inr p \<Rightarrow> map_of (pf_ProfileJSON p) ''ambiguities'')"

lemma remark_settles_time_column:
  "remaining_ambiguities (ConfirmProfile override_env ''sp_1'' ''w_1'' ''s_1'' ''u_1'' ''session'' ''x'' pending_tables) = Some JNull"
  by code_simp

text \<open>
  Of two confirmations in a session the older one stands, since they are applied from the newest to
  the oldest; and a confirmation of one profile also changes the other profiles of its session.
\<close>

definition unit_after :: "semantic_profile result \<times> source_tables \<Rightarrow> json option" where
  "unit_after r = (case fst r of Inl _ \<Rightarrow> None | Inr p \<Rightarrow> map_of (pf_ProfileJSON p) ''unit'')"

definition confirm_at :: "int \<Rightarrow> string \<Rightarrow> string \<Rightarrow> source_tables \<Rightarrow> semantic_profile result \<times> source_tables" where
  "confirm_at time prof overrides t =
     ConfirmProfile (override_env\<lparr>se_now := time, se_uuid := itoa time\<rparr>) prof ''w_1'' ''s_1'' ''u_1'' ''session'' overrides t"

lemma older_confirmation_stands:
  "unit_after (confirm_at 2 ''sp_1'' ''new'' (snd (confirm_at 1 ''sp_1'' ''old'' pending_tables))) = Some (JStr ''kg'')"
  by code_simp

lemma confirmation_spreads_in_session:
  "unit_after (confirm_at 2 ''sp_2'' ''x'' (snd (confirm_at 1 ''sp_1'' ''old''
     (pending_tables\<lparr>st_profiles := [pending_profile ''sp_1'' ''s_1'', pending_profile ''sp_2'' ''s_1'']\<rparr>)))) = Some (JStr ''kg'')"
  by code_simp

text \<open>
  A profile that a confirmation of its workspace confirms on creation keeps its ambiguities, which
  confirming it by hand removes.
\<close>

definition workspace_confirmed :: source_tables where
  "workspace_confirmed = snd (ConfirmProfile override_env ''sp_1'' ''w_1'' ''s_1'' ''u_1'' ''workspace'' ''o'' pending_tables)"

lemma confirmed_on_creation_keeps_ambiguities:
  "(case fst (CreateSemanticProfile (override_env\<lparr>se_uuid := ''2''\<rparr>) ''s_1'' ''w_1'' ''ds_a'' ''snap_1'' ''f_1_a'' ''sig''
       (pf_ProfileJSON (pending_profile [] [])) workspace_confirmed) of
     Inl _ \<Rightarrow> None | Inr p \<Rightarrow> Some (pf_ProfileStatus p, ambiguity_count override_env (pf_ProfileJSON p)))
   = Some (ProfileStatusConfirmed, Some 1)"
  by code_simp

text \<open>The overview of a session reports the newest profile of a source, whatever session it belongs to.\<close>

lemma overview_shows_other_sessions_profile:
  "map ss_ProfileID (fst (GetSessionSources override_env
      (pending_tables\<lparr>st_profiles := [pending_profile ''sp_1'' ''s_1'', (pending_profile ''sp_9'' ''s_2'')\<lparr>pf_CreatedAt := 5\<rparr>]\<rparr>) ''s_1''))
   = [''sp_9'']"
  by code_simp

end
