(* ===== verification/Llm_Messages.thy ===== *)
theory Llm_Messages
  imports Agent_Engine Tool_Registry
begin

text \<open>
  What the client of the language model sends (\<open>server/agent/llm.go\<close>): the requests of the three
  wire formats it speaks, Chat Completions, Responses and Anthropic messages, built from one prompt
  bundle. The conversation that a request carries is read back by a function into one format of
  entries, which makes the three builders comparable.
\<close>

section \<open>Configuration\<close>

record llm_config =
  cfg_Provider :: string
  cfg_Model :: string
  cfg_APIEndpoint :: string
  cfg_BaseURL :: string
  cfg_ReasoningEffort :: string
  cfg_TextVerbosity :: string
  cfg_MaxTokens :: int

definition LLMRoleSystem :: string where "LLMRoleSystem = ''system''"
definition LLMToolTypeFunction :: string where "LLMToolTypeFunction = ''function''"
definition LLMFinishReasonToolCalls :: string where "LLMFinishReasonToolCalls = ''tool_calls''"

definition runtimeContextTransportRole :: "runtime_context_block \<Rightarrow> string" where
  "runtimeContextTransportRole block = LLMRoleUser"

definition responsesRuntimeContextRole :: "runtime_context_block \<Rightarrow> string" where
  "responsesRuntimeContextRole block = LLMRoleUser"

text \<open>The text a block of runtime context is sent as.\<close>

definition context_text :: "runtime_context_block \<Rightarrow> string" where
  "context_text block =
     ''[runtime_context role='' @ runtimeContextTransportRole block @ '' name='' @ rc_Name block @ '']''
     @ [CHR 0x0A] @ rc_Content block"

definition constraints_heading :: string where
  "constraints_heading = [CHR 0x0A, CHR 0x0A] @ ''## Delegate Additional Constraints'' @ [CHR 0x0A]"

definition buildChatSystemPrompt :: "prompt_bundle \<Rightarrow> string" where
  "buildChatSystemPrompt bundle =
     pb_Policy bundle @ (if pb_PolicyAppendix bundle \<noteq> [] then constraints_heading @ pb_PolicyAppendix bundle else [])"

definition buildAnthropicSystemPrompt :: "prompt_bundle \<Rightarrow> string" where
  "buildAnthropicSystemPrompt bundle =
     pb_Policy bundle @ (if pb_PolicyAppendix bundle \<noteq> [] then constraints_heading @ pb_PolicyAppendix bundle else [])"

section \<open>Chat Completions\<close>

record chatCompletionMessage =
  cm_Role :: string
  cm_Content :: string
  cm_ReasoningContent :: string
  cm_ToolCalls :: "llm_tool_call list"
  cm_ToolCallID :: string

record chatCompletionsRequest =
  cq_Model :: string
  cq_Messages :: "chatCompletionMessage list"
  cq_Tools :: "tool_spec list"
  cq_ToolChoice :: string
  cq_Stream :: bool
  cq_ReasoningEffort :: string
  cq_MaxTokens :: int

definition chat_text :: "string \<Rightarrow> string \<Rightarrow> chatCompletionMessage" where
  "chat_text role content =
     \<lparr>cm_Role = role, cm_Content = content, cm_ReasoningContent = [], cm_ToolCalls = [], cm_ToolCallID = []\<rparr>"

definition chat_item :: "conversation_item \<Rightarrow> chatCompletionMessage list" where
  "chat_item msg =
     (if ci_Role msg = LLMRoleUser then [chat_text LLMRoleUser (ci_Content msg)]
      else if ci_Role msg = LLMRoleAssistant then
        (let assistantMsg = \<lparr>cm_Role = LLMRoleAssistant, cm_Content = ci_Content msg,
               cm_ReasoningContent = ci_ReasoningContent msg,
               cm_ToolCalls = map (\<lambda>tc. tc\<lparr>tc_Type := LLMToolTypeFunction\<rparr>) (ci_ToolCalls msg), cm_ToolCallID = []\<rparr>
         in if trim_space (cm_Content assistantMsg) \<noteq> [] \<or> cm_ToolCalls assistantMsg \<noteq> [] then [assistantMsg] else [])
      else if ci_Role msg = LLMRoleTool then [(chat_text LLMRoleTool (ci_Content msg))\<lparr>cm_ToolCallID := ci_ToolCallID msg\<rparr>]
      else [])"

definition buildChatCompletionsRequest :: "llm_config \<Rightarrow> prompt_bundle \<Rightarrow> tool_spec list \<Rightarrow> chatCompletionsRequest" where
  "buildChatCompletionsRequest cfg bundle toolSpecs =
     \<lparr>cq_Model = cfg_Model cfg,
      cq_Messages =
        (if buildChatSystemPrompt bundle \<noteq> [] then [chat_text LLMRoleSystem (buildChatSystemPrompt bundle)] else [])
        @ map (\<lambda>block. chat_text LLMRoleUser (context_text block)) (pb_RuntimeContext bundle)
        @ concat (map chat_item (pb_History bundle))
        @ (if pb_Task bundle \<noteq> [] then [chat_text LLMRoleUser (pb_Task bundle)] else []),
      cq_Tools = toolSpecs,
      cq_ToolChoice = (if toolSpecs \<noteq> [] then ''auto'' else []),
      cq_Stream = False,
      cq_ReasoningEffort = trim_space (cfg_ReasoningEffort cfg),
      cq_MaxTokens = (if cfg_MaxTokens cfg > 0 then cfg_MaxTokens cfg else 0)\<rparr>"

section \<open>Responses\<close>

text \<open>The three shapes of input items, each a map in the source.\<close>

datatype responsesInput =
    RoleInput (ri_role: string) (ri_content: string)
  | FunctionCallInput (ri_call_id: string) (ri_name: string) (ri_arguments: string)
  | FunctionOutputInput (ri_call_id: string) (ri_output: string)

record responsesAPIRequest =
  rq_Model :: string
  rq_Instructions :: string
  rq_Input :: "responsesInput list"
  rq_Tools :: "tool_spec list"
  rq_ToolChoice :: string
  rq_Reasoning :: "string option"
  rq_Text :: "string option"

definition responses_item :: "conversation_item \<Rightarrow> responsesInput list" where
  "responses_item msg =
     (if ci_Role msg = LLMRoleUser then [RoleInput ''user'' (ci_Content msg)]
      else if ci_Role msg = LLMRoleAssistant then
        (if trim_space (ci_Content msg) \<noteq> [] then [RoleInput ''assistant'' (ci_Content msg)] else [])
        @ map (\<lambda>tc. FunctionCallInput (tc_ID tc) (tc_Name tc) (tc_Arguments tc)) (ci_ToolCalls msg)
      else if ci_Role msg = LLMRoleTool then [FunctionOutputInput (ci_ToolCallID msg) (ci_Content msg)]
      else [])"

definition gpt5_option :: "llm_config \<Rightarrow> string \<Rightarrow> string option" where
  "gpt5_option cfg v =
     (if prefix ''gpt-5'' (to_lower (trim_space (cfg_Model cfg))) \<and> trim_space v \<noteq> [] then Some (trim_space v) else None)"

definition buildResponsesRequest :: "llm_config \<Rightarrow> prompt_bundle \<Rightarrow> tool_spec list \<Rightarrow> responsesAPIRequest" where
  "buildResponsesRequest cfg bundle toolSpecs =
     \<lparr>rq_Model = cfg_Model cfg,
      rq_Instructions =
        (if pb_Policy bundle \<noteq> []
         then pb_Policy bundle @ (if pb_PolicyAppendix bundle \<noteq> [] then constraints_heading @ pb_PolicyAppendix bundle else [])
         else []),
      rq_Input =
        map (\<lambda>block. RoleInput (responsesRuntimeContextRole block) (context_text block)) (pb_RuntimeContext bundle)
        @ concat (map responses_item (pb_History bundle))
        @ (if pb_Task bundle \<noteq> [] then [RoleInput ''user'' (pb_Task bundle)] else []),
      rq_Tools = toolSpecs,
      rq_ToolChoice = (if toolSpecs \<noteq> [] then ''auto'' else []),
      rq_Reasoning = gpt5_option cfg (cfg_ReasoningEffort cfg),
      rq_Text = gpt5_option cfg (cfg_TextVerbosity cfg)\<rparr>"

section \<open>Anthropic messages\<close>

datatype anthropic_content =
    TextContent string
  | ToolUseContent string string string
  | ToolResultContent string string bool

record anthropic_message =
  am_Role :: string
  am_Content :: "anthropic_content list"

text \<open>The closure \<open>flushUserContent\<close>: the user content collected so far becomes a message.\<close>

definition flushUserContent ::
  "anthropic_message list \<times> anthropic_content list \<Rightarrow> anthropic_message list \<times> anthropic_content list" where
  "flushUserContent st =
     (let (msgs, cur) = st
      in if cur \<noteq> [] then (msgs @ [\<lparr>am_Role = LLMRoleUser, am_Content = cur\<rparr>], []) else (msgs, cur))"

definition assistant_content :: "conversation_item \<Rightarrow> anthropic_content list" where
  "assistant_content msg =
     (if ci_Content msg \<noteq> [] then [TextContent (ci_Content msg)] else [])
     @ map (\<lambda>tc. ToolUseContent (tc_ID tc) (tc_Name tc) (tc_Arguments tc)) (ci_ToolCalls msg)"

definition anthropic_item ::
  "anthropic_message list \<times> anthropic_content list \<Rightarrow> conversation_item \<Rightarrow> anthropic_message list \<times> anthropic_content list" where
  "anthropic_item st msg =
     (if ci_Role msg = LLMRoleUser then (fst st, snd st @ [TextContent (ci_Content msg)])
      else if ci_Role msg = LLMRoleAssistant then
        (let (msgs, cur) = flushUserContent st; content = assistant_content msg
         in (if content \<noteq> [] then msgs @ [\<lparr>am_Role = LLMRoleAssistant, am_Content = content\<rparr>] else msgs, cur))
      else if ci_Role msg = LLMRoleTool then (fst st, snd st @ [ToolResultContent (ci_ToolCallID msg) (ci_Content msg) False])
      else st)"

definition buildAnthropicMessages :: "prompt_bundle \<Rightarrow> anthropic_message list" where
  "buildAnthropicMessages bundle =
     (let (msgs, cur) = foldl anthropic_item ([], map (\<lambda>b. TextContent (context_text b)) (pb_RuntimeContext bundle))
                          (pb_History bundle)
      in fst (flushUserContent (msgs, cur @ (if pb_Task bundle \<noteq> [] then [TextContent (pb_Task bundle)] else []))))"

record anthropic_request =
  aq_Model :: string
  aq_MaxTokens :: int
  aq_Messages :: "anthropic_message list"
  aq_System :: string
  aq_Tools :: "tool_spec list"

definition buildAnthropicRequest :: "llm_config \<Rightarrow> prompt_bundle \<Rightarrow> tool_spec list \<Rightarrow> anthropic_request" where
  "buildAnthropicRequest cfg bundle toolSpecs =
     \<lparr>aq_Model = cfg_Model cfg, aq_MaxTokens = 8192, aq_Messages = buildAnthropicMessages bundle,
      aq_System = buildAnthropicSystemPrompt bundle, aq_Tools = toolSpecs\<rparr>"

section \<open>The conversation in a request\<close>

text \<open>
  What a request says, entry by entry. Text of the assistant that is blank says nothing.
\<close>

datatype entry =
    UserSays string
  | AssistantSays string
  | Calls string string string
  | Returns string string

definition spoken :: "string \<Rightarrow> entry list" where
  "spoken s = (if trim_space s \<noteq> [] then [AssistantSays s] else [])"

definition called :: "llm_tool_call \<Rightarrow> entry" where
  "called tc = Calls (tc_ID tc) (tc_Name tc) (tc_Arguments tc)"

text \<open>The reference: the conversation of a bundle.\<close>

definition item_entries :: "conversation_item \<Rightarrow> entry list" where
  "item_entries msg =
     (if ci_Role msg = LLMRoleUser then [UserSays (ci_Content msg)]
      else if ci_Role msg = LLMRoleAssistant then spoken (ci_Content msg) @ map called (ci_ToolCalls msg)
      else if ci_Role msg = LLMRoleTool then [Returns (ci_ToolCallID msg) (ci_Content msg)]
      else [])"

definition conversation :: "prompt_bundle \<Rightarrow> entry list" where
  "conversation bundle =
     map (\<lambda>b. UserSays (context_text b)) (pb_RuntimeContext bundle)
     @ concat (map item_entries (pb_History bundle))
     @ (if pb_Task bundle \<noteq> [] then [UserSays (pb_Task bundle)] else [])"

text \<open>The conversation as a provider reads it from each kind of request.\<close>

definition chat_entries :: "chatCompletionMessage \<Rightarrow> entry list" where
  "chat_entries m =
     (if cm_Role m = LLMRoleUser then [UserSays (cm_Content m)]
      else if cm_Role m = LLMRoleAssistant then spoken (cm_Content m) @ map called (cm_ToolCalls m)
      else if cm_Role m = LLMRoleTool then [Returns (cm_ToolCallID m) (cm_Content m)]
      else [])"

definition input_entries :: "responsesInput \<Rightarrow> entry list" where
  "input_entries x =
     (case x of
        RoleInput r c \<Rightarrow> if r = LLMRoleAssistant then spoken c else [UserSays c]
      | FunctionCallInput i n a \<Rightarrow> [Calls i n a]
      | FunctionOutputInput i c \<Rightarrow> [Returns i c])"

definition content_entries :: "string \<Rightarrow> anthropic_content \<Rightarrow> entry list" where
  "content_entries role x =
     (case x of
        TextContent c \<Rightarrow> if role = LLMRoleAssistant then spoken c else [UserSays c]
      | ToolUseContent i n a \<Rightarrow> [Calls i n a]
      | ToolResultContent i c _ \<Rightarrow> [Returns i c])"

definition message_entries :: "anthropic_message \<Rightarrow> entry list" where
  "message_entries m = concat (map (content_entries (am_Role m)) (am_Content m))"

lemma role_distinct [simp]:
  "LLMRoleUser \<noteq> LLMRoleAssistant" "LLMRoleAssistant \<noteq> LLMRoleUser" "LLMRoleTool \<noteq> LLMRoleUser"
  "LLMRoleTool \<noteq> LLMRoleAssistant" "LLMRoleUser \<noteq> LLMRoleTool" "LLMRoleAssistant \<noteq> LLMRoleTool"
  "LLMRoleSystem \<noteq> LLMRoleUser" "LLMRoleSystem \<noteq> LLMRoleAssistant" "LLMRoleSystem \<noteq> LLMRoleTool"
  by (simp_all add: role_defs LLMRoleSystem_def)

lemma called_type [simp]: "called (tc\<lparr>tc_Type := t\<rparr>) = called tc"
  by (simp add: called_def)

lemma chat_text_entries [simp]:
  "chat_entries (chat_text LLMRoleUser c) = [UserSays c]" "chat_entries (chat_text LLMRoleSystem c) = []"
  by (simp_all add: chat_entries_def chat_text_def)

lemma chat_item_entries: "concat (map chat_entries (chat_item msg)) = item_entries msg"
  by (simp add: chat_item_def chat_entries_def chat_text_def item_entries_def spoken_def Let_def comp_def)

lemma responses_item_entries: "concat (map input_entries (responses_item msg)) = item_entries msg"
  by (simp add: responses_item_def input_entries_def item_entries_def spoken_def called_def comp_def role_defs)

lemma concat_map_concat: "concat (map f (concat (map g xs))) = concat (map (\<lambda>x. concat (map f (g x))) xs)"
  by (induction xs) auto

lemma chat_conversation:
  "concat (map chat_entries (cq_Messages (buildChatCompletionsRequest cfg b specs))) = conversation b"
  by (simp add: buildChatCompletionsRequest_def conversation_def concat_map_concat comp_def chat_item_entries)

lemma responses_conversation:
  "concat (map input_entries (rq_Input (buildResponsesRequest cfg b specs))) = conversation b"
proof -
  have "input_entries (RoleInput (responsesRuntimeContextRole x) c) = [UserSays c]" for x c
    by (simp add: input_entries_def responsesRuntimeContextRole_def)
  moreover have "input_entries (RoleInput ''user'' c) = [UserSays c]" for c
    by (simp add: input_entries_def role_defs)
  ultimately show ?thesis
    by (simp add: buildResponsesRequest_def conversation_def concat_map_concat comp_def responses_item_entries)
qed

abbreviation user_entries :: "anthropic_content list \<Rightarrow> entry list" where
  "user_entries cur \<equiv> concat (map (content_entries LLMRoleUser) cur)"

abbreviation state_entries :: "anthropic_message list \<times> anthropic_content list \<Rightarrow> entry list" where
  "state_entries st \<equiv> concat (map message_entries (fst st)) @ user_entries (snd st)"

lemma flush_entries: "state_entries (flushUserContent st) = state_entries st \<and> snd (flushUserContent st) = []"
  by (auto simp: flushUserContent_def message_entries_def Let_def split: prod.splits)

lemma assistant_entries:
  "message_entries \<lparr>am_Role = LLMRoleAssistant, am_Content = assistant_content msg\<rparr>
     = spoken (ci_Content msg) @ map called (ci_ToolCalls msg)"
  by (simp add: message_entries_def assistant_content_def content_entries_def spoken_def called_def comp_def)

lemma anthropic_item_entries: "state_entries (anthropic_item st msg) = state_entries st @ item_entries msg"
proof -
  obtain ms cur where f: "flushUserContent st = (ms, cur)" by fastforce
  with flush_entries [of st] have e: "concat (map message_entries ms) = state_entries st" "cur = []" by auto
  have none: "assistant_content msg = [] \<Longrightarrow> spoken (ci_Content msg) @ map called (ci_ToolCalls msg) = []"
    using assistant_entries [of msg] by (simp add: message_entries_def)
  consider "ci_Role msg = LLMRoleUser" | "ci_Role msg = LLMRoleAssistant" | "ci_Role msg = LLMRoleTool"
    | "ci_Role msg \<notin> {LLMRoleUser, LLMRoleAssistant, LLMRoleTool}" by blast
  then show ?thesis
  proof cases
    case 2
    then show ?thesis using e none assistant_entries [of msg]
      by (auto simp: anthropic_item_def item_entries_def f Let_def)
  qed (simp_all add: anthropic_item_def item_entries_def content_entries_def)
qed

lemma anthropic_history_entries:
  "state_entries (foldl anthropic_item st h) = state_entries st @ concat (map item_entries h)"
proof (induction h arbitrary: st)
  case (Cons m h)
  show ?case unfolding foldl_Cons Cons.IH anthropic_item_entries by simp
qed simp

lemma anthropic_conversation: "concat (map message_entries (buildAnthropicMessages b)) = conversation b"
proof -
  let ?st = "([], map (\<lambda>b. TextContent (context_text b)) (pb_RuntimeContext b))"
  obtain ms cur where f: "foldl anthropic_item ?st (pb_History b) = (ms, cur)" by fastforce
  have "state_entries (ms, cur) = user_entries (map (\<lambda>b. TextContent (context_text b)) (pb_RuntimeContext b))
      @ concat (map item_entries (pb_History b))"
    using anthropic_history_entries [of ?st "pb_History b"] by (simp add: f)
  moreover have "user_entries (map (\<lambda>b. TextContent (context_text b)) bs) = map (\<lambda>b. UserSays (context_text b)) bs" for bs
    by (induction bs) (simp_all add: content_entries_def)
  ultimately show ?thesis
    using flush_entries [of "(ms, cur @ (if pb_Task b \<noteq> [] then [TextContent (pb_Task b)] else []))"]
    by (auto simp: buildAnthropicMessages_def f conversation_def content_entries_def)
qed


section \<open>Tool results and their calls\<close>

text \<open>
  Providers refuse a request with a tool result whose call is missing. In a history every result
  must answer a call of the last message that is not a result.
\<close>

definition call_ids :: "llm_tool_call list \<Rightarrow> string set" where
  "call_ids tcs = tc_ID ` set tcs"

fun history_answers :: "string set \<Rightarrow> conversation_item list \<Rightarrow> bool" where
  "history_answers ids [] = True"
| "history_answers ids (m # h) =
     (if is_tool m then ci_ToolCallID m \<in> ids \<and> history_answers ids h
      else history_answers (if ci_Role m = LLMRoleAssistant then call_ids (ci_ToolCalls m) else {}) h)"

text \<open>The same condition as a provider of Chat Completions checks it.\<close>

fun chat_answers :: "string set \<Rightarrow> chatCompletionMessage list \<Rightarrow> bool" where
  "chat_answers ids [] = True"
| "chat_answers ids (m # ms) =
     (if cm_Role m = LLMRoleTool then cm_ToolCallID m \<in> ids \<and> chat_answers ids ms
      else chat_answers (call_ids (cm_ToolCalls m)) ms)"

text \<open>Anthropic wants the results of a message in the message directly after it.\<close>

fun uses_of :: "anthropic_content list \<Rightarrow> string set" where
  "uses_of [] = {}"
| "uses_of (ToolUseContent i _ _ # cs) = insert i (uses_of cs)"
| "uses_of (_ # cs) = uses_of cs"

fun results_of :: "anthropic_content list \<Rightarrow> string set" where
  "results_of [] = {}"
| "results_of (ToolResultContent i _ _ # cs) = insert i (results_of cs)"
| "results_of (_ # cs) = results_of cs"

fun anthropic_answers :: "string set \<Rightarrow> anthropic_message list \<Rightarrow> bool" where
  "anthropic_answers ids [] = True"
| "anthropic_answers ids (m # ms) =
     (results_of (am_Content m) \<subseteq> ids \<and> anthropic_answers (uses_of (am_Content m)) ms)"

lemma history_answers_drop: "history_answers ids h \<Longrightarrow> \<exists>ids'. history_answers ids' (drop n h)"
proof (induction n arbitrary: ids h)
  case (Suc n)
  then show ?case by (cases h) (auto split: if_splits)
qed auto

lemma history_answers_cut:
  assumes "history_answers ids h" "n < length h" "\<not> is_tool (h ! n)"
  shows "history_answers {} (drop n h)"
proof -
  obtain ids' where "history_answers ids' (drop n h)" using history_answers_drop [OF assms(1)] by blast
  moreover have "drop n h = h ! n # drop (Suc n) h" using assms(2) by (simp add: Cons_nth_drop_Suc)
  ultimately show ?thesis using assms(3) by simp
qed

lemma history_answers_compaction:
  assumes "grouped 10 (en_history e)" "history_answers {} (en_history e)"
  shows "history_answers {} (en_history (compactMessagesLocked cd e promptTokens))"
proof (cases "compact_at (en_history e) promptTokens")
  case (Some n)
  have "n < length (en_history e)" using compact_at_Some [OF Some] by (auto simp: recentContextWindow_def)
  from history_answers_cut [OF assms(2) this compact_at_not_tool [OF assms(1) Some]] Some assms(2)
  show ?thesis by (auto simp: compactMessagesLocked_def Let_def)
qed (use assms(2) in \<open>simp add: compactMessagesLocked_def\<close>)

lemma chat_answers_mono: "chat_answers ids ms \<Longrightarrow> ids \<subseteq> ids' \<Longrightarrow> chat_answers ids' ms"
  by (induction ms) auto

lemma chat_answers_text: "chat_answers ids (map (chat_text LLMRoleUser) ts @ ms) \<longleftrightarrow> (if ts = [] then chat_answers ids ms else chat_answers {} ms)"
  by (induction ts arbitrary: ids) (auto simp: chat_text_def call_ids_def)

lemma chat_history_answers:
  "history_answers ids h \<Longrightarrow> chat_answers {} ms \<Longrightarrow> chat_answers ids (concat (map chat_item h) @ ms)"
proof (induction h arbitrary: ids)
  case Nil
  then show ?case using chat_answers_mono by auto
next
  case (Cons m h)
  let ?rest = "concat (map chat_item h) @ ms"
  have skipped: "chat_answers {} ?rest \<Longrightarrow> chat_answers ids ?rest" using chat_answers_mono by blast
  consider "is_tool m" | "ci_Role m = LLMRoleAssistant" | "ci_Role m = LLMRoleUser"
    | "ci_Role m \<notin> {LLMRoleUser, LLMRoleAssistant, LLMRoleTool}"
    by (auto simp: is_tool_def)
  then show ?case
  proof cases
    case 1
    then have "chat_item m = [(chat_text LLMRoleTool (ci_Content m))\<lparr>cm_ToolCallID := ci_ToolCallID m\<rparr>]"
      by (simp add: chat_item_def is_tool_def)
    then show ?thesis using Cons 1 by (simp add: chat_text_def)
  next
    case 2
    then have "\<not> is_tool m" by (simp add: is_tool_def)
    then have rest: "chat_answers (call_ids (ci_ToolCalls m)) ?rest" using Cons 2 by simp
    show ?thesis
    proof (cases "chat_item m")
      case Nil
      then have "ci_ToolCalls m = []" using 2 by (simp add: chat_item_def Let_def split: if_splits)
      then show ?thesis using rest skipped Nil by (simp add: call_ids_def)
    next
      case (Cons x xs)
      then have "xs = []" "cm_Role x = LLMRoleAssistant" "call_ids (cm_ToolCalls x) = call_ids (ci_ToolCalls m)"
        using 2 by (auto simp: chat_item_def Let_def call_ids_def image_image split: if_splits)
      then show ?thesis using rest Cons by simp
    qed
  next
    case 3
    then have "chat_item m = [chat_text LLMRoleUser (ci_Content m)]" "\<not> is_tool m" by (simp_all add: chat_item_def is_tool_def)
    then show ?thesis using Cons 3 by (simp add: chat_text_def call_ids_def)
  next
    case 4
    then have "chat_item m = []" "\<not> is_tool m" by (simp_all add: chat_item_def is_tool_def)
    then show ?thesis using Cons 4 skipped by simp
  qed
qed

lemma chat_request_answers:
  assumes "history_answers {} (pb_History b)"
  shows "chat_answers {} (cq_Messages (buildChatCompletionsRequest cfg b specs))"
proof -
  let ?task = "if pb_Task b \<noteq> [] then [chat_text LLMRoleUser (pb_Task b)] else []"
  have "chat_answers {} ?task" by (simp add: chat_text_def)
  from chat_history_answers [OF assms this]
  have h: "chat_answers {} (concat (map chat_item (pb_History b)) @ ?task)" .
  have m: "map (\<lambda>block. chat_text LLMRoleUser (context_text block)) bs = map (chat_text LLMRoleUser) (map context_text bs)" for bs
    by simp
  have "chat_answers {} (map (\<lambda>block. chat_text LLMRoleUser (context_text block)) (pb_RuntimeContext b)
      @ concat (map chat_item (pb_History b)) @ ?task)"
    using h unfolding m chat_answers_text by simp
  then show ?thesis by (simp add: buildChatCompletionsRequest_def chat_text_def call_ids_def)
qed

definition last_uses :: "string set \<Rightarrow> anthropic_message list \<Rightarrow> string set" where
  "last_uses ids ms = (if ms = [] then ids else uses_of (am_Content (last ms)))"

lemma anthropic_answers_snoc:
  "anthropic_answers ids (ms @ [m]) \<longleftrightarrow> anthropic_answers ids ms \<and> results_of (am_Content m) \<subseteq> last_uses ids ms"
  by (induction ms arbitrary: ids) (auto simp: last_uses_def)

lemma last_uses_snoc [simp]: "last_uses ids (ms @ [m]) = uses_of (am_Content m)"
  by (simp add: last_uses_def)

lemma uses_append [simp]: "uses_of (xs @ ys) = uses_of xs \<union> uses_of ys"
  by (induction xs rule: uses_of.induct) auto

lemma results_append [simp]: "results_of (xs @ ys) = results_of xs \<union> results_of ys"
  by (induction xs rule: results_of.induct) auto

lemma assistant_content_uses [simp]:
  "uses_of (assistant_content m) = call_ids (ci_ToolCalls m)" "results_of (assistant_content m) = {}"
proof -
  have "uses_of (map (\<lambda>tc. ToolUseContent (tc_ID tc) (tc_Name tc) (tc_Arguments tc)) tcs) = call_ids tcs"
    "results_of (map (\<lambda>tc. ToolUseContent (tc_ID tc) (tc_Name tc) (tc_Arguments tc)) tcs) = {}" for tcs
    by (induction tcs) (auto simp: call_ids_def)
  then show "uses_of (assistant_content m) = call_ids (ci_ToolCalls m)" "results_of (assistant_content m) = {}"
    by (simp_all add: assistant_content_def)
qed

text \<open>While the history is translated: the results collected answer the last message written.\<close>

definition answering :: "anthropic_message list \<times> anthropic_content list \<Rightarrow> string set \<Rightarrow> bool" where
  "answering st ids \<longleftrightarrow> anthropic_answers {} (fst st) \<and> uses_of (snd st) = {}
     \<and> results_of (snd st) \<subseteq> last_uses {} (fst st) \<and> ids \<subseteq> last_uses {} (fst st)"

lemma answering_flush:
  assumes "answering st ids"
  shows "anthropic_answers {} (fst (flushUserContent st))"
  using assms by (auto simp: answering_def flushUserContent_def anthropic_answers_snoc split: prod.splits)

lemma answering_item:
  assumes "answering st ids" "history_answers ids (m # h)"
  shows "\<exists>ids'. answering (anthropic_item st m) ids' \<and> history_answers ids' h"
proof -
  consider "is_tool m" | "ci_Role m = LLMRoleAssistant" | "\<not> is_tool m" "ci_Role m \<noteq> LLMRoleAssistant" by blast
  then show ?thesis
  proof cases
    case 1
    then have "ci_ToolCallID m \<in> ids" "history_answers ids h" using assms(2) by simp_all
    moreover have "answering (anthropic_item st m) ids"
      using 1 assms(1) calculation(1) by (auto simp: answering_def anthropic_item_def is_tool_def)
    ultimately show ?thesis by blast
  next
    case 2
    then have "\<not> is_tool m" by (simp add: is_tool_def)
    then have h: "history_answers (call_ids (ci_ToolCalls m)) h" using assms(2) 2 by simp
    obtain ms cur where f: "flushUserContent st = (ms, cur)" by fastforce
    have ok: "anthropic_answers {} ms" "cur = []"
      using answering_flush [OF assms(1)] flush_entries [of st] by (auto simp: f)
    show ?thesis
    proof (cases "assistant_content m = []")
      case True
      then have "call_ids (ci_ToolCalls m) = {}" using assistant_content_uses(1) [of m] by simp
      then show ?thesis
        using 2 f ok h True by (intro exI [of _ "{}"]) (simp add: answering_def anthropic_item_def Let_def)
    next
      case False
      then show ?thesis
        using 2 f ok h by (intro exI [of _ "call_ids (ci_ToolCalls m)"])
          (simp add: answering_def anthropic_item_def Let_def anthropic_answers_snoc)
    qed
  next
    case 3
    then have h: "history_answers {} h" using assms(2) by simp
    have "answering (anthropic_item st m) {}"
      using 3 assms(1) by (auto simp: answering_def anthropic_item_def is_tool_def)
    with h show ?thesis by blast
  qed
qed

lemma answering_history:
  "answering st ids \<Longrightarrow> history_answers ids h \<Longrightarrow> \<exists>ids'. answering (foldl anthropic_item st h) ids'"
proof (induction h arbitrary: st ids)
  case (Cons m h)
  from answering_item [OF Cons.prems] obtain ids' where "answering (anthropic_item st m) ids'" "history_answers ids' h" by blast
  from Cons.IH [OF this] show ?case by simp
qed auto

lemma anthropic_request_answers:
  assumes "history_answers {} (pb_History b)"
  shows "anthropic_answers {} (buildAnthropicMessages b)"
proof -
  let ?st = "([], map (\<lambda>b. TextContent (context_text b)) (pb_RuntimeContext b))"
  have "uses_of (map (\<lambda>b. TextContent (context_text b)) bs) = {}" "results_of (map (\<lambda>b. TextContent (context_text b)) bs) = {}" for bs
    by (induction bs) simp_all
  then have "answering ?st {}" by (simp add: answering_def)
  from answering_history [OF this assms] obtain ids' where a: "answering (foldl anthropic_item ?st (pb_History b)) ids'" ..
  obtain ms cur where f: "foldl anthropic_item ?st (pb_History b) = (ms, cur)" by fastforce
  have "answering (ms, cur @ (if pb_Task b \<noteq> [] then [TextContent (pb_Task b)] else [])) ids'"
    using a by (auto simp: f answering_def)
  from answering_flush [OF this] show ?thesis by (simp add: buildAnthropicMessages_def f)
qed

text \<open>
  A request built after compaction is acceptable to the providers: if every result of the history
  answers a call of the message before it and no message has more than ten results, then after the
  history was compacted, whatever the token count, every tool message of the Chat Completions
  request answers a call of the assistant message before it, and every tool result of the Anthropic
  request a tool use of the message directly before.
\<close>

theorem requests_answer_calls:
  assumes "grouped 10 (en_history e)" "history_answers {} (en_history e)"
    and "pb_History b = en_history (compactMessagesLocked cd e promptTokens)"
  shows "chat_answers {} (cq_Messages (buildChatCompletionsRequest cfg b specs))
    \<and> anthropic_answers {} (aq_Messages (buildAnthropicRequest cfg b specs))"
proof -
  have "history_answers {} (pb_History b)" using history_answers_compaction [OF assms(1,2)] assms(3) by simp
  then show ?thesis using chat_request_answers anthropic_request_answers by (simp add: buildAnthropicRequest_def)
qed

definition one_call_engine :: engine where
  "one_call_engine =
     \<lparr>en_policy = ''be exact'',
      en_history = [user_item ''hi'', (assistant_item [] [])\<lparr>ci_ToolCalls := [\<lparr>tc_ID = ''c'', tc_Type = [],
                      tc_Name = ''data_query_sql'', tc_Arguments = ''{}''\<rparr>]\<rparr>, tool_item ''c'' ''ok''],
      en_contextDigest = []\<rparr>"

definition plain_config :: llm_config where
  "plain_config = \<lparr>cfg_Provider = ''openai'', cfg_Model = ''gpt-5'', cfg_APIEndpoint = [], cfg_BaseURL = ''https://api.openai.com'',
     cfg_ReasoningEffort = [], cfg_TextVerbosity = [], cfg_MaxTokens = 0\<rparr>"

definition plain_bundle :: "engine \<Rightarrow> prompt_bundle" where
  "plain_bundle e = \<lparr>pb_Policy = en_policy e, pb_PolicyAppendix = [], pb_Task = ''go on'', pb_RuntimeContext = [],
     pb_History = en_history e\<rparr>"

theorem requests_answer_calls_witness:
  "let e = compactMessagesLocked sample_codec one_call_engine 200000
   in chat_answers {} (cq_Messages (buildChatCompletionsRequest plain_config (plain_bundle e) []))
      \<and> length (cq_Messages (buildChatCompletionsRequest plain_config (plain_bundle e) [])) = 5"
proof -
  let ?e = "compactMessagesLocked sample_codec one_call_engine 200000"
  have "grouped 10 (en_history one_call_engine)"
    by (auto simp: grouped_def one_call_engine_def user_item_def assistant_item_def tool_item_def is_tool_def
        calls_tools_def role_defs less_Suc_eq numeral_3_eq_3 intro!: exI [of _ 1])
  moreover have "history_answers {} (en_history one_call_engine)" by code_simp
  ultimately have "chat_answers {} (cq_Messages (buildChatCompletionsRequest plain_config (plain_bundle ?e) []))"
    using requests_answer_calls [of one_call_engine "plain_bundle ?e" sample_codec 200000] by (simp add: plain_bundle_def)
  moreover have "length (cq_Messages (buildChatCompletionsRequest plain_config (plain_bundle ?e) [])) = 5" by code_simp
  ultimately show ?thesis by (simp add: Let_def)
qed

text \<open>
  With a result that answers nothing the condition fails, so it does constrain: dropping the message
  that calls is what the providers refuse.
\<close>

lemma orphan_result_refused: "\<not> chat_answers {} (concat (map chat_item [user_item ''hi'', tool_item ''c'' ''ok'']))"
  by code_simp

text \<open>
  The additional constraints of a delegated agent are dropped from a Responses request whose policy
  is empty; the other two builders send them.
\<close>

lemma responses_drops_constraints:
  assumes "pb_Policy b = []" "pb_PolicyAppendix b \<noteq> []"
  shows "rq_Instructions (buildResponsesRequest cfg b specs) = []
    \<and> buildChatSystemPrompt b = constraints_heading @ pb_PolicyAppendix b
    \<and> buildAnthropicSystemPrompt b = constraints_heading @ pb_PolicyAppendix b"
  using assms by (simp add: buildResponsesRequest_def buildChatSystemPrompt_def buildAnthropicSystemPrompt_def)

lemma system_prompts_agree:
  "buildAnthropicSystemPrompt b = buildChatSystemPrompt b
   \<and> (pb_Policy b \<noteq> [] \<longrightarrow> rq_Instructions (buildResponsesRequest cfg b specs) = buildChatSystemPrompt b)"
  by (simp add: buildResponsesRequest_def buildChatSystemPrompt_def buildAnthropicSystemPrompt_def)

text \<open>
  An assistant text of white space is sent to Anthropic as a text block, which that interface
  refuses; the other builders test the trimmed text.
\<close>

lemma blank_text_sent_to_anthropic:
  "buildAnthropicMessages \<lparr>pb_Policy = [], pb_PolicyAppendix = [], pb_Task = [], pb_RuntimeContext = [],
      pb_History = [assistant_item '' '' []]\<rparr> = [\<lparr>am_Role = LLMRoleAssistant, am_Content = [TextContent '' '']\<rparr>]
   \<and> chat_item (assistant_item '' '' []) = [] \<and> responses_item (assistant_item '' '' []) = []"
  by code_simp

end
