(* ===== verification/Run_Requests.thy ===== *)
theory Run_Requests
  imports Session_Tools Llm_Messages
begin

text \<open>
  Every request of a run (\<open>server/agent/engine.go\<close> with the builders of \<open>server/agent/llm.go\<close>): the
  loop keeps its history in a shape in which each tool result answers a call, through tool calls,
  compaction and the closing message, so that no request is one that the providers refuse.
\<close>

section \<open>Reading a history\<close>

text \<open>
  Reading a history item by item: the ids that results may answer, and how many more results may
  follow the message that called. Ten is what compaction looks back.
\<close>

definition hist_step :: "(string set \<times> nat) option \<Rightarrow> conversation_item \<Rightarrow> (string set \<times> nat) option" where
  "hist_step st m =
     (case st of
        None \<Rightarrow> None
      | Some (ids, k) \<Rightarrow>
          if is_tool m then (if ci_ToolCallID m \<in> ids \<and> k > 0 then Some (ids, k - 1) else None)
          else if calls_tools m then Some (call_ids (ci_ToolCalls m), 10)
          else Some ({}, 0))"

abbreviation read_history :: "conversation_item list \<Rightarrow> (string set \<times> nat) option" where
  "read_history h \<equiv> foldl hist_step (Some ({}, 0)) h"

definition well_read :: "conversation_item list \<Rightarrow> bool" where
  "well_read h \<longleftrightarrow> read_history h \<noteq> None"

lemma hist_step_simps [simp]:
  "hist_step None m = None"
  "hist_step (Some (ids, k)) m =
     (if is_tool m then (if ci_ToolCallID m \<in> ids \<and> k > 0 then Some (ids, k - 1) else None)
      else if calls_tools m then Some (call_ids (ci_ToolCalls m), 10)
      else Some ({}, 0))"
  by (simp_all add: hist_step_def)

lemma hist_none [simp]: "foldl hist_step None h = None"
  by (induction h) simp_all

lemma hist_step_result:
  "is_tool m \<Longrightarrow> hist_step st m = Some (ids, k) \<longleftrightarrow> ci_ToolCallID m \<in> ids \<and> st = Some (ids, Suc k)"
  by (cases st) (auto split: if_splits)

lemma well_read_prefix: "well_read (xs @ ys) \<Longrightarrow> well_read xs"
  by (cases "read_history xs") (simp_all add: well_read_def)

text \<open>What a state reached by reading tells of the history read.\<close>

lemma read_history_state:
  "read_history h = Some (ids, k) \<Longrightarrow> k > 0 \<or> ids \<noteq> {} \<Longrightarrow>
     \<exists>c < length h. calls_tools (h ! c) \<and> ids = call_ids (ci_ToolCalls (h ! c))
       \<and> k + (length h - c) = 11 \<and> (\<forall>j. c < j \<and> j < length h \<longrightarrow> is_tool (h ! j))"
proof (induction h arbitrary: ids k rule: rev_induct)
  case (snoc m h)
  show ?case
  proof (cases "is_tool m")
    case True
    define k' where "k' = Suc k"
    with True have k': "read_history h = Some (ids, k')" "k' > 0" "k = k' - 1"
      using snoc.prems(1) by (simp_all add: hist_step_result)
    from snoc.IH [OF k'(1)] k'(2) obtain c where c: "c < length h" "calls_tools (h ! c)"
      "ids = call_ids (ci_ToolCalls (h ! c))" "k' + (length h - c) = 11" "\<forall>j. c < j \<and> j < length h \<longrightarrow> is_tool (h ! j)"
      by blast
    have "k + (Suc (length h) - c) = 11" using c(1,4) k'(2,3) by simp
    moreover have "\<forall>j. c < j \<and> j < Suc (length h) \<longrightarrow> is_tool ((h @ [m]) ! j)"
      using c(5) True by (auto simp: nth_append less_Suc_eq)
    ultimately show ?thesis using c by (intro exI [of _ c]) (simp add: nth_append)
  next
    case False
    then have "calls_tools m" "k = 10" "ids = call_ids (ci_ToolCalls m)"
      using snoc.prems by (cases "read_history h"; force split: if_splits)+
    then show ?thesis by (intro exI [of _ "length h"]) (auto simp: nth_append)
  qed
qed simp

lemma well_read_grouped:
  assumes "well_read h"
  shows "grouped 10 h"
  unfolding grouped_def
proof (intro allI impI)
  fix i assume i: "i < length h" "is_tool (h ! i)"
  have "well_read (take (Suc i) h)" using assms well_read_prefix [of "take (Suc i) h" "drop (Suc i) h"] by simp
  then have "hist_step (read_history (take i h)) (h ! i) \<noteq> None"
    using i(1) by (simp add: well_read_def take_Suc_conv_app_nth)
  then obtain ids k where k: "read_history (take i h) = Some (ids, k)" "k > 0"
    using i(2) by (cases "read_history (take i h)") (auto split: if_splits)
  from read_history_state [OF k(1)] k(2) i(1) obtain c where c: "c < i" "calls_tools (take i h ! c)"
    "k + (i - c) = 11" "\<forall>j. c < j \<and> j < i \<longrightarrow> is_tool (take i h ! j)" by auto
  show "\<exists>c<i. i - c \<le> 10 \<and> calls_tools (h ! c) \<and> (\<forall>j. c < j \<and> j \<le> i \<longrightarrow> is_tool (h ! j))"
  proof (intro exI [of _ c] conjI allI impI)
    show "c < i" "calls_tools (h ! c)" using c by simp_all
    show "i - c \<le> 10" using c(3) k(2) by linarith
    show "is_tool (h ! j)" if "c < j \<and> j \<le> i" for j
      using that c(4) i(2) by (cases "j = i") simp_all
  qed
qed

lemma read_answers:
  "foldl hist_step (Some (ids, k)) h \<noteq> None \<Longrightarrow> history_answers ids h"
proof (induction h arbitrary: ids k)
  case (Cons m h)
  have other: "\<not> calls_tools m \<Longrightarrow> ci_Role m = LLMRoleAssistant \<Longrightarrow> call_ids (ci_ToolCalls m) = {}"
    by (simp add: calls_tools_def call_ids_def)
  show ?case
  proof (cases "is_tool m")
    case True
    then show ?thesis using Cons by (auto split: if_splits)
  next
    case False
    show ?thesis
    proof (cases "calls_tools m")
      case True
      then have "ci_Role m = LLMRoleAssistant" by (simp add: calls_tools_def)
      then show ?thesis using Cons False True by auto
    next
      case plain: False
      then show ?thesis using Cons False other by auto
    qed
  qed
qed simp

lemma well_read_answers: "well_read h \<Longrightarrow> history_answers {} h"
  unfolding well_read_def by (rule read_answers)

text \<open>Cutting before a message that is no result.\<close>

lemma read_from: "\<not> is_tool m \<Longrightarrow> hist_step (Some st) m = (if calls_tools m then Some (call_ids (ci_ToolCalls m), 10) else Some ({}, 0))"
  by (cases st) simp

lemma well_read_cut:
  assumes "well_read h" "n < length h" "\<not> is_tool (h ! n)"
  shows "well_read (drop n h)"
proof -
  have d: "drop n h = h ! n # drop (Suc n) h" using assms(2) by (simp add: Cons_nth_drop_Suc)
  obtain st where st: "read_history (take n h) = Some st"
    using assms(1) well_read_prefix [of "take n h" "drop n h"] by (auto simp: well_read_def)
  have "read_history (take n h @ drop n h) \<noteq> None" using assms(1) by (simp add: well_read_def)
  then have "foldl hist_step (hist_step (Some st) (h ! n)) (drop (Suc n) h) \<noteq> None"
    unfolding foldl_append st d by simp
  then show ?thesis unfolding well_read_def d foldl_Cons read_from [OF assms(3), of "({}, 0)"] read_from [OF assms(3), of st] .
qed

lemma well_read_compaction:
  assumes "well_read (en_history e)"
  shows "well_read (en_history (compactMessagesLocked cd e tokens))"
proof (cases "compact_at (en_history e) tokens")
  case (Some n)
  have "n < length (en_history e)" using compact_at_Some [OF Some] by (auto simp: recentContextWindow_def)
  from well_read_cut [OF assms this compact_at_not_tool [OF well_read_grouped [OF assms] Some]] Some assms
  show ?thesis by (auto simp: compactMessagesLocked_def Let_def)
qed (use assms in \<open>simp add: compactMessagesLocked_def\<close>)

lemma well_read_plain: "well_read h \<Longrightarrow> \<not> is_tool m \<Longrightarrow> well_read (h @ [m])"
  by (auto simp: well_read_def)

lemma plain_items [simp]: "\<not> is_tool (user_item c)" "\<not> is_tool (assistant_item c r)"
  by (simp_all add: user_item_def assistant_item_def is_tool_def)

text \<open>The results of the calls still to be run fit into the history.\<close>

definition room_for :: "llm_tool_call list \<Rightarrow> conversation_item list \<Rightarrow> bool" where
  "room_for cs h \<longleftrightarrow> (\<exists>ids k. read_history h = Some (ids, k) \<and> call_ids cs \<subseteq> ids \<and> length cs \<le> k)"

lemma room_well_read: "room_for cs h \<Longrightarrow> well_read h"
  by (auto simp: room_for_def well_read_def)

lemma room_none: "well_read h \<Longrightarrow> room_for [] h"
  by (auto simp: room_for_def well_read_def call_ids_def)

lemma room_result: "room_for (c # cs) h \<Longrightarrow> room_for cs (h @ [tool_item (tc_ID c) r])"
  by (auto simp: room_for_def tool_item_def is_tool_def call_ids_def)

lemma room_assistant:
  assumes "well_read h" "lm_Role m = LLMRoleAssistant" "length (lm_ToolCalls m) \<le> 10" "lm_ToolCalls m \<noteq> []"
  shows "room_for (lm_ToolCalls m) (h @ [compactAssistantMessage cd m])"
proof -
  let ?a = "compactAssistantMessage cd m"
  have "call_ids (ci_ToolCalls ?a) = call_ids (lm_ToolCalls m)"
    by (simp add: compactAssistantMessage_def call_ids_def image_image)
  moreover have "calls_tools ?a" "\<not> is_tool ?a"
    using assms(2,4) by (simp_all add: compactAssistantMessage_def calls_tools_def is_tool_def)
  ultimately show ?thesis using assms(1,3) by (auto simp: room_for_def well_read_def)
qed

section \<open>The history along a run\<close>

text \<open>
  The interface between the loop and a model that is asked well-formed questions only: the model
  keeps a property of the world when the history it is sent is well read, and its answers come from
  the assistant and call at most ten tools. \<open>tame\<close> restricts the assumption to such models.
\<close>

definition tame_answer :: "string + llm_response \<Rightarrow> bool" where
  "tame_answer r =
     (case r of
        Inl _ \<Rightarrow> True
      | Inr resp \<Rightarrow> list_all (\<lambda>c. lm_Role (lc_Message c) = LLMRoleAssistant \<and> length (lm_ToolCalls (lc_Message c)) \<le> 10)
                     (lr_Choices resp))"

locale well_asked = kept_tools env I for env :: "'w engine_env" and I +
  fixes tame :: bool
  assumes ask_well: "I w \<Longrightarrow> tame \<longrightarrow> well_read (pb_History b) \<Longrightarrow> env_llm env w b k = (r, w') \<Longrightarrow>
    I w' \<and> (tame \<longrightarrow> tame_answer r)"
begin

definition sound :: "'w run_state \<Rightarrow> bool" where
  "sound s \<longleftrightarrow> I (rs_world s) \<and> (tame \<longrightarrow> well_read (en_history (rs_engine s)))"

definition sound_for :: "llm_tool_call list \<Rightarrow> 'w run_state \<Rightarrow> bool" where
  "sound_for cs s \<longleftrightarrow> I (rs_world s) \<and> (tame \<longrightarrow> room_for cs (en_history (rs_engine s)))"

lemma sound_for_sound: "sound_for cs s \<Longrightarrow> sound s"
  using room_well_read by (auto simp: sound_def sound_for_def)

lemma emit_sound [simp]: "sound (emit s ev) = sound s" "sound_for cs (emit s ev) = sound_for cs s"
  by (simp_all add: sound_def sound_for_def emit_def)

lemma poll_sound: "poll env s = (d, s') \<Longrightarrow> (sound s \<longrightarrow> sound s') \<and> (sound_for cs s \<longrightarrow> sound_for cs s')"
  using poll_keeps [of s d s'] history_poll [of env s d s'] by (simp add: sound_def sound_for_def)

lemma tool_sound: "run_tool env n a s = (out, s') \<Longrightarrow> sound_for cs s \<Longrightarrow> sound_for cs s'"
  using run_tool_keeps [of s n a out s'] history_run_tool [of env n a s out s'] by (simp add: sound_for_def)

lemma retry_sound: "retry_exec env n a k s = (out, s') \<Longrightarrow> sound_for cs s \<Longrightarrow> sound_for cs s'"
  using retry_keeps [of s n a k out s'] history_retry [of env n a k s out s'] by (simp add: sound_for_def)

lemma ask_sound:
  assumes "ask_llm env s t b = (r, s')" "sound s"
  shows "sound s' \<and> (tame \<longrightarrow> tame_answer r)"
proof -
  obtain w where w: "env_llm env (rs_world s) (mk_bundle env s t) b = (r, w)" "s' = s\<lparr>rs_world := w\<rparr>"
    using assms(1) by (auto simp: ask_llm_def split: prod.splits)
  moreover have "tame \<longrightarrow> well_read (pb_History (mk_bundle env s t))" using assms(2) by (simp add: mk_bundle_def sound_def)
  ultimately show ?thesis using ask_well [of "rs_world s" "mk_bundle env s t" b r w] assms(2) by (simp add: sound_def)
qed

lemma compact_sound: "sound s \<Longrightarrow> sound (compact_run env s n)"
  using well_read_compaction by (simp add: sound_def compact_run_def)

lemma plain_sound: "sound s \<Longrightarrow> \<not> is_tool m \<Longrightarrow> sound (remember s m)"
  using well_read_plain by (simp add: sound_def remember_def)

lemma final_sound:
  assumes "sound s" "finalResponseAfterFinalize env s = (r, s')"
  shows "sound s'"
proof -
  obtain a s1 where a: "ask_llm env s [] False = (a, s1)" by fastforce
  have 1: "sound s1" using ask_sound [OF a assms(1)] by blast
  have "s' = s1 \<or> (\<exists>c rc n. s' = compact_run env (remember s1 (assistant_item c rc)) n)"
    using assms(2) a by (auto simp: finalResponseAfterFinalize_def Let_def split: sum.splits list.splits if_splits)
  with 1 show ?thesis using compact_sound plain_sound by auto
qed

lemma after_tool_sound:
  assumes "sound_for (c # cs) s"
  shows "case after_tool env c out s of Finished s' \<Rightarrow> sound s' | NextTurn s' \<Rightarrow> sound_for cs s'"
proof -
  obtain dn s1 where p1: "poll env s = (dn, s1)" by fastforce
  let ?res = "case snd out of Some e \<Rightarrow> ''tool execution error: '' @ sanitizeToolError e | None \<Rightarrow> fst out"
  let ?s2 = "emit s1 (tool_result_event c ?res (env_elapsed env (rs_world s1))
    (toolCallSucceeded (env_codec env) (fst out) (snd out)))"
  obtain d2 s3 where p2: "poll env ?s2 = (d2, s3)" by fastforce
  have 1: "sound_for (c # cs) s1" using poll_sound [OF p1] assms by blast
  then have 3: "sound_for (c # cs) s3" using poll_sound [OF p2, of "c # cs"] by simp
  then have 4: "sound_for cs (remember s3 (tool_item (tc_ID c) r))" for r
    using room_result by (simp add: sound_for_def remember_def)
  then have "sound (snd (finalResponseAfterFinalize env (remember s3 (tool_item (tc_ID c) r))))" for r
    using final_sound [OF sound_for_sound prod.collapse [symmetric]] by blast
  with p1 p2 sound_for_sound [OF 1] sound_for_sound [OF 3] 4 show ?thesis
    by (auto simp: after_tool_def split_beta Let_def split: sum.split)
qed

lemma exec_sound:
  assumes "sound_for (c # cs) s"
  shows "case exec_tool_call env c s of Finished s' \<Rightarrow> sound s' | NextTurn s' \<Rightarrow> sound_for cs s'"
proof -
  let ?s1 = "emit s (tool_call_event c)"
  obtain res err s2 where t: "run_tool env (tc_Name c) (tc_Arguments c) ?s1 = ((res, err), s2)"
    by (metis surj_pair)
  obtain out s3 where r: "retryableToolExec env (tc_Name c) (tc_Arguments c) ?s1 = (out, s3)" by fastforce
  have "sound_for (c # cs) s2" "sound_for (c # cs) s3"
    using tool_sound [OF t] retry_sound [OF r [unfolded retryableToolExec_def]] assms by simp_all
  then show ?thesis
    using t r sound_for_sound [OF assms] by (auto simp: exec_tool_call_def Let_def after_tool_sound split: sum.split)
qed

lemma tool_calls_sound: "sound_for cs s \<Longrightarrow> sound (outcome_state (tool_calls env cs s))"
proof (induction cs arbitrary: s)
  case Nil
  then show ?case using sound_for_sound by simp
next
  case (Cons c cs)
  then show ?case using exec_sound [OF Cons.prems] by (auto split: loop_outcome.splits)
qed

lemma handle_sound:
  assumes "sound s" "tame \<longrightarrow> tame_answer (Inr resp)" "choice \<in> set (lr_Choices resp)"
  shows "sound (outcome_state (handle_choice env choice s))"
proof -
  let ?m = "lc_Message choice" and ?a = "compactAssistantMessage (env_codec env) (lc_Message choice)"
  have m: "lm_Role ?m = LLMRoleAssistant" "length (lm_ToolCalls ?m) \<le> 10" if tame
    using assms(2,3) that by (auto simp: tame_answer_def list_all_iff)
  have "sound_for (lm_ToolCalls ?m) (remember s1 ?a)" if "sound s1" "lm_ToolCalls ?m \<noteq> []" for s1
    using that room_assistant [OF _ m] by (simp add: sound_def sound_for_def remember_def)
  then show ?thesis using assms(1) by (auto simp: handle_choice_def Let_def intro!: tool_calls_sound plain_sound)
qed

lemma turn_sound:
  assumes "sound s"
  shows "sound (outcome_state (one_turn env task s))"
proof -
  obtain r s1 where a: "ask_llm env s task True = (r, s1)" by fastforce
  have 1: "sound s1" "tame \<longrightarrow> tame_answer r" using ask_sound [OF a assms] by simp_all
  have "sound (take_task s1 task)" using 1(1) plain_sound by (simp add: take_task_def)
  then have 2: "sound (compact_run env (take_task s1 task) n)" for n by (rule compact_sound)
  show ?thesis
  proof (cases r)
    case (Inr resp)
    then have "sound (outcome_state (handle_choice env choice (compact_run env (take_task s1 task) n)))"
      if "choice \<in> set (lr_Choices resp)" for choice n
      using 1(2) 2 that by (intro handle_sound) simp_all
    then show ?thesis using a 2 Inr by (auto simp: one_turn_def Let_def split: list.split)
  qed (use a 1(1) in \<open>simp add: one_turn_def\<close>)
qed

lemma loop_sound: "sound s \<Longrightarrow> sound (run_loop env i task s)"
proof (induction "Suc maxMainLoopIterations - i" arbitrary: i task s rule: less_induct)
  case less
  obtain dn s1 where p: "poll env s = (dn, s1)" by fastforce
  have 1: "sound s1" using poll_sound [OF p] less.prems by blast
  have rest: "sound (run_loop env (Suc i) [] s2)"
    if "one_turn env task s1 = NextTurn s2" "\<not> maxMainLoopIterations < i" for s2
    using less.hyps [of "Suc i" s2 "[]"] turn_sound [OF 1, of task] that by simp
  show ?case
    using p 1 turn_sound [OF 1, of task] rest
    by (subst run_loop.simps) (auto split: loop_outcome.split)
qed

lemma run_sound:
  "I w \<Longrightarrow> tame \<longrightarrow> well_read (en_history e) \<Longrightarrow>
     I (rs_world (Run env userInput w e)) \<and> (tame \<longrightarrow> well_read (en_history (rs_engine (Run env userInput w e))))"
  using loop_sound [of "\<lparr>rs_world = w, rs_engine = e, rs_events = []\<rparr>"] by (simp add: Run_def sound_def)

end

text \<open>What the providers accept; it depends on neither the configuration nor the tools.\<close>

definition acceptable :: "llm_config \<Rightarrow> tool_spec list \<Rightarrow> prompt_bundle \<Rightarrow> bool" where
  "acceptable cfg specs b \<longleftrightarrow>
     chat_answers {} (cq_Messages (buildChatCompletionsRequest cfg b specs))
     \<and> anthropic_answers {} (aq_Messages (buildAnthropicRequest cfg b specs))"

lemma well_read_acceptable: "well_read (pb_History b) \<Longrightarrow> acceptable cfg specs b"
  using chat_request_answers anthropic_request_answers well_read_answers
  by (simp add: acceptable_def buildAnthropicRequest_def)

text \<open>The environment with a flag in its world that falls when a request is not accepted.\<close>

definition checked :: "(prompt_bundle \<Rightarrow> bool) \<Rightarrow> 'w engine_env \<Rightarrow> ('w \<times> bool) engine_env" where
  "checked P env =
     \<lparr>env_llm = \<lambda>(w, ok) b k. (case env_llm env w b k of (r, w') \<Rightarrow> (r, (w', ok \<and> P b))),
      env_tool = \<lambda>(w, ok) n a. (case env_tool env w n a of (r, w') \<Rightarrow> (r, (w', ok))),
      env_done = \<lambda>(w, ok). (case env_done env w of (d, w') \<Rightarrow> (d, (w', ok))),
      env_sleep = \<lambda>(w, ok) n. (case env_sleep env w n of (d, w') \<Rightarrow> (d, (w', ok))),
      env_ctx_error = \<lambda>(w, ok). env_ctx_error env w,
      env_elapsed = \<lambda>(w, ok). env_elapsed env w,
      env_vars = map_option (\<lambda>f (w, ok). f w) (env_vars env),
      env_ask = env_ask env, env_quote = env_quote env, env_codec = env_codec env\<rparr>"

definition tame_model :: "'w engine_env \<Rightarrow> bool" where
  "tame_model env \<longleftrightarrow> (\<forall>w b k. tame_answer (fst (env_llm env w b k)))"

interpretation request_checker: well_asked "checked (acceptable cfg specs) env"
  "\<lambda>(w, ok). tame_model env \<longrightarrow> ok" "tame_model env" for cfg specs env
proof unfold_locales
  fix w b k r w'
  assume w: "case w of (w, ok) \<Rightarrow> tame_model env \<longrightarrow> ok"
    and b: "tame_model env \<longrightarrow> well_read (pb_History b)"
    and call: "env_llm (checked (acceptable cfg specs) env) w b k = (r, w')"
  obtain v ok where v: "w = (v, ok)" by fastforce
  obtain r0 v' where r: "env_llm env v b k = (r0, v')" by fastforce
  have "r = r0" "w' = (v', ok \<and> acceptable cfg specs b)" using call by (simp_all add: checked_def v r)
  moreover have "tame_model env \<longrightarrow> tame_answer r0" using r by (metis tame_model_def fst_conv)
  ultimately show "(case w' of (w, ok) \<Rightarrow> tame_model env \<longrightarrow> ok) \<and> (tame_model env \<longrightarrow> tame_answer r)"
    using w b well_read_acceptable by (auto simp: v)
qed (auto simp: checked_def split: prod.splits)



text \<open>
  The converse does not hold: a run that is cancelled while a tool executes leaves the call without a
  result in the history, and the providers refuse the request of the next run because of it. This is
  the check of a provider that every call is answered before the next other message.
\<close>

fun calls_closed :: "string set \<Rightarrow> chatCompletionMessage list \<Rightarrow> bool" where
  "calls_closed pending [] = (pending = {})"
| "calls_closed pending (m # ms) =
     (if cm_Role m = LLMRoleTool then calls_closed (pending - {cm_ToolCallID m}) ms
      else pending = {} \<and> calls_closed (call_ids (cm_ToolCalls m)) ms)"

lemma cancelled_run_history:
  "en_history (rs_engine (Run cancel_env ''hi'' 0 sample_engine)) =
     en_history sample_engine @ [user_item ''hi'', (assistant_item [] [])\<lparr>ci_ToolCalls := [sample_call ''c'' ''data_list_tables'']\<rparr>]"
proof -
  let ?s = "\<lparr>rs_world = Suc 0, rs_engine = sample_engine, rs_events = []\<rparr>"
  have "\<exists>s'. one_turn cancel_env ''hi'' ?s = Finished s' \<and> en_history (rs_engine s') =
      en_history sample_engine @ [user_item ''hi'', (assistant_item [] [])\<lparr>ci_ToolCalls := [sample_call ''c'' ''data_list_tables'']\<rparr>]"
    by (simp add: one_turn_def ask_llm_def cancel_env_def handle_choice_def Let_def role_defs
        exec_tool_call_def sample_call_def retryableToolExec_def retry_exec.simps poll_def run_tool_def
        after_tool_def emit_def remember_def compact_run_def take_task_def compactMessagesLocked_def compact_at_def
        sample_engine_def contextCompactTriggerTokens_def compactAssistantMessage_def assistant_item_def
        compactToolArguments_def sample_codec_def trim_eval)
  moreover have "poll cancel_env \<lparr>rs_world = 0, rs_engine = sample_engine, rs_events = []\<rparr> = (False, ?s)"
    by (simp add: poll_def cancel_env_def)
  ultimately show ?thesis
    by (simp add: Run_def) (subst run_loop.simps, auto simp: maxMainLoopIterations_def)
qed

lemma cancelled_run_leaves_open_call:
  "\<not> calls_closed {} (cq_Messages (buildChatCompletionsRequest plain_config
      (plain_bundle (rs_engine (Run cancel_env ''hi'' 0 sample_engine))) []))"
proof -
  obtain e where e: "rs_engine (Run cancel_env ''hi'' 0 sample_engine) = e" by blast
  then have "en_history e = en_history sample_engine
      @ [user_item ''hi'', (assistant_item [] [])\<lparr>ci_ToolCalls := [sample_call ''c'' ''data_list_tables'']\<rparr>]"
    using cancelled_run_history by simp
  then show ?thesis
    unfolding e by (simp add: buildChatCompletionsRequest_def plain_bundle_def chat_item_def chat_text_def user_item_def
        assistant_item_def sample_engine_def call_ids_def sample_call_def Let_def)
qed

end
