(* ===== verification/Llm_Client.thy ===== *)
theory Llm_Client
  imports Run_Requests
begin

text \<open>
  The rest of the model client (\<open>server/agent/llm.go\<close>): which endpoint is called, how the answers of
  the three wire formats become one response, and when a failed call is repeated. Sending a request,
  \<open>encoding/json\<close> and \<open>net/url\<close> are parameters.
\<close>

section \<open>Endpoints\<close>

text \<open>A parsed URL; \<open>u_Rest\<close> is what neither host nor path: user, query and fragment.\<close>

record url =
  u_Scheme :: string
  u_Host :: string
  u_Hostname :: string
  u_Path :: string
  u_Rest :: string

record url_lib =
  url_Parse :: "string \<Rightarrow> url option"
  url_String :: "url \<Rightarrow> string"

datatype openAIAPIKind = openAIAPIResponses | openAIAPIChatCompletions

text \<open>\<open>strings.TrimRight(s, "/")\<close> and \<open>strings.Trim(s, "/")\<close>\<close>

definition trim_right_slash :: "string \<Rightarrow> string" where
  "trim_right_slash s = rev (dropWhile (\<lambda>c. c = CHR ''/'') (rev s))"

definition trim_slash :: "string \<Rightarrow> string" where
  "trim_slash s = dropWhile (\<lambda>c. c = CHR ''/'') (trim_right_slash s)"

definition isDeepSeekEndpoint :: "url_lib \<Rightarrow> string \<Rightarrow> bool" where
  "isDeepSeekEndpoint lib raw =
     (case url_Parse lib (trim_space raw) of
        None \<Rightarrow> False
      | Some parsed \<Rightarrow>
          let host = to_lower (u_Hostname parsed)
          in host = ''api.deepseek.com'' \<or> suffix ''.deepseek.com'' host)"

definition isBaseLikeEndpoint :: "url_lib \<Rightarrow> string \<Rightarrow> bool" where
  "isBaseLikeEndpoint lib raw =
     (case url_Parse lib (trim_space raw) of
        None \<Rightarrow> False
      | Some parsed \<Rightarrow>
          if u_Scheme parsed = [] \<or> u_Host parsed = [] then False
          else let path = trim_slash (trim_space (u_Path parsed)) in path = [] \<or> path = ''v1'')"

definition defaultOpenAIEndpointForBase :: "url_lib \<Rightarrow> string \<Rightarrow> string" where
  "defaultOpenAIEndpointForBase lib baseURL =
     (let trimmed = trim_right_slash (trim_space baseURL)
      in if trimmed = [] then []
         else if (case url_Parse lib trimmed of Some parsed \<Rightarrow> equal_fold (u_Hostname parsed) ''api.openai.com'' | None \<Rightarrow> False)
         then trimmed @ ''/v1/responses''
         else if isDeepSeekEndpoint lib trimmed then trimmed @ ''/chat/completions''
         else if suffix ''/v1'' (to_lower trimmed) then trimmed @ ''/chat/completions''
         else trimmed @ ''/v1/chat/completions'')"

definition chat_path :: "string \<Rightarrow> string" where
  "chat_path p =
     (let path = trim_right_slash p
      in if suffix ''/chat/completions'' (to_lower path) then p
         else if path = [] \<or> path = ''/'' then ''/chat/completions''
         else if equal_fold path ''/v1'' then ''/v1/chat/completions''
         else if suffix ''/responses'' (to_lower path)
         then take (length path - length ''/responses'') path @ ''/chat/completions''
         else path @ ''/chat/completions'')"

definition normalizeChatCompletionsEndpoint :: "url_lib \<Rightarrow> string \<Rightarrow> string" where
  "normalizeChatCompletionsEndpoint lib raw =
     (let trimmed = trim_space raw
      in case url_Parse lib trimmed of
           None \<Rightarrow> trimmed
         | Some parsed \<Rightarrow>
             if u_Scheme parsed = [] \<or> u_Host parsed = [] then trimmed
             else url_String lib (parsed\<lparr>u_Path := chat_path (u_Path parsed)\<rparr>))"

definition resolveOpenAIEndpoint :: "url_lib \<Rightarrow> llm_config \<Rightarrow> (string \<times> openAIAPIKind) result" where
  "resolveOpenAIEndpoint lib cfg =
     (let endpoint0 = trim_space (cfg_APIEndpoint cfg); baseURL = trim_space (cfg_BaseURL cfg)
      in if endpoint0 = [] \<and> baseURL = [] then Inl ''LLM_API_ENDPOINT not configured''
         else
           let endpoint = (if endpoint0 = [] then defaultOpenAIEndpointForBase lib baseURL else endpoint0);
               lowered = to_lower endpoint
           in if isDeepSeekEndpoint lib endpoint \<or> isDeepSeekEndpoint lib baseURL
              then (let chatEndpoint = (if isDeepSeekEndpoint lib baseURL \<and> \<not> isDeepSeekEndpoint lib endpoint
                                        then defaultOpenAIEndpointForBase lib baseURL else endpoint)
                    in Inr (normalizeChatCompletionsEndpoint lib chatEndpoint, openAIAPIChatCompletions))
              else if contains lowered ''/chat/completions'' then Inr (endpoint, openAIAPIChatCompletions)
              else if contains lowered ''/responses'' then Inr (endpoint, openAIAPIResponses)
              else if isBaseLikeEndpoint lib endpoint
              then Inr (defaultOpenAIEndpointForBase lib endpoint, openAIAPIChatCompletions)
              else Inr (endpoint, openAIAPIResponses))"

section \<open>Answers\<close>

record responsesAPIError =
  er_Code :: string
  er_Message :: string

record responsesAPIUsage =
  us_InputTokens :: int
  us_OutputTokens :: int
  us_TotalTokens :: int
  us_PromptTokens :: int
  us_CompletionTokens :: int

record responsesOutputItem =
  oi_Type :: string
  oi_CallID :: string
  oi_Name :: string
  oi_Arguments :: string
  oi_Content :: "string list"

text \<open>Missing values of type \<open>interface\<close> are \<open>JNull\<close>; of a content part only the text is read.\<close>

record responsesAPIResponse =
  rs_ID :: string
  rs_Instructions :: string
  rs_OutputText :: string
  rs_Output :: "responsesOutputItem list"
  rs_Usage :: responsesAPIUsage
  rs_Error :: "responsesAPIError option"
  rs_Message :: "json option"
  rs_Content :: json
  rs_Text :: json

record responsesSSEEvent =
  sv_Type :: string
  sv_Response :: "responsesAPIResponse option"
  sv_Error :: "responsesAPIError option"
  sv_Delta :: string

record chatCompletionChoice =
  cx_Message :: chatCompletionMessage
  cx_FinishReason :: string

record chatCompletionsResponse =
  cr_Choices :: "chatCompletionChoice list"
  cr_PromptTokens :: int
  cr_CompletionTokens :: int
  cr_Error :: "responsesAPIError option"

text \<open>A block of an answer of Anthropic; the input of a tool use as its JSON text.\<close>

datatype anthropic_block =
    TextBlock "string option"
  | ToolUseBlock string string string
  | OtherBlock

record anthropic_response =
  ar_Content :: "anthropic_block list"
  ar_StopReason :: string
  ar_InputTokens :: int
  ar_OutputTokens :: int

text \<open>A nonblank text under a key of an object.\<close>

definition text_at :: "(string \<times> json) list \<Rightarrow> string \<Rightarrow> string option" where
  "text_at m k = (case map_of m k of Some (JStr t) \<Rightarrow> (if trim_space t \<noteq> [] then Some t else None) | _ \<Rightarrow> None)"

definition contentToText :: "json \<Rightarrow> string" where
  "contentToText content =
     (case content of
        JStr s \<Rightarrow> s
      | JArr items \<Rightarrow>
          join [CHR 0x0A] (List.map_filter (\<lambda>item. case item of
             JObj m \<Rightarrow> (case text_at m ''text'' of Some t \<Rightarrow> Some t | None \<Rightarrow> text_at m ''content'') | _ \<Rightarrow> None) items)
      | JObj m \<Rightarrow>
          (case text_at m ''text'' of Some t \<Rightarrow> t
           | None \<Rightarrow> (case text_at m ''content'' of Some t \<Rightarrow> t
                      | None \<Rightarrow> (case text_at m ''value'' of Some t \<Rightarrow> t | None \<Rightarrow> [])))
      | _ \<Rightarrow> [])"

definition messageText :: "json option \<Rightarrow> string" where
  "messageText message = (case message of None \<Rightarrow> [] | Some c \<Rightarrow> contentToText c)"

definition firstText :: "string list \<Rightarrow> string" where
  "firstText values = (case find (\<lambda>v. trim_space v \<noteq> []) values of Some v \<Rightarrow> trim_space v | None \<Rightarrow> [])"

definition normalize_usage :: "responsesAPIUsage \<Rightarrow> responsesAPIUsage" where
  "normalize_usage u =
     (let i = (if us_InputTokens u = 0 then us_PromptTokens u else us_InputTokens u);
          out = (if us_OutputTokens u = 0 then us_CompletionTokens u else us_OutputTokens u)
      in u\<lparr>us_InputTokens := i, us_OutputTokens := out,
           us_TotalTokens := (if us_TotalTokens u = 0 then i + out else us_TotalTokens u)\<rparr>)"

definition normalize :: "responsesAPIResponse \<Rightarrow> responsesAPIResponse" where
  "normalize r =
     r\<lparr>rs_Usage := normalize_usage (rs_Usage r),
       rs_OutputText := (if trim_space (rs_OutputText r) = []
         then firstText [contentToText (rs_Text r), contentToText (rs_Content r), messageText (rs_Message r)]
         else rs_OutputText r)\<rparr>"

definition isEmptyOutput :: "responsesAPIResponse \<Rightarrow> bool" where
  "isEmptyOutput r \<longleftrightarrow>
     \<not> (trim_space (rs_OutputText r) \<noteq> [] \<or> trim_space (contentToText (rs_Text r)) \<noteq> [])
     \<and> \<not> (trim_space (contentToText (rs_Content r)) \<noteq> [] \<or> trim_space (messageText (rs_Message r)) \<noteq> [])
     \<and> rs_Output r = []"

definition hasPromptMismatch :: "string \<Rightarrow> string \<Rightarrow> bool" where
  "hasPromptMismatch requestInstructions responseInstructions =
     (let a = trim_space requestInstructions; b = trim_space responseInstructions
      in if a = [] \<or> b = [] then False else a \<noteq> b)"

text \<open>Decoding of bodies and events into the structs.\<close>

record llm_codec =
  lx_response :: "string \<Rightarrow> responsesAPIResponse option"
  lx_event :: "string \<Rightarrow> responsesSSEEvent option"
  lx_chat :: "string \<Rightarrow> chatCompletionsResponse option"

definition no_usage :: responsesAPIUsage where
  "no_usage = \<lparr>us_InputTokens = 0, us_OutputTokens = 0, us_TotalTokens = 0, us_PromptTokens = 0, us_CompletionTokens = 0\<rparr>"

definition no_response :: responsesAPIResponse where
  "no_response = \<lparr>rs_ID = [], rs_Instructions = [], rs_OutputText = [], rs_Output = [], rs_Usage = no_usage,
     rs_Error = None, rs_Message = None, rs_Content = JNull, rs_Text = JNull\<rparr>"

definition sse_event :: "responsesAPIResponse \<times> string list \<Rightarrow> responsesSSEEvent \<Rightarrow> responsesAPIResponse \<times> string list" where
  "sse_event st ev =
     (let (resp, deltas) = st;
          r1 = (case sv_Response ev of Some r \<Rightarrow> r | None \<Rightarrow> resp);
          r2 = (case sv_Error ev of Some e \<Rightarrow> r1\<lparr>rs_Error := Some e\<rparr> | None \<Rightarrow> r1)
      in (r2, if sv_Type ev = ''response.output_text.delta'' \<and> sv_Delta ev \<noteq> [] then deltas @ [sv_Delta ev] else deltas))"

definition sse_line ::
  "llm_codec \<Rightarrow> responsesAPIResponse \<times> string list \<Rightarrow> string \<Rightarrow> responsesAPIResponse \<times> string list" where
  "sse_line lx st raw =
     (let line = trim_space raw
      in if \<not> prefix ''data:'' line then st
         else
           let payload = trim_space (trim_prefix line ''data:'')
           in if payload = [] \<or> payload = ''[DONE]'' then st
              else (case lx_event lx payload of None \<Rightarrow> st | Some ev \<Rightarrow> sse_event st ev))"

definition parseResponsesSSE :: "llm_codec \<Rightarrow> string \<Rightarrow> responsesAPIResponse result" where
  "parseResponsesSSE lx body =
     (let (resp, deltas) = foldl (sse_line lx) (no_response, []) (split_on (CHR 0x0A) body)
      in if rs_ID resp = [] \<and> rs_Error resp = None \<and> deltas = [] then Inl ''no parseable Responses SSE events''
         else Inr (normalize (if trim_space (rs_OutputText resp) = [] \<and> deltas \<noteq> []
                              then resp\<lparr>rs_OutputText := concat deltas\<rparr> else resp)))"

definition parseResponsesBody :: "llm_codec \<Rightarrow> string \<Rightarrow> responsesAPIResponse result" where
  "parseResponsesBody lx body =
     (let trimmed = trim_space body
      in if prefix ''data:'' trimmed then parseResponsesSSE lx trimmed
         else (case lx_response lx body of None \<Rightarrow> Inl ''invalid JSON'' | Some r \<Rightarrow> Inr (normalize r)))"

section \<open>One response\<close>

definition function_call :: "string \<Rightarrow> string \<Rightarrow> string \<Rightarrow> llm_tool_call" where
  "function_call i n a = \<lparr>tc_ID = i, tc_Type = LLMToolTypeFunction, tc_Name = n, tc_Arguments = a\<rparr>"

definition mk_response :: "llm_choice list \<Rightarrow> int \<Rightarrow> int \<Rightarrow> llm_response" where
  "mk_response choices i out = \<lparr>lr_Choices = choices, lr_PromptTokens = i, lr_CompletionTokens = out\<rparr>"

definition convertResponsesResponse :: "responsesAPIResponse \<Rightarrow> llm_response" where
  "convertResponsesResponse resp0 =
     (let resp = normalize resp0;
          blank = (trim_space (rs_OutputText resp) = []);
          textParts =
            (if \<not> blank then [rs_OutputText resp]
             else filter (\<lambda>t. t \<noteq> []) [contentToText (rs_Content resp), messageText (rs_Message resp)])
            @ concat (map (\<lambda>item. if oi_Type item = ''message'' \<and> blank
                                  then filter (\<lambda>t. trim_space t \<noteq> []) (oi_Content item) else []) (rs_Output resp));
          calls = map (\<lambda>item. function_call (oi_CallID item) (oi_Name item) (oi_Arguments item))
                    (filter (\<lambda>item. oi_Type item = ''function_call'') (rs_Output resp))
      in mk_response
           [\<lparr>lc_Message = \<lparr>lm_Role = LLMRoleAssistant, lm_Content = trim_space (join [CHR 0x0A] textParts),
                           lm_ReasoningContent = [], lm_ToolCalls = calls\<rparr>,
             lc_FinishReason = (if calls \<noteq> [] then LLMFinishReasonToolCalls else LLMFinishReasonStop)\<rparr>]
           (us_InputTokens (rs_Usage resp)) (us_OutputTokens (rs_Usage resp)))"

definition convert_choice :: "chatCompletionChoice \<Rightarrow> llm_choice" where
  "convert_choice choice =
     (let m = cx_Message choice;
          msg = \<lparr>lm_Role = (if cm_Role m = [] then LLMRoleAssistant else cm_Role m), lm_Content = trim_space (cm_Content m),
                 lm_ReasoningContent = trim_space (cm_ReasoningContent m), lm_ToolCalls = cm_ToolCalls m\<rparr>
      in \<lparr>lc_Message = msg,
          lc_FinishReason = (if lm_ToolCalls msg \<noteq> [] then LLMFinishReasonToolCalls
                             else if cx_FinishReason choice = [] then LLMFinishReasonStop else cx_FinishReason choice)\<rparr>)"

definition empty_choice :: llm_choice where
  "empty_choice = \<lparr>lc_Message = \<lparr>lm_Role = LLMRoleAssistant, lm_Content = [], lm_ReasoningContent = [], lm_ToolCalls = []\<rparr>,
     lc_FinishReason = LLMFinishReasonStop\<rparr>"

definition convertChatCompletionsResponse :: "chatCompletionsResponse \<Rightarrow> llm_response" where
  "convertChatCompletionsResponse resp =
     mk_response (if cr_Choices resp = [] then [empty_choice] else map convert_choice (cr_Choices resp))
       (cr_PromptTokens resp) (cr_CompletionTokens resp)"

definition convertAnthropicResponse :: "anthropic_response \<Rightarrow> llm_response" where
  "convertAnthropicResponse resp =
     (let textParts = List.map_filter (\<lambda>b. case b of TextBlock t \<Rightarrow> t | _ \<Rightarrow> None) (ar_Content resp);
          calls = List.map_filter (\<lambda>b. case b of
             ToolUseBlock i n a \<Rightarrow> if i \<noteq> [] then Some (function_call i n a) else None | _ \<Rightarrow> None) (ar_Content resp)
      in mk_response
           [\<lparr>lc_Message = \<lparr>lm_Role = LLMRoleAssistant, lm_Content = join [CHR 0x0A] textParts, lm_ReasoningContent = [],
                           lm_ToolCalls = calls\<rparr>,
             lc_FinishReason = (if ar_StopReason resp = ''tool_use'' then LLMFinishReasonToolCalls else LLMFinishReasonStop)\<rparr>]
           (ar_InputTokens resp) (ar_OutputTokens resp))"

section \<open>Calls\<close>

text \<open>
  The transport. \<open>tr_post\<close> sends a request to an endpoint and yields the error of the HTTP client, or
  the status with the first ten megabytes of the body; \<open>tr_anthropic\<close> is the Anthropic library; \<open>tr_err\<close>
  is the error of the context with the retry budget, and \<open>tr_wait\<close> waits unless that context ends first.
\<close>

datatype llm_request = ChatRequest chatCompletionsRequest | ResponsesRequest responsesAPIRequest

record 'w transport =
  tr_post :: "string \<Rightarrow> llm_request \<Rightarrow> 'w \<Rightarrow> (string + int \<times> string) \<times> 'w"
  tr_anthropic :: "anthropic_request \<Rightarrow> 'w \<Rightarrow> (string + anthropic_response) \<times> 'w"
  tr_err :: "'w \<Rightarrow> string option \<times> 'w"
  tr_wait :: "nat \<Rightarrow> 'w \<Rightarrow> string option \<times> 'w"

definition api_error :: "string \<Rightarrow> responsesAPIError \<Rightarrow> string" where
  "api_error api e = ''OpenAI '' @ api @ '' API call failed: code='' @ er_Code e @ '' message='' @ er_Message e"

definition status_error :: "string \<Rightarrow> int \<Rightarrow> string \<Rightarrow> string" where
  "status_error api status body =
     ''OpenAI '' @ api @ '' API call failed: status='' @ itoa status @ '' body='' @ trim_space (take 4096 body)"

definition read_responses :: "llm_codec \<Rightarrow> responsesAPIRequest \<Rightarrow> int \<times> string \<Rightarrow> llm_response result" where
  "read_responses lx req answer =
     (let (status, body) = answer
      in if status \<ge> 300 then Inl (status_error ''Responses'' status body)
         else (case parseResponsesBody lx body of
                 Inl e \<Rightarrow> Inl (''failed to parse Responses body: '' @ e)
               | Inr r \<Rightarrow>
                   (case rs_Error r of
                      Some e \<Rightarrow> Inl (api_error ''Responses'' e)
                    | None \<Rightarrow>
                        if hasPromptMismatch (rq_Instructions req) (rs_Instructions r) \<and> isEmptyOutput r
                        then Inl (''upstream LLM gateway returned a response with mismatched instructions and no output; ''
                                  @ ''check model routing or gateway configuration'')
                        else Inr (convertResponsesResponse r))))"

definition read_chat :: "llm_codec \<Rightarrow> int \<times> string \<Rightarrow> llm_response result" where
  "read_chat lx answer =
     (let (status, body) = answer
      in if status \<ge> 300 then Inl (status_error ''Chat Completions'' status body)
         else (case lx_chat lx body of
                 None \<Rightarrow> Inl ''failed to parse Chat Completions body: invalid JSON''
               | Some r \<Rightarrow>
                   (case cr_Error r of
                      Some e \<Rightarrow> Inl (api_error ''Chat Completions'' e)
                    | None \<Rightarrow> Inr (convertChatCompletionsResponse r))))"

definition chatOpenAI ::
  "'w transport \<Rightarrow> llm_codec \<Rightarrow> url_lib \<Rightarrow> llm_config \<Rightarrow> prompt_bundle \<Rightarrow> tool_spec list \<Rightarrow> 'w \<Rightarrow> llm_response result \<times> 'w" where
  "chatOpenAI tr lx lib cfg bundle toolSpecs w =
     (case resolveOpenAIEndpoint lib cfg of
        Inl e \<Rightarrow> (Inl e, w)
      | Inr (endpoint, openAIAPIChatCompletions) \<Rightarrow>
          (case tr_post tr endpoint (ChatRequest (buildChatCompletionsRequest cfg bundle toolSpecs)) w of
             (Inl e, w1) \<Rightarrow> (Inl (''OpenAI Chat Completions API call failed: '' @ e), w1)
           | (Inr answer, w1) \<Rightarrow> (read_chat lx answer, w1))
      | Inr (endpoint, openAIAPIResponses) \<Rightarrow>
          (let req = buildResponsesRequest cfg bundle toolSpecs
           in case tr_post tr endpoint (ResponsesRequest req) w of
                (Inl e, w1) \<Rightarrow> (Inl (''OpenAI Responses API call failed: '' @ e), w1)
              | (Inr answer, w1) \<Rightarrow> (read_responses lx req answer, w1)))"

definition chatAnthropic ::
  "'w transport \<Rightarrow> llm_config \<Rightarrow> prompt_bundle \<Rightarrow> tool_spec list \<Rightarrow> 'w \<Rightarrow> llm_response result \<times> 'w" where
  "chatAnthropic tr cfg bundle toolSpecs w =
     (case tr_anthropic tr (buildAnthropicRequest cfg bundle toolSpecs) w of
        (Inl e, w1) \<Rightarrow> (Inl (''Anthropic API call failed: '' @ e), w1)
      | (Inr resp, w1) \<Rightarrow> (Inr (convertAnthropicResponse resp), w1))"

definition isRetryableLLMError :: "string \<Rightarrow> bool" where
  "isRetryableLLMError err =
     (let msg = to_lower err
      in if list_ex (contains msg) [''status=400'', ''status=401'', ''status=403'', ''status=404'', ''status=422''] then False
         else list_ex (contains msg)
           [''timeout'', ''tls handshake'', ''i/o timeout'', ''eof'', ''connection refused'', ''connection reset'',
            ''status=429'', ''status=500'', ''status=502'', ''status=503'', ''status=504''])"

text \<open>The loop over the attempts; \<open>delays\<close> are the pauses in seconds still allowed.\<close>

fun chat_attempts ::
  "'w transport \<Rightarrow> ('w \<Rightarrow> llm_response result \<times> 'w) \<Rightarrow> nat list \<Rightarrow> 'w \<Rightarrow> llm_response result \<times> 'w" where
  "chat_attempts tr call delays w =
     (case tr_err tr w of
        (Some e, w1) \<Rightarrow> (Inl (''LLM retry budget exceeded: '' @ e), w1)
      | (None, w1) \<Rightarrow>
          (case call w1 of
             (Inr resp, w2) \<Rightarrow> (Inr resp, w2)
           | (Inl err, w2) \<Rightarrow>
               if \<not> isRetryableLLMError err then (Inl err, w2)
               else (case delays of
                       [] \<Rightarrow> (Inl (''LLM API request failed after 3 retries: '' @ err), w2)
                     | d # ds \<Rightarrow>
                         (case tr_wait tr d w2 of
                            (Some e, w3) \<Rightarrow> (Inl (''LLM retry budget exceeded: '' @ e), w3)
                          | (None, w3) \<Rightarrow> chat_attempts tr call ds w3))))"

definition retryDelays :: "nat list" where "retryDelays = [1, 3, 8]"

definition ChatWithTools ::
  "'w transport \<Rightarrow> llm_codec \<Rightarrow> url_lib \<Rightarrow> llm_config \<Rightarrow> prompt_bundle \<Rightarrow> tool_spec list \<Rightarrow> 'w \<Rightarrow> llm_response result \<times> 'w" where
  "ChatWithTools tr lx lib cfg bundle toolSpecs w =
     chat_attempts tr
       (\<lambda>w. if cfg_Provider cfg = ''anthropic'' then chatAnthropic tr cfg bundle toolSpecs w
            else chatOpenAI tr lx lib cfg bundle toolSpecs w)
       retryDelays w"

definition SimpleChatFunc ::
  "'w transport \<Rightarrow> llm_codec \<Rightarrow> url_lib \<Rightarrow> llm_config \<Rightarrow> string \<Rightarrow> string \<Rightarrow> 'w \<Rightarrow> string result \<times> 'w" where
  "SimpleChatFunc tr lx lib cfg systemPrompt userPrompt w =
     (case ChatWithTools tr lx lib cfg \<lparr>pb_Policy = systemPrompt, pb_PolicyAppendix = [], pb_Task = userPrompt,
              pb_RuntimeContext = [], pb_History = []\<rparr> [] w of
        (Inl e, w1) \<Rightarrow> (Inl e, w1)
      | (Inr resp, w1) \<Rightarrow>
          (case lr_Choices resp of
             [] \<Rightarrow> (Inl ''LLM returned empty response'', w1)
           | c # _ \<Rightarrow> (Inr (lm_Content (lc_Message c)), w1)))"

declare chat_attempts.simps [simp del]

section \<open>Attempts\<close>

text \<open>The transport with a counter of the requests sent in its world.\<close>

definition counting :: "'w transport \<Rightarrow> ('w \<times> nat) transport" where
  "counting tr =
     \<lparr>tr_post = \<lambda>endpoint req (w, n). (case tr_post tr endpoint req w of (r, w') \<Rightarrow> (r, (w', n + 1))),
      tr_anthropic = \<lambda>req (w, n). (case tr_anthropic tr req w of (r, w') \<Rightarrow> (r, (w', n + 1))),
      tr_err = \<lambda>(w, n). (case tr_err tr w of (e, w') \<Rightarrow> (e, (w', n))),
      tr_wait = \<lambda>d (w, n). (case tr_wait tr d w of (e, w') \<Rightarrow> (e, (w', n)))\<rparr>"

lemma chatOpenAI_posts: "snd (snd (chatOpenAI (counting tr) lx lib cfg b specs w)) \<le> Suc (snd w)"
  by (cases w) (auto simp: chatOpenAI_def counting_def Let_def split: sum.split prod.split openAIAPIKind.split)

lemma chatAnthropic_posts: "snd (snd (chatAnthropic (counting tr) cfg b specs w)) \<le> Suc (snd w)"
  by (cases w) (auto simp: chatAnthropic_def counting_def split: sum.split prod.split)

lemma attempts_posts:
  assumes call: "\<And>w. snd (snd (call w)) \<le> Suc (snd w)"
  shows "snd (snd (chat_attempts (counting tr) call ds w)) \<le> snd w + Suc (length ds)"
proof (induction ds arbitrary: w)
  case Nil
  obtain e w1 where e: "tr_err (counting tr) w = (e, w1)" by (metis surj_pair)
  obtain r w2 where r: "call w1 = (r, w2)" by (metis surj_pair)
  have "snd w1 = snd w" using e by (cases w) (auto simp: counting_def split: prod.splits)
  then show ?case using e r call [of w1] by (subst chat_attempts.simps) (auto split: option.split sum.split)
next
  case (Cons d ds)
  obtain e w1 where e: "tr_err (counting tr) w = (e, w1)" by (metis surj_pair)
  obtain r w2 where r: "call w1 = (r, w2)" by (metis surj_pair)
  obtain x w3 where x: "tr_wait (counting tr) d w2 = (x, w3)" by (metis surj_pair)
  have "snd w1 = snd w" using e by (cases w) (auto simp: counting_def split: prod.splits)
  moreover have "snd w3 = snd w2" using x by (cases w2) (auto simp: counting_def split: prod.splits)
  ultimately show ?case using e r x call [of w1] Cons.IH [of w3]
    by (subst chat_attempts.simps) (auto split: option.split sum.split)
qed

lemma ChatWithTools_posts: "snd (snd (ChatWithTools (counting tr) lx lib cfg b specs w)) \<le> snd w + 4"
proof -
  have "snd (snd (chat_attempts (counting tr)
      (\<lambda>w. if cfg_Provider cfg = ''anthropic'' then chatAnthropic (counting tr) cfg b specs w
           else chatOpenAI (counting tr) lx lib cfg b specs w) retryDelays w)) \<le> snd w + Suc (length retryDelays)"
    by (rule attempts_posts) (simp add: chatOpenAI_posts chatAnthropic_posts)
  then show ?thesis by (simp add: ChatWithTools_def retryDelays_def)
qed

text \<open>An error of the client ends the attempts at once; only errors that may pass are repeated.\<close>

lemma client_error_ends:
  assumes "tr_err tr w = (None, w1)" "call w1 = (Inl err, w2)" "\<not> isRetryableLLMError err"
  shows "chat_attempts tr call ds w = (Inl err, w2)"
  using assms by (subst chat_attempts.simps) simp

lemma success_ends:
  assumes "tr_err tr w = (None, w1)" "call w1 = (Inr resp, w2)"
  shows "chat_attempts tr call ds w = (Inr resp, w2)"
  using assms by (subst chat_attempts.simps) simp

text \<open>
  The decision reads the whole message, with the body of the answer in it: a gateway error whose body
  mentions another status is not repeated, a conflict whose body mentions a timeout is.
\<close>

lemma body_decides_retry:
  "\<not> isRetryableLLMError (status_error ''Responses'' 503 ''upstream answered status=404'')
   \<and> isRetryableLLMError (status_error ''Responses'' 503 ''upstream is down'')
   \<and> isRetryableLLMError (status_error ''Responses'' 409 ''session timeout'')"
  by code_simp

section \<open>The client in the engine\<close>

text \<open>
  The engine's environment with the client as its model; the counter of requests is part of the world,
  which the tools, the clock and the cancellation signal pass on.
\<close>

definition metered ::
  "'w transport \<Rightarrow> llm_codec \<Rightarrow> url_lib \<Rightarrow> llm_config \<Rightarrow> tool_spec list \<Rightarrow> 'w engine_env \<Rightarrow> ('w \<times> nat) engine_env" where
  "metered tr lx lib cfg specs env =
     \<lparr>env_llm = \<lambda>w b k. ChatWithTools (counting tr) lx lib cfg b (if k then specs else []) w,
      env_tool = \<lambda>(w, n) t a. (case env_tool env w t a of (r, w') \<Rightarrow> (r, (w', n))),
      env_done = \<lambda>(w, n). (case env_done env w of (d, w') \<Rightarrow> (d, (w', n))),
      env_sleep = \<lambda>(w, n) k. (case env_sleep env w k of (d, w') \<Rightarrow> (d, (w', n))),
      env_ctx_error = \<lambda>(w, n). env_ctx_error env w,
      env_elapsed = \<lambda>(w, n). env_elapsed env w,
      env_vars = map_option (\<lambda>f (w, n). f w) (env_vars env),
      env_ask = env_ask env, env_quote = env_quote env, env_codec = env_codec env\<rparr>"

text \<open>Four requests per question at most: the counters of \<open>metered\<close> and \<open>counted\<close>.\<close>

definition four_per_question :: "('w \<times> nat) \<times> nat \<times> nat \<Rightarrow> bool" where
  "four_per_question w \<longleftrightarrow> snd (fst w) \<le> 4 * fst (snd w)"

interpretation metered_kept: kept_world "counted (metered tr lx lib cfg specs env)" four_per_question for tr lx lib cfg specs env
proof unfold_locales
  fix w b k r w'
  assume w: "four_per_question w" and call: "env_llm (counted (metered tr lx lib cfg specs env)) w b k = (r, w')"
  obtain v posts asked tools where v: "w = ((v, posts), (asked, tools))" by (metis surj_pair)
  obtain r' v' posts' where r: "ChatWithTools (counting tr) lx lib cfg b (if k then specs else []) (v, posts) = (r', (v', posts'))"
    by (metis surj_pair)
  have "posts' \<le> posts + 4"
    using ChatWithTools_posts [of tr lx lib cfg b "if k then specs else []" "(v, posts)"] by (simp add: r)
  moreover have "w' = ((v', posts'), (asked + 1, tools))"
    using call by (simp add: counted_def metered_def v r)
  ultimately show "four_per_question w'" using w by (simp add: v four_per_question_def)
qed (auto simp: counted_def metered_def four_per_question_def split: prod.splits)


section \<open>Streams\<close>

text \<open>The stream of server-sent events with the given payloads.\<close>

definition sse_stream :: "string list \<Rightarrow> string" where
  "sse_stream payloads = join [CHR 0x0A] (map (\<lambda>p. ''data: '' @ p) payloads)"

definition plain_payload :: "string \<Rightarrow> bool" where
  "plain_payload p \<longleftrightarrow> p \<noteq> [] \<and> p \<noteq> ''[DONE]'' \<and> plain_head (hd p) \<and> plain_last (last p) \<and> CHR 0x0A \<notin> set p"

definition delta_event :: "string \<Rightarrow> responsesSSEEvent" where
  "delta_event d = \<lparr>sv_Type = ''response.output_text.delta'', sv_Response = None, sv_Error = None, sv_Delta = d\<rparr>"

lemma sse_line_data:
  assumes "plain_payload p"
  shows "sse_line lx st (''data: '' @ p) = (case lx_event lx p of None \<Rightarrow> st | Some ev \<Rightarrow> sse_event st ev)"
proof -
  have "plain_head (CHR ''d'')" by (simp add: plain_head_def ws_seqs_def)
  then have "trim_space (''data: '' @ p) = ''data: '' @ p"
    using assms by (intro trim_space_plain) (simp_all add: plain_payload_def)
  moreover have "trim_space (trim_prefix (''data: '' @ p) ''data:'') = p"
    using assms by (simp add: trim_prefix_def trim_space_blank trim_space_plain plain_payload_def)
  ultimately show ?thesis using assms by (simp add: sse_line_def Let_def plain_payload_def)
qed

lemma sse_lines_data:
  "\<forall>p \<in> set ps. plain_payload p \<and> lx_event lx p \<noteq> None \<Longrightarrow>
     foldl (sse_line lx) st (map (\<lambda>p. ''data: '' @ p) ps) = foldl sse_event st (map (the \<circ> lx_event lx) ps)"
proof (induction ps arbitrary: st)
  case (Cons p ps)
  then obtain ev where "lx_event lx p = Some ev" by auto
  then have "sse_line lx st (''data: '' @ p) = sse_event st ev" using Cons.prems sse_line_data [of p lx st] by simp
  with Cons show ?case using \<open>lx_event lx p = Some ev\<close> by simp
qed simp

lemma sse_deltas:
  "\<forall>d \<in> set ds. d \<noteq> [] \<Longrightarrow> foldl sse_event (r, acc) (map delta_event ds) = (r, acc @ ds)"
  by (induction ds arbitrary: acc) (simp_all add: sse_event_def delta_event_def)

text \<open>
  A text that is streamed arrives whole: the answer read from a stream of text deltas has their
  concatenation as its text, trimmed at its ends, whatever texts the deltas are.
\<close>

theorem streamed_text_assembled:
  assumes "ds \<noteq> []" "\<forall>d \<in> set ds. d \<noteq> [] \<and> plain_payload (enc d) \<and> lx_event lx (enc d) = Some (delta_event d)"
    and "trim_space (concat ds) \<noteq> []"
  shows "\<exists>r. parseResponsesSSE lx (sse_stream (map enc ds)) = Inr r
    \<and> map (\<lambda>c. lm_Content (lc_Message c)) (lr_Choices (convertResponsesResponse r)) = [trim_space (concat ds)]"
proof -
  have lines: "split_on (CHR 0x0A) (sse_stream (map enc ds)) = map (\<lambda>p. ''data: '' @ p) (map enc ds)"
    unfolding sse_stream_def using assms by (intro split_on_join) (auto simp: plain_payload_def)
  have "foldl (sse_line lx) (no_response, []) (map (\<lambda>p. ''data: '' @ p) (map enc ds))
      = foldl sse_event (no_response, []) (map (the \<circ> lx_event lx) (map enc ds))"
    using assms(2) by (intro sse_lines_data) auto
  also have "map (the \<circ> lx_event lx) (map enc ds) = map delta_event ds" using assms(2) by simp
  also have "foldl sse_event (no_response, []) (map delta_event ds) = (no_response, ds)"
    using assms(2) sse_deltas [of ds no_response "[]"] by simp
  finally have "parseResponsesSSE lx (sse_stream (map enc ds)) = Inr (normalize (no_response\<lparr>rs_OutputText := concat ds\<rparr>))"
    using assms(1) lines by (simp add: parseResponsesSSE_def no_response_def)
  then show ?thesis
    using assms(3) by (simp add: convertResponsesResponse_def normalize_def no_response_def mk_response_def Let_def)
qed

definition braces_codec :: llm_codec where
  "braces_codec = \<lparr>lx_response = \<lambda>_. None, lx_event = \<lambda>p. Some (delta_event (butlast (tl p))), lx_chat = \<lambda>_. None\<rparr>"

theorem streamed_text_assembled_witness:
  "\<exists>r. parseResponsesSSE braces_codec (sse_stream [''{Hel}'', ''{lo}'']) = Inr r
     \<and> map (\<lambda>c. lm_Content (lc_Message c)) (lr_Choices (convertResponsesResponse r)) = [''Hello'']"
proof -
  let ?ds = "[''Hel'', ''lo'']" and ?enc = "\<lambda>d. ''{'' @ d @ ''}''"
  have "\<forall>d \<in> set ?ds. d \<noteq> [] \<and> plain_payload (?enc d) \<and> lx_event braces_codec (?enc d) = Some (delta_event d)"
    by (simp add: braces_codec_def plain_payload_def plain_head_def plain_last_def ws_seqs_def)
  moreover have "trim_space (concat ?ds) = ''Hello''" by code_simp
  ultimately show ?thesis using streamed_text_assembled [of ?ds ?enc braces_codec] by simp
qed

text \<open>An error that the stream reports is lost when an event with a response follows it.\<close>

definition failing_stream :: llm_codec where
  "failing_stream =
     \<lparr>lx_response = \<lambda>_. None,
      lx_event = \<lambda>p. Some ((delta_event [])\<lparr>
         sv_Response := (if p = ''r'' then Some (no_response\<lparr>rs_ID := ''x''\<rparr>) else None),
         sv_Error := (if p = ''e'' then Some \<lparr>er_Code = ''c'', er_Message = ''m''\<rparr> else None)\<rparr>),
      lx_chat = \<lambda>_. None\<rparr>"

lemma stream_error_lost:
  "(case parseResponsesSSE failing_stream (sse_stream [''e'', ''r'']) of Inl _ \<Rightarrow> False | Inr r \<Rightarrow> rs_Error r = None)
   \<and> (case parseResponsesSSE failing_stream (sse_stream [''r'', ''e'']) of Inl _ \<Rightarrow> False | Inr r \<Rightarrow> rs_Error r \<noteq> None)"
  by code_simp

section \<open>Answers and history\<close>

text \<open>After normalising an answer is empty exactly when it has neither text nor output.\<close>

lemma empty_after_normalize:
  "isEmptyOutput (normalize r) \<longleftrightarrow> trim_space (rs_OutputText (normalize r)) = [] \<and> rs_Output r = []"
  by (auto simp: isEmptyOutput_def normalize_def firstText_def split: if_splits option.splits)

lemma normalize_idem: "normalize (normalize r) = normalize r"
  by (cases "rs_Usage r") (auto simp: normalize_def normalize_usage_def firstText_def Let_def split: option.splits)

text \<open>The answers of Responses and Anthropic come from the assistant; that of Chat Completions from whoever it names.\<close>

lemma answer_roles:
  "list_all (\<lambda>c. lm_Role (lc_Message c) = LLMRoleAssistant) (lr_Choices (convertResponsesResponse r))"
  "list_all (\<lambda>c. lm_Role (lc_Message c) = LLMRoleAssistant) (lr_Choices (convertAnthropicResponse a))"
  by (simp_all add: convertResponsesResponse_def convertAnthropicResponse_def mk_response_def Let_def)

text \<open>
  What the model says comes back to it: the item that the engine puts into the history for an answer
  in Chat Completions is sent as the message it was, with its texts trimmed.
\<close>

definition answer_item :: "llm_choice \<Rightarrow> conversation_item" where
  "answer_item c = (assistant_item (lm_Content (lc_Message c)) (lm_ReasoningContent (lc_Message c)))
     \<lparr>ci_ToolCalls := lm_ToolCalls (lc_Message c)\<rparr>"

lemma answer_comes_back:
  assumes "trim_space (cm_Content m) \<noteq> [] \<or> cm_ToolCalls m \<noteq> []" "\<forall>tc \<in> set (cm_ToolCalls m). tc_Type tc = LLMToolTypeFunction"
    and "cm_Role m = LLMRoleAssistant" "cm_ToolCallID m = []"
  shows "chat_item (answer_item (convert_choice \<lparr>cx_Message = m, cx_FinishReason = f\<rparr>))
    = [m\<lparr>cm_Content := trim_space (cm_Content m), cm_ReasoningContent := trim_space (cm_ReasoningContent m)\<rparr>]"
proof -
  have "map (\<lambda>tc. tc\<lparr>tc_Type := LLMToolTypeFunction\<rparr>) (cm_ToolCalls m) = cm_ToolCalls m"
    using assms(2) by (intro map_idI) (metis llm_tool_call.surjective llm_tool_call.update_convs(2))
  with assms(1,3,4) show ?thesis
    by (cases m) (auto simp: chat_item_def answer_item_def convert_choice_def assistant_item_def Let_def)
qed

text \<open>
  A role that a gateway invents is kept: such a message is left out of the next request, while the
  results of its calls are sent.
\<close>

lemma foreign_role_orphans_results:
  "let m = lc_Message (convert_choice \<lparr>cx_Message = (chat_text ''model'' [])\<lparr>cm_ToolCalls := [sample_call ''c'' ''data_list_tables'']\<rparr>,
             cx_FinishReason = []\<rparr>)
   in \<not> chat_answers {} (concat (map chat_item [user_item ''hi'', compactAssistantMessage sample_codec m, tool_item ''c'' ''ok'']))"
  by code_simp

section \<open>Endpoints resolved\<close>

lemma chat_path_suffix: "suffix ''/chat/completions'' (to_lower (chat_path p)) \<or> suffix ''/chat/completions'' (to_lower (trim_right_slash p))"
  by (auto simp: chat_path_def Let_def to_lower_def suffix_def lower_char_def)

text \<open>A DeepSeek host is only spoken to in Chat Completions.\<close>

lemma deepseek_uses_chat:
  assumes "isDeepSeekEndpoint lib (trim_space (cfg_BaseURL cfg)) \<or> isDeepSeekEndpoint lib (trim_space (cfg_APIEndpoint cfg))"
    "trim_space (cfg_APIEndpoint cfg) \<noteq> []"
  shows "\<exists>endpoint. resolveOpenAIEndpoint lib cfg = Inr (endpoint, openAIAPIChatCompletions)"
  using assms by (auto simp: resolveOpenAIEndpoint_def Let_def)

end
