(* ===== verification/Report_Html.thy ===== *)
theory Report_Html
  imports Report_Scope
begin

text \<open>
  The HTML of a report's contents (\<open>server/tools/report_html.go\<close>): escaping, the conversion of
  Markdown and the containers of charts. The parser and the printer of HTML trees
  (\<open>golang.org/x/net/html\<close>), the JSON codec and the part of \<open>url.Parse\<close> that follows the scheme are
  parameters.
\<close>

abbreviation lf :: string where "lf \<equiv> [CHR 0x0A]"

section \<open>Escaping\<close>

text \<open>\<open>html.EscapeString\<close>.\<close>

definition escape_char :: "char \<Rightarrow> string" where
  "escape_char c =
     (if c = CHR ''&'' then ''&amp;'' else if c = CHR 0x27 then ''&#39;''
      else if c = CHR ''<'' then ''&lt;'' else if c = CHR ''>'' then ''&gt;''
      else if c = CHR 0x22 then ''&#34;'' else [c])"

definition EscapeString :: "string \<Rightarrow> string" where
  "EscapeString s = concat (map escape_char s)"

definition escapeHTMLText :: "string \<Rightarrow> string" where
  "escapeHTMLText value = EscapeString (trim_space value)"

definition escapeHTMLAttr :: "string \<Rightarrow> string" where
  "escapeHTMLAttr value = EscapeString (trim_space value)"

text \<open>Bytes that could leave a text or a quoted attribute of the page.\<close>

definition markup_chars :: "char set" where
  "markup_chars = {CHR ''<'', CHR ''>'', CHR 0x22, CHR 0x27}"

lemma escape_no_markup: "c \<in> set (EscapeString s) \<Longrightarrow> c \<notin> markup_chars"
  by (auto simp: EscapeString_def escape_char_def markup_chars_def split: if_splits)

lemmas escaped_no_markup [simp] = escape_no_markup [where s = "trim_space s" for s, folded escapeHTMLText_def]
  escape_no_markup [where s = "trim_space s" for s, folded escapeHTMLAttr_def]

section \<open>Bold text\<close>

text \<open>\<open>strings.Replace (s, old, new, 1)\<close> for a non-empty \<open>old\<close>.\<close>

fun replace_first :: "string \<Rightarrow> string \<Rightarrow> string \<Rightarrow> string" where
  "replace_first old new [] = []"
| "replace_first old new (c # s) =
     (if prefix old (c # s) then new @ drop (length old) (c # s) else c # replace_first old new s)"

abbreviation stars :: string where "stars \<equiv> ''**''"
abbreviation bold_on :: string where "bold_on \<equiv> ''<strong>''"
abbreviation bold_off :: string where "bold_off \<equiv> ''</strong>''"

lemma replace_first_absent: "\<not> contains s old \<Longrightarrow> replace_first old new s = s"
  by (induction s) auto

lemma count_replace_first:
  assumes "c \<notin> set new"
  shows "count_list (replace_first old new s) c \<le> count_list s c"
proof (induction s)
  case (Cons a s)
  have "count_list (drop (length old) (a # s)) c \<le> count_list (a # s) c"
    using count_list_append [of "take (length old) (a # s)" "drop (length old) (a # s)" c] by simp
  then show ?case using Cons assms by (auto simp: count_notin split: if_splits)
qed simp

lemma count_replace_stars:
  "CHR ''*'' \<notin> set new \<Longrightarrow> contains s stars \<Longrightarrow>
   count_list (replace_first stars new s) (CHR ''*'') < count_list s (CHR ''*'')"
  by (induction s) (auto simp: count_notin prefix_def)

definition stars_left :: "string \<Rightarrow> nat" where
  "stars_left t = count_list t (CHR ''*'')"

function bold_loop :: "string \<Rightarrow> string" where
  "bold_loop text =
     (if contains text stars
      then bold_loop (replace_first stars bold_off (replace_first stars bold_on text))
      else text)"
  by pat_completeness auto
termination
proof (relation "measure stars_left", goal_cases)
  case (2 s)
  then have "count_list (replace_first stars bold_on s) (CHR ''*'') < count_list s (CHR ''*'')"
    by (intro count_replace_stars) auto
  then show ?case
    using count_replace_first [of "CHR ''*''" bold_off stars "replace_first stars bold_on s"]
    by (simp add: stars_left_def)
qed simp

declare bold_loop.simps [simp del]

definition formatInline :: "string \<Rightarrow> string" where
  "formatInline text = bold_loop (escapeHTMLText text)"

text \<open>What the loop computes: the double stars become opening and closing tags in turn.\<close>

fun bold_marks :: "bool \<Rightarrow> string \<Rightarrow> string" where
  "bold_marks opened [] = []"
| "bold_marks opened [c] = [c]"
| "bold_marks opened (c # d # s) =
     (if c = CHR ''*'' \<and> d = CHR ''*''
      then (if opened then bold_off else bold_on) @ bold_marks (\<not> opened) s
      else c # bold_marks opened (d # s))"

lemma bold_marks_absent: "\<not> contains s stars \<Longrightarrow> bold_marks b s = s"
  by (induction b s rule: bold_marks.induct) auto

lemma bold_marks_append:
  "\<not> contains (p @ [c]) stars \<Longrightarrow> c \<noteq> CHR ''*'' \<Longrightarrow> bold_marks b (p @ c # s) = p @ c # bold_marks b s"
proof (induction p)
  case Nil
  then show ?case by (cases s) auto
next
  case (Cons a p)
  then show ?case by (cases p) auto
qed

lemma contains_split: "contains s stars \<Longrightarrow> \<exists>p q. s = p @ stars @ q \<and> \<not> contains (p @ ''*'') stars"
proof (induction s)
  case (Cons c s)
  show ?case
  proof (cases "prefix stars (c # s)")
    case True
    then have "c # s = [] @ stars @ drop 2 (c # s)" by (auto simp: prefix_def)
    moreover have "\<not> contains ([] @ ''*'') stars" by simp
    ultimately show ?thesis by blast
  next
    case False
    with Cons obtain p q where s: "s = p @ stars @ q" "\<not> contains (p @ ''*'') stars" by auto
    have "\<not> prefix stars (c # p @ ''*'')" using False s(1) by (cases p) auto
    with s have "c # s = (c # p) @ stars @ q" "\<not> contains ((c # p) @ ''*'') stars" by simp_all
    then show ?thesis by blast
  qed
qed simp

lemma replace_at: "\<not> contains (p @ ''*'') stars \<Longrightarrow> replace_first stars new (p @ stars @ q) = p @ new @ q"
proof (induction p)
  case (Cons a p)
  then show ?case by (cases p) auto
qed simp

lemma replace_after:
  "\<not> contains (p @ [c]) stars \<Longrightarrow> c \<noteq> CHR ''*'' \<Longrightarrow>
   replace_first stars new (p @ c # s) = p @ c # replace_first stars new s"
proof (induction p)
  case (Cons a p)
  then show ?case by (cases p) auto
qed simp

lemma bold_marks_at: "\<not> contains (p @ ''*'') stars \<Longrightarrow>
  bold_marks b (p @ stars @ q) = p @ (if b then bold_off else bold_on) @ bold_marks (\<not> b) q"
proof (induction p)
  case (Cons a p)
  then show ?case by (cases p) auto
qed simp

lemma no_stars_tag:
  assumes "\<not> contains (p @ ''*'') stars" "CHR ''*'' \<notin> set t"
  shows "\<not> contains (p @ t) stars"
  using assms(1)
proof (induction p)
  case Nil
  have "\<not> sublist stars t" using assms(2) by (auto simp: sublist_def)
  then show ?case by (simp add: contains_sublist)
next
  case (Cons a p)
  have "\<not> prefix stars (a # t)" using assms(2) by (cases t) auto
  with Cons show ?case by (cases p) auto
qed

lemma bold_loop_marks: "bold_loop s = bold_marks False s"
proof (induction s rule: bold_loop.induct)
  case (1 s)
  show ?case
  proof (cases "contains s stars")
    case False
    then show ?thesis by (subst bold_loop.simps) (simp add: bold_marks_absent)
  next
    case True
    then obtain p q where s: "s = p @ stars @ q" "\<not> contains (p @ ''*'') stars"
      using contains_split by blast
    have n1: "\<not> contains ((p @ ''<strong'') @ ''>'') stars"
      using no_stars_tag [OF s(2), of bold_on] by simp
    have r1: "replace_first stars bold_on s = (p @ ''<strong'') @ CHR ''>'' # q"
      using replace_at [OF s(2)] s(1) by simp
    have r2: "replace_first stars bold_off ((p @ ''<strong'') @ CHR ''>'' # q)
        = (p @ ''<strong'') @ CHR ''>'' # replace_first stars bold_off q"
      by (rule replace_after [OF n1]) simp
    have m: "bold_marks False ((p @ ''<strong'') @ CHR ''>'' # u) = p @ bold_on @ bold_marks False u" for u
      using bold_marks_append [OF n1] by simp
    have ih: "bold_loop (replace_first stars bold_off (replace_first stars bold_on s))
        = p @ bold_on @ bold_marks False (replace_first stars bold_off q)"
      using 1 [OF True] unfolding r1 r2 m .
    have "bold_marks False (replace_first stars bold_off q) = bold_marks True q"
    proof (cases "contains q stars")
      case False
      then show ?thesis by (simp add: replace_first_absent bold_marks_absent)
    next
      case True
      then obtain p' q' where q: "q = p' @ stars @ q'" "\<not> contains (p' @ ''*'') stars"
        using contains_split by blast
      have n2: "\<not> contains ((p' @ ''</strong'') @ ''>'') stars"
        using no_stars_tag [OF q(2), of bold_off] by simp
      have "replace_first stars bold_off q = (p' @ ''</strong'') @ CHR ''>'' # q'"
        using replace_at [OF q(2)] q(1) by simp
      then show ?thesis
        using bold_marks_append [OF n2, of False q'] bold_marks_at [OF q(2), of True q'] q(1) by simp
    qed
    then show ?thesis
      using True ih bold_marks_at [OF s(2), of False q] s(1) by (subst bold_loop.simps) simp
  qed
qed

section \<open>Markdown\<close>

text \<open>One line; the state says whether a list and a table are open.\<close>

definition table_cells :: "string \<Rightarrow> string \<Rightarrow> string" where
  "table_cells tg trimmed =
     concat (map (\<lambda>cell. ''<'' @ tg @ ''>'' @ formatInline (trim_space cell) @ ''</'' @ tg @ ''>'')
               (split_on (CHR ''|'') (trim_byte (CHR ''|'') trimmed)))"

definition md_line :: "bool \<times> bool \<Rightarrow> string \<Rightarrow> string \<times> bool \<times> bool" where
  "md_line st line =
     (let inList = fst st; inTable = snd st; trimmed = trim_space line
      in if trimmed = []
         then ((if inList then ''</ul>'' @ lf else []) @ (if inTable then ''</tbody></table>'' @ lf else []),
               False, False)
         else if contains trimmed ''|'' \<and> \<not> inTable
         then (''<table><thead><tr>'' @ table_cells ''th'' trimmed @ ''</tr></thead><tbody>'' @ lf,
               inList, True)
         else if inTable \<and> contains trimmed ''---'' then ([], st)
         else if inTable \<and> contains trimmed ''|''
         then (''<tr>'' @ table_cells ''td'' trimmed @ ''</tr>'' @ lf, st)
         else if has_prefix trimmed ''- '' \<or> has_prefix trimmed ''* ''
         then ((if inList then [] else ''<ul>'' @ lf)
                 @ ''<li>'' @ formatInline (drop 2 trimmed) @ ''</li>'' @ lf, True, inTable)
         else if has_prefix trimmed ''#### ''
         then (''<h5>'' @ formatInline (drop 5 trimmed) @ ''</h5>'' @ lf, st)
         else if has_prefix trimmed ''### ''
         then (''<h4>'' @ formatInline (drop 4 trimmed) @ ''</h4>'' @ lf, st)
         else if has_prefix trimmed ''## ''
         then (''<h3>'' @ formatInline (drop 3 trimmed) @ ''</h3>'' @ lf, st)
         else if has_prefix trimmed ''# ''
         then (''<h2>'' @ formatInline (drop 2 trimmed) @ ''</h2>'' @ lf, st)
         else if contains trimmed ''{{chart:'' then (trimmed @ lf, st)
         else (''<p>'' @ formatInline trimmed @ ''</p>'' @ lf, st))"

fun md_lines :: "bool \<times> bool \<Rightarrow> string list \<Rightarrow> string" where
  "md_lines st [] =
     (if fst st then ''</ul>'' @ lf else []) @ (if snd st then ''</tbody></table>'' @ lf else [])"
| "md_lines st (l # ls) = fst (md_line st l) @ md_lines (snd (md_line st l)) ls"

definition markdownToHTML :: "string \<Rightarrow> string" where
  "markdownToHTML md = md_lines (False, False) (split_on (CHR 0x0A) md)"

section \<open>Charts\<close>

text \<open>
  Trees of \<open>golang.org/x/net/html\<close>: text, elements with their attributes, and the other nodes
  (documents, comments, doctypes).
\<close>

datatype html_node =
    TextNode string
  | ElementNode string "(string \<times> string) list" "html_node list"
  | OtherNode "html_node list"

text \<open>
  What the code asks of other packages: the bytes of a built chart option, \<open>json.Unmarshal\<close> followed
  by \<open>json.Marshal\<close>, \<open>html.Parse\<close> and \<open>html.Render\<close> (\<open>None\<close> is an error), whether \<open>url.Parse\<close>
  accepts what follows the scheme, and the configured address of the chart library.
\<close>

record html_deps =
  hd_marshal :: "json \<Rightarrow> string"
  hd_normalize :: "string \<Rightarrow> string option"
  hd_parse :: "string \<Rightarrow> html_node option"
  hd_render :: "html_node \<Rightarrow> string option"
  hd_url_rest :: "string \<Rightarrow> bool"
  hd_echarts_url :: string

text \<open>\<open>strings.NewReplacer\<close> for old strings that are not empty: at each place the first that fits.\<close>

function replace_pairs :: "(string \<times> string) list \<Rightarrow> string \<Rightarrow> string" where
  "replace_pairs ps [] = []"
| "replace_pairs ps (c # s) =
     (case find (\<lambda>(old, new). old \<noteq> [] \<and> prefix old (c # s)) ps of
        None \<Rightarrow> c # replace_pairs ps s
      | Some (old, new) \<Rightarrow> new @ replace_pairs ps (drop (length old) (c # s)))"
  by pat_completeness auto
termination
proof (relation "measure (\<lambda>(ps, s). length s)", goal_cases)
  case (3 ps c s x old new)
  then have "old \<noteq> []" by (auto simp: find_Some_iff)
  then show ?case by (cases old) auto
qed auto

declare replace_pairs.simps(2) [simp del]

definition escapeInlineScript :: "string \<Rightarrow> string" where
  "escapeInlineScript =
     replace_pairs
       [(''</script'', ''<'' @ [CHR 0x5C] @ ''/script''), (''<!--'', ''<'' @ [CHR 0x5C] @ ''!--''),
        (''-->'', ''--'' @ [CHR 0x5C] @ ''>''),
        ([CHR 0xE2, CHR 0x80, CHR 0xA8], [CHR 0x5C] @ ''u2028''),
        ([CHR 0xE2, CHR 0x80, CHR 0xA9], [CHR 0x5C] @ ''u2029'')]"

definition option_bytes :: "html_deps \<Rightarrow> chart_option \<Rightarrow> string" where
  "option_bytes d opt = (case opt of RawOption s \<Rightarrow> s | BuiltOption j \<Rightarrow> hd_marshal d j)"

definition safeJSONForInlineScript :: "html_deps \<Rightarrow> string \<Rightarrow> string" where
  "safeJSONForInlineScript d raw =
     (if trim_space raw = [] \<or> trim_space raw = ''null'' then ''{}''
      else (case hd_normalize d raw of None \<Rightarrow> ''{}'' | Some n \<Rightarrow> escapeInlineScript n))"

definition chart_container :: "html_deps \<Rightarrow> chart_data \<Rightarrow> nat \<Rightarrow> string" where
  "chart_container d ch n =
     ''<div id=\"'' @ escapeHTMLAttr (cd_ID ch @ ''-ref-'' @ itoa (int n))
     @ ''\" data-chart-id=\"'' @ escapeHTMLAttr (cd_ID ch)
     @ ''\" data-chart-option=\"''
     @ escapeHTMLAttr (safeJSONForInlineScript d (option_bytes d (cd_Option ch)))
     @ ''\" class=\"chart-box\" style=\"height:''
     @ escapeHTMLAttr (if cd_Height ch = [] then ''400px'' else cd_Height ch) @ '';\"></div>''"

text \<open>The placeholders from left to right; \<open>n\<close> counts the containers of each chart.\<close>

function expand_charts :: "html_deps \<Rightarrow> chart_data list \<Rightarrow> (string \<Rightarrow> nat) \<Rightarrow> string \<Rightarrow> string" where
  "expand_charts d charts n [] = []"
| "expand_charts d charts n (c # s) =
     (if prefix ''{{chart:'' (c # s)
      then
        let rest = drop 8 (c # s);
            w = takeWhile word_char rest;
            tail = dropWhile word_char rest
        in if w \<noteq> [] \<and> prefix ''}}'' tail
           then (case find (\<lambda>ch. cd_ID ch = w) charts of
                   None \<Rightarrow> expand_charts d charts n (drop 2 tail)
                 | Some ch \<Rightarrow> chart_container d ch (n w + 1)
                     @ expand_charts d charts (n(w := n w + 1)) (drop 2 tail))
           else c # expand_charts d charts n s
      else c # expand_charts d charts n s)"
  by pat_completeness auto
termination
proof (relation "measure (\<lambda>(d, charts, n, s). length s)", goal_cases)
  case (2 d charts n c s rest w tail)
  then show ?case using length_dropWhile_le [of word_char "drop 7 s"] by simp
next
  case (3 d charts n c s rest w tail)
  then show ?case using length_dropWhile_le [of word_char "drop 7 s"] by simp
qed auto

declare expand_charts.simps(2) [simp del]

definition processContent :: "html_deps \<Rightarrow> chart_data list \<Rightarrow> string \<Rightarrow> string" where
  "processContent d charts content = expand_charts d charts (\<lambda>_. 0) (markdownToHTML content)"

section \<open>Only the code's own tags\<close>

fun tags_only :: "string list \<Rightarrow> string \<Rightarrow> bool" where
  "tags_only T [] = True"
| "tags_only T (c # s) = ((c = CHR ''<'' \<longrightarrow> list_ex (\<lambda>t. prefix t (c # s)) T) \<and> tags_only T s)"

definition page_tags :: "string list" where
  "page_tags =
     [''<table>'', ''</table>'', ''<thead>'', ''</thead>'', ''<tbody>'', ''</tbody>'', ''<tr>'', ''</tr>'',
      ''<th>'', ''</th>'', ''<td>'', ''</td>'', ''<ul>'', ''</ul>'', ''<li>'', ''</li>'', ''<h2>'', ''</h2>'',
      ''<h3>'', ''</h3>'', ''<h4>'', ''</h4>'', ''<h5>'', ''</h5>'', ''<p>'', ''</p>'', ''<strong>'',
      ''</strong>'', ''<div id='', ''</div>'']"

lemma tags_only_append [intro]: "tags_only T s \<Longrightarrow> tags_only T t \<Longrightarrow> tags_only T (s @ t)"
proof (induction s)
  case (Cons c s)
  have "prefix u (c # s @ t)" if "prefix u (c # s)" for u
    using that by (metis append_Cons prefix_prefix)
  with Cons show ?case by (auto simp: list_ex_iff)
qed simp

lemma tags_only_plain [intro]: "CHR ''<'' \<notin> set s \<Longrightarrow> tags_only T s"
  by (induction s) auto

lemma tags_only_concat: "(\<And>x. x \<in> set xs \<Longrightarrow> tags_only T x) \<Longrightarrow> tags_only T (concat xs)"
  by (induction xs) auto

lemma tags_only_drop: "tags_only T s \<Longrightarrow> tags_only T (drop n s)"
proof (induction s arbitrary: n)
  case (Cons c s)
  then show ?case by (cases n) auto
qed simp

lemma bold_marks_tags: "CHR ''<'' \<notin> set s \<Longrightarrow> tags_only page_tags (bold_marks b s)"
proof (induction b s rule: bold_marks.induct)
  case (3 opened c d s)
  have tag: "tags_only page_tags (if opened then bold_off else bold_on)" by (simp add: page_tags_def)
  show ?case
  proof (cases "c = CHR ''*'' \<and> d = CHR ''*''")
    case True
    with 3 have "tags_only page_tags (bold_marks (\<not> opened) s)" by auto
    from tags_only_append [OF tag this] True show ?thesis by (simp del: append.simps)
  qed (use 3 in auto)
qed auto

lemma formatInline_tags: "tags_only page_tags (formatInline s)"
  unfolding formatInline_def bold_loop_marks
  by (rule bold_marks_tags) (use escaped_no_markup(1) [of "CHR ''<''" s] in \<open>auto simp: markup_chars_def\<close>)

lemma table_cells_tags:
  assumes "tg \<in> {''th'', ''td''}"
  shows "tags_only page_tags (table_cells tg s)"
proof -
  have "tags_only page_tags (''<'' @ tg @ ''>'')" "tags_only page_tags (''</'' @ tg @ ''>'')"
    using assms by (auto simp: page_tags_def)
  then have "tags_only page_tags ((''<'' @ tg @ ''>'') @ formatInline (trim_space cell) @ ''</'' @ tg @ ''>'')" for cell
    using tags_only_append formatInline_tags by blast
  then show ?thesis unfolding table_cells_def by (intro tags_only_concat) auto
qed

text \<open>The lines that are copied without escaping are those with a chart placeholder.\<close>

definition plain_chart_line :: "string \<Rightarrow> bool" where
  "plain_chart_line line \<longleftrightarrow> contains line ''{{chart:'' \<longrightarrow> CHR ''<'' \<notin> set line"

lemma literal_tags [simp]:
  "tags_only page_tags ''</ul>''" "tags_only page_tags ''<ul>''" "tags_only page_tags ''</tbody></table>''"
  "tags_only page_tags ''<table><thead><tr>''" "tags_only page_tags ''</tr></thead><tbody>''" "tags_only page_tags ''<tr>''"
  "tags_only page_tags ''</tr>''" "tags_only page_tags ''<li>''" "tags_only page_tags ''</li>''"
  "tags_only page_tags ''<h5>''" "tags_only page_tags ''</h5>''" "tags_only page_tags ''<h4>''"
  "tags_only page_tags ''</h4>''" "tags_only page_tags ''<h3>''" "tags_only page_tags ''</h3>''"
  "tags_only page_tags ''<h2>''" "tags_only page_tags ''</h2>''" "tags_only page_tags ''<p>''"
  "tags_only page_tags ''</p>''"
  "tags_only page_tags lf"
  by (simp_all add: page_tags_def)

lemma tags_if:
  "(b \<Longrightarrow> tags_only T (fst x)) \<Longrightarrow> (\<not> b \<Longrightarrow> tags_only T (fst y)) \<Longrightarrow> tags_only T (fst (if b then x else y))"
  "tags_only T u \<Longrightarrow> tags_only T v \<Longrightarrow> tags_only T (if b then u else v)"
  "tags_only T u \<Longrightarrow> tags_only T (fst (u, w))"
  by simp_all

lemma md_line_tags:
  assumes "plain_chart_line line"
  shows "tags_only page_tags (fst (md_line st line))"
proof -
  have raw: "tags_only page_tags (trim_space line)" if "contains (trim_space line) ''{{chart:''"
    using that assms trim_space_sublist [of line] set_mono_sublist [OF trim_space_sublist, of line]
    by (auto simp: plain_chart_line_def contains_sublist intro: sublist_order.order_trans)
  show ?thesis unfolding md_line_def Let_def
    by (intro tags_if tags_only_append formatInline_tags table_cells_tags literal_tags tags_only.simps(1) [THEN iffD2] TrueI)
      (rule raw insertI1 insertI2 | assumption)+
qed

lemma md_lines_tags:
  "\<forall>l \<in> set ls. plain_chart_line l \<Longrightarrow> tags_only page_tags (md_lines st ls)"
proof (induction ls arbitrary: st)
  case Nil
  show ?case unfolding md_lines.simps
    by (intro tags_if tags_only_append literal_tags tags_only.simps(1) [THEN iffD2] TrueI)
next
  case (Cons l ls)
  then have "tags_only page_tags (md_lines (snd (md_line st l)) ls)" by simp
  then show ?case using md_line_tags [of l st] Cons.prems by auto
qed

lemma expand_keeps_prefix:
  "CHR ''{'' \<notin> set t \<Longrightarrow> prefix t s \<Longrightarrow> prefix t (expand_charts d charts n s)"
proof (induction t arbitrary: s)
  case (Cons a t)
  then obtain s' where s: "s = a # s'" "prefix t s'" by (auto simp: prefix_def)
  have "\<not> prefix ''{{chart:'' (a # s')" using Cons.prems(1) by auto
  then show ?case using Cons s by (simp add: expand_charts.simps(2))
qed simp

lemma page_tags_no_brace: "t \<in> set page_tags \<Longrightarrow> CHR ''{'' \<notin> set t"
  by (auto simp: page_tags_def)

lemma chart_container_tags: "tags_only page_tags (chart_container d ch n)"
proof -
  have e: "tags_only page_tags (escapeHTMLAttr x)" for x
    using escaped_no_markup(2) [of "CHR ''<''" x] by (intro tags_only_plain) (auto simp: markup_chars_def)
  have "tags_only page_tags ''<div id=\"''" "tags_only page_tags '';\"></div>''"
    by (simp_all add: page_tags_def)
  moreover have "tags_only page_tags ''\" data-chart-id=\"''" "tags_only page_tags ''\" data-chart-option=\"''"
    "tags_only page_tags ''\" class=\"chart-box\" style=\"height:''"
    by (simp_all add: tags_only_plain del: tags_only.simps)
  ultimately show ?thesis unfolding chart_container_def by (intro tags_only_append e)
qed

lemma expand_charts_tags: "tags_only page_tags s \<Longrightarrow> tags_only page_tags (expand_charts d charts n s)"
proof (induction d charts n s rule: expand_charts.induct)
  case (2 d charts n c s)
  define w where "w = takeWhile word_char (drop 8 (c # s))"
  define rest where "rest = dropWhile word_char (drop 8 (c # s))"
  have rest: "tags_only page_tags (drop 2 rest)"
    using 2(5) unfolding rest_def dropWhile_eq_drop by (simp only: drop_drop tags_only_drop)
  show ?case
  proof (cases "prefix ''{{chart:'' (c # s) \<and> w \<noteq> [] \<and> prefix ''}}'' rest")
    case True
    have "tags_only page_tags (expand_charts d charts n (drop 2 rest))"
      if "find (\<lambda>ch. cd_ID ch = w) charts = None"
      using 2(1) [OF _ refl refl refl] True rest that unfolding w_def rest_def by blast
    moreover have "tags_only page_tags (expand_charts d charts (n(w := n w + 1)) (drop 2 rest))"
      if "find (\<lambda>ch. cd_ID ch = w) charts = Some ch" for ch
      using 2(2) [OF _ refl refl refl] True rest that unfolding w_def rest_def by blast
    ultimately show ?thesis
      unfolding expand_charts.simps(2) Let_def w_def [symmetric] rest_def [symmetric]
      using True chart_container_tags by (auto split: option.split)
  next
    case False
    have e: "expand_charts d charts n (c # s) = c # expand_charts d charts n s"
      unfolding expand_charts.simps(2) Let_def w_def [symmetric] rest_def [symmetric] using False by auto
    have "tags_only page_tags (expand_charts d charts n s)"
    proof (cases "prefix ''{{chart:'' (c # s)")
      case True
      then show ?thesis using 2(3) [OF True refl refl refl] False 2(5) unfolding w_def rest_def by auto
    next
      case False
      then show ?thesis using 2(4) 2(5) by simp
    qed
    moreover have "list_ex (\<lambda>t. prefix t (c # expand_charts d charts n s)) page_tags" if "c = CHR ''<''"
    proof -
      have "list_ex (\<lambda>t. prefix t (c # s)) page_tags" using 2(5) that by simp
      then obtain t where t: "t \<in> set page_tags" "prefix t (c # s)"
        by (auto simp: list_ex_iff)
      show ?thesis
        using expand_keeps_prefix [OF page_tags_no_brace [OF t(1)] t(2), of d charts n] t(1)
        unfolding e list_ex_iff by blast
    qed
    ultimately show ?thesis by (simp add: e)
  qed
qed simp

text \<open>
  C19. Rendered Markdown carries no markup of its author: if no line with a chart placeholder contains
  an opening angle bracket, every such bracket in the HTML of a content, charts expanded, begins one
  of the tags that the renderer itself writes.
\<close>

theorem markdown_writes_own_tags_only:
  assumes "\<forall>line \<in> set (split_on (CHR 0x0A) content).
    contains line ''{{chart:'' \<longrightarrow> CHR ''<'' \<notin> set line"
  shows "tags_only page_tags (processContent d charts content)"
  unfolding processContent_def markdownToHTML_def
  using assms by (intro expand_charts_tags md_lines_tags) (simp add: plain_chart_line_def)

definition plain_deps :: html_deps where
  "plain_deps = \<lparr>hd_marshal = (\<lambda>_. []), hd_normalize = (\<lambda>_. None), hd_parse = (\<lambda>_. None),
     hd_render = (\<lambda>_. None), hd_url_rest = (\<lambda>_. True), hd_echarts_url = []\<rparr>"

theorem markdown_writes_own_tags_only_witness:
  "tags_only page_tags (processContent plain_deps [] ''<script>a</script>'')"
  by (rule markdown_writes_own_tags_only) simp

text \<open>The hypothesis matters: a line with a placeholder is copied as it is, script elements included.\<close>

lemma chart_line_injects_script:
  "processContent d [] ''{{chart:x}}<script>a()</script>'' = ''<script>a()</script>'' @ lf"
  by (simp add: processContent_def markdownToHTML_def md_line_def trim_space_plain plain_head_def
      plain_last_def ws_seqs_def expand_charts.simps(2) word_char_def is_digit_def)

text \<open>An odd number of double stars leaves the bold element open.\<close>

lemma odd_stars_leave_bold_open: "formatInline ''a **b'' = ''a <strong>b''"
  by (simp add: formatInline_def bold_loop_marks escapeHTMLText_def EscapeString_def escape_char_def
      trim_space_plain plain_head_def plain_last_def ws_seqs_def)

text \<open>A table after a list is closed after the list that contains it.\<close>

lemma list_then_table_misnested:
  "markdownToHTML (''- a'' @ lf @ ''b|c'') =
     ''<ul>'' @ lf @ ''<li>a</li>'' @ lf @ ''<table><thead><tr><th>b</th><th>c</th></tr></thead><tbody>'' @ lf
     @ ''</ul>'' @ lf @ ''</tbody></table>'' @ lf"
  by (simp add: markdownToHTML_def md_line_def table_cells_def trim_byte_def formatInline_def bold_loop_marks
      escapeHTMLText_def EscapeString_def escape_char_def trim_space_plain plain_head_def plain_last_def
      ws_seqs_def)

text \<open>A line after a table stays inside it, and a row that contains three hyphens is dropped.\<close>

lemma paragraph_inside_table:
  "markdownToHTML (''a|b'' @ lf @ ''x'') =
     ''<table><thead><tr><th>a</th><th>b</th></tr></thead><tbody>'' @ lf @ ''<p>x</p>'' @ lf
     @ ''</tbody></table>'' @ lf"
  by (simp add: markdownToHTML_def md_line_def table_cells_def trim_byte_def formatInline_def bold_loop_marks
      escapeHTMLText_def EscapeString_def escape_char_def trim_space_plain plain_head_def plain_last_def
      ws_seqs_def)

lemma hyphen_row_dropped:
  "markdownToHTML (''a|b'' @ lf @ ''x---y|1'') =
     ''<table><thead><tr><th>a</th><th>b</th></tr></thead><tbody>'' @ lf @ ''</tbody></table>'' @ lf"
  by (simp add: markdownToHTML_def md_line_def table_cells_def trim_byte_def formatInline_def bold_loop_marks
      escapeHTMLText_def EscapeString_def escape_char_def trim_space_plain plain_head_def plain_last_def
      ws_seqs_def)

end
