(* ===== verification/Report_Sanitize.thy ===== *)
theory Report_Sanitize
  imports Report_Html
begin

text \<open>
  The sanitizers of \<open>server/tools/report_html.go\<close>: class names, style sheets, links, attributes and
  the trees of HTML blocks. A tree that has been sanitized satisfies \<open>harmless\<close>; its text is the
  text of the input without the removed elements.
\<close>

section \<open>Class names and style sheets\<close>

definition class_char :: "char \<Rightarrow> bool" where
  "class_char c \<longleftrightarrow> (97 \<le> byte c \<and> byte c \<le> 122) \<or> (65 \<le> byte c \<and> byte c \<le> 90) \<or> is_digit c
     \<or> c = CHR ''-'' \<or> c = CHR ''_''"

text \<open>
  The runes of a field are class characters exactly when its bytes are: a byte above 127 decodes to a
  rune above 127.
\<close>

definition sanitizeBodyClass :: "string \<Rightarrow> string" where
  "sanitizeBodyClass value = join '' '' (filter (\<lambda>f. f \<noteq> [] \<and> list_all class_char f) (str_fields value))"

text \<open>The white space \<open>[\s]\<close> of a regular expression.\<close>

definition re_blank :: "char \<Rightarrow> bool" where
  "re_blank c \<longleftrightarrow> c \<in> {CHR 0x09, CHR 0x0A, CHR 0x0C, CHR 0x0D, CHR 0x20}"

text \<open>
  A literal in lower case under \<open>(?i)\<close>; the letter s also matches the long s U+017F. The result is
  what follows the match.
\<close>

fun drop_fold :: "string \<Rightarrow> string \<Rightarrow> string option" where
  "drop_fold [] s = Some s"
| "drop_fold (p # ps) [] = None"
| "drop_fold (p # ps) (c # s) =
     (if lower_char c = p then drop_fold ps s
      else if p = CHR ''s'' \<and> prefix [CHR 0xC5, CHR 0xBF] (c # s) then drop_fold ps (tl s)
      else None)"

text \<open>A word, white space, a word: one alternative of \<open>cssStripRe\<close>.\<close>

definition drop_spaced :: "string \<Rightarrow> string \<Rightarrow> string \<Rightarrow> string option" where
  "drop_spaced a b s =
     (case drop_fold a s of None \<Rightarrow> None | Some t \<Rightarrow> drop_fold b (dropWhile re_blank t))"

definition css_match :: "string \<Rightarrow> string option" where
  "css_match s =
     (case drop_spaced ''@'' ''import'' s of
        Some t \<Rightarrow> Some t
      | None \<Rightarrow> (case drop_spaced ''expression'' ''('' s of
                  Some t \<Rightarrow> Some t
                | None \<Rightarrow> drop_spaced ''behavior'' '':'' s))"

lemma drop_fold_suffix: "drop_fold p s = Some t \<Longrightarrow> suffix t s \<and> (p \<noteq> [] \<longrightarrow> length t < length s)"
proof (induction p s rule: drop_fold.induct)
  case (3 p ps c s)
  show ?case
  proof (cases "lower_char c = p")
    case True
    then have "suffix t s" using 3 by simp
    then show ?thesis by (auto simp: suffix_Cons dest: suffix_length_le)
  next
    case False
    then have "suffix t (tl s)" using 3 by (auto split: if_splits)
    then have "suffix t s" by (metis suffix_order.trans suffix_tl)
    then show ?thesis by (auto simp: suffix_Cons dest: suffix_length_le)
  qed
qed auto

lemma drop_spaced_suffix:
  assumes "drop_spaced a b s = Some t" "a \<noteq> []"
  shows "suffix t s \<and> length t < length s"
proof -
  obtain u where u: "drop_fold a s = Some u" "drop_fold b (dropWhile re_blank u) = Some t"
    using assms(1) by (auto simp: drop_spaced_def split: option.splits)
  have "suffix t u" using drop_fold_suffix [OF u(2)] suffix_dropWhile suffix_order.trans by blast
  with drop_fold_suffix [OF u(1)] assms(2) show ?thesis
    by (metis suffix_order.trans suffix_length_le le_less_trans)
qed

lemma css_match_suffix: "css_match s = Some t \<Longrightarrow> suffix t s \<and> length t < length s"
  using drop_spaced_suffix [of "''@''" "''import''" s t] drop_spaced_suffix [of "''expression''" "''(''" s t]
    drop_spaced_suffix [of "''behavior''" "'':''" s t]
  by (auto simp: css_match_def split: option.splits)

function css_strip :: "string \<Rightarrow> string" where
  "css_strip [] = []"
| "css_strip (c # s) = (case css_match (c # s) of None \<Rightarrow> c # css_strip s | Some t \<Rightarrow> css_strip t)"
  by pat_completeness auto
termination
  by (relation "measure length") (auto dest: css_match_suffix)

declare css_strip.simps(2) [simp del]

definition css_removed :: "(string \<times> string) list" where
  "css_removed =
     map (\<lambda>old. (old, []))
       [''</style'', ''</Style'', ''</STYLE'', ''@import'', ''@Import'', ''@IMPORT'', ''expression('',
        ''Expression('', ''EXPRESSION('', ''javascript:'', ''Javascript:'', ''JAVASCRIPT:'', ''behavior:'',
        ''Behavior:'', ''BEHAVIOR:'', ''vbscript:'', ''Vbscript:'', ''VBSCRIPT:'']"

definition sanitizeCSS :: "string \<Rightarrow> string" where
  "sanitizeCSS value =
     (let css = trim_space value in if css = [] then [] else css_strip (replace_pairs css_removed css))"

lemma css_strip_subseq: "subseq (css_strip s) s"
proof (induction s rule: css_strip.induct)
  case (2 c s)
  show ?case
  proof (cases "css_match (c # s)")
    case None
    then show ?thesis using 2 by (simp add: css_strip.simps(2))
  next
    case (Some t)
    then have "subseq (css_strip t) t" "subseq t (c # s)"
      using 2(2) css_match_suffix suffix_imp_subseq by blast+
    then have "subseq (css_strip t) (c # s)" by (rule subseq_order.order_trans)
    then show ?thesis using Some by (simp add: css_strip.simps(2))
  qed
qed simp

lemma replace_removed_subseq: "\<forall>p \<in> set ps. snd p = [] \<Longrightarrow> subseq (replace_pairs ps s) s"
proof (induction ps s rule: replace_pairs.induct)
  case (2 ps c s)
  show ?case
  proof (cases "find (\<lambda>(old, new). old \<noteq> [] \<and> prefix old (c # s)) ps")
    case None
    then show ?thesis using 2 by (simp add: replace_pairs.simps(2))
  next
    case (Some p)
    obtain old new where p: "p = (old, new)" by (cases p)
    have new: "new = []" and old: "old \<noteq> []"
      using Some 2(3) p by (auto simp: find_Some_iff dest!: nth_mem)
    have "subseq (replace_pairs ps (drop (length old) (c # s))) (drop (length old) (c # s))"
      using 2(2) [OF Some p [symmetric]] 2(3) by blast
    moreover have "subseq (drop (length old) (c # s)) (c # s)"
      by (rule suffix_imp_subseq [OF suffix_drop])
    ultimately have "subseq (replace_pairs ps (drop (length old) (c # s))) (c # s)"
      by (rule subseq_order.order_trans)
    then show ?thesis using Some p new by (simp add: replace_pairs.simps(2))
  qed
qed simp

text \<open>The sanitizer only removes.\<close>

lemma sanitize_css_subseq: "subseq (sanitizeCSS value) value"
proof (cases "trim_space value = []")
  case False
  have "subseq (replace_pairs css_removed (trim_space value)) (trim_space value)"
    by (rule replace_removed_subseq) (auto simp: css_removed_def)
  then have "subseq (sanitizeCSS value) (trim_space value)"
    using css_strip_subseq subseq_order.order_trans False by (auto simp: sanitizeCSS_def)
  then show ?thesis
    using sublist_imp_subseq [OF trim_space_sublist] subseq_order.order_trans by blast
qed (simp add: sanitizeCSS_def)

text \<open>Two style sheets that pass: a closing tag in mixed case, and an import that removal puts together.\<close>

lemma css_mixed_case_closes_style:
  "sanitizeCSS ''</sTyle><b>'' = ''</sTyle><b>''"
  by (simp add: sanitizeCSS_def css_removed_def replace_pairs.simps(2) css_strip.simps(2) css_match_def
      drop_spaced_def lower_char_def trim_space_plain plain_head_def plain_last_def ws_seqs_def)

lemma css_import_reassembled: "sanitizeCSS ''@im@im@importportport'' = ''@import''"
  by (simp add: sanitizeCSS_def css_removed_def replace_pairs.simps(2) css_strip.simps(2) css_match_def
      drop_spaced_def lower_char_def re_blank_def trim_space_plain plain_head_def plain_last_def ws_seqs_def)

section \<open>Links\<close>

text \<open>\<open>getScheme\<close> of \<open>net/url\<close>: the letters before the first colon, or an error.\<close>

fun getScheme :: "string \<Rightarrow> string \<Rightarrow> string result" where
  "getScheme acc [] = Inr []"
| "getScheme acc (c # s) =
     (if (97 \<le> byte c \<and> byte c \<le> 122) \<or> (65 \<le> byte c \<and> byte c \<le> 90) then getScheme (acc @ [c]) s
      else if is_digit c \<or> c \<in> {CHR ''+'', CHR ''-'', CHR ''.''}
      then (if acc = [] then Inr [] else getScheme (acc @ [c]) s)
      else if c = CHR '':''
      then (if acc = [] then Inl ''missing protocol scheme'' else Inr acc)
      else Inr [])"

definition is_ctl :: "char \<Rightarrow> bool" where
  "is_ctl c \<longleftrightarrow> byte c < 32 \<or> byte c = 127"

text \<open>The scheme that \<open>url.Parse\<close> returns; the fragment is cut off first.\<close>

definition url_scheme :: "html_deps \<Rightarrow> string \<Rightarrow> string option" where
  "url_scheme d raw =
     (let u = takeWhile (\<lambda>c. c \<noteq> CHR ''#'') raw
      in if list_ex is_ctl u then None
         else (case getScheme [] u of
                 Inl err \<Rightarrow> None
               | Inr scheme \<Rightarrow> if hd_url_rest d raw then Some (to_lower scheme) else None))"

definition sanitizeURL :: "html_deps \<Rightarrow> string \<Rightarrow> string option" where
  "sanitizeURL d value =
     (if value = [] then None
      else if has_prefix value ''#'' \<or> has_prefix value ''/'' then Some value
      else (case url_scheme d value of
              None \<Rightarrow> None
            | Some scheme \<Rightarrow>
                if to_lower scheme \<in> {''http'', ''https'', ''mailto''} then Some value else None))"

definition safe_link :: "string \<Rightarrow> bool" where
  "safe_link v \<longleftrightarrow> prefix ''#'' v \<or> prefix ''/'' v
     \<or> list_ex (\<lambda>p. prefix p (to_lower v)) [''http:'', ''https:'', ''mailto:'']"

lemma getScheme_prefix: "getScheme acc s = Inr r \<Longrightarrow> r \<noteq> [] \<Longrightarrow> prefix (r @ '':'') (acc @ s)"
proof (induction acc s rule: getScheme.induct)
  case (2 acc c s)
  then show ?case by (auto split: if_splits)
qed simp

lemma to_lower_append: "to_lower (a @ b) = to_lower a @ to_lower b"
  by (simp add: to_lower_def)

lemma sanitize_url_safe: "sanitizeURL d v = Some h \<Longrightarrow> h = v \<and> safe_link h"
proof -
  assume a: "sanitizeURL d v = Some h"
  then have h: "h = v" by (auto simp: sanitizeURL_def split: if_splits option.splits)
  show ?thesis
  proof (cases "has_prefix v ''#'' \<or> has_prefix v ''/''")
    case False
    with a obtain r where r: "getScheme [] (takeWhile (\<lambda>c. c \<noteq> CHR ''#'') v) = Inr r"
      "to_lower r \<in> {''http'', ''https'', ''mailto''}"
      by (auto simp: sanitizeURL_def url_scheme_def Let_def split: if_splits option.splits sum.splits)
    then have "r \<noteq> []" by (auto simp: to_lower_def)
    then have "prefix (r @ '':'') v"
      using getScheme_prefix [OF r(1)] takeWhile_is_prefix [of _ v] prefix_order.trans by fastforce
    then obtain t where "v = r @ '':'' @ t" by (auto simp: prefix_def)
    then have "to_lower v = to_lower r @ '':'' @ to_lower t" by (simp add: to_lower_append) (simp add: to_lower_def lower_char_def)
    with r(2) h show ?thesis by (auto simp: safe_link_def)
  qed (use h in \<open>auto simp: safe_link_def\<close>)
qed

section \<open>Attributes\<close>

definition attr_step :: "html_deps \<Rightarrow> string \<Rightarrow> string \<times> string \<Rightarrow> (string \<times> string) list" where
  "attr_step d tg attr =
     (let key = to_lower (trim_space (fst attr)); value = trim_space (snd attr)
      in if key = [] \<or> has_prefix key ''on'' then []
         else if key = ''class''
         then (let className = replace_byte (CHR '' '') (CHR ''-'')
                     (sanitizeBodyClass (replace_byte (CHR '':'') (CHR '' '') value))
               in if className = [] then [] else [(key, className)])
         else if key = ''href''
         then (case sanitizeURL d value of
                 None \<Rightarrow> []
               | Some href \<Rightarrow>
                   if tg \<noteq> ''a'' then []
                   else [(key, href), (''rel'', ''noopener noreferrer''), (''target'', ''_blank'')])
         else if key = ''title'' then [(key, value)]
         else if key = ''colspan'' \<or> key = ''rowspan''
         then (if parse_int64 value \<noteq> None then [(key, value)] else [])
         else [])"

definition sanitizeHTMLAttrs ::
  "html_deps \<Rightarrow> string \<Rightarrow> (string \<times> string) list \<Rightarrow> (string \<times> string) list" where
  "sanitizeHTMLAttrs d tg attrs = concat (map (attr_step d tg) attrs)"

definition safe_attr :: "string \<Rightarrow> string \<times> string \<Rightarrow> bool" where
  "safe_attr tg a \<longleftrightarrow>
     (fst a = ''class'' \<and> snd a \<noteq> [] \<and> list_all class_char (snd a))
     \<or> (fst a = ''href'' \<and> tg = ''a'' \<and> safe_link (snd a))
     \<or> a = (''rel'', ''noopener noreferrer'') \<or> a = (''target'', ''_blank'')
     \<or> fst a = ''title''
     \<or> (fst a \<in> {''colspan'', ''rowspan''} \<and> parse_int64 (snd a) \<noteq> None)"

lemma join_chars: "c \<in> set (join sep ws) \<Longrightarrow> c \<in> set sep \<or> (\<exists>w \<in> set ws. c \<in> set w)"
  by (induction sep ws rule: join.induct) auto

lemma body_class_chars: "c \<in> set (sanitizeBodyClass v) \<Longrightarrow> class_char c \<or> c = CHR '' ''"
  unfolding sanitizeBodyClass_def by (drule join_chars) (auto simp: list_all_iff)

lemma class_value_ok: "list_all class_char (replace_byte (CHR '' '') (CHR ''-'') (sanitizeBodyClass v))"
  using body_class_chars [of _ v] by (auto simp: list_all_iff replace_byte_def class_char_def)

lemma sanitized_attrs_safe: "list_all (safe_attr tg) (sanitizeHTMLAttrs d tg attrs)"
proof -
  have "list_all (safe_attr tg) (attr_step d tg a)" for a
    using class_value_ok [of "replace_byte (CHR '':'') (CHR '' '') (trim_space (snd a))"]
      sanitize_url_safe [of d "trim_space (snd a)"]
    by (auto simp: attr_step_def Let_def safe_attr_def split: option.split)
  then show ?thesis by (induction attrs) (auto simp: sanitizeHTMLAttrs_def)
qed

text \<open>Sanitizing attributes twice changes nothing more.\<close>

lemma class_char_plain: "class_char c \<Longrightarrow> plain_head c \<and> plain_last c"
  by (auto simp: plain_head_def plain_last_def ws_seqs_def class_char_def is_digit_def)

lemma class_char_no_ws: "class_char c \<Longrightarrow> \<not> starts_ws (c # s)"
proof
  assume a: "class_char c" "starts_ws (c # s)"
  then obtain p where p: "p \<in> set ws_seqs" "prefix p (c # s)" by (auto simp: starts_ws_def)
  then have "hd p = c" using ws_seqs_nonempty [of p] by (auto simp: prefix_def Cons_eq_append_conv)
  with p(1) class_char_plain [OF a(1)] show False by (auto simp: plain_head_def)
qed

lemma class_word_fields:
  assumes "w \<noteq> []" "list_all class_char w"
  shows "str_fields w = [w]"
proof -
  have f: "first_word v = v" if "list_all class_char v" for v
    using that by (induction v) (auto simp: class_char_no_ws)
  have c: "clean ws_seqs w"
    using assms class_char_no_ws by (cases w) (auto simp: clean_def starts_ws_def)
  have "trim_left w = w" by (simp add: trim_left_def strip_front_id [OF c])
  moreover have "str_fields [] = []"
    by (subst str_fields.simps) (simp add: trim_left_def strip_front_id clean_def ws_seqs_def)
  ultimately show ?thesis using assms f [OF assms(2)] by (subst str_fields.simps) simp
qed

lemma class_word_trim: "w \<noteq> [] \<Longrightarrow> list_all class_char w \<Longrightarrow> trim_space w = w"
  using class_char_plain by (intro trim_space_plain) (auto simp: list_all_iff)

lemma class_word_replace: "list_all class_char w \<Longrightarrow> a = CHR '':'' \<or> a = CHR '' '' \<Longrightarrow> replace_byte a b w = w"
  by (induction w) (auto simp: replace_byte_def class_char_def is_digit_def)

lemma class_step_idem:
  assumes "w \<noteq> []" "list_all class_char w"
  shows "attr_step d tg (''class'', w) = [(''class'', w)]"
  using assms class_word_trim [OF assms] class_word_fields [OF assms]
  by (simp add: attr_step_def Let_def class_word_replace sanitizeBodyClass_def
      trim_space_plain plain_head_def plain_last_def ws_seqs_def to_lower_def lower_char_def)

lemma attr_step_idem: "concat (map (attr_step d tg) (attr_step d tg a)) = attr_step d tg a"
proof -
  let ?k = "to_lower (trim_space (fst a))" and ?v = "trim_space (snd a)"
  have key: "to_lower (trim_space k) = k"
    if "k \<in> {''class'', ''href'', ''title'', ''rel'', ''target'', ''colspan'', ''rowspan''}" for k
    using that by (auto simp: trim_space_plain plain_head_def plain_last_def ws_seqs_def to_lower_def lower_char_def)
  have other: "attr_step d tg (''rel'', x) = []" "attr_step d tg (''target'', x) = []" for x
    using key by (simp_all add: attr_step_def)
  consider "?k = ''class''" | "?k = ''href''" | "?k = ''title''" | "?k = ''colspan''" | "?k = ''rowspan''"
    | "?k \<notin> {''class'', ''href'', ''title'', ''colspan'', ''rowspan''}" by auto
  then show ?thesis
  proof cases
    case 1
    then have e: "attr_step d tg a = (let w = replace_byte (CHR '' '') (CHR ''-'')
        (sanitizeBodyClass (replace_byte (CHR '':'') (CHR '' '') ?v)) in if w = [] then [] else [(''class'', w)])"
      by (simp add: attr_step_def Let_def)
    show ?thesis unfolding e Let_def by (simp add: class_step_idem class_value_ok)
  next
    case 2
    show ?thesis
    proof (cases "tg = ''a'' \<and> sanitizeURL d ?v \<noteq> None")
      case True
      then have u: "sanitizeURL d ?v = Some ?v" using sanitize_url_safe by fastforce
      have e: "attr_step d tg a
          = [(''href'', ?v), (''rel'', ''noopener noreferrer''), (''target'', ''_blank'')]"
        using 2 True u by (simp add: attr_step_def Let_def)
      have "attr_step d tg (''href'', ?v)
          = [(''href'', ?v), (''rel'', ''noopener noreferrer''), (''target'', ''_blank'')]"
        using True u key [of "''href''"] by (simp add: attr_step_def Let_def)
      then show ?thesis unfolding e by (simp add: other)
    next
      case False
      then have "attr_step d tg a = []" using 2 by (auto simp: attr_step_def Let_def split: option.split)
      then show ?thesis by simp
    qed
  next
    case 3
    then have "attr_step d tg a = [(''title'', ?v)]" by (simp add: attr_step_def)
    then show ?thesis using key [of "''title''"] by (simp add: attr_step_def)
  next
    case 4
    then have "attr_step d tg a = (if parse_int64 ?v \<noteq> None then [(''colspan'', ?v)] else [])"
      by (simp add: attr_step_def)
    then show ?thesis using key [of "''colspan''"] by (simp add: attr_step_def)
  next
    case 5
    then have "attr_step d tg a = (if parse_int64 ?v \<noteq> None then [(''rowspan'', ?v)] else [])"
      by (simp add: attr_step_def)
    then show ?thesis using key [of "''rowspan''"] by (simp add: attr_step_def)
  next
    case 6
    then have "attr_step d tg a = []" by (simp add: attr_step_def Let_def)
    then show ?thesis by simp
  qed
qed

lemma sanitize_attrs_idem: "sanitizeHTMLAttrs d tg (sanitizeHTMLAttrs d tg attrs) = sanitizeHTMLAttrs d tg attrs"
  by (induction attrs) (simp_all add: sanitizeHTMLAttrs_def attr_step_idem)

section \<open>Trees\<close>

definition removedTags :: "string list" where
  "removedTags = [''script'', ''style'', ''iframe'', ''object'', ''embed'', ''link'', ''meta'', ''base'']"

definition allowedHTMLBlockTags :: "string list" where
  "allowedHTMLBlockTags =
     [''a'', ''b'', ''blockquote'', ''br'', ''code'', ''div'', ''em'', ''h1'', ''h2'', ''h3'', ''h4'', ''h5'', ''h6'',
      ''hr'', ''i'', ''li'', ''ol'', ''p'', ''pre'', ''span'', ''strong'', ''table'', ''tbody'', ''td'', ''th'',
      ''thead'', ''tr'', ''ul'']"

text \<open>The nodes that \<open>sanitizeHTMLNode\<close> appends to its parent.\<close>

fun sanitizeHTMLNode :: "html_deps \<Rightarrow> html_node \<Rightarrow> html_node list" where
  "sanitizeHTMLNode d (TextNode s) = [TextNode s]"
| "sanitizeHTMLNode d (ElementNode nm attrs cs) =
     (let tg = to_lower (trim_space nm)
      in if tg \<in> set removedTags then []
         else if tg \<notin> set allowedHTMLBlockTags then concat (map (sanitizeHTMLNode d) cs)
         else [ElementNode tg (sanitizeHTMLAttrs d tg attrs) (concat (map (sanitizeHTMLNode d) cs))])"
| "sanitizeHTMLNode d (OtherNode cs) = concat (map (sanitizeHTMLNode d) cs)"

fun findHTMLNodeByID :: "string \<Rightarrow> html_node \<Rightarrow> html_node option"
  and find_child_by_id :: "string \<Rightarrow> html_node list \<Rightarrow> html_node option" where
  "findHTMLNodeByID i (TextNode s) = None"
| "findHTMLNodeByID i (ElementNode nm attrs cs) =
     (if (''id'', i) \<in> set attrs then Some (ElementNode nm attrs cs) else find_child_by_id i cs)"
| "findHTMLNodeByID i (OtherNode cs) = find_child_by_id i cs"
| "find_child_by_id i [] = None"
| "find_child_by_id i (c # cs) =
     (case findHTMLNodeByID i c of Some n \<Rightarrow> Some n | None \<Rightarrow> find_child_by_id i cs)"

fun html_children :: "html_node \<Rightarrow> html_node list" where
  "html_children (TextNode s) = []"
| "html_children (ElementNode nm attrs cs) = cs"
| "html_children (OtherNode cs) = cs"

fun render_all :: "html_deps \<Rightarrow> html_node list \<Rightarrow> string option" where
  "render_all d [] = Some []"
| "render_all d (n # ns) =
     (case hd_render d n of
        None \<Rightarrow> None
      | Some out \<Rightarrow> map_option ((@) out) (render_all d ns))"

definition html_page :: "string \<Rightarrow> string" where
  "html_page fragment =
     ''<!DOCTYPE html><html><body><div id=\"__oda_root__\">'' @ fragment @ ''</div></body></html>''"

definition sanitizeHTMLFragment :: "html_deps \<Rightarrow> string \<Rightarrow> string" where
  "sanitizeHTMLFragment d fragment =
     (let plain = ''<p>'' @ escapeHTMLText fragment @ ''</p>''
      in case hd_parse d (html_page fragment) of
           None \<Rightarrow> plain
         | Some doc \<Rightarrow>
             (case findHTMLNodeByID ''__oda_root__'' doc of
                None \<Rightarrow> plain
              | Some rt \<Rightarrow>
                  (case render_all d (concat (map (sanitizeHTMLNode d) (html_children rt))) of
                     None \<Rightarrow> plain
                   | Some out \<Rightarrow> out)))"

section \<open>What sanitizing guarantees\<close>

fun harmless :: "html_node \<Rightarrow> bool" where
  "harmless (TextNode s) = True"
| "harmless (ElementNode tg attrs cs) =
     (tg \<in> set allowedHTMLBlockTags \<and> list_all (safe_attr tg) attrs \<and> list_all harmless cs)"
| "harmless (OtherNode cs) = False"

text \<open>The text of a tree, and its text outside the elements that are removed with their contents.\<close>

fun node_text :: "html_node \<Rightarrow> string" where
  "node_text (TextNode s) = s"
| "node_text (ElementNode tg attrs cs) = concat (map node_text cs)"
| "node_text (OtherNode cs) = concat (map node_text cs)"

fun visible_text :: "html_node \<Rightarrow> string" where
  "visible_text (TextNode s) = s"
| "visible_text (ElementNode nm attrs cs) =
     (if to_lower (trim_space nm) \<in> set removedTags then [] else concat (map visible_text cs))"
| "visible_text (OtherNode cs) = concat (map visible_text cs)"

lemma sanitized_harmless: "list_all harmless (sanitizeHTMLNode d n)"
  by (induction d n rule: sanitizeHTMLNode.induct)
    (auto simp: Let_def list_all_iff sanitized_attrs_safe [unfolded list_all_iff])

lemma sanitized_text: "concat (map node_text (sanitizeHTMLNode d n)) = visible_text n"
proof -
  have c: "concat (map node_text (concat (map f cs))) = concat (map visible_text cs)"
    if "\<And>n. n \<in> set cs \<Longrightarrow> concat (map node_text (f n)) = visible_text n" for f cs
    using that by (induction cs) auto
  show ?thesis
    by (induction d n rule: sanitizeHTMLNode.induct) (simp_all add: Let_def c)
qed

lemma allowed_tag_fix: "tg \<in> set allowedHTMLBlockTags \<Longrightarrow> to_lower (trim_space tg) = tg \<and> tg \<notin> set removedTags"
  by (auto simp: allowedHTMLBlockTags_def removedTags_def to_lower_def lower_char_def
      trim_space_plain plain_head_def plain_last_def ws_seqs_def)

lemma sanitize_node_idem: "concat (map (sanitizeHTMLNode d) (sanitizeHTMLNode d n)) = sanitizeHTMLNode d n"
proof -
  have c: "concat (map (sanitizeHTMLNode d) (concat (map (sanitizeHTMLNode d) cs)))
      = concat (map (sanitizeHTMLNode d) cs)"
    if "\<And>n. n \<in> set cs \<Longrightarrow> concat (map (sanitizeHTMLNode d) (sanitizeHTMLNode d n)) = sanitizeHTMLNode d n" for d cs
    using that by (induction cs) auto
  show ?thesis
  proof (induction d n rule: sanitizeHTMLNode.induct)
    case (2 d nm attrs cs)
    let ?tg = "to_lower (trim_space nm)"
    have cs: "concat (map (sanitizeHTMLNode d) (concat (map (sanitizeHTMLNode d) cs)))
        = concat (map (sanitizeHTMLNode d) cs)" if "?tg \<notin> set removedTags"
    proof (rule c)
      fix n assume "n \<in> set cs"
      then show "concat (map (sanitizeHTMLNode d) (sanitizeHTMLNode d n)) = sanitizeHTMLNode d n"
        using 2 that by (cases "?tg \<in> set allowedHTMLBlockTags") auto
    qed
    consider "?tg \<in> set removedTags" | "?tg \<notin> set removedTags" "?tg \<notin> set allowedHTMLBlockTags"
      | "?tg \<notin> set removedTags" "?tg \<in> set allowedHTMLBlockTags" by blast
    then show ?case
    proof cases
      case 1
      then show ?thesis by simp
    next
      case 2
      then show ?thesis using cs by simp
    next
      case 3
      then have e: "sanitizeHTMLNode d (ElementNode nm attrs cs)
          = [ElementNode ?tg (sanitizeHTMLAttrs d ?tg attrs) (concat (map (sanitizeHTMLNode d) cs))]"
        by (simp add: Let_def)
      show ?thesis unfolding e using 3 allowed_tag_fix [OF 3(2)] cs by (simp add: Let_def sanitize_attrs_idem)
    qed
  qed (simp_all add: c)
qed

text \<open>
  C18. An HTML block is either shown as escaped text, or rendered from a tree with allowed elements only,
  whose attributes are class names, titles, cell spans and links to fragments, paths, http, https and
  mailto addresses: no script, style or frame, no event handler. The text of the tree is the text of
  the parsed block outside the removed elements.
\<close>

theorem html_block_sanitized:
  "sanitizeHTMLFragment d fragment = ''<p>'' @ escapeHTMLText fragment @ ''</p>''
   \<or> (\<exists>doc rt ns. hd_parse d (html_page fragment) = Some doc \<and> findHTMLNodeByID ''__oda_root__'' doc = Some rt
        \<and> list_all harmless ns \<and> concat (map node_text ns) = concat (map visible_text (html_children rt))
        \<and> render_all d ns = Some (sanitizeHTMLFragment d fragment))"
proof (cases "hd_parse d (html_page fragment)")
  case (Some doc)
  show ?thesis
  proof (cases "findHTMLNodeByID ''__oda_root__'' doc")
    case rt: (Some rt)
    let ?ns = "concat (map (sanitizeHTMLNode d) (html_children rt))"
    have "list_all harmless ?ns"
      using sanitized_harmless by (auto simp: list_all_iff)
    moreover have "concat (map node_text (concat (map (sanitizeHTMLNode d) cs))) = concat (map visible_text cs)" for cs
      by (induction cs) (simp_all add: sanitized_text)
    ultimately show ?thesis using Some rt
      by (cases "render_all d ?ns") (auto simp: sanitizeHTMLFragment_def)
  qed (simp add: sanitizeHTMLFragment_def Some)
qed (simp add: sanitizeHTMLFragment_def)

text \<open>The names of several classes are joined into one.\<close>

lemma class_names_joined: "attr_step d ''div'' (''class'', ''a b'') = [(''class'', ''a-b'')]"
proof -
  have "str_fields ''a b'' = [''a'', ''b'']"
    by (simp add: str_fields.simps trim_left_def strip_front.simps starts_ws_def ws_seqs_def)
  then show ?thesis
    by (simp add: attr_step_def sanitizeBodyClass_def replace_byte_def class_char_def to_lower_def lower_char_def
        trim_space_plain plain_head_def plain_last_def ws_seqs_def is_digit_def)
qed

end
