(* ===== verification/Report_Render.thy ===== *)
theory Report_Render
  imports Report_Sanitize Report_Blocks
begin

text \<open>
  The page of a report (\<open>server/tools/report_html.go\<close>): block titles, the anchors of charts in the
  text, the units that are rendered, the table of contents and the body of the page. The constant
  style sheet and page frame around these parts are left out: a page is the record of the values that
  the code inserts into them.
\<close>

section \<open>Regular expressions for headings\<close>

text \<open>
  A search anchored at the beginnings of lines, \<open>(?m)^\<close>: the leftmost place where the matcher
  succeeds, and what it captures.
\<close>

fun line_search :: "(string \<Rightarrow> 'a option) \<Rightarrow> bool \<Rightarrow> string \<Rightarrow> (nat \<times> 'a) option" where
  "line_search m b [] = (if b then map_option (Pair 0) (m []) else None)"
| "line_search m b (c # s) =
     (case (if b then m (c # s) else None) of
        Some r \<Rightarrow> Some (0, r)
      | None \<Rightarrow> map_option (apfst Suc) (line_search m (c = CHR 0x0A) s))"

definition heading_digit :: "char \<Rightarrow> bool" where
  "heading_digit c \<longleftrightarrow> 49 \<le> byte c \<and> byte c \<le> 54"

text \<open>\<open></h[1-6]>\<close>, and the shortest run of bytes within the line before it.\<close>

definition closing_heading :: "string \<Rightarrow> bool" where
  "closing_heading s \<longleftrightarrow> length s \<ge> 5 \<and> to_lower (take 3 s) = ''</h'' \<and> heading_digit (s ! 3) \<and> s ! 4 = CHR ''>''"

fun heading_body :: "string \<Rightarrow> string option" where
  "heading_body [] = None"
| "heading_body (c # s) =
     (if closing_heading (c # s) then Some []
      else if c = CHR 0x0A then None
      else map_option ((#) c) (heading_body s))"

text \<open>\<open>^\s*<h[1-6][^>]*>(.*?)</h[1-6]>\<close>\<close>

definition html_heading_at :: "string \<Rightarrow> string option" where
  "html_heading_at s =
     (let t = dropWhile re_blank s; rest = dropWhile (\<lambda>c. c \<noteq> CHR ''>'') (drop 3 t)
      in if length t \<ge> 3 \<and> to_lower (take 2 t) = ''<h'' \<and> heading_digit (t ! 2) \<and> rest \<noteq> []
         then heading_body (tl rest) else None)"

text \<open>
  \<open>^\s*(?:#{1,6})\s+(.+?)(?:\r?\n|$)\<close>, used on trimmed text only, so that a byte follows the white
  space after the hashes.
\<close>

definition md_heading_at :: "string \<Rightarrow> string option" where
  "md_heading_at s =
     (let t = dropWhile re_blank s; hashes = takeWhile (\<lambda>c. c = CHR ''#'') t;
          u = dropWhile (\<lambda>c. c = CHR ''#'') t; v = dropWhile re_blank u;
          line = takeWhile (\<lambda>c. c \<noteq> CHR 0x0A) v
      in if hashes = [] \<or> length hashes > 6 \<or> v = u \<or> v = [] then None
         else if line \<noteq> v \<and> length line \<ge> 2 \<and> last line = CHR 0x0D then Some (butlast line)
         else Some line)"

text \<open>Removal of the matches of \<open><[^>]*>\<close>.\<close>

function strip_tags :: "string \<Rightarrow> string" where
  "strip_tags [] = []"
| "strip_tags (c # s) =
     (if c = CHR ''<'' \<and> CHR ''>'' \<in> set s
      then strip_tags (tl (dropWhile (\<lambda>x. x \<noteq> CHR ''>'') s))
      else c # strip_tags s)"
  by pat_completeness auto
termination
proof (relation "measure length", goal_cases)
  case (2 c s)
  then show ?case using length_dropWhile_le [of "\<lambda>x. x \<noteq> CHR ''>''" s] by simp
qed auto

definition extractContentHeadingTitle :: "string \<Rightarrow> string" where
  "extractContentHeadingTitle content =
     (let c = trim_space content
      in if c = [] then []
         else (case (line_search html_heading_at True c, line_search md_heading_at True c) of
                 (None, None) \<Rightarrow> []
               | (Some (i, g), None) \<Rightarrow> trim_space (strip_tags g)
               | (None, Some (j, h)) \<Rightarrow> trim_space (strip_tags h)
               | (Some (i, g), Some (j, h)) \<Rightarrow> trim_space (strip_tags (if i < j then g else h))))"

section \<open>Blocks and their titles\<close>

definition kind_is :: "string \<Rightarrow> report_block \<Rightarrow> bool" where
  "kind_is k b \<longleftrightarrow> equal_fold (trim_space (rb_Kind b)) k"

definition isTitleBlock :: "report_block \<Rightarrow> bool" where
  "isTitleBlock b = kind_is ''title'' b"

definition blockDisplayTitle :: "report_block \<Rightarrow> string" where
  "blockDisplayTitle b =
     (let title = extractContentHeadingTitle (rb_Content b)
      in if title \<noteq> [] then title else trim_space (rb_Title b))"

definition comparableTitle :: "string \<Rightarrow> string" where
  "comparableTitle v =
     of_runes (filter (\<lambda>r. (97 \<le> r \<and> r \<le> 122) \<or> (48 \<le> r \<and> r \<le> 57) \<or> (0x4E00 \<le> r \<and> r \<le> 0x9FFF))
       (runes (to_lower (trim_space v))))"

definition titlesReferToSameReport :: "string \<Rightarrow> string \<Rightarrow> bool" where
  "titlesReferToSameReport heading reportTitle =
     (let h = comparableTitle heading; t = comparableTitle reportTitle
      in if h = [] \<or> t = [] then False
         else if h = t then True
         else if length h < 10 \<or> length t < 10 then False
         else contains t h \<or> contains h t)"

definition stripLeadingMarkdownDocumentTitle :: "string \<Rightarrow> string \<Rightarrow> (string \<times> string) option" where
  "stripLeadingMarkdownDocumentTitle content reportTitle =
     (let ls = split_on (CHR 0x0A) content
      in case find_index (\<lambda>l. trim_space l \<noteq> []) ls of
           None \<Rightarrow> None
         | Some i \<Rightarrow>
             (let trimmed = trim_space (ls ! i); heading = trim_space (drop 2 trimmed)
              in if \<not> has_prefix trimmed ''# '' \<or> has_prefix trimmed ''## '' then None
                 else if \<not> titlesReferToSameReport heading reportTitle then None
                 else Some (heading, trim_space (join lf (remove_nth i ls)))))"

text \<open>The first Markdown block that begins with the title of the report loses this heading.\<close>

fun normalize_from :: "string \<Rightarrow> report_block list \<Rightarrow> report_block list" where
  "normalize_from reportTitle [] = []"
| "normalize_from reportTitle (b # bs) =
     (if isTitleBlock b \<or> \<not> kind_is ''markdown'' b then b # normalize_from reportTitle bs
      else (case stripLeadingMarkdownDocumentTitle (rb_Content b) reportTitle of
              None \<Rightarrow> b # normalize_from reportTitle bs
            | Some (heading, content) \<Rightarrow>
                (if trim_space (rb_Title b) = [] \<or> comparableTitle (rb_Title b) = comparableTitle heading
                 then b\<lparr>rb_Content := content, rb_Title := []\<rparr> else b\<lparr>rb_Content := content\<rparr>) # bs))"

definition normalizeReportBlocksForRendering :: "report_block list \<Rightarrow> string \<Rightarrow> report_block list" where
  "normalizeReportBlocksForRendering blocks reportTitle =
     (if trim_space reportTitle = [] then blocks else normalize_from (trim_space reportTitle) blocks)"

section \<open>Sections of a Markdown block\<close>

definition markdownHeadingLevel :: "string \<Rightarrow> nat option" where
  "markdownHeadingLevel line =
     (let trimmed = trim_space line; hashes = takeWhile (\<lambda>c. c = CHR ''#'') trimmed;
          rest = dropWhile (\<lambda>c. c = CHR ''#'') trimmed
      in if hashes = [] \<or> rest = [] \<or> hd rest \<noteq> CHR '' '' then None else Some (length hashes))"

definition level_step :: "string \<Rightarrow> nat \<times> nat \<Rightarrow> nat \<times> nat" where
  "level_step line st =
     (case markdownHeadingLevel line of
        None \<Rightarrow> st
      | Some l \<Rightarrow>
          if l > 2 then st
          else if fst st = 0 \<or> l < fst st then (l, 1)
          else if l = fst st then (fst st, snd st + 1)
          else st)"

fun section_groups :: "nat \<Rightarrow> string list \<Rightarrow> string list \<Rightarrow> string list list" where
  "section_groups m cur [] = (if cur = [] then [] else [cur])"
| "section_groups m cur (l # ls) =
     (if markdownHeadingLevel l = Some m \<and> cur \<noteq> [] then cur # section_groups m [l] ls
      else section_groups m (cur @ [l]) ls)"

definition splitMarkdownIntoTopLevelSections :: "string \<Rightarrow> string list" where
  "splitMarkdownIntoTopLevelSections content =
     (let ls = split_on (CHR 0x0A) content; st = fold level_step ls (0, 0);
          parts = map (\<lambda>g. trim_space (join lf g)) (section_groups (fst st) [] ls)
      in if fst st = 0 \<or> snd st \<le> 1 then [content]
         else if length parts \<le> 1 then [content]
         else parts)"

record reportRenderUnit =
  ru_Block :: report_block
  ru_AttachedCharts :: "report_block list"

definition splitRenderUnitSections :: "reportRenderUnit \<Rightarrow> reportRenderUnit list" where
  "splitRenderUnitSections u =
     (if \<not> kind_is ''markdown'' (ru_Block u) then [u]
      else (case splitMarkdownIntoTopLevelSections (rb_Content (ru_Block u)) of
              f # g # fs \<Rightarrow>
                u\<lparr>ru_Block := (ru_Block u)\<lparr>rb_Content := f\<rparr>\<rparr>
                # map (\<lambda>x. \<lparr>ru_Block = (ru_Block u)\<lparr>rb_Content := x\<rparr>, ru_AttachedCharts = []\<rparr>) (g # fs)
            | _ \<Rightarrow> [u]))"

section \<open>Charts within the text\<close>

definition shouldAttachChartInline :: "report_block \<Rightarrow> bool" where
  "shouldAttachChartInline b \<longleftrightarrow>
     kind_is ''chart'' b \<and> trim_space (rb_ChartID b) \<noteq> [] \<and> trim_space (rb_Title b) = []"

definition isTextRenderBlock :: "report_block \<Rightarrow> bool" where
  "isTextRenderBlock b \<longleftrightarrow> to_lower (trim_space (rb_Kind b)) \<in> {''markdown'', ''html''}"

text \<open>The step of the search is 1 or -1.\<close>

definition findAdjacentTextBlockIndex :: "report_block list \<Rightarrow> nat \<Rightarrow> bool \<Rightarrow> nat option" where
  "findAdjacentTextBlockIndex blocks start forward =
     find (\<lambda>i. isTextRenderBlock (blocks ! i))
       (if forward then [Suc start..<length blocks] else rev [0..<start])"

text \<open>The matches of \<open>[a-z0-9]+\<close>.\<close>

definition render_token_char :: "char \<Rightarrow> bool" where
  "render_token_char c \<longleftrightarrow> (97 \<le> byte c \<and> byte c \<le> 122) \<or> is_digit c"

fun token_runs :: "string \<Rightarrow> string \<Rightarrow> string list" where
  "token_runs cur [] = (if cur = [] then [] else [cur])"
| "token_runs cur (c # s) =
     (if render_token_char c then token_runs (cur @ [c]) s
      else if cur = [] then token_runs [] s else cur # token_runs [] s)"

definition blockRenderTokens :: "report_block \<Rightarrow> string set" where
  "blockRenderTokens b =
     set (filter (\<lambda>t. length t \<ge> 3)
       (token_runs [] (to_lower (trim_space
          (join '' '' [rb_ID b, rb_Title b, rb_ChartID b, blockDisplayTitle b])))))"

definition tokenOverlapScore :: "report_block \<Rightarrow> report_block \<Rightarrow> int" where
  "tokenOverlapScore chart txt = int (card (blockRenderTokens chart \<inter> blockRenderTokens txt))"

definition isOverviewLikeBlock :: "report_block \<Rightarrow> bool" where
  "isOverviewLikeBlock b =
     (let hint = to_lower (trim_space (join '' '' [rb_ID b, rb_Title b, blockDisplayTitle b]))
      in list_ex (contains hint)
           [''overview'', ''summary'', ''exec'', [CHR 0xE6, CHR 0x91, CHR 0x98, CHR 0xE8, CHR 0xA6, CHR 0x81],
            [CHR 0xE6, CHR 0xA6, CHR 0x82, CHR 0xE8, CHR 0xA7, CHR 0x88]])"

definition positiveDistanceScore :: "nat \<Rightarrow> int" where
  "positiveDistanceScore n = (if n \<ge> 8 then 0 else 8 - int n)"

definition scoreInlineChartAnchor :: "report_block \<Rightarrow> report_block \<Rightarrow> nat \<Rightarrow> int" where
  "scoreInlineChartAnchor chart txt n =
     positiveDistanceScore n + tokenOverlapScore chart txt * 10 - (if isOverviewLikeBlock txt then 4 else 0)"

definition findInlineChartAnchorIndex :: "report_block list \<Rightarrow> nat \<Rightarrow> nat option" where
  "findInlineChartAnchorIndex blocks i =
     (case (findAdjacentTextBlockIndex blocks i False, findAdjacentTextBlockIndex blocks i True) of
        (None, nxt) \<Rightarrow> nxt
      | (Some p, None) \<Rightarrow> Some p
      | (Some p, Some q) \<Rightarrow>
          if scoreInlineChartAnchor (blocks ! i) (blocks ! q) (q - i)
             > scoreInlineChartAnchor (blocks ! i) (blocks ! p) (i - p)
          then Some q else Some p)"

section \<open>Render units\<close>

text \<open>Where the block at an index is attached, if it is.\<close>

definition chart_anchor :: "report_block list \<Rightarrow> nat \<Rightarrow> nat option" where
  "chart_anchor blocks i =
     (if shouldAttachChartInline (blocks ! i) then findInlineChartAnchorIndex blocks i else None)"

definition attached_to :: "report_block list \<Rightarrow> nat \<Rightarrow> report_block list" where
  "attached_to blocks t =
     map ((!) blocks) (filter (\<lambda>i. chart_anchor blocks i = Some t) [0..<length blocks])"

definition base_units :: "report_block list \<Rightarrow> reportRenderUnit list" where
  "base_units blocks =
     map (\<lambda>i. \<lparr>ru_Block = blocks ! i, ru_AttachedCharts = attached_to blocks i\<rparr>)
       (filter (\<lambda>i. chart_anchor blocks i = None) [0..<length blocks])"

definition buildBaseRenderUnits :: "report_block list \<Rightarrow> string \<Rightarrow> reportRenderUnit list" where
  "buildBaseRenderUnits blocks reportTitle = base_units (normalizeReportBlocksForRendering blocks reportTitle)"

definition buildRenderUnits :: "report_block list \<Rightarrow> string \<Rightarrow> reportRenderUnit list" where
  "buildRenderUnits blocks reportTitle =
     concat (map splitRenderUnitSections (buildBaseRenderUnits blocks reportTitle))"

section \<open>Table of contents\<close>

definition firstMarkdownHeading :: "string \<Rightarrow> (string \<times> nat) option" where
  "firstMarkdownHeading content =
     (case find (\<lambda>l. markdownHeadingLevel l \<noteq> None) (split_on (CHR 0x0A) content) of
        None \<Rightarrow> None
      | Some l \<Rightarrow> Some (trim_space (drop (the (markdownHeadingLevel l)) (trim_space l)),
                       the (markdownHeadingLevel l)))"

definition structuredBlockTOCTitle :: "report_block \<Rightarrow> string \<Rightarrow> string" where
  "structuredBlockTOCTitle b reportTitle =
     (let title = trim_space (rb_Title b)
      in if title \<noteq> [] \<and> \<not> titlesReferToSameReport title reportTitle
         then (if kind_is ''markdown'' b
               then (case firstMarkdownHeading (rb_Content b) of
                       None \<Rightarrow> title
                     | Some (h, level) \<Rightarrow> if level > 2 then [] else title)
               else title)
         else [])"

definition plain_toc_title :: "report_block \<Rightarrow> string \<Rightarrow> string" where
  "plain_toc_title b reportTitle =
     (let content_title = extractContentHeadingTitle (rb_Content b); title = trim_space (rb_Title b)
      in if kind_is ''html'' b \<and> content_title \<noteq> [] \<and> \<not> titlesReferToSameReport content_title reportTitle
         then content_title
         else if title \<noteq> [] \<and> \<not> titlesReferToSameReport title reportTitle then title
         else [])"

definition documentTOCTitle :: "report_block \<Rightarrow> string \<Rightarrow> string" where
  "documentTOCTitle b reportTitle =
     (if kind_is ''markdown'' b
      then (case firstMarkdownHeading (rb_Content b) of
              Some (heading, level) \<Rightarrow>
                if level \<le> 2 \<and> \<not> titlesReferToSameReport heading reportTitle then heading
                else if level > 2 then []
                else plain_toc_title b reportTitle
            | None \<Rightarrow> plain_toc_title b reportTitle)
      else plain_toc_title b reportTitle)"

record reportTOCItem =
  toc_Anchor :: string
  toc_Title :: string

definition section_id :: "nat \<Rightarrow> string" where
  "section_id n = ''section-'' @ itoa (int n)"

text \<open>The sections of one base unit; \<open>n\<close> sections came before.\<close>

fun section_items :: "string \<Rightarrow> nat \<Rightarrow> reportRenderUnit list \<Rightarrow> reportTOCItem list" where
  "section_items reportTitle n [] = []"
| "section_items reportTitle n (u # us) =
     (let title = documentTOCTitle (ru_Block u) reportTitle
      in (if title = [] then [] else [\<lparr>toc_Anchor = section_id (n + 1), toc_Title = title\<rparr>])
         @ section_items reportTitle (n + 1) us)"

fun toc_items :: "string \<Rightarrow> nat \<Rightarrow> reportRenderUnit list \<Rightarrow> reportTOCItem list" where
  "toc_items reportTitle n [] = []"
| "toc_items reportTitle n (u # us) =
     (let split = splitRenderUnitSections u; title = structuredBlockTOCTitle (ru_Block u) reportTitle
      in if isTitleBlock (ru_Block u) \<or> split = [] then toc_items reportTitle n us
         else if title \<noteq> []
         then \<lparr>toc_Anchor = section_id (n + 1), toc_Title = title\<rparr>
                # toc_items reportTitle (n + length split) us
         else section_items reportTitle n split @ toc_items reportTitle (n + length split) us)"

definition buildReportTOCItems :: "report_block list \<Rightarrow> string \<Rightarrow> reportTOCItem list" where
  "buildReportTOCItems blocks reportTitle = toc_items reportTitle 0 (buildBaseRenderUnits blocks reportTitle)"

definition renderReportTOC :: "report_block list \<Rightarrow> string \<Rightarrow> string" where
  "renderReportTOC blocks reportTitle =
     (let items = buildReportTOCItems blocks reportTitle
      in if length items < 2 then []
         else ''<nav class=\"report-toc\" aria-label=\"''
              @ [CHR 0xE6, CHR 0x8A, CHR 0xA5, CHR 0xE5, CHR 0x91, CHR 0x8A, CHR 0xE7, CHR 0x9B, CHR 0xAE,
                 CHR 0xE5, CHR 0xBD, CHR 0x95] @ ''\">'' @ lf
              @ ''<h2>'' @ [CHR 0xE7, CHR 0x9B, CHR 0xAE, CHR 0xE5, CHR 0xBD, CHR 0x95] @ ''</h2>'' @ lf
              @ ''<ol>'' @ lf
              @ concat (map (\<lambda>it. ''<li><a href=\"#'' @ escapeHTMLAttr (toc_Anchor it) @ ''\">''
                               @ escapeHTMLText (toc_Title it) @ ''</a></li>'' @ lf) items)
              @ ''</ol>'' @ lf @ ''</nav>'')"

section \<open>The body of the page\<close>

definition tabs :: "nat \<Rightarrow> string" where
  "tabs n = replicate n (CHR 0x09)"

definition chart_block_content :: "report_block \<Rightarrow> string" where
  "chart_block_content b =
     ''{{chart:'' @ rb_ChartID b @ ''}}''
     @ (if trim_space (rb_Content b) \<noteq> [] then lf @ lf @ rb_Content b else [])"

definition renderAttachedChartsInline :: "html_deps \<Rightarrow> report_block list \<Rightarrow> chart_data list \<Rightarrow> string" where
  "renderAttachedChartsInline d attached charts =
     concat (map (\<lambda>b. (let title = blockDisplayTitle b
                       in if title \<noteq> [] then ''<h4>'' @ escapeHTMLText title @ ''</h4>'' @ lf else [])
                      @ processContent d charts (chart_block_content b)) attached)"

definition heading_html :: "report_block \<Rightarrow> string" where
  "heading_html b =
     (if blockDisplayTitle b \<noteq> [] \<and> extractContentHeadingTitle (rb_Content b) = []
      then ''<h2>'' @ escapeHTMLText (blockDisplayTitle b) @ ''</h2>'' @ lf else [])"

definition renderMarkdownBlockHTML ::
  "html_deps \<Rightarrow> report_block \<Rightarrow> nat \<Rightarrow> chart_data list \<Rightarrow> report_block list \<Rightarrow> string" where
  "renderMarkdownBlockHTML d b n charts attached =
     lf @ tabs 3 @ ''<div class=\"section\" id=\"section-'' @ itoa (int n) @ ''\">'' @ lf
     @ tabs 4 @ ''<div class=\"content\">'' @ heading_html b @ processContent d charts (rb_Content b)
     @ renderAttachedChartsInline d attached charts @ ''</div>'' @ lf @ tabs 3 @ ''</div>''"

definition renderHTMLBlock ::
  "html_deps \<Rightarrow> report_block \<Rightarrow> nat \<Rightarrow> chart_data list \<Rightarrow> report_block list \<Rightarrow> string" where
  "renderHTMLBlock d b n charts attached =
     lf @ tabs 2 @ ''<div class=\"section html-block\" id=\"section-'' @ itoa (int n) @ ''\">'' @ lf
     @ tabs 3 @ ''<div class=\"content\">'' @ heading_html b @ sanitizeHTMLFragment d (rb_Content b)
     @ renderAttachedChartsInline d attached charts @ ''</div>'' @ lf @ tabs 2 @ ''</div>''"

definition renderChartBlockHTML :: "html_deps \<Rightarrow> report_block \<Rightarrow> nat \<Rightarrow> chart_data list \<Rightarrow> string" where
  "renderChartBlockHTML d b n charts =
     lf @ tabs 2 @ ''<div class=\"section chart-block\" id=\"section-'' @ itoa (int n) @ ''\">'' @ lf @ tabs 3
     @ (if blockDisplayTitle b \<noteq> [] then ''<h2>'' @ escapeHTMLText (blockDisplayTitle b) @ ''</h2>'' else [])
     @ lf @ tabs 3 @ ''<div class=\"content\">'' @ processContent d charts (chart_block_content b)
     @ ''</div>'' @ lf @ tabs 2 @ ''</div>''"

text \<open>A kind without a renderer is rendered as Markdown, without charts attached to it.\<close>

definition renderReportBlockHTML ::
  "html_deps \<Rightarrow> report_block \<Rightarrow> nat \<Rightarrow> chart_data list \<Rightarrow> report_block list \<Rightarrow> string" where
  "renderReportBlockHTML d b n charts attached =
     (let kind = to_lower (trim_space (rb_Kind b))
      in if kind = ''markdown'' then renderMarkdownBlockHTML d b n charts attached
         else if kind = ''html'' then renderHTMLBlock d b n charts attached
         else if kind = ''chart'' then renderChartBlockHTML d b n charts
         else renderMarkdownBlockHTML d b n charts [])"

definition wrapper_open :: "report_block \<Rightarrow> string" where
  "wrapper_open b =
     (let kind = to_lower (trim_space (rb_Kind b))
      in ''<div class=\"report-block-wrapper\" data-block-id=\"'' @ escapeHTMLAttr (rb_ID b)
         @ ''\" data-block-kind=\"'' @ escapeHTMLAttr (if kind = [] then ''markdown'' else kind)
         @ ''\" data-block-title=\"'' @ escapeHTMLAttr (blockDisplayTitle b) @ ''\">'' @ lf)"

abbreviation wrapper_close :: string where "wrapper_close \<equiv> ''</div>'' @ lf"

text \<open>The loop over the units: the last block id, whether a wrapper is open, the chapter number.\<close>

fun render_body ::
  "html_deps \<Rightarrow> chart_data list \<Rightarrow> string \<Rightarrow> bool \<Rightarrow> nat \<Rightarrow> reportRenderUnit list \<Rightarrow> string" where
  "render_body d charts lastID opened n [] = (if opened then wrapper_close else [])"
| "render_body d charts lastID opened n (u # us) =
     (let b = ru_Block u
      in if isTitleBlock b then render_body d charts lastID opened n us
         else if rb_ID b \<noteq> lastID
         then (if opened then wrapper_close else []) @ wrapper_open b
              @ renderReportBlockHTML d b (n + 1) charts (ru_AttachedCharts u)
              @ render_body d charts (rb_ID b) True (n + 1) us
         else renderReportBlockHTML d b (n + 1) charts (ru_AttachedCharts u)
              @ render_body d charts lastID opened (n + 1) us)"

definition renderReportTitleHeader :: "string \<Rightarrow> string \<Rightarrow> string" where
  "renderReportTitleHeader title author =
     (if trim_space title = [] then []
      else ''<header class=\"report-titlebar\" data-report-title=\"true\">'' @ lf @ ''  <h1>''
           @ escapeHTMLText (trim_space title) @ ''</h1>'' @ lf @ ''  ''
           @ (if trim_space author \<noteq> []
              then ''<div class=\"meta\">'' @ escapeHTMLText (trim_space author) @ ''</div>'' else [])
           @ lf @ ''</header>'')"

definition buildChartScripts :: "chart_data list \<Rightarrow> string" where
  "buildChartScripts charts =
     (if charts = [] then []
      else ''<script id=\"oda-chart-runtime\" src=\"/oda-chart-runtime.js\"></script>'')"

record report_page =
  pg_Title :: string
  pg_CustomCSS :: string
  pg_EchartsScript :: string
  pg_BodyClass :: string
  pg_TitleHeader :: string
  pg_TOC :: string
  pg_Body :: string
  pg_ChartScripts :: string

text \<open>\<open>RenderReportHTML\<close>; a nil state is the empty report.\<close>

definition RenderReportHTML :: "html_deps \<Rightarrow> string \<Rightarrow> string \<Rightarrow> report_state option \<Rightarrow> report_page" where
  "RenderReportHTML d title0 author0 st =
     (let state = (case st of None \<Rightarrow> empty_report | Some s \<Rightarrow> s);
          title = trim_space (if title0 = [] then FinalTitle state else title0);
          author = trim_space (if author0 = [] then FinalAuthor state else author0);
          css = sanitizeCSS (CustomCSS (Layout state))
      in \<lparr>pg_Title = escapeHTMLText title,
          pg_CustomCSS = (if css = [] then [] else lf @ css @ lf),
          pg_EchartsScript = ''<script id=\"oda-echarts-loader\" src=\"''
            @ escapeHTMLAttr (if hd_echarts_url d = [] then ''/assets/echarts.min.js'' else hd_echarts_url d)
            @ ''\"></script>'',
          pg_BodyClass = sanitizeBodyClass (BodyClass (Layout state)),
          pg_TitleHeader = renderReportTitleHeader title author,
          pg_TOC = renderReportTOC (Blocks state) title,
          pg_Body = render_body d (Charts state) [] False 0 (buildRenderUnits (Blocks state) title),
          pg_ChartScripts = buildChartScripts (Charts state)\<rparr>)"

section \<open>No block is lost\<close>

lemma find_SomeD: "find P xs = Some x \<Longrightarrow> x \<in> set xs \<and> P x"
  by (induction xs) (auto split: if_splits)

lemma text_block_not_attached: "isTextRenderBlock b \<Longrightarrow> \<not> shouldAttachChartInline b"
  by (auto simp: isTextRenderBlock_def shouldAttachChartInline_def kind_is_def equal_fold_def to_lower_def lower_char_def)

lemma adjacent_found:
  "findAdjacentTextBlockIndex blocks i fw = Some t \<Longrightarrow> i < length blocks \<Longrightarrow>
   t < length blocks \<and> isTextRenderBlock (blocks ! t)"
  unfolding findAdjacentTextBlockIndex_def by (drule find_SomeD) (auto split: if_splits)

lemma inline_anchor_cases:
  "findInlineChartAnchorIndex blocks i = Some t \<Longrightarrow> \<exists>fw. findAdjacentTextBlockIndex blocks i fw = Some t"
proof -
  assume a: "findInlineChartAnchorIndex blocks i = Some t"
  show ?thesis
  proof (cases "findAdjacentTextBlockIndex blocks i False = Some t")
    case False
    with a have "findAdjacentTextBlockIndex blocks i True = Some t"
      unfolding findInlineChartAnchorIndex_def
      by (cases "findAdjacentTextBlockIndex blocks i False"; cases "findAdjacentTextBlockIndex blocks i True")
        (simp_all split: if_splits)
    then show ?thesis by blast
  qed blast
qed

lemma anchor_found:
  assumes "chart_anchor blocks i = Some t" "i < length blocks"
  shows "t < length blocks \<and> isTextRenderBlock (blocks ! t) \<and> shouldAttachChartInline (blocks ! i)"
proof -
  have "shouldAttachChartInline (blocks ! i)" "findInlineChartAnchorIndex blocks i = Some t"
    using assms(1) by (simp_all add: chart_anchor_def split: if_splits)
  then show ?thesis using inline_anchor_cases adjacent_found [OF _ assms(2)] by blast
qed

lemma anchor_stays: "chart_anchor blocks i = Some t \<Longrightarrow> i < length blocks \<Longrightarrow> chart_anchor blocks t = None"
  using anchor_found [of blocks i t] text_block_not_attached [of "blocks ! t"]
  by (simp add: chart_anchor_def [of blocks t])

lemma mset_concat_insert:
  "distinct ts \<Longrightarrow> t0 \<in> set ts \<Longrightarrow>
   mset (concat (map (\<lambda>t. if t = t0 then i # F t else F t) ts)) = add_mset i (mset (concat (map F ts)))"
proof (induction ts)
  case (Cons t ts)
  have "map (\<lambda>t. if t = t0 then i # F t else F t) ts = map F ts" if "t0 \<notin> set ts"
    using that by (intro map_cong) auto
  with Cons show ?case by (cases "t = t0") (simp_all del: map_eq_conv)
qed simp

lemma mset_by_target:
  assumes "distinct ts" "\<And>i t. i \<in> set is \<Longrightarrow> f i = Some t \<Longrightarrow> t \<in> set ts"
  shows "mset (concat (map (\<lambda>t. filter (\<lambda>i. f i = Some t) is) ts)) = mset (filter (\<lambda>i. f i \<noteq> None) is)"
  using assms(2)
proof (induction "is")
  case Nil
  have "concat (map (\<lambda>t. []) ts) = []" by (induction ts) auto
  then show ?case by simp
next
  case (Cons i "is")
  have ih: "mset (concat (map (\<lambda>t. filter (\<lambda>i. f i = Some t) is) ts)) = mset (filter (\<lambda>i. f i \<noteq> None) is)"
    by (rule Cons.IH) (use Cons.prems in auto)
  show ?case
  proof (cases "f i")
    case None
    with ih show ?thesis by (simp del: mset_filter)
  next
    case (Some t0)
    have e: "(\<lambda>t. filter (\<lambda>i. f i = Some t) (i # is))
        = (\<lambda>t. if t = t0 then i # filter (\<lambda>i. f i = Some t) is else filter (\<lambda>i. f i = Some t) is)"
      using Some by auto
    have t0: "t0 \<in> set ts" using Cons.prems [of i t0] Some by simp
    show ?thesis unfolding e mset_concat_insert [OF assms(1) t0] ih using Some by simp
  qed
qed

lemma base_units_complete:
  "mset (map ru_Block (base_units bs) @ concat (map ru_AttachedCharts (base_units bs))) = mset bs"
proof -
  let ?n = "[0..<length bs]" and ?f = "chart_anchor bs"
  let ?ts = "filter (\<lambda>i. ?f i = None) ?n"
  have "concat (map ru_AttachedCharts (base_units bs))
      = map ((!) bs) (concat (map (\<lambda>t. filter (\<lambda>i. ?f i = Some t) ?n) ?ts))"
    by (simp add: base_units_def attached_to_def map_concat comp_def)
  moreover have "mset (concat (map (\<lambda>t. filter (\<lambda>i. ?f i = Some t) ?n) ?ts)) = mset (filter (\<lambda>i. ?f i \<noteq> None) ?n)"
  proof (rule mset_by_target)
    fix i t assume "i \<in> set ?n" "?f i = Some t"
    then show "t \<in> set ?ts" using anchor_found [of bs i t] anchor_stays [of bs i t] by simp
  qed simp
  ultimately have a: "mset (concat (map ru_AttachedCharts (base_units bs)))
      = image_mset ((!) bs) (mset (filter (\<lambda>i. ?f i \<noteq> None) ?n))"
    by (simp add: mset_map)
  have b: "mset (map ru_Block (base_units bs)) = image_mset ((!) bs) (mset ?ts)"
    by (simp add: base_units_def comp_def)
  have "mset ?n = mset ?ts + mset (filter (\<lambda>i. ?f i \<noteq> None) ?n)"
    unfolding mset_filter by (rule multiset_partition)
  then have "mset (map ((!) bs) ?n) = image_mset ((!) bs) (mset ?ts) + image_mset ((!) bs) (mset (filter (\<lambda>i. ?f i \<noteq> None) ?n))"
    by (simp only: mset_map image_mset_union)
  then show ?thesis using a b by (simp add: map_nth)
qed

lemma base_units_order: "subseq (map ru_Block (base_units bs)) bs"
proof -
  have "map ru_Block (base_units bs) = map ((!) bs) (filter (\<lambda>i. chart_anchor bs i = None) [0..<length bs])"
    by (simp add: base_units_def)
  then show ?thesis by (metis map_nth subseq_map subseq_filter_left)
qed

definition attached_well :: "reportRenderUnit \<Rightarrow> bool" where
  "attached_well u \<longleftrightarrow> list_all shouldAttachChartInline (ru_AttachedCharts u)
     \<and> (ru_AttachedCharts u = [] \<or> isTextRenderBlock (ru_Block u))"

lemma base_units_attached: "list_all attached_well (base_units bs)"
proof -
  have "list_all shouldAttachChartInline (attached_to bs t)
      \<and> (attached_to bs t = [] \<or> isTextRenderBlock (bs ! t))" for t
    using anchor_found [of bs _ t] by (auto simp: attached_to_def list_all_iff filter_empty_conv)
  then show ?thesis by (auto simp: base_units_def attached_well_def list_all_iff)
qed

lemma normalize_keeps:
  "map rb_ID (normalizeReportBlocksForRendering bs t) = map rb_ID bs"
  "map rb_Kind (normalizeReportBlocksForRendering bs t) = map rb_Kind bs"
  "map rb_ChartID (normalizeReportBlocksForRendering bs t) = map rb_ChartID bs"
proof -
  have "map rb_ID (normalize_from t' bs) = map rb_ID bs \<and> map rb_Kind (normalize_from t' bs) = map rb_Kind bs
      \<and> map rb_ChartID (normalize_from t' bs) = map rb_ChartID bs" for t'
    by (induction t' bs rule: normalize_from.induct) (auto split: option.split)
  then show "map rb_ID (normalizeReportBlocksForRendering bs t) = map rb_ID bs"
    "map rb_Kind (normalizeReportBlocksForRendering bs t) = map rb_Kind bs"
    "map rb_ChartID (normalizeReportBlocksForRendering bs t) = map rb_ChartID bs"
    by (simp_all add: normalizeReportBlocksForRendering_def)
qed

text \<open>
  C20. No block of a report is lost or shown twice: the blocks of the render units and the charts
  attached to them are the blocks of the report (one may have lost a heading that repeats the title),
  the units keep the order of the blocks, and only untitled charts are attached, to text blocks.
\<close>

theorem rendered_blocks_complete:
  "mset (map ru_Block (buildBaseRenderUnits blocks t)
         @ concat (map ru_AttachedCharts (buildBaseRenderUnits blocks t)))
      = mset (normalizeReportBlocksForRendering blocks t)
   \<and> subseq (map ru_Block (buildBaseRenderUnits blocks t)) (normalizeReportBlocksForRendering blocks t)
   \<and> map rb_ID (normalizeReportBlocksForRendering blocks t) = map rb_ID blocks
   \<and> list_all attached_well (buildBaseRenderUnits blocks t)"
  using base_units_complete base_units_order base_units_attached normalize_keeps(1)
  unfolding buildBaseRenderUnits_def by blast

section \<open>Sections are cut at headings\<close>

lemma section_groups_concat: "concat (section_groups m cur ls) = cur @ ls"
  by (induction m cur ls rule: section_groups.induct) auto

lemma section_groups_heads:
  "list_all (\<lambda>l. markdownHeadingLevel l \<noteq> Some m) (tl cur) \<Longrightarrow>
   list_all (\<lambda>g. g \<noteq> [] \<and> list_all (\<lambda>l. markdownHeadingLevel l \<noteq> Some m) (tl g)) (section_groups m cur ls)
   \<and> list_all (\<lambda>g. markdownHeadingLevel (hd g) = Some m) (tl (section_groups m cur ls))
   \<and> (cur \<noteq> [] \<longrightarrow> section_groups m cur ls \<noteq> [] \<and> hd (hd (section_groups m cur ls)) = hd cur)"
proof (induction m cur ls rule: section_groups.induct)
  case (2 m cur l ls)
  show ?case
  proof (cases "markdownHeadingLevel l = Some m \<and> cur \<noteq> []")
    case True
    with 2 have ih: "section_groups m [l] ls \<noteq> []" "hd (hd (section_groups m [l] ls)) = l" by auto
    then obtain g gs where "section_groups m [l] ls = g # gs" by (cases "section_groups m [l] ls") auto
    with True 2 ih show ?thesis by auto
  next
    case False
    then have "list_all (\<lambda>l. markdownHeadingLevel l \<noteq> Some m) (tl (cur @ [l]))"
      using 2(3) by (cases cur) auto
    with False 2 show ?thesis by (cases cur) auto
  qed
qed auto

lemma heading_level_pos: "markdownHeadingLevel l = Some k \<Longrightarrow> k > 0"
  by (auto simp: markdownHeadingLevel_def Let_def split: if_splits)

definition no_higher :: "nat \<Rightarrow> string \<Rightarrow> bool" where
  "no_higher m l = (case markdownHeadingLevel l of None \<Rightarrow> True | Some k \<Rightarrow> m \<le> k)"

lemma level_scan:
  assumes "fst st \<le> 2"
  shows "fst (fold level_step ls st) \<le> 2
    \<and> (fst st \<noteq> 0 \<longrightarrow> fst (fold level_step ls st) \<noteq> 0 \<and> fst (fold level_step ls st) \<le> fst st)
    \<and> list_all (no_higher (fst (fold level_step ls st))) ls"
  using assms
proof (induction ls arbitrary: st)
  case (Cons l ls)
  let ?st = "level_step l st"
  have st: "fst ?st \<le> 2" "fst st \<noteq> 0 \<longrightarrow> fst ?st \<noteq> 0 \<and> fst ?st \<le> fst st"
    "\<And>k. markdownHeadingLevel l = Some k \<Longrightarrow> k \<le> 2 \<Longrightarrow> fst ?st \<noteq> 0 \<and> fst ?st \<le> k"
    using Cons.prems heading_level_pos [of l] by (auto simp: level_step_def split: option.splits)
  note ih = Cons.IH [OF st(1)]
  have "fst (fold level_step ls ?st) \<le> k" if "markdownHeadingLevel l = Some k" for k
    using st(3) [OF that] ih by (cases "k \<le> 2") auto
  then have "no_higher (fst (fold level_step ls ?st)) l" by (simp add: no_higher_def split: option.split)
  then show ?case using ih st by auto
qed simp

text \<open>
  A Markdown block is shown whole or cut into sections at its headings of one level: the lines of
  the sections are the lines of the block in their order, every section after the first begins with
  such a heading and has no other one, no heading of the block has a higher rank, and the level is 1
  or 2.
\<close>

theorem sections_cut_at_headings:
  "splitMarkdownIntoTopLevelSections content = [content]
   \<or> (\<exists>m groups. splitMarkdownIntoTopLevelSections content = map (\<lambda>g. trim_space (join lf g)) groups
       \<and> concat groups = split_on (CHR 0x0A) content \<and> length groups \<ge> 2 \<and> m \<in> {1, 2}
       \<and> list_all (\<lambda>g. markdownHeadingLevel (hd g) = Some m) (tl groups)
       \<and> list_all (\<lambda>g. g \<noteq> [] \<and> list_all (\<lambda>l. markdownHeadingLevel l \<noteq> Some m) (tl g)) groups
       \<and> list_all (no_higher m) (split_on (CHR 0x0A) content))"
proof (cases "splitMarkdownIntoTopLevelSections content = [content]")
  case False
  let ?ls = "split_on (CHR 0x0A) content"
  let ?m = "fst (fold level_step ?ls (0, 0))"
  let ?g = "section_groups ?m [] ?ls"
  have f: "?m \<noteq> 0" "length ?g \<ge> 2"
    "splitMarkdownIntoTopLevelSections content = map (\<lambda>g. trim_space (join lf g)) ?g"
    using False by (auto simp: splitMarkdownIntoTopLevelSections_def Let_def split: if_splits)
  moreover have "concat ?g = ?ls" by (simp add: section_groups_concat)
  moreover have "?m \<in> {1, 2}" "list_all (no_higher ?m) ?ls"
    using level_scan [of "(0, 0)" ?ls] f(1) by auto
  ultimately show ?thesis using section_groups_heads [of ?m "[]" ?ls] by auto
qed simp

section \<open>The links of the table of contents\<close>

definition same_block :: "report_block \<Rightarrow> report_block \<Rightarrow> bool" where
  "same_block b c \<longleftrightarrow> rb_ID b = rb_ID c \<and> rb_Kind b = rb_Kind c \<and> rb_Title b = rb_Title c"

lemma split_unit_blocks: "v \<in> set (splitRenderUnitSections u) \<Longrightarrow> same_block (ru_Block v) (ru_Block u)"
  by (auto simp: splitRenderUnitSections_def same_block_def split: if_splits list.splits)

lemma split_unit_nonempty [simp]: "splitRenderUnitSections u \<noteq> []"
  by (auto simp: splitRenderUnitSections_def split: list.split)

lemma same_block_title: "same_block b c \<Longrightarrow> isTitleBlock b = isTitleBlock c"
  by (simp add: same_block_def isTitleBlock_def kind_is_def)

definition shown :: "reportRenderUnit list \<Rightarrow> reportRenderUnit list" where
  "shown us = filter (\<lambda>u. \<not> isTitleBlock (ru_Block u)) us"

lemma shown_split: "shown (splitRenderUnitSections u) =
  (if isTitleBlock (ru_Block u) then [] else splitRenderUnitSections u)"
proof -
  have "isTitleBlock (ru_Block v) = isTitleBlock (ru_Block u)" if "v \<in> set (splitRenderUnitSections u)" for v
    by (rule same_block_title [OF split_unit_blocks [OF that]])
  then show ?thesis by (simp add: shown_def filter_empty_conv filter_id_conv)
qed

lemma shown_append [simp]: "shown (us @ vs) = shown us @ shown vs"
  by (simp add: shown_def)

text \<open>An entry of the table of contents: the section it points to and where its title is from.\<close>

definition item_of :: "string \<Rightarrow> nat \<Rightarrow> reportRenderUnit list \<Rightarrow> reportTOCItem \<Rightarrow> nat \<Rightarrow> bool" where
  "item_of t n secs it k \<longleftrightarrow> k < length secs \<and> toc_Anchor it = section_id (n + k + 1) \<and> toc_Title it \<noteq> []
     \<and> toc_Title it \<in> {trim_space (rb_Title (ru_Block (secs ! k))), documentTOCTitle (ru_Block (secs ! k)) t}"

lemma item_of_later: "item_of t (n + length xs) secs it k \<Longrightarrow> item_of t n (xs @ secs) it (length xs + k)"
  by (auto simp: item_of_def nth_append add.assoc)

lemma item_of_earlier: "item_of t n secs it k \<Longrightarrow> item_of t n (secs @ xs) it k"
  by (auto simp: item_of_def nth_append)

definition items_of :: "string \<Rightarrow> nat \<Rightarrow> reportRenderUnit list \<Rightarrow> reportTOCItem list \<Rightarrow> nat list \<Rightarrow> bool" where
  "items_of t n secs items ks \<longleftrightarrow> sorted_wrt (<) ks \<and> list_all2 (item_of t n secs) items ks"

lemma items_of_append:
  assumes "items_of t n xs is ks" "items_of t (n + length xs) ys js ls"
  shows "items_of t n (xs @ ys) (is @ js) (ks @ map ((+) (length xs)) ls)"
proof -
  have "k < length xs" if "k \<in> set ks" for k
    using assms(1) that by (auto simp: items_of_def list_all2_conv_all_nth in_set_conv_nth item_of_def)
  moreover have "list_all2 (item_of t n (xs @ ys)) is ks"
    using assms(1) unfolding items_of_def by (auto elim: list_all2_mono intro: item_of_earlier)
  moreover have "list_all2 (item_of t n (xs @ ys)) js (map ((+) (length xs)) ls)"
    using assms(2) unfolding items_of_def list_all2_map2
    by (auto elim!: list_all2_mono intro: item_of_later)
  moreover have "sorted_wrt (<) (map ((+) (length xs)) ls)"
    using assms(2) by (simp add: items_of_def sorted_wrt_map)
  ultimately show ?thesis using assms(1)
    by (fastforce simp: items_of_def sorted_wrt_append intro: list_all2_appendI)
qed

lemma section_items_of: "\<exists>ks. items_of t n us (section_items t n us) ks"
proof (induction t n us rule: section_items.induct)
  case (1 t n)
  have "items_of t n [] [] []" by (simp add: items_of_def)
  then show ?case by auto
next
  case (2 t n u us)
  then obtain ks where ks: "items_of t (n + 1) us (section_items t (n + 1) us) ks" by auto
  let ?title = "documentTOCTitle (ru_Block u) t"
  let ?here = "if ?title = [] then [] else [\<lparr>toc_Anchor = section_id (n + 1), toc_Title = ?title\<rparr>]"
  have "items_of t n [u] ?here (if ?title = [] then [] else [0])"
    by (simp add: items_of_def item_of_def)
  from items_of_append [OF this] ks show ?case by (fastforce simp: Let_def)
qed

lemma toc_items_of: "\<exists>ks. items_of t n (shown (concat (map splitRenderUnitSections us))) (toc_items t n us) ks"
proof (induction t n us rule: toc_items.induct)
  case (1 t n)
  have "items_of t n [] [] []" by (simp add: items_of_def)
  then show ?case by (auto simp: shown_def)
next
  case (2 t n u us)
  let ?sp = "splitRenderUnitSections u" and ?title = "structuredBlockTOCTitle (ru_Block u) t"
  let ?rest = "shown (concat (map splitRenderUnitSections us))"
  show ?case
  proof (cases "isTitleBlock (ru_Block u)")
    case True
    then show ?thesis using 2(1) [OF refl refl] by (simp add: shown_split)
  next
    case False
    then obtain ks where ks: "items_of t (n + length ?sp) ?rest (toc_items t (n + length ?sp) us) ks"
      using 2(2,3) by (cases "?title = []") auto
    obtain v vs where sp: "?sp = v # vs" by (cases ?sp) auto
    have here: "\<exists>js. items_of t n ?sp (if ?title \<noteq> []
        then [\<lparr>toc_Anchor = section_id (n + 1), toc_Title = ?title\<rparr>] else section_items t n ?sp) js"
    proof (cases "?title = []")
      case True
      then show ?thesis using section_items_of by simp
    next
      case title: False
      then have "?title = trim_space (rb_Title (ru_Block u))"
        by (auto simp: structuredBlockTOCTitle_def Let_def split: if_splits option.splits prod.splits)
      moreover have "rb_Title (ru_Block v) = rb_Title (ru_Block u)"
        using split_unit_blocks [of v u] sp by (simp add: same_block_def)
      ultimately have "items_of t n ?sp [\<lparr>toc_Anchor = section_id (n + 1), toc_Title = ?title\<rparr>] [0]"
        using title sp by (simp add: items_of_def item_of_def)
      then show ?thesis using title by auto
    qed
    then obtain js where js: "items_of t n ?sp (if ?title \<noteq> []
        then [\<lparr>toc_Anchor = section_id (n + 1), toc_Title = ?title\<rparr>] else section_items t n ?sp) js" by blast
    have "toc_items t n (u # us) = (if ?title \<noteq> []
        then [\<lparr>toc_Anchor = section_id (n + 1), toc_Title = ?title\<rparr>] else section_items t n ?sp)
        @ toc_items t (n + length ?sp) us"
      using False by (simp add: Let_def)
    moreover have "shown (concat (map splitRenderUnitSections (u # us))) = ?sp @ ?rest"
      using False by (simp add: shown_split)
    ultimately show ?thesis using items_of_append [OF js ks] by metis
  qed
qed

lemma section_id_inject [simp]: "section_id m = section_id n \<longleftrightarrow> m = n"
  by (simp add: section_id_def itoa_def itoa_nat_inject)

lemma contains_parts: "contains s p \<Longrightarrow> contains (a @ s @ b) p"
  by (simp add: contains_sublist) (metis sublist_append_leftI sublist_append_rightI sublist_order.order_trans)

lemma contains_left: "contains a p \<Longrightarrow> contains (a @ b) p"
  using contains_parts [of a p "[]" b] by simp

lemma contains_right: "contains b p \<Longrightarrow> contains (a @ b) p"
  using contains_parts [of b p a "[]"] by simp

lemma contains_mid: "contains (a @ p @ b) p"
  by (simp add: contains_sublist)

definition id_attr :: "nat \<Rightarrow> string" where
  "id_attr n = ''id=\"'' @ section_id n @ [CHR 0x22]"

lemma block_has_id: "contains (renderReportBlockHTML d b n charts ats) (id_attr n)"
proof -
  have i: "contains (pre @ ''id=\"section-'' @ itoa (int n) @ ''\">'' @ post) (id_attr n)" for pre post
    using contains_mid [of pre "id_attr n" "CHR ''>'' # post"] by (simp add: id_attr_def section_id_def)
  have "contains (renderMarkdownBlockHTML d b n charts x) (id_attr n)"
    "contains (renderHTMLBlock d b n charts x) (id_attr n)"
    "contains (renderChartBlockHTML d b n charts) (id_attr n)" for x
    using i [of "lf @ tabs 3 @ ''<div class=\"section\" ''"] i [of "lf @ tabs 2 @ ''<div class=\"section html-block\" ''"]
      i [of "lf @ tabs 2 @ ''<div class=\"section chart-block\" ''"]
    by (simp_all add: renderMarkdownBlockHTML_def renderHTMLBlock_def renderChartBlockHTML_def del: contains.simps)
  then show ?thesis by (simp add: renderReportBlockHTML_def Let_def)
qed

lemma body_has_ids:
  "k < length (shown us) \<Longrightarrow> contains (render_body d charts lastID opened n us) (id_attr (n + k + 1))"
proof (induction d charts lastID opened n us arbitrary: k rule: render_body.induct)
  case (2 d charts lastID opened n u us)
  show ?case
  proof (cases "isTitleBlock (ru_Block u)")
    case True
    then show ?thesis using 2 by (simp add: shown_def)
  next
    case False
    then have len: "length (shown (u # us)) = Suc (length (shown us))" by (simp add: shown_def)
    let ?r = "renderReportBlockHTML d (ru_Block u) (n + 1) charts (ru_AttachedCharts u)"
    show ?thesis
    proof (cases k)
      case 0
      have "\<exists>pre post. render_body d charts lastID opened n (u # us) = pre @ ?r @ post"
      proof (cases "rb_ID (ru_Block u) = lastID")
        case True
        then have "render_body d charts lastID opened n (u # us)
            = [] @ ?r @ render_body d charts lastID opened (n + 1) us"
          using False by (simp add: Let_def)
        then show ?thesis by blast
      next
        case new: False
        then have "render_body d charts lastID opened n (u # us)
            = ((if opened then wrapper_close else []) @ wrapper_open (ru_Block u)) @ ?r
              @ render_body d charts (rb_ID (ru_Block u)) True (n + 1) us"
          using False by (simp add: Let_def)
        then show ?thesis by blast
      qed
      then show ?thesis
        using 0 contains_parts [OF block_has_id [of d "ru_Block u" "n + 1" charts "ru_AttachedCharts u"]]
        by (metis add.right_neutral)
    next
      case (Suc j)
      then have "contains (render_body d charts (rb_ID (ru_Block u)) True (n + 1) us) (id_attr (n + 1 + j + 1))"
        if "rb_ID (ru_Block u) \<noteq> lastID"
        using 2(2) [OF refl False that, of j] 2(4) len by simp
      moreover have "contains (render_body d charts lastID opened (n + 1) us) (id_attr (n + 1 + j + 1))"
        if "rb_ID (ru_Block u) = lastID"
        using 2(3) [OF refl False, of j] that 2(4) len Suc by simp
      ultimately have rest: "contains (if rb_ID (ru_Block u) = lastID
            then render_body d charts lastID opened (n + 1) us
            else render_body d charts (rb_ID (ru_Block u)) True (n + 1) us) (id_attr (n + 1 + j + 1))"
        by (cases "rb_ID (ru_Block u) = lastID") (simp_all only: if_True if_False simp_thms)
      have "\<exists>pre. render_body d charts lastID opened n (u # us)
          = pre @ (if rb_ID (ru_Block u) = lastID then render_body d charts lastID opened (n + 1) us
                   else render_body d charts (rb_ID (ru_Block u)) True (n + 1) us)"
      proof (cases "rb_ID (ru_Block u) = lastID")
        case True
        with False have "render_body d charts lastID opened n (u # us)
            = ?r @ render_body d charts lastID opened (n + 1) us" by (simp add: Let_def)
        with True show ?thesis by (intro exI [of _ ?r]) simp
      next
        case new: False
        with False have "render_body d charts lastID opened n (u # us)
            = ((if opened then wrapper_close else []) @ wrapper_open (ru_Block u) @ ?r)
              @ render_body d charts (rb_ID (ru_Block u)) True (n + 1) us" by (simp add: Let_def)
        with new show ?thesis by (simp only: if_False) blast
      qed
      then obtain pre where pre: "render_body d charts lastID opened n (u # us)
          = pre @ (if rb_ID (ru_Block u) = lastID then render_body d charts lastID opened (n + 1) us
                   else render_body d charts (rb_ID (ru_Block u)) True (n + 1) us)" by blast
      have "id_attr (n + k + 1) = id_attr (n + 1 + j + 1)" using Suc by simp
      then show ?thesis unfolding pre using contains_right [OF rest] by simp
    qed
  qed
qed (simp add: shown_def)

text \<open>
  C21. Every link of the table of contents leads somewhere: its anchors are pairwise different, and for
  each entry the body of the page has an element with that id, which is the section of the entry (the
  title of the entry is the title of the section's block or its heading).
\<close>

theorem toc_links_resolve:
  "let title = trim_space (if t0 = [] then FinalTitle st else t0);
       items = buildReportTOCItems (Blocks st) title;
       secs = shown (buildRenderUnits (Blocks st) title);
       page = RenderReportHTML d t0 a0 (Some st)
   in distinct (map toc_Anchor items)
      \<and> (\<exists>ks. list_all2 (\<lambda>it k. item_of title 0 secs it k
                 \<and> contains (pg_Body page) (''id=\"'' @ toc_Anchor it @ [CHR 0x22])) items ks)"
proof -
  define title where "title = trim_space (if t0 = [] then FinalTitle st else t0)"
  define items where "items = buildReportTOCItems (Blocks st) title"
  define secs where "secs = shown (buildRenderUnits (Blocks st) title)"
  obtain ks where ks: "sorted_wrt (<) ks" "list_all2 (item_of title 0 secs) items ks"
    using toc_items_of [of title 0 "buildBaseRenderUnits (Blocks st) title"]
    by (auto simp: items_of_def items_def secs_def buildReportTOCItems_def buildRenderUnits_def)
  have body: "contains (pg_Body (RenderReportHTML d t0 a0 (Some st))) (id_attr (k + 1))" if "k < length secs" for k
    using body_has_ids [of k "buildRenderUnits (Blocks st) title" d "Charts st" "[]" False 0] that
    by (simp add: RenderReportHTML_def Let_def title_def secs_def)
  have "map toc_Anchor items = map (\<lambda>k. section_id (k + 1)) ks"
    using ks(2) by (auto simp: list_all2_conv_all_nth item_of_def intro: nth_equalityI)
  moreover have "distinct ks" using ks(1) by (simp add: strict_sorted_iff)
  ultimately have d: "distinct (map toc_Anchor items)" by (simp add: distinct_map inj_on_def)
  have "list_all2 (\<lambda>it k. item_of title 0 secs it k
      \<and> contains (pg_Body (RenderReportHTML d t0 a0 (Some st))) (''id=\"'' @ toc_Anchor it @ [CHR 0x22])) items ks"
    using ks(2) body by (auto elim!: list_all2_mono simp: item_of_def id_attr_def simp del: contains.simps)
  with d show ?thesis unfolding Let_def title_def items_def secs_def by blast
qed

section \<open>One wrapper per block\<close>

fun sections_html :: "html_deps \<Rightarrow> chart_data list \<Rightarrow> nat \<Rightarrow> reportRenderUnit list \<Rightarrow> string" where
  "sections_html d charts n [] = []"
| "sections_html d charts n (v # vs) =
     renderReportBlockHTML d (ru_Block v) (n + 1) charts (ru_AttachedCharts v) @ sections_html d charts (n + 1) vs"

fun wrapped_blocks :: "html_deps \<Rightarrow> chart_data list \<Rightarrow> nat \<Rightarrow> reportRenderUnit list \<Rightarrow> string" where
  "wrapped_blocks d charts n [] = []"
| "wrapped_blocks d charts n (u # us) =
     (if isTitleBlock (ru_Block u) then wrapped_blocks d charts n us
      else wrapper_open (ru_Block (hd (splitRenderUnitSections u)))
           @ sections_html d charts n (splitRenderUnitSections u) @ wrapper_close
           @ wrapped_blocks d charts (n + length (splitRenderUnitSections u)) us)"

lemma body_titles: "shown vs = [] \<Longrightarrow> render_body d charts l b n (vs @ us) = render_body d charts l b n us"
  by (induction vs) (auto simp: shown_def split: if_splits)

lemma body_same_block:
  "list_all (\<lambda>v. rb_ID (ru_Block v) = l \<and> \<not> isTitleBlock (ru_Block v)) vs \<Longrightarrow>
   render_body d charts l b n (vs @ us)
     = sections_html d charts n vs @ render_body d charts l b (n + length vs) us"
  by (induction vs arbitrary: n) auto

lemma body_by_blocks:
  "distinct (map (\<lambda>u. rb_ID (ru_Block u)) us) \<Longrightarrow> l \<notin> set (map (\<lambda>u. rb_ID (ru_Block u)) us) \<Longrightarrow>
   render_body d charts l b n (concat (map splitRenderUnitSections us))
     = (if b then wrapper_close else []) @ wrapped_blocks d charts n us"
proof (induction us arbitrary: l b n)
  case (Cons u us)
  let ?sp = "splitRenderUnitSections u"
  show ?case
  proof (cases "isTitleBlock (ru_Block u)")
    case True
    then have "shown ?sp = []" by (simp add: shown_split)
    with True Cons show ?thesis by (simp add: body_titles)
  next
    case False
    obtain v vs where sp: "?sp = v # vs" by (cases ?sp) auto
    have same: "rb_ID (ru_Block w) = rb_ID (ru_Block u) \<and> \<not> isTitleBlock (ru_Block w)" if "w \<in> set ?sp" for w
      using split_unit_blocks [OF that] same_block_title [OF split_unit_blocks [OF that]] False
      by (simp add: same_block_def)
    have "list_all (\<lambda>v. rb_ID (ru_Block v) = rb_ID (ru_Block u) \<and> \<not> isTitleBlock (ru_Block v)) vs"
      unfolding list_all_iff by (intro ballI) (rule same, simp add: sp)
    note rest = body_same_block [OF this]
    have ih: "render_body d charts (rb_ID (ru_Block u)) True m (concat (map splitRenderUnitSections us))
        = wrapper_close @ wrapped_blocks d charts m us" for m
      using Cons.IH [of "rb_ID (ru_Block u)" True m] Cons.prems(1) by simp
    have v: "rb_ID (ru_Block v) = rb_ID (ru_Block u)" "\<not> isTitleBlock (ru_Block v)"
      using same [of v] sp by simp_all
    have l: "rb_ID (ru_Block u) \<noteq> l" using Cons.prems(2) by auto
    have body: "render_body d charts l b n (concat (map splitRenderUnitSections (u # us)))
        = (if b then wrapper_close else []) @ wrapper_open (ru_Block v)
          @ renderReportBlockHTML d (ru_Block v) (n + 1) charts (ru_AttachedCharts v)
          @ render_body d charts (rb_ID (ru_Block u)) True (n + 1) (vs @ concat (map splitRenderUnitSections us))"
      using v l by (simp add: sp Let_def)
    show ?thesis unfolding body rest ih using False by (simp add: sp)
  qed
qed simp

lemma subseq_distinct_lemma: "subseq xs ys \<Longrightarrow> distinct ys \<Longrightarrow> distinct xs"
  by (induction rule: list_emb.induct) (auto dest: list_emb_set)

text \<open>
  C22. In a report with the invariant of its blocks (unique, non-empty ids) the body of the page has one
  wrapper per block that is shown, opened and closed around exactly the sections of that block.
\<close>

theorem body_wraps_each_block_once:
  assumes "blocks_inv st"
  shows "pg_Body (RenderReportHTML d t0 a0 (Some st))
    = wrapped_blocks d (Charts st) 0
        (buildBaseRenderUnits (Blocks st) (trim_space (if t0 = [] then FinalTitle st else t0)))"
proof -
  let ?t = "trim_space (if t0 = [] then FinalTitle st else t0)"
  let ?us = "buildBaseRenderUnits (Blocks st) ?t"
  have sub: "subseq (map (\<lambda>u. rb_ID (ru_Block u)) ?us) (map rb_ID (Blocks st))"
    using subseq_map [OF base_units_order, of rb_ID "normalizeReportBlocksForRendering (Blocks st) ?t"]
    by (simp add: buildBaseRenderUnits_def normalize_keeps comp_def)
  have "distinct (map rb_ID (Blocks st))" "[] \<notin> set (map rb_ID (Blocks st))"
    using assms by (auto simp: blocks_inv_def list_all_iff block_ok_def)
  moreover have "set (map (\<lambda>u. rb_ID (ru_Block u)) ?us) \<subseteq> set (map rb_ID (Blocks st))"
    using list_emb_set [OF sub] by blast
  ultimately have "distinct (map (\<lambda>u. rb_ID (ru_Block u)) ?us)"
    "[] \<notin> set (map (\<lambda>u. rb_ID (ru_Block u)) ?us)"
    using subseq_distinct_lemma [OF sub] by blast+
  from body_by_blocks [OF this, of d "Charts st" False 0] show ?thesis
    by (simp add: RenderReportHTML_def Let_def buildRenderUnits_def)
qed

definition two_blocks :: report_state where
  "two_blocks = empty_report\<lparr>Blocks := [sample_block ''a'' ''x'', sample_block ''b'' ''y'']\<rparr>"

theorem body_wraps_each_block_once_witness:
  "blocks_inv two_blocks
   \<and> pg_Body (RenderReportHTML plain_deps ''T'' [] (Some two_blocks))
      = wrapped_blocks plain_deps [] 0 (buildBaseRenderUnits (Blocks two_blocks) (trim_space ''T''))"
proof -
  have i: "blocks_inv two_blocks"
    by (simp add: two_blocks_def blocks_inv_def block_ok_def sample_block_def trim_eval)
  have "Charts two_blocks = []" by (simp add: two_blocks_def empty_report_def)
  with body_wraps_each_block_once [OF i, of plain_deps "''T''" "[]"] i show ?thesis by simp
qed

text \<open>
  The ids of chart containers are counted within one content: two blocks that show the same chart have
  containers with the same id.
\<close>

lemma container_id_repeated:
  assumes "cd_ID ch = ''c''"
  shows "processContent d [ch] ''{{chart:c}}'' = chart_container d ch 1 @ lf"
  using assms by (simp add: processContent_def markdownToHTML_def md_line_def trim_space_plain plain_head_def
      plain_last_def ws_seqs_def expand_charts.simps(2) word_char_def is_digit_def)

end
