(* ===== verification/Spec2Isabelle.thy ===== *)
theory Spec2Isabelle
  imports Ws_Handler Source_Profiles Llm_Client Report_Render
begin

text \<open>
  A verification development of the server of an open data analysis agent
  (\<^verbatim>\<open>src/server\<close>, Go). A user talks to a session; a session owns an agent engine that lets a
  language model call tools in a loop; the tools read data, keep facts and goals, and write a
  report made of blocks and charts; a report is delivered once it passes its checks, and is shown
  as a page. Files and data sources are imported into the session's database; runs, messages,
  users and sources are kept in repositories.

  \<^bold>\<open>Theories and the code they model\<close>

  \<^item> \<^verbatim>\<open>Go_Prelude\<close>, \<^verbatim>\<open>Go_Utf8\<close>: what the code uses of Go. A Go string is the list of its bytes;
    the functions of \<^verbatim>\<open>strings\<close> and \<^verbatim>\<open>strconv\<close> and the decoding of UTF-8 into runes are written out
    on bytes. The interfaces \<^verbatim>\<open>machine\<close> (a step function with an invariant), \<^verbatim>\<open>normaliser\<close> and
    \<^verbatim>\<open>subgoal_checker\<close> (the Go interface \<^verbatim>\<open>SubgoalChecker\<close>) are locales.
  \<^item> \<^verbatim>\<open>Agent_Types\<close>: \<^verbatim>\<open>agent/types.go\<close>, the event envelope and the event names.
  \<^item> \<^verbatim>\<open>Working_Memory\<close>, \<^verbatim>\<open>Subgoals\<close>: \<^verbatim>\<open>agent/memory.go\<close>, \<^verbatim>\<open>agent/goal_facts.go\<close> and the tools
    \<^verbatim>\<open>memory_save_fact\<close>, \<^verbatim>\<open>state_memory_inspect\<close>, \<^verbatim>\<open>goal_manage\<close>, \<^verbatim>\<open>state_goal_inspect\<close>.
  \<^item> \<^verbatim>\<open>Report_State\<close>, \<^verbatim>\<open>Report_Scope\<close>, \<^verbatim>\<open>Report_Blocks\<close>, \<^verbatim>\<open>Report_Charts\<close>, \<^verbatim>\<open>Report_Finalize\<close>: the
    report record, the edit scope with its guards, the mutations of blocks, charts and layout, the
    structural and semantic checks and the report tools (\<^verbatim>\<open>tools/report_*.go\<close>, \<^verbatim>\<open>tools/chart.go\<close>).
  \<^item> \<^verbatim>\<open>Report_Html\<close>, \<^verbatim>\<open>Report_Sanitize\<close>, \<^verbatim>\<open>Report_Render\<close>: \<^verbatim>\<open>tools/report_html.go\<close>. Escaping, Markdown
    and chart containers; the sanitizers of class names, style sheets, links and HTML trees; the
    render units, the table of contents and the body of the page.
  \<^item> \<^verbatim>\<open>Agent_History\<close>, \<^verbatim>\<open>Agent_Engine\<close>, \<^verbatim>\<open>Delegate_Agent\<close>: \<^verbatim>\<open>agent/engine.go\<close>, \<^verbatim>\<open>agent/stringutil.go\<close>,
    \<^verbatim>\<open>agent/html_sanitize.go\<close> and \<^verbatim>\<open>agent/worker.go\<close>: compaction of the conversation, the answer to a
    pending question, the retry of tools, the main loop \<^verbatim>\<open>Engine.Run\<close>, and the sub-agents that
    \<^verbatim>\<open>task_delegate\<close> runs with the calls of their persistence.
  \<^item> \<^verbatim>\<open>Llm_Messages\<close>, \<^verbatim>\<open>Run_Requests\<close>, \<^verbatim>\<open>Llm_Client\<close>: \<^verbatim>\<open>agent/llm.go\<close>. The requests of the Chat
    Completions, Responses and Anthropic formats; every request of a run of the engine; endpoints,
    answers, event streams and retries.
  \<^item> \<^verbatim>\<open>Tool_Registry\<close>, \<^verbatim>\<open>Session_Tools\<close>: \<^verbatim>\<open>tools/registry.go\<close> and the registry that \<^verbatim>\<open>session.New\<close>
    builds; the modelled tools as registry entries over one shared tool state.
  \<^item> \<^verbatim>\<open>Session_Run\<close>, \<^verbatim>\<open>Session_Manager\<close>: \<^verbatim>\<open>session/types.go\<close>, \<^verbatim>\<open>session/manager.go\<close> and
    \<^verbatim>\<open>session/cleanup.go\<close>: the life cycle of runs as a step relation, the table of sessions and its
    cleanup.
  \<^item> \<^verbatim>\<open>Run_Hooks\<close>, \<^verbatim>\<open>Run_Store\<close>, \<^verbatim>\<open>Run_Restore\<close>, \<^verbatim>\<open>Ws_Handler\<close>: \<^verbatim>\<open>handler/runtime_hooks.go\<close>,
    \<^verbatim>\<open>handler/ws.go\<close>, \<^verbatim>\<open>handler/runtime_state.go\<close>, \<^verbatim>\<open>handler/session_runtime.go\<close> and the run and message
    repositories: what the events of a run do, how runs and messages are stored, what is restored
    from them after a restart, and the messages of a client of the WebSocket.
  \<^item> \<^verbatim>\<open>Auth\<close>, \<^verbatim>\<open>File_Service\<close>: tokens, the middleware and login (\<^verbatim>\<open>auth/\<close>, \<^verbatim>\<open>handler/auth.go\<close>); object
    keys, the local storage and the file service (\<^verbatim>\<open>storage/local\<close>, \<^verbatim>\<open>service/file_service.go\<close>).
  \<^item> \<^verbatim>\<open>Sql_Guard\<close>, \<^verbatim>\<open>Time_Columns\<close>, \<^verbatim>\<open>Csv_Reader\<close>, \<^verbatim>\<open>Ingestion\<close>, \<^verbatim>\<open>Table_Metadata\<close>: \<^verbatim>\<open>data/schema.go\<close>,
    \<^verbatim>\<open>data/ingester.go\<close>, \<^verbatim>\<open>data/analyzer.go\<close>: the read-only guard for SQL, time columns, the import of
    CSV and Excel files, and the metadata of tables with their analysis in the background.
  \<^item> \<^verbatim>\<open>Source_Service\<close>, \<^verbatim>\<open>Profile_Facts\<close>, \<^verbatim>\<open>Source_Profiles\<close>: \<^verbatim>\<open>service/source_service.go\<close> and its
    repositories: data sources, snapshots, bindings to sessions, proposed facts and confirmed
    profiles.

  \<^bold>\<open>How code becomes definitions\<close>

  A struct is a record, a tagged error a datatype, a Go pair \<^verbatim>\<open>(value, error)\<close> a sum with the error
  text on the left; the state after an error is returned as well, because the code may change it
  before it fails. A pointer that may be nil is an option. A map is an association list where
  its size or its printing matters and a function otherwise; a database table is the list of its
  rows with the keys and foreign keys of its schema. Locks are not modelled: each operation holds
  its lock from beginning to end, so an interleaving is a sequence of operations. The clock,
  generated UUIDs and everything outside this repository (the JSON decoder and encoder, the HTML
  parser and unescaper, the model endpoint, keyed and password hashes) are parameters. Decoded
  arguments enter as values of the argument record, or as the decoder's error; tool answers are the
  maps that the code marshals. Case mapping is modelled for ASCII, the only letters that occur in
  the constants the code compares with. Regular expressions are matchers on bytes.

  \<^bold>\<open>Loops and fuel\<close>

  The engine loop ends by its own bound of 50 iterations, which is its termination measure.
  The goal search of \<^verbatim>\<open>CanFinalize\<close> recurses over children by id without a cycle check; it runs
  with one unit of fuel per goal and one more, which is enough whenever no id has two parents
  (\<^verbatim>\<open>can_finalize_terminates\<close>), and \<^verbatim>\<open>duplicate_goal_id_diverges\<close> shows a list on which no fuel is
  enough. The recovery of stale runs recurses over the tree of runs; its fuel is shown to suffice for
  every table whose parents come first, which all operations keep. \<^verbatim>\<open>WaitUntilIdle\<close> polls a bounded
  number of times.

  \<^bold>\<open>What is shown\<close>

  Each component has an invariant that all its operations keep (bounds of memory, goals and
  layout, unique block ids, one live run, ownership of sessions, foreign keys of the tables) and a
  description of each operation on every branch. Edits under a scope leave everything outside it
  alone. Delivery of a report implies its checks. Rendering loses no block, its table of contents
  links to existing sections, and sanitized HTML holds allowed elements and links only. A run of the
  engine ends with exactly one terminal event, asks the model a bounded number of times, sends
  only requests whose tool results answer calls, and answers every tool call it continues after.
  The stored runs refine a map; what a run saved is restored after a restart. Imports are complete
  or leave nothing. The SQL guard accepts single reading statements only. The root theory joins
  them: a run with the session's own tools, sub-agents included, keeps every invariant, only
  \<^verbatim>\<open>report_finalize\<close> delivers, and one status is recorded for the run. Lemmas next to the
  definitions that name a surprising input show where the code departs from its intention.

  \<^bold>\<open>Not modelled\<close>

  The Vue client and the Python executor are other programs. The HTTP handlers besides login parse
  requests and write responses around modelled operations. The import from Postgres and the other
  SQL statements, object storage services, the MCP client, configuration, debug traces and process
  start-up are input and output. The constant style sheet and frame of the report page carry no
  logic. HTML parsing and printing, JSON, Excel files and hashes are other packages.
\<close>

section \<open>Properties that span components\<close>


text \<open>An environment whose model stores a fact, then stops.\<close>

definition calm_env :: "tool_world engine_env" where
  "calm_env =
     \<lparr>env_llm = \<lambda>w b k. (Inr \<lparr>lr_Choices = [\<lparr>lc_Message = \<lparr>lm_Role = ''assistant'', lm_Content = ''done'',
          lm_ReasoningContent = [], lm_ToolCalls = []\<rparr>, lc_FinishReason = ''stop''\<rparr>],
          lr_PromptTokens = 10, lr_CompletionTokens = 1\<rparr>, w),
      env_tool = \<lambda>w n a. ((a, None, []), w), env_done = \<lambda>w. (False, w), env_sleep = \<lambda>w n. (False, w),
      env_ctx_error = \<lambda>w. ''context canceled'', env_elapsed = \<lambda>w. 0, env_vars = None,
      env_ask = \<lambda>a. Inl ''bad'', env_quote = \<lambda>a. a, env_codec = sample_codec\<rparr>"




text \<open>
  C2. A report is delivered by \<open>report_finalize\<close> and nothing else: if a call of any session tool, a
  delegated task included, turns a report that was not finalized into a finalized one, the call
  was \<open>report_finalize\<close>, no blocking root goal was open, the report had no structural defect (every
  referenced chart exists and is shown once, some block renders), no source had an unresolved
  semantic ambiguity, and the blocks and charts are the ones that were checked.
\<close>

theorem delivery_needs_finalize:
  assumes "Registry_Execute (nested_registry d dl n ctx allowed) name args w = Some (out, w')" "still_child dl"
    and "ds_IsFinalized (describeReportDeliveryStateLocked (tw_Report w'))"
    and "\<not> ds_IsFinalized (describeReportDeliveryStateLocked (tw_Report w))"
  shows "name = ''report_finalize''
    \<and> (\<forall>gs. tw_Goals w = Some gs \<longrightarrow> \<not> (\<exists>g. open_blocking_root gs g))
    \<and> reportFinalizeIssues (Some (tw_Report w)) = []
    \<and> semantic_issues (td_object d) (td_sources d) (td_profile d) = []
    \<and> Blocks (tw_Report w') = Blocks (tw_Report w) \<and> Charts (tw_Report w') = Charts (tw_Report w)"
proof -
  have plain: "Registry_Execute (session_registry d ctx allowed) name args w = Some (out, w')"
    using assms(1)
  proof (cases rule: nested_call)
    case delegate
    then obtain ops where
      "DelegateTask_Execute d dl (Some (session_registry d ctx)) None args w = ((out, w'), ops)"
      by (metis option.inject prod.collapse)
    from delegate_no_delivery [OF this assms(2,3)] assms(4) show ?thesis by blast
  qed
  then obtain t where t: "map_of (session_registry d ctx allowed) name = Some t" "tl_Execute t args w = Some (out, w')"
    using assms(3,4) by (auto simp: Registry_Execute_def Registry_Get_def split: option.splits)
  from session_tool_report [OF session_registry_range [OF t(1)] t(2)]
    assms(3,4) no_delivery_by_edits session_registry_names [OF t(1)]
  obtain r where n: "name = ''report_finalize''" and
    f: "FinalizeReport_Execute (td_object d) (td_sources d) (td_profile d)
      (map_option CanFinalize (tw_Goals w)) (tw_Report w) (td_final_args d args) = Some (r, tw_Report w')"
    by metis
  from finalize_delivers [OF f assms(3,4)] n show ?thesis
    by (auto simp: same_report_def dest: can_finalize_iff)
qed

theorem delivery_needs_finalize_witness:
  "\<exists>out w'. Registry_Execute (nested_registry sample_deps (quick_child []) 1 sample_world runtimeAllowed)
         ''report_finalize'' [] sample_world = Some (out, w')
     \<and> ds_IsFinalized (describeReportDeliveryStateLocked (tw_Report w'))
     \<and> \<not> ds_IsFinalized (describeReportDeliveryStateLocked (tw_Report sample_world))
     \<and> Blocks (tw_Report w') = Blocks (tw_Report sample_world)"
proof -
  let ?r = "nested_registry sample_deps (quick_child []) 1 sample_world runtimeAllowed"
  have e: "Registry_Execute ?r ''report_finalize'' [] sample_world
      = tl_Execute (FinalizeReportTool sample_deps) [] sample_world"
    by (simp add: nested_execute)
      (simp add: Registry_Execute_def Registry_Get_def session_finalize_tool)
  let ?st = "tw_Report sample_world"
  have i: "reportFinalizeIssues (Some ?st) = []" using sample_draft_ready by (simp add: sample_world_def)
  have f: "FinalizeReport_Execute (td_object sample_deps) (td_sources sample_deps) (td_profile sample_deps)
      (map_option CanFinalize (tw_Goals sample_world)) ?st (td_final_args sample_deps [])
    = Some (Inr (finalize_answer \<lparr>fr_ReportTitle = ''T'', fr_Author = [], fr_BlockCount = 1, fr_ChartCount = 0\<rparr>),
        ?st\<lparr>FinalTitle := ''T'', FinalAuthor := [], NeedsFinalize := False, FinalizeAttempts := 0,
             LastFinalizeIssueSignature := []\<rparr>)"
    using i by (simp add: FinalizeReport_Execute_def finalizeReportState_def semantic_issues_def sample_deps_def
        sample_world_def CanFinalize_def delivery_simps empty_report_def trim_eval Let_def)
  obtain out w' where c: "Registry_Execute ?r ''report_finalize'' [] sample_world = Some (out, w')"
    "ds_IsFinalized (describeReportDeliveryStateLocked (tw_Report w'))"
    unfolding e FinalizeReportTool_def mk_tool_def tool.simps f
    by (simp add: delivery_simps sample_world_def trim_eval)
  moreover have "\<not> ds_IsFinalized (describeReportDeliveryStateLocked (tw_Report sample_world))"
    by (simp add: delivery_simps sample_world_def)
  moreover have "still_child (quick_child [])" by (simp add: still_child_def still_def quick_child_def)
  ultimately show ?thesis using delivery_needs_finalize [OF c(1) _ c(2)] by blast
qed

end
